(* ===== verification/Prelude.thy ===== *)
theory Prelude
  imports Main "HOL-Library.Word" "HOL-Library.List_Lexorder" "HOL-Library.Multiset"
begin

text \<open>
  Shared vocabulary of the development: bytes and machine words, the error codes of
  \<^verbatim>\<open>include/aws/cryptosdk/error.h\<close> together with those of the common runtime that the
  library raises, results as sum values, and the big-endian integer encoding that every
  wire format of the library uses.
\<close>

named_theorems codec \<open>round-trip rules of the wire encodings\<close>
named_theorems lib_eqs \<open>equations of the common runtime under its contract\<close>

type_synonym byte = "8 word"
type_synonym bytes = "8 word list"

section \<open>Error codes and results\<close>

datatype error =
    AWS_ERROR_OOM
  | AWS_ERROR_SHORT_BUFFER
  | AWS_ERROR_DEST_COPY_TOO_SMALL
  | AWS_ERROR_OVERFLOW_DETECTED
  | AWS_ERROR_UNIMPLEMENTED
  | AWS_ERROR_INVALID_ARGUMENT
  | AWS_ERROR_INVALID_BUFFER_SIZE
  | AWS_ERROR_UNSUPPORTED_OPERATION
  | AWS_ERROR_UNKNOWN
  | AWS_CRYPTOSDK_ERR_BAD_CIPHERTEXT
  | AWS_CRYPTOSDK_ERR_RESERVED_NAME
  | AWS_CRYPTOSDK_ERR_UNSUPPORTED_FORMAT
  | AWS_CRYPTOSDK_ERR_KMS_FAILURE
  | AWS_CRYPTOSDK_ERR_BAD_STATE
  | AWS_CRYPTOSDK_ERR_LIMIT_EXCEEDED
  | AWS_CRYPTOSDK_ERR_CANNOT_DECRYPT
  | AWS_CRYPTOSDK_ERR_CRYPTO_UNKNOWN
  | AWS_CRYPTOSDK_ERR_COMMITMENT_POLICY_VIOLATION
  | AWS_CRYPTOSDK_ERR_DECRYPT_SIGNED_MESSAGE_NOT_ALLOWED
  | RAISED_MINUS_ONE
  | LAST_ERROR_UNCHANGED

text \<open>
  \<^const>\<open>RAISED_MINUS_ONE\<close> is the value \<^verbatim>\<open>-1\<close> used as an error code: a caller that raises the
  return value \<^verbatim>\<open>AWS_OP_ERR\<close> of a callee, instead of the callee's error, produces it.
  \<^const>\<open>LAST_ERROR_UNCHANGED\<close> stands for a failure that raises nothing: \<^verbatim>\<open>aws_last_error\<close> keeps the value
  that an earlier failure left in it.
\<close>

type_synonym 'a result = "error + 'a"

text \<open>The status an operation with side effects returns next to its new state.\<close>

type_synonym status = "error option"

abbreviation (input) AWS_OP_SUCCESS :: status where
  "AWS_OP_SUCCESS \<equiv> None"

abbreviation (input) AWS_OP_ERR :: "error \<Rightarrow> status" where
  "AWS_OP_ERR e \<equiv> Some e"

text \<open>
  A call that can end the process: \<^const>\<open>None\<close> is \<^verbatim>\<open>abort()\<close>, after which nothing is returned.
\<close>

type_synonym 'a run = "'a option"

definition bindE :: "'e + 'a \<Rightarrow> ('a \<Rightarrow> 'e + 'b) \<Rightarrow> 'e + 'b" where
  "bindE m f = (case m of Inl e \<Rightarrow> Inl e | Inr x \<Rightarrow> f x)"

definition orE :: "'a option \<Rightarrow> 'e \<Rightarrow> 'e + 'a" where
  "orE m e = (case m of None \<Rightarrow> Inl e | Some x \<Rightarrow> Inr x)"

definition guardE :: "bool \<Rightarrow> 'e \<Rightarrow> 'e + unit" where
  "guardE b e = (if b then Inr () else Inl e)"

lemma bindE_simps [simp]:
  "bindE (Inl e) f = Inl e" "bindE (Inr x) f = f x"
  by (simp_all add: bindE_def)

lemma orE_simps [simp]:
  "orE None e = Inl e" "orE (Some x) e = Inr x"
  by (simp_all add: orE_def)

lemma guardE_simps [simp]:
  "guardE True e = Inr ()" "guardE False e = Inl e"
  by (simp_all add: guardE_def)

lemma bindE_eq_Inr: "bindE m f = Inr y \<longleftrightarrow> (\<exists>x. m = Inr x \<and> f x = Inr y)"
  by (cases m) simp_all

lemma bindE_eq_Inl: "bindE m f = Inl e \<longleftrightarrow> m = Inl e \<or> (\<exists>x. m = Inr x \<and> f x = Inl e)"
  by (cases m) simp_all

lemma orE_eq_Inr: "orE m e = Inr x \<longleftrightarrow> m = Some x"
  by (cases m) simp_all

lemma orE_eq_Inl: "orE m e = Inl e' \<longleftrightarrow> m = None \<and> e' = e"
  by (cases m) auto

lemma guardE_eq_Inr: "guardE b e = Inr u \<longleftrightarrow> b"
  by (cases b) simp_all

lemma guardE_eq_Inl: "guardE b e = Inl e' \<longleftrightarrow> \<not> b \<and> e' = e"
  by (cases b) auto

lemmas result_eqs = bindE_eq_Inr bindE_eq_Inl orE_eq_Inr orE_eq_Inl guardE_eq_Inr guardE_eq_Inl

section \<open>Big-endian integers\<close>

fun be_nat :: "bytes \<Rightarrow> nat" where
  "be_nat [] = 0"
| "be_nat (b # bs) = unat b * 256 ^ length bs + be_nat bs"

fun nat_be :: "nat \<Rightarrow> nat \<Rightarrow> bytes" where
  "nat_be 0 m = []"
| "nat_be (Suc k) m = word_of_nat (m div 256 ^ k) # nat_be k m"

definition be_val :: "bytes \<Rightarrow> 'a::len word" where
  "be_val bs = word_of_nat (be_nat bs)"

definition be_bytes :: "nat \<Rightarrow> 'a::len word \<Rightarrow> bytes" where
  "be_bytes k w = nat_be k (unat w)"

lemma length_nat_be [simp]: "length (nat_be k m) = k"
  by (induction k) simp_all

lemma nat_be_numeral [simp]:
  "nat_be (numeral k) m = word_of_nat (m div 256 ^ pred_numeral k) # nat_be (pred_numeral k) m"
  by (simp add: numeral_eq_Suc)

lemma length_be_bytes [simp]: "length (be_bytes k w) = k"
  by (simp add: be_bytes_def)

lemma unat_byte_of_nat: "unat (word_of_nat m :: byte) = m mod 256"
  by (simp add: unat_of_nat)

lemma be_nat_nat_be: "be_nat (nat_be k m) = m mod 256 ^ k"
proof (induction k)
  case (Suc k)
  have "m mod 256 ^ Suc k = 256 ^ k * (m div 256 ^ k mod 256) + m mod 256 ^ k"
    by (metis mod_mult2_eq power_Suc2)
  then show ?case using Suc by (simp add: unat_byte_of_nat)
qed simp

lemma be_nat_less: "be_nat bs < 256 ^ length bs"
proof (induction bs)
  case (Cons b bs)
  have "unat b \<le> 255" using unsigned_less [of b, where 'a = nat] by simp
  then have "unat b * 256 ^ length bs \<le> 255 * 256 ^ length bs" by (rule mult_le_mono1)
  then show ?case using Cons unfolding be_nat.simps length_Cons power_Suc by linarith
qed simp

lemma nat_be_mod: "j \<le> k \<Longrightarrow> nat_be j (m mod 256 ^ k) = nat_be j m"
proof (induction j)
  case (Suc j)
  define d where "d = k - Suc j"
  have k: "(256::nat) ^ k = 256 ^ j * (256 * 256 ^ d)"
    using Suc.prems by (simp add: d_def flip: power_Suc power_add)
  have "m mod 256 ^ k div 256 ^ j mod 256 = m div 256 ^ j mod 256"
    unfolding k by (simp add: mod_mult2_eq mod_mod_cancel)
  then have "(word_of_nat (m mod 256 ^ k div 256 ^ j) :: byte) = word_of_nat (m div 256 ^ j)"
    by (simp add: word_unat_eq_iff unat_byte_of_nat)
  then show ?case using Suc by simp
qed simp

lemma nat_be_add: "m < 256 ^ k \<Longrightarrow> nat_be k (c * 256 ^ k + m) = nat_be k m"
  using nat_be_mod [of k k "c * 256 ^ k + m"] by simp

lemma nat_be_be_nat: "nat_be (length bs) (be_nat bs) = bs"
proof (induction bs)
  case (Cons b bs)
  have "(unat b * 256 ^ length bs + be_nat bs) div 256 ^ length bs = unat b"
    using be_nat_less [of bs] by simp
  then show ?case using Cons by (simp add: nat_be_add be_nat_less)
qed simp

lemma unat_be_val:
  assumes "256 ^ length bs \<le> (2::nat) ^ LENGTH('a::len)"
  shows "unat (be_val bs :: 'a word) = be_nat bs"
proof -
  have "be_nat bs < 2 ^ LENGTH('a)" using be_nat_less [of bs] assms by linarith
  then show ?thesis by (simp add: be_val_def unat_of_nat)
qed

lemma be_val_be_bytes:
  assumes "2 ^ LENGTH('a::len) \<le> (256::nat) ^ k"
  shows "be_val (be_bytes k (w :: 'a word)) = w"
proof -
  have "unat w < 256 ^ k" using unsigned_less [of w, where 'a = nat] assms by linarith
  then show ?thesis by (simp add: be_val_def be_bytes_def be_nat_nat_be)
qed

lemma be_val_8 [codec]: "be_val (be_bytes 1 (u :: 8 word)) = u"
  and be_val_16 [codec]: "be_val (be_bytes 2 (v :: 16 word)) = v"
  and be_val_32 [codec]: "be_val (be_bytes 4 (w :: 32 word)) = w"
  and be_val_64 [codec]: "be_val (be_bytes 8 (x :: 64 word)) = x"
  by (rule be_val_be_bytes; simp)+

lemma be_bytes_be_val:
  assumes "256 ^ length bs \<le> (2::nat) ^ LENGTH('a::len)"
  shows "be_bytes (length bs) (be_val bs :: 'a word) = bs"
  using unat_be_val [OF assms] by (simp add: be_bytes_def nat_be_be_nat)

lemma be_bytes_16_val: "length bs = 2 \<Longrightarrow> be_bytes 2 (be_val bs :: 16 word) = bs"
  and be_bytes_32_val: "length bs = 4 \<Longrightarrow> be_bytes 4 (be_val bs :: 32 word) = bs"
  and be_bytes_64_val: "length bs = 8 \<Longrightarrow> be_bytes 8 (be_val bs :: 64 word) = bs"
  using be_bytes_be_val [where 'a = 16, of bs] be_bytes_be_val [where 'a = 32, of bs]
    be_bytes_be_val [where 'a = 64, of bs] by simp_all

section \<open>Memory ranges\<close>

text \<open>A \<^verbatim>\<open>memcpy\<close> of \<^term>\<open>bs\<close> to offset \<^term>\<open>off\<close> of the object \<^term>\<open>mem\<close>.\<close>

definition splice :: "bytes \<Rightarrow> nat \<Rightarrow> bytes \<Rightarrow> bytes" where
  "splice mem off bs = take off mem @ bs @ drop (off + length bs) mem"

lemma length_splice [simp]:
  "off + length bs \<le> length mem \<Longrightarrow> length (splice mem off bs) = length mem"
  by (simp add: splice_def)

lemma take_splice [simp]:
  "off + length bs \<le> length mem \<Longrightarrow> take (off + length bs) (splice mem off bs) = take off mem @ bs"
  by (simp add: splice_def)

lemma take_splice_before:
  "n \<le> off \<Longrightarrow> off \<le> length mem \<Longrightarrow> take n (splice mem off bs) = take n mem"
  by (simp add: splice_def min_def)

lemma drop_splice:
  "off + length bs \<le> length mem \<Longrightarrow> off + length bs \<le> n \<Longrightarrow> drop n (splice mem off bs) = drop n mem"
  by (simp add: splice_def)

lemma range_splice_same:
  "off + length bs \<le> length mem \<Longrightarrow> take (length bs) (drop off (splice mem off bs)) = bs"
  by (simp add: splice_def)

lemma splice_Nil [simp]: "splice mem off [] = mem"
  by (simp add: splice_def)

definition range_of :: "bytes \<Rightarrow> nat \<Rightarrow> nat \<Rightarrow> bytes" where
  "range_of mem off n = take n (drop off mem)"

lemma length_range_of [simp]: "off + n \<le> length mem \<Longrightarrow> length (range_of mem off n) = n"
  by (simp add: range_of_def)

lemma splice_adjacent:
  "off + length bs + length cs \<le> length mem \<Longrightarrow>
     splice (splice mem off bs) (off + length bs) cs = splice mem off (bs @ cs)"
  by (simp add: splice_def add.assoc add.commute add.left_commute)

end
