(* ===== verification/AwsCommon.thy ===== *)
theory AwsCommon
  imports Prelude
begin

text \<open>
  The interface of the common C runtime (aws-c-common) as far as the library calls it. The
  runtime is a separate code base: its operations are a record of functions that every
  definition of the development takes as an argument, and the locale \<open>aws_c_common\<close> lists the
  documented behaviour the proofs rely on. The structures whose fields the library reads and
  writes itself (byte cursors, byte buffers) are records with those fields.

  \<^item> \<^verbatim>\<open>struct aws_byte_cursor\<close>: \<open>cur_ptr\<close> is the address as an offset into the object read and
    \<open>cur_data\<close> the bytes covered, so that \<^verbatim>\<open>cur->len\<close> is the length of the latter.
  \<^item> \<^verbatim>\<open>struct aws_byte_buf\<close>: \<open>buf_mem\<close> is the whole allocation, so that \<^verbatim>\<open>capacity\<close> is its
    length; \<open>buf_len\<close> is \<^verbatim>\<open>len\<close>; \<open>buf_owned\<close> says that the \<^verbatim>\<open>allocator\<close> field is set.
  \<^item> \<^verbatim>\<open>struct aws_hash_table\<close> with string keys and values: the list of its elements in the
    order the iterator visits them.
  \<^item> \<^verbatim>\<open>struct aws_array_list\<close>: the list of its items.
\<close>

record byte_cursor =
  cur_ptr :: nat
  cur_data :: bytes

abbreviation cur_len :: "byte_cursor \<Rightarrow> nat" where
  "cur_len c \<equiv> length (cur_data c)"

record byte_buf =
  buf_mem :: bytes
  buf_len :: nat
  buf_owned :: bool

abbreviation buf_capacity :: "byte_buf \<Rightarrow> nat" where
  "buf_capacity b \<equiv> length (buf_mem b)"

type_synonym hash_table = "(bytes \<times> bytes) list"

text \<open>The bytes a buffer holds, and the invariant \<^verbatim>\<open>len <= capacity\<close> of every buffer.\<close>

definition buf_contents :: "byte_buf \<Rightarrow> bytes" where
  "buf_contents b = take (buf_len b) (buf_mem b)"

definition buf_valid :: "byte_buf \<Rightarrow> bool" where
  "buf_valid b \<longleftrightarrow> buf_len b \<le> buf_capacity b"

text \<open>An all-zero \<^verbatim>\<open>struct aws_byte_buf\<close>, as \<^verbatim>\<open>{ 0 }\<close> and \<^verbatim>\<open>aws_byte_buf_clean_up\<close> leave it.\<close>

definition buf_zero :: byte_buf where
  "buf_zero = \<lparr>buf_mem = [], buf_len = 0, buf_owned = False\<rparr>"

text \<open>A buffer over an array, full (\<^verbatim>\<open>from_array\<close>) or empty (\<^verbatim>\<open>from_empty_array\<close>).\<close>

definition buf_from_array :: "bytes \<Rightarrow> byte_buf" where
  "buf_from_array bs = \<lparr>buf_mem = bs, buf_len = length bs, buf_owned = False\<rparr>"

definition buf_from_empty_array :: "bytes \<Rightarrow> byte_buf" where
  "buf_from_empty_array bs = \<lparr>buf_mem = bs, buf_len = 0, buf_owned = False\<rparr>"

definition cursor_of :: "bytes \<Rightarrow> byte_cursor" where
  "cursor_of bs = \<lparr>cur_ptr = 0, cur_data = bs\<rparr>"

section \<open>The operations\<close>

text \<open>
  \<^verbatim>\<open>NULL\<close> and \<^verbatim>\<open>false\<close> results are \<^const>\<open>None\<close>. \<open>lib_acquire n\<close> says whether the allocator serves a
  request for \<open>n\<close> bytes. \<open>lib_add_size_checked\<close> is the sum of \<^verbatim>\<open>size_t\<close> values unless it overflows. \<open>lib_list_init n\<close> says
  whether a list with room for \<open>n\<close> items can be allocated, and \<open>lib_push_back n\<close> says whether a list of \<open>n\<close> items can take one more.
  \<open>lib_write\<close> is \<^verbatim>\<open>aws_byte_buf_write\<close>, \<^verbatim>\<open>aws_byte_buf_append\<close> and \<^verbatim>\<open>aws_byte_buf_write_from_whole_string\<close>, which append bytes if there is room.
  \<open>lib_buf_advance\<close> moves \<^verbatim>\<open>len\<close> past a region that is filled in later.
  \<open>lib_string_static\<close> tells the string literals (no allocator) from the allocated strings.
\<close>

record aws_lib =
  lib_acquire :: "nat \<Rightarrow> bool"
  lib_advance :: "byte_cursor \<Rightarrow> nat \<Rightarrow> (byte_cursor \<times> byte_cursor) option"
  lib_read_u8 :: "byte_cursor \<Rightarrow> (8 word \<times> byte_cursor) option"
  lib_read_be16 :: "byte_cursor \<Rightarrow> (16 word \<times> byte_cursor) option"
  lib_read_be32 :: "byte_cursor \<Rightarrow> (32 word \<times> byte_cursor) option"
  lib_read_be64 :: "byte_cursor \<Rightarrow> (64 word \<times> byte_cursor) option"
  lib_read_and_fill :: "byte_cursor \<Rightarrow> byte_buf \<Rightarrow> (byte_buf \<times> byte_cursor) option"
  lib_buf_init :: "nat \<Rightarrow> byte_buf option"
  lib_buf_init_copy :: "byte_buf \<Rightarrow> byte_buf option"
  lib_buf_advance :: "byte_buf \<Rightarrow> nat \<Rightarrow> byte_buf option"
  lib_secure_zero :: "byte_buf \<Rightarrow> byte_buf"
  lib_write :: "byte_buf \<Rightarrow> bytes \<Rightarrow> byte_buf option"
  lib_write_u8 :: "byte_buf \<Rightarrow> 8 word \<Rightarrow> byte_buf option"
  lib_write_be16 :: "byte_buf \<Rightarrow> 16 word \<Rightarrow> byte_buf option"
  lib_write_be32 :: "byte_buf \<Rightarrow> 32 word \<Rightarrow> byte_buf option"
  lib_write_be64 :: "byte_buf \<Rightarrow> 64 word \<Rightarrow> byte_buf option"
  lib_add_size_checked :: "nat list \<Rightarrow> nat option"
  lib_list_init :: "nat \<Rightarrow> bool"
  lib_push_back :: "nat \<Rightarrow> bool"
  lib_hash_init :: "nat \<Rightarrow> hash_table option"
  lib_string_static :: "bytes \<Rightarrow> bool"
  lib_string_compare :: "bytes \<Rightarrow> bytes \<Rightarrow> int"
  lib_list_sort :: "((bytes \<times> bytes) \<Rightarrow> (bytes \<times> bytes) \<Rightarrow> int) \<Rightarrow> hash_table \<Rightarrow> hash_table"
  lib_hash_put :: "hash_table \<Rightarrow> bytes \<Rightarrow> bytes \<Rightarrow> (hash_table \<times> bool) option"

text \<open>\<^verbatim>\<open>aws_string_new_from_array\<close>: the header, the bytes and a terminating zero byte.\<close>

definition aws_string_new_from_array :: "aws_lib \<Rightarrow> bytes \<Rightarrow> bytes option" where
  "aws_string_new_from_array L bs = (if lib_acquire L (length bs + 1) then Some bs else None)"

text \<open>Lookup in a table, and removal of the element an iterator stands on.\<close>

definition hash_find :: "hash_table \<Rightarrow> bytes \<Rightarrow> bytes option" where
  "hash_find t k = map_of t k"

definition hash_delete :: "hash_table \<Rightarrow> bytes \<Rightarrow> hash_table" where
  "hash_delete t k = filter (\<lambda>e. fst e \<noteq> k) t"

definition hash_valid :: "hash_table \<Rightarrow> bool" where
  "hash_valid t \<longleftrightarrow> distinct (map fst t)"

section \<open>The contract\<close>

definition advanced :: "byte_cursor \<Rightarrow> nat \<Rightarrow> byte_cursor" where
  "advanced c n = \<lparr>cur_ptr = cur_ptr c + n, cur_data = drop n (cur_data c)\<rparr>"

definition prefix_cur :: "byte_cursor \<Rightarrow> nat \<Rightarrow> byte_cursor" where
  "prefix_cur c n = \<lparr>cur_ptr = cur_ptr c, cur_data = take n (cur_data c)\<rparr>"

definition written :: "byte_buf \<Rightarrow> bytes \<Rightarrow> byte_buf" where
  "written b bs = b\<lparr>buf_mem := splice (buf_mem b) (buf_len b) bs, buf_len := buf_len b + length bs\<rparr>"

definition fits :: "byte_buf \<Rightarrow> nat \<Rightarrow> bool" where
  "fits b n \<longleftrightarrow> buf_len b + n \<le> buf_capacity b"

locale aws_c_common =
  fixes L :: aws_lib
  assumes advance: "lib_advance L c n =
      (if n \<le> cur_len c then Some (prefix_cur c n, advanced c n) else None)"
    and read_u8: "lib_read_u8 L c =
      (if 1 \<le> cur_len c then Some (be_val (take 1 (cur_data c)), advanced c 1) else None)"
    and read_be16: "lib_read_be16 L c =
      (if 2 \<le> cur_len c then Some (be_val (take 2 (cur_data c)), advanced c 2) else None)"
    and read_be32: "lib_read_be32 L c =
      (if 4 \<le> cur_len c then Some (be_val (take 4 (cur_data c)), advanced c 4) else None)"
    and read_be64: "lib_read_be64 L c =
      (if 8 \<le> cur_len c then Some (be_val (take 8 (cur_data c)), advanced c 8) else None)"
    and read_and_fill: "lib_read_and_fill L c b =
      (if buf_capacity b \<le> cur_len c
       then Some (b\<lparr>buf_mem := take (buf_capacity b) (cur_data c), buf_len := buf_capacity b\<rparr>,
                  advanced c (buf_capacity b))
       else None)"
    and buf_init_fail: "lib_buf_init L n = None \<longleftrightarrow> \<not> lib_acquire L n"
    and buf_init: "lib_buf_init L n = Some b \<Longrightarrow>
      length (buf_mem b) = n \<and> buf_len b = 0 \<and> buf_owned b"
    and buf_init_copy: "lib_buf_init_copy L b =
      (if lib_acquire L (buf_capacity b) then Some (b\<lparr>buf_owned := True\<rparr>) else None)"
    and buf_advance: "buf_valid b \<Longrightarrow>
      lib_buf_advance L b n = (if fits b n then Some (b\<lparr>buf_len := buf_len b + n\<rparr>) else None)"
    and secure_zero: "lib_secure_zero L b = b\<lparr>buf_mem := replicate (buf_capacity b) 0, buf_len := 0\<rparr>"
    and buf_write: "buf_valid b \<Longrightarrow>
      lib_write L b bs = (if fits b (length bs) then Some (written b bs) else None)"
    and write_u8: "buf_valid b \<Longrightarrow>
      lib_write_u8 L b u = (if fits b 1 then Some (written b (be_bytes 1 u)) else None)"
    and write_be16: "buf_valid b \<Longrightarrow>
      lib_write_be16 L b h = (if fits b 2 then Some (written b (be_bytes 2 h)) else None)"
    and write_be32: "buf_valid b \<Longrightarrow>
      lib_write_be32 L b w = (if fits b 4 then Some (written b (be_bytes 4 w)) else None)"
    and write_be64: "buf_valid b \<Longrightarrow>
      lib_write_be64 L b x = (if fits b 8 then Some (written b (be_bytes 8 x)) else None)"
    and add_size_checked: "lib_add_size_checked L ns =
      (if sum_list ns < 2 ^ 64 then Some (sum_list ns) else None)"
    and hash_init: "lib_hash_init L n = Some t \<Longrightarrow> t = []"
    and string_compare: "lib_string_compare L k l \<le> 0 \<longleftrightarrow> k \<le> l"
    and sort_mset: "mset (lib_list_sort L cmp t) = mset t"
    and sort_sorted: "(\<And>x y. cmp x y \<le> 0 \<or> cmp y x \<le> 0) \<Longrightarrow>
      (\<And>x y z. cmp x y \<le> 0 \<Longrightarrow> cmp y z \<le> 0 \<Longrightarrow> cmp x z \<le> 0) \<Longrightarrow>
      sorted_wrt (\<lambda>x y. cmp x y \<le> 0) (lib_list_sort L cmp t)"
    and hash_put_valid: "hash_valid t \<Longrightarrow> lib_hash_put L t k v = Some (t', created) \<Longrightarrow> hash_valid t'"
    and hash_put_map: "hash_valid t \<Longrightarrow> lib_hash_put L t k v = Some (t', created) \<Longrightarrow>
      map_of t' = (map_of t)(k \<mapsto> v)"
    and hash_put_created: "hash_valid t \<Longrightarrow> lib_hash_put L t k v = Some (t', created) \<Longrightarrow>
      created \<longleftrightarrow> map_of t k = None"
begin

lemma read_u8_byte:
  "lib_read_u8 L c = (if 1 \<le> cur_len c then Some (hd (cur_data c), advanced c 1) else None)"
proof (cases "cur_data c")
  case (Cons b bs)
  have "be_val [b] = b" using be_val_8 [of b] by (simp add: be_bytes_def)
  then show ?thesis by (simp add: read_u8 Cons)
qed (simp add: read_u8)

lemma write_u8_byte:
  "buf_valid b \<Longrightarrow> lib_write_u8 L b u = (if fits b 1 then Some (written b [u]) else None)"
  by (simp add: write_u8 be_bytes_def)

lemma buf_init_SomeE:
  assumes "lib_acquire L n"
  obtains b where "lib_buf_init L n = Some b" "buf_capacity b = n" "buf_len b = 0" "buf_owned b"
  using assms buf_init_fail [of n] buf_init [of n] by (cases "lib_buf_init L n") auto

lemma sort_keys:
  assumes "hash_valid t"
  defines "s \<equiv> lib_list_sort L (\<lambda>x y. lib_string_compare L (fst x) (fst y)) t"
  shows "mset s = mset t" "sorted (map fst s)" "distinct (map fst s)"
proof -
  show m: "mset s = mset t" by (simp add: s_def sort_mset)
  have "sorted_wrt (\<lambda>x y. lib_string_compare L (fst x) (fst y) \<le> 0) s"
    unfolding s_def by (rule sort_sorted) (auto simp: string_compare)
  then show "sorted (map fst s)" by (simp add: string_compare sorted_map)
  show "distinct (map fst s)"
    using assms(1) m by (metis hash_valid_def mset_eq_imp_distinct_iff mset_map)
qed

end

text \<open>The same contract with an allocator that serves every request.\<close>

locale aws_c_common_mem = aws_c_common +
  assumes acquire_ok: "lib_acquire L n"
    and list_init_ok: "lib_list_init L n"
    and push_back_ok: "lib_push_back L n"
    and hash_init_ok: "lib_hash_init L n \<noteq> None"
    and hash_put_ok: "lib_hash_put L t k v \<noteq> None"
begin

lemma hash_put_new:
  assumes "hash_valid t" "map_of t k = None"
  obtains t' where "lib_hash_put L t k v = Some (t', True)" "hash_valid t'"
    "map_of t' = (map_of t)(k \<mapsto> v)"
proof -
  obtain t' created where p: "lib_hash_put L t k v = Some (t', created)"
    using hash_put_ok [of t k v] by (metis not_None_eq surj_pair)
  show ?thesis
    using that p hash_put_valid [OF assms(1) p] hash_put_map [OF assms(1) p]
      hash_put_created [OF assms(1) p] assms(2) by simp
qed

end

lemma cur_advanced [simp]:
  "cur_ptr (advanced c n) = cur_ptr c + n" "cur_data (advanced c n) = drop n (cur_data c)"
  by (simp_all add: advanced_def)

lemma cur_prefix_cur [simp]:
  "cur_ptr (prefix_cur c n) = cur_ptr c" "cur_data (prefix_cur c n) = take n (cur_data c)"
  by (simp_all add: prefix_cur_def)

lemma advanced_advanced [simp]: "advanced (advanced c m) n = advanced c (m + n)"
  by (simp add: advanced_def add.commute)

lemma advanced_0 [simp]: "advanced c 0 = c"
  by (simp add: advanced_def)

lemma buf_zero_simps [simp]:
  "buf_mem buf_zero = []" "buf_len buf_zero = 0" "\<not> buf_owned buf_zero"
  by (simp_all add: buf_zero_def)

lemma written_simps [simp]:
  "buf_len (written b bs) = buf_len b + length bs" "buf_owned (written b bs) = buf_owned b"
  by (simp_all add: written_def)

lemma capacity_written [simp]: "fits b (length bs) \<Longrightarrow> buf_capacity (written b bs) = buf_capacity b"
  by (simp add: written_def fits_def)

lemma valid_written [simp]: "fits b (length bs) \<Longrightarrow> buf_valid (written b bs)"
  by (simp add: buf_valid_def) (simp add: fits_def)

lemma written_Nil [simp]: "written b [] = b"
  by (simp add: written_def)

lemma fits_valid: "fits b n \<Longrightarrow> buf_valid b"
  by (simp add: buf_valid_def fits_def)

lemma fits_le: "fits b n \<Longrightarrow> m \<le> n \<Longrightarrow> fits b m"
  by (simp add: fits_def)

lemma fits_written [simp]:
  "fits b (length bs) \<Longrightarrow> fits (written b bs) n \<longleftrightarrow> fits b (length bs + n)"
  by (simp add: fits_def written_def add.assoc)

lemma contents_written [simp]:
  "fits b (length bs) \<Longrightarrow> buf_contents (written b bs) = buf_contents b @ bs"
  by (simp add: buf_contents_def written_def fits_def)

lemma written_written:
  assumes "fits b (length bs)"
  shows "written (written b bs) cs = written b (bs @ cs)"
proof -
  have "buf_len b \<le> buf_capacity b" "buf_len b + length bs \<le> buf_capacity b"
    using assms by (simp_all add: fits_def)
  then show ?thesis by (simp add: written_def splice_def ac_simps)
qed

section \<open>Reading back what was written\<close>

context aws_c_common
begin

lemma read_u8_Cons: "cur_data c = u # rest \<Longrightarrow> lib_read_u8 L c = Some (u, advanced c 1)"
  by (simp add: read_u8_byte)

lemma read_be16_append: "cur_data c = be_bytes 2 h @ rest \<Longrightarrow> lib_read_be16 L c = Some (h, advanced c 2)"
  by (simp add: read_be16 codec)

lemma read_be32_append: "cur_data c = be_bytes 4 w @ rest \<Longrightarrow> lib_read_be32 L c = Some (w, advanced c 4)"
  by (simp add: read_be32 codec)

lemma read_be64_append: "cur_data c = be_bytes 8 x @ rest \<Longrightarrow> lib_read_be64 L c = Some (x, advanced c 8)"
  by (simp add: read_be64 codec)

lemma advance_append:
  "cur_data c = bs @ rest \<Longrightarrow> n = length bs \<Longrightarrow>
     lib_advance L c n = Some (\<lparr>cur_ptr = cur_ptr c, cur_data = bs\<rparr>, advanced c n)"
  by (simp add: advance prefix_cur_def)

lemma read_and_fill_append:
  "cur_data c = bs @ rest \<Longrightarrow> buf_capacity b = length bs \<Longrightarrow>
     lib_read_and_fill L c b = Some (b\<lparr>buf_mem := bs, buf_len := length bs\<rparr>, advanced c (length bs))"
  by (simp add: read_and_fill)

lemmas read_back = read_u8_Cons read_be16_append read_be32_append read_be64_append advance_append
  read_and_fill_append

end

section \<open>Sequences of writes\<close>

text \<open>
  A writer appends a fixed byte string to every valid buffer with room for it and fails on the
  others; a sequence of writers that stops at the first failure is again a writer.
\<close>

definition writes :: "(byte_buf \<Rightarrow> byte_buf option) \<Rightarrow> bytes \<Rightarrow> bool" where
  "writes f bs \<longleftrightarrow>
     (\<forall>b. buf_valid b \<longrightarrow> f b = (if fits b (length bs) then Some (written b bs) else None))"

lemma writesD:
  "writes f bs \<Longrightarrow> buf_valid b \<Longrightarrow> f b = (if fits b (length bs) then Some (written b bs) else None)"
  by (simp add: writes_def)

lemma writes_done: "writes Some []"
  by (simp add: writes_def fits_def buf_valid_def)

lemma writes_seq:
  assumes "writes f bs" "writes g cs"
  shows "writes (\<lambda>b. case f b of None \<Rightarrow> None | Some b' \<Rightarrow> g b') (bs @ cs)"
  unfolding writes_def
proof (intro allI impI)
  fix b assume v: "buf_valid b"
  show "(case f b of None \<Rightarrow> None | Some b' \<Rightarrow> g b') =
      (if fits b (length (bs @ cs)) then Some (written b (bs @ cs)) else None)"
  proof (cases "fits b (length bs)")
    case True
    then show ?thesis
      using writesD [OF assms(1) v] writesD [OF assms(2), of "written b bs"]
      by (simp add: written_written)
  next
    case False
    then show ?thesis
      using writesD [OF assms(1) v] fits_le [of b "length (bs @ cs)" "length bs"] by auto
  qed
qed

context aws_c_common
begin

lemma writes_lib:
  "writes (\<lambda>b. lib_write L b bs) bs"
  "writes (\<lambda>b. lib_write_u8 L b u) [u]"
  "writes (\<lambda>b. lib_write_be16 L b h) (be_bytes 2 h)"
  "writes (\<lambda>b. lib_write_be32 L b w) (be_bytes 4 w)"
  "writes (\<lambda>b. lib_write_be64 L b x) (be_bytes 8 x)"
  by (simp_all add: writes_def buf_write write_u8_byte write_be16 write_be32 write_be64)

end

section \<open>A reference instance\<close>

text \<open>
  An executable instance of every operation, with an allocator that always succeeds. It shows
  that the contract can be met and lets the definitions be evaluated on concrete inputs.
\<close>

fun insert_cmp :: "('a \<Rightarrow> 'a \<Rightarrow> int) \<Rightarrow> 'a \<Rightarrow> 'a list \<Rightarrow> 'a list" where
  "insert_cmp cmp x [] = [x]"
| "insert_cmp cmp x (y # ys) = (if cmp x y \<le> 0 then x # y # ys else y # insert_cmp cmp x ys)"

definition sort_cmp :: "('a \<Rightarrow> 'a \<Rightarrow> int) \<Rightarrow> 'a list \<Rightarrow> 'a list" where
  "sort_cmp cmp xs = foldr (insert_cmp cmp) xs []"

fun compare_bytes :: "bytes \<Rightarrow> bytes \<Rightarrow> int" where
  "compare_bytes [] [] = 0"
| "compare_bytes [] (y # ys) = - 1"
| "compare_bytes (x # xs) [] = 1"
| "compare_bytes (x # xs) (y # ys) =
     (if x < y then - 1 else if y < x then 1 else compare_bytes xs ys)"

definition ref_read :: "nat \<Rightarrow> byte_cursor \<Rightarrow> ('a::len word \<times> byte_cursor) option" where
  "ref_read n c =
     (if n \<le> cur_len c then Some (be_val (take n (cur_data c)), advanced c n) else None)"

definition ref_write :: "byte_buf \<Rightarrow> bytes \<Rightarrow> byte_buf option" where
  "ref_write b bs = (if fits b (length bs) then Some (written b bs) else None)"

definition ref_put :: "hash_table \<Rightarrow> bytes \<Rightarrow> bytes \<Rightarrow> hash_table \<times> bool" where
  "ref_put t k v =
     (if map_of t k = None then (t @ [(k, v)], True)
      else (map (\<lambda>e. if fst e = k then (k, v) else e) t, False))"

definition aws_ref :: aws_lib where
  "aws_ref = \<lparr>
     lib_acquire = (\<lambda>n. True),
     lib_advance = (\<lambda>c n. if n \<le> cur_len c then Some (prefix_cur c n, advanced c n) else None),
     lib_read_u8 = ref_read 1, lib_read_be16 = ref_read 2,
     lib_read_be32 = ref_read 4, lib_read_be64 = ref_read 8,
     lib_read_and_fill = (\<lambda>c b. if buf_capacity b \<le> cur_len c
       then Some (b\<lparr>buf_mem := take (buf_capacity b) (cur_data c), buf_len := buf_capacity b\<rparr>,
                  advanced c (buf_capacity b)) else None),
     lib_buf_init = (\<lambda>n. Some \<lparr>buf_mem = replicate n 0, buf_len = 0, buf_owned = True\<rparr>),
     lib_buf_init_copy = (\<lambda>b. Some (b\<lparr>buf_owned := True\<rparr>)),
     lib_buf_advance = (\<lambda>b n. if fits b n then Some (b\<lparr>buf_len := buf_len b + n\<rparr>) else None),
     lib_secure_zero = (\<lambda>b. b\<lparr>buf_mem := replicate (buf_capacity b) 0, buf_len := 0\<rparr>),
     lib_write = ref_write,
     lib_write_u8 = (\<lambda>b w. ref_write b (be_bytes 1 w)),
     lib_write_be16 = (\<lambda>b w. ref_write b (be_bytes 2 w)),
     lib_write_be32 = (\<lambda>b w. ref_write b (be_bytes 4 w)),
     lib_write_be64 = (\<lambda>b w. ref_write b (be_bytes 8 w)),
     lib_add_size_checked = (\<lambda>ns. if sum_list ns < 2 ^ 64 then Some (sum_list ns) else None),
     lib_list_init = (\<lambda>n. True),
     lib_push_back = (\<lambda>n. True),
     lib_hash_init = (\<lambda>n. Some []),
     lib_string_static = (\<lambda>s. False),
     lib_string_compare = compare_bytes,
     lib_list_sort = sort_cmp,
     lib_hash_put = (\<lambda>t k v. Some (ref_put t k v))\<rparr>"

text \<open>Evaluation at the reference instance.\<close>

lemma aws_ref_simps:
  "lib_acquire aws_ref = (\<lambda>n. True)"
  "lib_advance aws_ref = (\<lambda>c n. if n \<le> cur_len c then Some (prefix_cur c n, advanced c n) else None)"
  "lib_read_u8 aws_ref = ref_read 1"
  "lib_read_be16 aws_ref = ref_read 2"
  "lib_read_be32 aws_ref = ref_read 4"
  "lib_read_be64 aws_ref = ref_read 8"
  "lib_read_and_fill aws_ref = (\<lambda>c b. if buf_capacity b \<le> cur_len c
       then Some (b\<lparr>buf_mem := take (buf_capacity b) (cur_data c), buf_len := buf_capacity b\<rparr>,
                  advanced c (buf_capacity b)) else None)"
  "lib_buf_init aws_ref = (\<lambda>n. Some \<lparr>buf_mem = replicate n 0, buf_len = 0, buf_owned = True\<rparr>)"
  "lib_buf_init_copy aws_ref = (\<lambda>b. Some (b\<lparr>buf_owned := True\<rparr>))"
  "lib_buf_advance aws_ref = (\<lambda>b n. if fits b n then Some (b\<lparr>buf_len := buf_len b + n\<rparr>) else None)"
  "lib_secure_zero aws_ref = (\<lambda>b. b\<lparr>buf_mem := replicate (buf_capacity b) 0, buf_len := 0\<rparr>)"
  "lib_write aws_ref = ref_write"
  "lib_write_u8 aws_ref = (\<lambda>b w. ref_write b (be_bytes 1 w))"
  "lib_write_be16 aws_ref = (\<lambda>b w. ref_write b (be_bytes 2 w))"
  "lib_write_be32 aws_ref = (\<lambda>b w. ref_write b (be_bytes 4 w))"
  "lib_write_be64 aws_ref = (\<lambda>b w. ref_write b (be_bytes 8 w))"
  "lib_add_size_checked aws_ref = (\<lambda>ns. if sum_list ns < 2 ^ 64 then Some (sum_list ns) else None)"
  "lib_list_init aws_ref = (\<lambda>n. True)"
  "lib_push_back aws_ref = (\<lambda>n. True)"
  "lib_hash_init aws_ref = (\<lambda>n. Some [])"
  "lib_string_static aws_ref = (\<lambda>s. False)"
  "lib_string_compare aws_ref = compare_bytes"
  "lib_list_sort aws_ref = sort_cmp"
  "lib_hash_put aws_ref = (\<lambda>t k v. Some (ref_put t k v))"
  by (simp_all add: aws_ref_def)

lemma mset_insert_cmp: "mset (insert_cmp cmp x ys) = add_mset x (mset ys)"
  by (induction ys) simp_all

lemma mset_sort_cmp: "mset (sort_cmp cmp xs) = mset xs"
  unfolding sort_cmp_def by (induction xs) (simp_all add: mset_insert_cmp)

lemma set_insert_cmp: "set (insert_cmp cmp x ys) = insert x (set ys)"
  by (induction ys) auto

lemma sorted_sort_cmp:
  assumes "\<And>x y. cmp x y \<le> 0 \<or> cmp y x \<le> 0"
    and "\<And>x y z. cmp x y \<le> 0 \<Longrightarrow> cmp y z \<le> 0 \<Longrightarrow> cmp x z \<le> 0"
  shows "sorted_wrt (\<lambda>x y. cmp x y \<le> 0) (sort_cmp cmp xs)"
proof -
  have "sorted_wrt (\<lambda>x y. cmp x y \<le> 0) (insert_cmp cmp x ys)"
    if "sorted_wrt (\<lambda>x y. cmp x y \<le> 0) ys" for x ys
    using that by (induction ys) (use assms in \<open>auto simp: set_insert_cmp\<close>)
  then show ?thesis unfolding sort_cmp_def by (induction xs) simp_all
qed

lemma compare_bytes_le: "compare_bytes k l \<le> 0 \<longleftrightarrow> k \<le> l"
  by (induction k l rule: compare_bytes.induct) auto

lemma ref_put_laws:
  assumes "hash_valid t" "ref_put t k v = (t', created)"
  shows "hash_valid t'" "map_of t' = (map_of t)(k \<mapsto> v)" "created \<longleftrightarrow> map_of t k = None"
proof -
  have keys: "map fst (map (\<lambda>e. if fst e = k then (k, v) else e) t) = map fst t"
    by (induction t) auto
  have "map_of (map (\<lambda>e. if fst e = k then (k, v) else e) t) x =
      (if x = k then map_option (\<lambda>_. v) (map_of t k) else map_of t x)" for x
    by (induction t) auto
  then have upd: "map_of t k \<noteq> None \<Longrightarrow>
      map_of (map (\<lambda>e. if fst e = k then (k, v) else e) t) = (map_of t)(k \<mapsto> v)"
    by (auto simp: fun_eq_iff)
  have new: "map_of t k = None \<Longrightarrow> map_of (t @ [(k, v)]) = (map_of t)(k \<mapsto> v)"
    by (induction t) (auto split: if_splits)
  have keys': "\<not> created \<Longrightarrow> map fst t' = map fst t"
    using assms(2) keys by (auto simp only: ref_put_def prod.inject split: if_splits)
  show "hash_valid t'" using assms keys'
    by (cases created) (auto simp: hash_valid_def ref_put_def map_of_eq_None_iff split: if_splits)
  show "map_of t' = (map_of t)(k \<mapsto> v)" using assms(2) upd new
    by (auto simp: ref_put_def split: if_splits)
  show "created \<longleftrightarrow> map_of t k = None" using assms(2) by (auto simp: ref_put_def split: if_splits)
qed

interpretation ref: aws_c_common_mem aws_ref
  by unfold_locales
    (auto simp: aws_ref_def ref_read_def ref_write_def compare_bytes_le mset_sort_cmp
      sorted_sort_cmp ref_put_laws)

end
