(* ===== verification/AlgProps.thy ===== *)
theory AlgProps
  imports AwsCommon
begin

text \<open>
  The algorithm suites: the identifiers of \<^verbatim>\<open>include/aws/cryptosdk/header.h\<close>, the property table
  \<^verbatim>\<open>aws_cryptosdk_alg_props\<close> and the helpers around it (\<^verbatim>\<open>source/cipher.c\<close>), the predicates of
  \<^verbatim>\<open>source/header.c\<close> that classify identifiers and versions, and the constant-time comparison of
  key commitments.
\<close>

unbundle bit_operations_syntax

section \<open>Identifiers and versions\<close>

type_synonym alg_id = "16 word"

abbreviation ALG_AES256_GCM_HKDF_SHA512_COMMIT_KEY_ECDSA_P384 :: alg_id where
  "ALG_AES256_GCM_HKDF_SHA512_COMMIT_KEY_ECDSA_P384 \<equiv> 0x0578"
abbreviation ALG_AES256_GCM_HKDF_SHA512_COMMIT_KEY :: alg_id where
  "ALG_AES256_GCM_HKDF_SHA512_COMMIT_KEY \<equiv> 0x0478"
abbreviation ALG_AES256_GCM_IV12_TAG16_HKDF_SHA384_ECDSA_P384 :: alg_id where
  "ALG_AES256_GCM_IV12_TAG16_HKDF_SHA384_ECDSA_P384 \<equiv> 0x0378"
abbreviation ALG_AES192_GCM_IV12_TAG16_HKDF_SHA384_ECDSA_P384 :: alg_id where
  "ALG_AES192_GCM_IV12_TAG16_HKDF_SHA384_ECDSA_P384 \<equiv> 0x0346"
abbreviation ALG_AES128_GCM_IV12_TAG16_HKDF_SHA256_ECDSA_P256 :: alg_id where
  "ALG_AES128_GCM_IV12_TAG16_HKDF_SHA256_ECDSA_P256 \<equiv> 0x0214"
abbreviation ALG_AES256_GCM_IV12_TAG16_HKDF_SHA256 :: alg_id where
  "ALG_AES256_GCM_IV12_TAG16_HKDF_SHA256 \<equiv> 0x0178"
abbreviation ALG_AES192_GCM_IV12_TAG16_HKDF_SHA256 :: alg_id where
  "ALG_AES192_GCM_IV12_TAG16_HKDF_SHA256 \<equiv> 0x0146"
abbreviation ALG_AES128_GCM_IV12_TAG16_HKDF_SHA256 :: alg_id where
  "ALG_AES128_GCM_IV12_TAG16_HKDF_SHA256 \<equiv> 0x0114"
abbreviation ALG_AES256_GCM_IV12_TAG16_NO_KDF :: alg_id where
  "ALG_AES256_GCM_IV12_TAG16_NO_KDF \<equiv> 0x0078"
abbreviation ALG_AES192_GCM_IV12_TAG16_NO_KDF :: alg_id where
  "ALG_AES192_GCM_IV12_TAG16_NO_KDF \<equiv> 0x0046"
abbreviation ALG_AES128_GCM_IV12_TAG16_NO_KDF :: alg_id where
  "ALG_AES128_GCM_IV12_TAG16_NO_KDF \<equiv> 0x0014"

abbreviation AWS_CRYPTOSDK_HEADER_VERSION_1_0 :: byte where
  "AWS_CRYPTOSDK_HEADER_VERSION_1_0 \<equiv> 1"
abbreviation AWS_CRYPTOSDK_HEADER_VERSION_2_0 :: byte where
  "AWS_CRYPTOSDK_HEADER_VERSION_2_0 \<equiv> 2"

abbreviation AWS_CRYPTOSDK_HEADER_CTYPE_NONFRAMED :: byte where
  "AWS_CRYPTOSDK_HEADER_CTYPE_NONFRAMED \<equiv> 1"
abbreviation AWS_CRYPTOSDK_HEADER_CTYPE_FRAMED :: byte where
  "AWS_CRYPTOSDK_HEADER_CTYPE_FRAMED \<equiv> 2"

definition aws_cryptosdk_algorithm_is_known :: "16 word \<Rightarrow> bool" where
  "aws_cryptosdk_algorithm_is_known alg_id \<longleftrightarrow>
     alg_id = ALG_AES256_GCM_HKDF_SHA512_COMMIT_KEY \<or>
     alg_id = ALG_AES256_GCM_HKDF_SHA512_COMMIT_KEY_ECDSA_P384 \<or>
     alg_id = ALG_AES256_GCM_IV12_TAG16_HKDF_SHA384_ECDSA_P384 \<or>
     alg_id = ALG_AES192_GCM_IV12_TAG16_HKDF_SHA384_ECDSA_P384 \<or>
     alg_id = ALG_AES128_GCM_IV12_TAG16_HKDF_SHA256_ECDSA_P256 \<or>
     alg_id = ALG_AES256_GCM_IV12_TAG16_HKDF_SHA256 \<or>
     alg_id = ALG_AES192_GCM_IV12_TAG16_HKDF_SHA256 \<or>
     alg_id = ALG_AES128_GCM_IV12_TAG16_HKDF_SHA256 \<or>
     alg_id = ALG_AES256_GCM_IV12_TAG16_NO_KDF \<or>
     alg_id = ALG_AES192_GCM_IV12_TAG16_NO_KDF \<or>
     alg_id = ALG_AES128_GCM_IV12_TAG16_NO_KDF"

definition aws_cryptosdk_header_version_is_known :: "8 word \<Rightarrow> bool" where
  "aws_cryptosdk_header_version_is_known v \<longleftrightarrow>
     v = AWS_CRYPTOSDK_HEADER_VERSION_1_0 \<or> v = AWS_CRYPTOSDK_HEADER_VERSION_2_0"

definition aws_cryptosdk_private_algorithm_taglen :: "16 word \<Rightarrow> int" where
  "aws_cryptosdk_private_algorithm_taglen alg_id =
     (if aws_cryptosdk_algorithm_is_known alg_id then 16 else - 1)"

definition aws_cryptosdk_private_algorithm_ivlen :: "16 word \<Rightarrow> int" where
  "aws_cryptosdk_private_algorithm_ivlen alg_id =
     (if aws_cryptosdk_algorithm_is_known alg_id then 12 else - 1)"

definition aws_cryptosdk_header_version_static_fields_len :: "8 word \<Rightarrow> int" where
  "aws_cryptosdk_header_version_static_fields_len v =
     (if v = AWS_CRYPTOSDK_HEADER_VERSION_1_0 then 1 + 1 + 2 + 2 + 2 + 1 + 4 + 1 + 4
      else if v = AWS_CRYPTOSDK_HEADER_VERSION_2_0 then 1 + 2 + 2 + 2 + 1 + 4
      else - 1)"

definition is_known_type :: "8 word \<Rightarrow> bool" where
  "is_known_type t \<longleftrightarrow>
     t = AWS_CRYPTOSDK_HEADER_CTYPE_FRAMED \<or> t = AWS_CRYPTOSDK_HEADER_CTYPE_NONFRAMED"

definition aws_cryptosdk_algorithm_is_committing :: "16 word \<Rightarrow> bool" where
  "aws_cryptosdk_algorithm_is_committing alg_id \<longleftrightarrow>
     alg_id = ALG_AES256_GCM_HKDF_SHA512_COMMIT_KEY \<or>
     alg_id = ALG_AES256_GCM_HKDF_SHA512_COMMIT_KEY_ECDSA_P384"

section \<open>The property table\<close>

datatype evp_md = EVP_sha256 | EVP_sha384 | EVP_sha512

datatype evp_cipher = EVP_aes_128_gcm | EVP_aes_192_gcm | EVP_aes_256_gcm

record alg_impl =
  md_ctor :: "evp_md option"
  sig_md_ctor :: "evp_md option"
  cipher_ctor :: evp_cipher
  curve_name :: "string option"

text \<open>
  \<^verbatim>\<open>md_name\<close> and \<^verbatim>\<open>sig_md_name\<close> are C strings that the macro makes by stringizing its argument
  before expansion: a suite without a digest gets the four-letter string \<^verbatim>\<open>"NULL"\<close>.
\<close>

record alg_properties =
  md_name :: "string option"
  cipher_name :: "string option"
  alg_name :: "string option"
  impl :: "alg_impl option"
  data_key_len :: nat
  content_key_len :: nat
  iv_len :: nat
  tag_len :: nat
  signature_len :: nat
  alg_id :: alg_id
  msg_format_version :: "8 word"
  alg_suite_data_len :: nat
  commitment_len :: nat
  sig_md_name :: "string option"

fun md_str :: "evp_md option \<Rightarrow> string" where
  "md_str None = ''NULL''"
| "md_str (Some EVP_sha256) = ''sha256''"
| "md_str (Some EVP_sha384) = ''sha384''"
| "md_str (Some EVP_sha512) = ''sha512''"

fun cipher_str :: "evp_cipher \<Rightarrow> string" where
  "cipher_str EVP_aes_128_gcm = ''aes_128_gcm''"
| "cipher_str EVP_aes_192_gcm = ''aes_192_gcm''"
| "cipher_str EVP_aes_256_gcm = ''aes_256_gcm''"

definition STATIC_ALG_PROPS ::
  "alg_id \<Rightarrow> string \<Rightarrow> 8 word \<Rightarrow> evp_md option \<Rightarrow> evp_cipher \<Rightarrow> nat \<Rightarrow> nat \<Rightarrow> nat \<Rightarrow> nat \<Rightarrow>
   evp_md option \<Rightarrow> string option \<Rightarrow> nat \<Rightarrow> nat \<Rightarrow> alg_properties" where
  "STATIC_ALG_PROPS id_v name_v version_v md cipher dk_len_v iv_len_v tag_len_v signature_len_v
     sig_md_v curve_name_v alg_suite_data_len_v commitment_len_v =
   \<lparr>md_name = Some (md_str md), cipher_name = Some (cipher_str cipher), alg_name = Some name_v,
    impl = Some \<lparr>md_ctor = md, sig_md_ctor = sig_md_v, cipher_ctor = cipher,
                 curve_name = curve_name_v\<rparr>,
    data_key_len = dk_len_v div 8, content_key_len = dk_len_v div 8, iv_len = iv_len_v,
    tag_len = tag_len_v, signature_len = signature_len_v, alg_id = id_v,
    msg_format_version = version_v, alg_suite_data_len = alg_suite_data_len_v div 8,
    commitment_len = commitment_len_v div 8, sig_md_name = Some (md_str sig_md_v)\<rparr>"

definition aws_cryptosdk_alg_props :: "alg_id \<Rightarrow> alg_properties option" where
  "aws_cryptosdk_alg_props aid =
    (if aid = ALG_AES128_GCM_IV12_TAG16_NO_KDF then Some (STATIC_ALG_PROPS aid
       ''ALG_AES128_GCM_IV12_TAG16_NO_KDF'' AWS_CRYPTOSDK_HEADER_VERSION_1_0
       None EVP_aes_128_gcm 128 12 16 0 None None 0 0)
     else if aid = ALG_AES128_GCM_IV12_TAG16_HKDF_SHA256 then Some (STATIC_ALG_PROPS aid
       ''ALG_AES128_GCM_IV12_TAG16_HKDF_SHA256'' AWS_CRYPTOSDK_HEADER_VERSION_1_0
       (Some EVP_sha256) EVP_aes_128_gcm 128 12 16 0 None None 0 0)
     else if aid = ALG_AES192_GCM_IV12_TAG16_NO_KDF then Some (STATIC_ALG_PROPS aid
       ''ALG_AES192_GCM_IV12_TAG16_NO_KDF'' AWS_CRYPTOSDK_HEADER_VERSION_1_0
       None EVP_aes_192_gcm 192 12 16 0 None None 0 0)
     else if aid = ALG_AES192_GCM_IV12_TAG16_HKDF_SHA256 then Some (STATIC_ALG_PROPS aid
       ''ALG_AES192_GCM_IV12_TAG16_HKDF_SHA256'' AWS_CRYPTOSDK_HEADER_VERSION_1_0
       (Some EVP_sha256) EVP_aes_192_gcm 192 12 16 0 None None 0 0)
     else if aid = ALG_AES256_GCM_IV12_TAG16_NO_KDF then Some (STATIC_ALG_PROPS aid
       ''ALG_AES256_GCM_IV12_TAG16_NO_KDF'' AWS_CRYPTOSDK_HEADER_VERSION_1_0
       None EVP_aes_256_gcm 256 12 16 0 None None 0 0)
     else if aid = ALG_AES256_GCM_IV12_TAG16_HKDF_SHA256 then Some (STATIC_ALG_PROPS aid
       ''ALG_AES256_GCM_IV12_TAG16_HKDF_SHA256'' AWS_CRYPTOSDK_HEADER_VERSION_1_0
       (Some EVP_sha256) EVP_aes_256_gcm 256 12 16 0 None None 0 0)
     else if aid = ALG_AES256_GCM_HKDF_SHA512_COMMIT_KEY then Some (STATIC_ALG_PROPS aid
       ''ALG_AES256_GCM_HKDF_SHA512_COMMIT_KEY'' AWS_CRYPTOSDK_HEADER_VERSION_2_0
       (Some EVP_sha512) EVP_aes_256_gcm 256 12 16 0 None None 256 256)
     else if aid = ALG_AES128_GCM_IV12_TAG16_HKDF_SHA256_ECDSA_P256 then Some (STATIC_ALG_PROPS aid
       ''ALG_AES128_GCM_IV12_TAG16_HKDF_SHA256_ECDSA_P256'' AWS_CRYPTOSDK_HEADER_VERSION_1_0
       (Some EVP_sha256) EVP_aes_128_gcm 128 12 16 71 (Some EVP_sha256) (Some ''prime256v1'') 0 0)
     else if aid = ALG_AES192_GCM_IV12_TAG16_HKDF_SHA384_ECDSA_P384 then Some (STATIC_ALG_PROPS aid
       ''ALG_AES192_GCM_IV12_TAG16_HKDF_SHA384_ECDSA_P384'' AWS_CRYPTOSDK_HEADER_VERSION_1_0
       (Some EVP_sha384) EVP_aes_192_gcm 192 12 16 103 (Some EVP_sha384) (Some ''secp384r1'') 0 0)
     else if aid = ALG_AES256_GCM_IV12_TAG16_HKDF_SHA384_ECDSA_P384 then Some (STATIC_ALG_PROPS aid
       ''ALG_AES256_GCM_IV12_TAG16_HKDF_SHA384_ECDSA_P384'' AWS_CRYPTOSDK_HEADER_VERSION_1_0
       (Some EVP_sha384) EVP_aes_256_gcm 256 12 16 103 (Some EVP_sha384) (Some ''secp384r1'') 0 0)
     else if aid = ALG_AES256_GCM_HKDF_SHA512_COMMIT_KEY_ECDSA_P384 then Some (STATIC_ALG_PROPS aid
       ''ALG_AES256_GCM_HKDF_SHA512_COMMIT_KEY_ECDSA_P384'' AWS_CRYPTOSDK_HEADER_VERSION_2_0
       (Some EVP_sha512) EVP_aes_256_gcm 256 12 16 103 (Some EVP_sha384) (Some ''secp384r1'') 256 256)
     else None)"

definition aws_cryptosdk_private_algorithm_message_id_len :: "alg_properties \<Rightarrow> nat" where
  "aws_cryptosdk_private_algorithm_message_id_len p =
     (if msg_format_version p = AWS_CRYPTOSDK_HEADER_VERSION_1_0 then 16
      else if msg_format_version p = AWS_CRYPTOSDK_HEADER_VERSION_2_0 then 32 else 0)"

datatype sha_version =
  AWS_CRYPTOSDK_NOSHA | AWS_CRYPTOSDK_SHA256 | AWS_CRYPTOSDK_SHA384 | AWS_CRYPTOSDK_SHA512

definition aws_cryptosdk_which_sha :: "alg_id \<Rightarrow> sha_version" where
  "aws_cryptosdk_which_sha aid =
    (if aid = ALG_AES256_GCM_HKDF_SHA512_COMMIT_KEY_ECDSA_P384 \<or>
        aid = ALG_AES256_GCM_HKDF_SHA512_COMMIT_KEY then AWS_CRYPTOSDK_SHA512
     else if aid = ALG_AES256_GCM_IV12_TAG16_HKDF_SHA384_ECDSA_P384 \<or>
        aid = ALG_AES192_GCM_IV12_TAG16_HKDF_SHA384_ECDSA_P384 then AWS_CRYPTOSDK_SHA384
     else if aid = ALG_AES128_GCM_IV12_TAG16_HKDF_SHA256_ECDSA_P256 \<or>
        aid = ALG_AES256_GCM_IV12_TAG16_HKDF_SHA256 \<or>
        aid = ALG_AES192_GCM_IV12_TAG16_HKDF_SHA256 \<or>
        aid = ALG_AES128_GCM_IV12_TAG16_HKDF_SHA256 then AWS_CRYPTOSDK_SHA256
     else AWS_CRYPTOSDK_NOSHA)"

definition aws_cryptosdk_alg_properties_equal :: "alg_properties \<Rightarrow> alg_properties \<Rightarrow> bool" where
  "aws_cryptosdk_alg_properties_equal p q \<longleftrightarrow>
     data_key_len p = data_key_len q \<and> content_key_len p = content_key_len q \<and>
     iv_len p = iv_len q \<and> tag_len p = tag_len q \<and> signature_len p = signature_len q \<and>
     alg_id p = alg_id q"

definition aws_cryptosdk_alg_properties_is_valid :: "alg_properties option \<Rightarrow> bool" where
  "aws_cryptosdk_alg_properties_is_valid props =
     (case props of
        None \<Rightarrow> False
      | Some p \<Rightarrow>
          (case aws_cryptosdk_alg_props (alg_id p) of
             None \<Rightarrow> False
           | Some std \<Rightarrow>
               md_name p \<noteq> None \<and> cipher_name p \<noteq> None \<and> alg_name p \<noteq> None \<and> impl p \<noteq> None \<and>
               aws_cryptosdk_alg_properties_equal p std))"

definition aws_cryptosdk_private_authtag_len :: "alg_properties \<Rightarrow> nat" where
  "aws_cryptosdk_private_authtag_len p =
     (if msg_format_version p = AWS_CRYPTOSDK_HEADER_VERSION_1_0 then iv_len p + tag_len p
      else tag_len p)"

section \<open>Comparison of key commitments\<close>

text \<open>
  \<^verbatim>\<open>uintptr_t\<close> has 64 bits; \<open>load_word\<close> is the \<^verbatim>\<open>memcpy\<close> of eight bytes into one, in little-endian
  order.
\<close>

definition load_word :: "bytes \<Rightarrow> nat \<Rightarrow> 64 word" where
  "load_word mem off = be_val (rev (range_of mem off 8))"

definition aws_cryptosdk_private_commitment_eq :: "byte_buf \<Rightarrow> byte_buf \<Rightarrow> bool" where
  "aws_cryptosdk_private_commitment_eq a b =
     (if buf_len a \<noteq> buf_len b then False
      else if buf_len a = 0 then True
      else if buf_len a \<noteq> 32 then False
      else foldl (\<lambda>accum i. accum OR (load_word (buf_mem a) (i * 8) XOR load_word (buf_mem b) (i * 8)))
             0 [0..<4] = 0)"

section \<open>Facts\<close>

lemmas alg_table = aws_cryptosdk_alg_props_def STATIC_ALG_PROPS_def

lemma alg_props_known: "aws_cryptosdk_alg_props i \<noteq> None \<longleftrightarrow> aws_cryptosdk_algorithm_is_known i"
  by (simp add: aws_cryptosdk_alg_props_def aws_cryptosdk_algorithm_is_known_def)

lemma alg_props_cases:
  assumes "aws_cryptosdk_alg_props i = Some p"
  obtains n v md c k sg smd cv l where
    "p = STATIC_ALG_PROPS i n v md c k 12 16 sg smd cv l l"
    "v = (if aws_cryptosdk_algorithm_is_committing i then AWS_CRYPTOSDK_HEADER_VERSION_2_0
          else AWS_CRYPTOSDK_HEADER_VERSION_1_0)"
    "l = (if aws_cryptosdk_algorithm_is_committing i then 256 else 0)"
    "k \<in> {128, 192, 256}" "sg \<in> {0, 71, 103}"
  using assms unfolding aws_cryptosdk_alg_props_def
  by (simp only: option.inject option.distinct split: if_split_asm)
    (force simp: aws_cryptosdk_algorithm_is_committing_def)+

lemma alg_props_fields:
  assumes "aws_cryptosdk_alg_props i = Some p"
  shows "alg_id p = i" "iv_len p = 12" "tag_len p = 16" "content_key_len p = data_key_len p"
    "data_key_len p \<in> {16, 24, 32}" "signature_len p \<in> {0, 71, 103}" "impl p \<noteq> None"
    "msg_format_version p =
       (if aws_cryptosdk_algorithm_is_committing i then AWS_CRYPTOSDK_HEADER_VERSION_2_0
        else AWS_CRYPTOSDK_HEADER_VERSION_1_0)"
    "alg_suite_data_len p = (if aws_cryptosdk_algorithm_is_committing i then 32 else 0)"
    "commitment_len p = (if aws_cryptosdk_algorithm_is_committing i then 32 else 0)"
  by (rule alg_props_cases [OF assms], auto simp: STATIC_ALG_PROPS_def)+

lemma load_word_eq_iff:
  assumes "off + 8 \<le> length m" "off + 8 \<le> length n"
  shows "load_word m off = load_word n off \<longleftrightarrow> range_of m off 8 = range_of n off 8"
proof
  have l: "length (rev (range_of m off 8)) = 8" "length (rev (range_of n off 8)) = 8"
    using assms by simp_all
  assume "load_word m off = load_word n off"
  then have "be_bytes 8 (be_val (rev (range_of m off 8)) :: 64 word) =
      be_bytes 8 (be_val (rev (range_of n off 8)) :: 64 word)" by (simp only: load_word_def)
  then show "range_of m off 8 = range_of n off 8"
    unfolding be_bytes_64_val [OF l(1)] be_bytes_64_val [OF l(2)] by (simp only: rev_is_rev_conv)
qed (simp add: load_word_def)

lemma take_32_split:
  "take 32 m = range_of m 0 8 @ range_of m 8 8 @ range_of m 16 8 @ range_of m 24 8"
proof -
  have "take (8 + (8 + (8 + 8))) m = range_of m 0 8 @ range_of m 8 8 @ range_of m 16 8 @ range_of m 24 8"
    unfolding take_add range_of_def drop_drop by simp
  then show ?thesis by simp
qed

lemma xor_eq_0_word: "(x :: 64 word) XOR y = 0 \<longleftrightarrow> x = y"
proof
  assume "x XOR y = 0"
  then have "(x XOR y) XOR y = y" by simp
  then show "x = y" by (simp add: xor.assoc)
qed simp

lemma upt_0_4: "[0..<4] = [0, 1, 2, 3]"
  by code_simp

lemma take_32_eq_iff:
  assumes "32 \<le> length m" "32 \<le> length n"
  shows "take 32 m = take 32 n \<longleftrightarrow> (\<forall>off \<in> {0, 8, 16, 24}. load_word m off = load_word n off)"
  using assms by (simp add: take_32_split load_word_eq_iff)

lemma commitment_eq_contents:
  assumes "buf_valid a" "buf_valid b"
  shows "aws_cryptosdk_private_commitment_eq a b \<longleftrightarrow>
           buf_contents a = buf_contents b \<and> buf_len a \<in> {0, 32} \<and> buf_len b = buf_len a"
proof (cases "buf_len a = 32 \<and> buf_len b = 32")
  case True
  have "aws_cryptosdk_private_commitment_eq a b \<longleftrightarrow>
      (\<forall>off \<in> {0, 8, 16, 24}. load_word (buf_mem a) off = load_word (buf_mem b) off)"
    using True by (simp add: aws_cryptosdk_private_commitment_eq_def upt_0_4 or_eq_0_iff
        xor_eq_0_word del: upt_Suc)
  then show ?thesis
    using True assms by (simp add: buf_contents_def buf_valid_def take_32_eq_iff)
qed (auto simp: aws_cryptosdk_private_commitment_eq_def buf_contents_def)

text \<open>
  C21: The constant-time comparison of key commitments decides equality of the two buffers
  exactly when their length is 0 or 32, and rejects every other length.
\<close>

theorem commitment_eq_iff:
  assumes "buf_valid a" "buf_valid b"
  shows "aws_cryptosdk_private_commitment_eq a b \<longleftrightarrow>
           buf_contents a = buf_contents b \<and> buf_len a \<in> {0, 32} \<and> buf_len b = buf_len a"
  by (rule commitment_eq_contents [OF assms])

theorem commitment_eq_witness:
  "aws_cryptosdk_private_commitment_eq (buf_from_array (replicate 32 7)) (buf_from_array (replicate 32 7)) \<and>
   \<not> aws_cryptosdk_private_commitment_eq (buf_from_array (replicate 32 7)) (buf_from_array (replicate 16 7))"
  using commitment_eq_iff [of "buf_from_array (replicate 32 7)" "buf_from_array (replicate 32 7)"]
    commitment_eq_iff [of "buf_from_array (replicate 32 7)" "buf_from_array (replicate 16 7)"]
  by (simp add: buf_from_array_def buf_valid_def)

end
