(* ===== verification/OpenSSL.thy ===== *)
theory OpenSSL
  imports AlgProps "HOL-Library.Monad_Syntax"
begin

text \<open>
  The cryptographic library that \<^verbatim>\<open>source/cipher.c\<close>, \<^verbatim>\<open>source/hkdf.c\<close> and \<^verbatim>\<open>source/cipher_openssl.c\<close>
  call, as a parameter: a record of operations, and the documented behaviour of AES-GCM contexts as a
  predicate on it. A context is represented by the calls made on it so far, so that its behaviour can
  only depend on them. \<open>openssl_ref\<close> is an executable instance.
\<close>

section \<open>Cipher contexts\<close>

text \<open>
  The calls on an \<^verbatim>\<open>EVP_CIPHER_CTX\<close>: \<^verbatim>\<open>EVP_CipherInit_ex\<close> with a cipher only, setting the length of the
  initialization vector, \<^verbatim>\<open>EVP_CipherInit_ex\<close> with key and vector only, \<^verbatim>\<open>EVP_EncryptInit_ex\<close> or
  \<^verbatim>\<open>EVP_DecryptInit_ex\<close> with everything, \<^verbatim>\<open>EVP_CipherUpdate\<close> without and with an output, setting the expected
  tag, and \<^verbatim>\<open>EVP_EncryptFinal_ex\<close> or \<^verbatim>\<open>EVP_DecryptFinal_ex\<close>.
\<close>

datatype cipher_op =
    OP_INIT evp_cipher bool
  | OP_SET_IVLEN nat
  | OP_KEY_IV bytes bytes
  | OP_INIT_FULL evp_cipher bool bytes bytes
  | OP_AAD bytes
  | OP_DATA bytes
  | OP_SET_TAG bytes
  | OP_FINAL

type_synonym cipher_ctx = "cipher_op list"

text \<open>The calls on an \<^verbatim>\<open>EVP_MD_CTX\<close> used for a digest: its algorithm and the data added.\<close>

type_synonym md_ctx = "evp_md \<times> bytes list"

section \<open>The operations\<close>

text \<open>
  \<open>ssl_cipher_op ctx op\<close> says whether the call \<open>op\<close> succeeds on \<open>ctx\<close>, \<open>ssl_cipher_out ctx d\<close> is the output of an update
  with the data \<open>d\<close>, \<open>ssl_final_outlen ctx\<close> is the output length that a final call reports, and
  \<open>ssl_final_error ctx\<close> says whether the error queue has an entry after a failing final call. \<open>ssl_get_tag ctx n\<close> reads the tag. The
  operations on \<^verbatim>\<open>EVP_PKEY_HKDF\<close> contexts follow, and \<open>ssl_hmac md key data\<close> (\<^verbatim>\<open>HMAC\<close>, or the outcome of \<^verbatim>\<open>HMAC_Init_ex\<close>,
  \<^verbatim>\<open>HMAC_Update\<close> and \<^verbatim>\<open>HMAC_Final\<close> on the concatenation of the data, \<^const>\<open>None\<close> when one of the calls fails).
  \<open>ssl_version_number\<close> is \<^verbatim>\<open>OPENSSL_VERSION_NUMBER\<close>.
\<close>

record openssl =
  ssl_version_number :: nat
  ssl_cipher_ctx_new :: bool
  ssl_cipher_op :: "cipher_ctx \<Rightarrow> cipher_op \<Rightarrow> bool"
  ssl_cipher_out :: "cipher_ctx \<Rightarrow> bytes \<Rightarrow> bytes"
  ssl_final_outlen :: "cipher_ctx \<Rightarrow> nat"
  ssl_final_error :: "cipher_ctx \<Rightarrow> bool"
  ssl_get_tag :: "cipher_ctx \<Rightarrow> nat \<Rightarrow> bytes option"
  ssl_hkdf_ctx_new :: bool
  ssl_hkdf_derive_init :: bool
  ssl_hkdf_set_md :: "evp_md \<Rightarrow> bool"
  ssl_hkdf_set_salt :: "bytes \<Rightarrow> bool"
  ssl_hkdf_set_key :: "bytes \<Rightarrow> bool"
  ssl_hkdf_add_info :: "bytes \<Rightarrow> bool"
  ssl_hkdf_derive :: "evp_md \<Rightarrow> bytes \<Rightarrow> bytes \<Rightarrow> bytes \<Rightarrow> nat \<Rightarrow> bytes option"
  ssl_hmac :: "evp_md \<Rightarrow> bytes \<Rightarrow> bytes \<Rightarrow> bytes option"

fun EVP_MD_size :: "evp_md \<Rightarrow> nat" where
  "EVP_MD_size EVP_sha256 = 32"
| "EVP_MD_size EVP_sha384 = 48"
| "EVP_MD_size EVP_sha512 = 64"

text \<open>
  A source of random bytes: \<open>rand i n\<close> is the outcome of the \<open>i\<close>-th call of \<^verbatim>\<open>RAND_bytes\<close> for \<open>n\<close> bytes, \<^const>\<open>None\<close> when it
  does not return 1.
\<close>

type_synonym rand_source = "nat \<Rightarrow> nat \<Rightarrow> bytes option"

definition evp_call :: "openssl \<Rightarrow> cipher_ctx \<Rightarrow> cipher_op \<Rightarrow> cipher_ctx option" where
  "evp_call S ctx op = (if ssl_cipher_op S ctx op then Some (ctx @ [op]) else None)"

section \<open>AES-GCM\<close>

text \<open>
  What a context has been set up with (cipher, length of the vector, key and vector), whether it encrypts, and
  the calls since then.
\<close>

type_synonym gcm_id = "evp_cipher \<times> nat \<times> bytes \<times> bytes"

definition key_iv_of :: "cipher_ctx \<Rightarrow> (bytes \<times> bytes \<times> cipher_op list) option" where
  "key_iv_of ctx = (case ctx of op # ops \<Rightarrow> (case op of OP_KEY_IV k iv \<Rightarrow> Some (k, iv, ops) | _ \<Rightarrow> None) | _ \<Rightarrow> None)"

definition ivlen_of :: "cipher_ctx \<Rightarrow> (nat \<times> cipher_op list) option" where
  "ivlen_of ctx = (case ctx of op # ops \<Rightarrow> (case op of OP_SET_IVLEN n \<Rightarrow> Some (n, ops) | _ \<Rightarrow> None) | _ \<Rightarrow> None)"

definition gcm_setup :: "cipher_ctx \<Rightarrow> (bool \<times> gcm_id \<times> cipher_op list) option" where
  "gcm_setup ctx = (case ctx of
     [] \<Rightarrow> None
   | op # ops \<Rightarrow> (case op of
       OP_INIT c enc \<Rightarrow> do {
         (n, ops) \<leftarrow> ivlen_of ops;
         (k, iv, ops) \<leftarrow> key_iv_of ops;
         Some (enc, (c, n, k, iv), ops)
       }
     | OP_INIT_FULL c enc k iv \<Rightarrow> Some (enc, (c, 12, k, iv), ops)
     | _ \<Rightarrow> None))"

fun aad_of :: "cipher_op list \<Rightarrow> bytes" where
  "aad_of [] = []"
| "aad_of (op # ops) = (case op of OP_AAD a \<Rightarrow> a @ aad_of ops | _ \<Rightarrow> aad_of ops)"

fun data_of :: "cipher_op list \<Rightarrow> bytes" where
  "data_of [] = []"
| "data_of (op # ops) = (case op of OP_DATA d \<Rightarrow> d @ data_of ops | _ \<Rightarrow> data_of ops)"

fun tag_of :: "cipher_op list \<Rightarrow> bytes option" where
  "tag_of [] = None"
| "tag_of (op # ops) = (case op of OP_SET_TAG t \<Rightarrow> (case tag_of ops of None \<Rightarrow> Some t | Some t' \<Rightarrow> Some t')
     | _ \<Rightarrow> tag_of ops)"

text \<open>Counter mode: the output is the input combined with a key stream that starts at a given position.\<close>

unbundle bit_operations_syntax

definition ctr_xor :: "(nat \<Rightarrow> byte) \<Rightarrow> nat \<Rightarrow> bytes \<Rightarrow> bytes" where
  "ctr_xor ks off d = map2 (\<lambda>i b. b XOR ks i) [off..<off + length d] d"

text \<open>
  The documented behaviour of GCM (NIST SP 800-38D), for a key stream \<open>ks\<close> and a tag function \<open>tg\<close>: both directions combine
  the data with the key stream and output as many bytes as they are given, the final call outputs nothing,
  the tag of an encryption is a prefix of the tag function on associated data and ciphertext, and the
  final call of a decryption succeeds only if the tag set is that prefix; otherwise it fails without an entry in the error queue.
  Tags have 16 bytes.
\<close>

definition gcm_spec ::
  "openssl \<Rightarrow> (gcm_id \<Rightarrow> nat \<Rightarrow> byte) \<Rightarrow> (gcm_id \<Rightarrow> bytes \<Rightarrow> bytes \<Rightarrow> bytes) \<Rightarrow> bool" where
  "gcm_spec S ks tg \<longleftrightarrow>
     (\<forall>ctx enc g ops d. gcm_setup ctx = Some (enc, g, ops) \<longrightarrow>
        ssl_cipher_out S ctx d = ctr_xor (ks g) (length (data_of ops)) d) \<and>
     (\<forall>ctx. ssl_final_outlen S ctx = 0) \<and>
     (\<forall>ctx g ops n t. gcm_setup ctx = Some (True, g, ops) \<longrightarrow> ssl_get_tag S ctx n = Some t \<longrightarrow>
        t = take n (tg g (aad_of ops) (ctr_xor (ks g) 0 (data_of ops)))) \<and>
     (\<forall>ctx g ops. gcm_setup ctx = Some (False, g, ops) \<longrightarrow>
        ssl_cipher_op S ctx OP_FINAL =
          (case tag_of ops of None \<Rightarrow> False | Some t \<Rightarrow> t = take (length t) (tg g (aad_of ops) (data_of ops)))) \<and>
     (\<forall>ctx g ops. gcm_setup ctx = Some (False, g, ops) \<longrightarrow> \<not> ssl_final_error S ctx) \<and>
     (\<forall>g aad ct. length (tg g aad ct) = 16)"

text \<open>A library that has the resources it needs: no call fails but a final call that checks a tag.\<close>

definition gcm_ok :: "openssl \<Rightarrow> bool" where
  "gcm_ok S \<longleftrightarrow> ssl_cipher_ctx_new S \<and> (\<forall>ctx op. op \<noteq> OP_FINAL \<longrightarrow> ssl_cipher_op S ctx op) \<and>
     (\<forall>ctx g ops. gcm_setup ctx = Some (True, g, ops) \<longrightarrow> ssl_cipher_op S ctx OP_FINAL) \<and>
     (\<forall>ctx n. \<exists>t. ssl_get_tag S ctx n = Some t)"

lemma length_ctr_xor [simp]: "length (ctr_xor ks off d) = length d"
  by (simp add: ctr_xor_def)

lemma ctr_xor_inverse [simp]: "ctr_xor ks off (ctr_xor ks off d) = d"
  by (rule nth_equalityI) (simp_all add: ctr_xor_def xor.assoc)

lemma ctr_xor_append: "ctr_xor ks off (d @ e) = ctr_xor ks off d @ ctr_xor ks (off + length d) e"
proof (rule nth_equalityI)
  fix i assume "i < length (ctr_xor ks off (d @ e))"
  then show "ctr_xor ks off (d @ e) ! i = (ctr_xor ks off d @ ctr_xor ks (off + length d) e) ! i"
    by (cases "i < length d") (simp_all add: ctr_xor_def nth_append)
qed simp

lemma aad_of_append [simp]: "aad_of (ops @ ops') = aad_of ops @ aad_of ops'"
  by (induction ops) (auto split: cipher_op.split)

lemma data_of_append [simp]: "data_of (ops @ ops') = data_of ops @ data_of ops'"
  by (induction ops) (auto split: cipher_op.split)

lemma tag_of_append [simp]:
  "tag_of (ops @ ops') = (case tag_of ops' of None \<Rightarrow> tag_of ops | Some t \<Rightarrow> Some t)"
  by (induction ops) (auto split: cipher_op.split option.split)

lemma ivlen_of_Some: "ivlen_of ctx = Some (n, ops) \<longleftrightarrow> ctx = OP_SET_IVLEN n # ops"
  by (auto simp: ivlen_of_def split: list.splits cipher_op.splits)

lemma key_iv_of_Some: "key_iv_of ctx = Some (k, iv, ops) \<longleftrightarrow> ctx = OP_KEY_IV k iv # ops"
  by (auto simp: key_iv_of_def split: list.splits cipher_op.splits)

lemma gcm_setup_Some:
  "gcm_setup ctx = Some (enc, (c, n, k, iv), ops) \<longleftrightarrow>
     ctx = OP_INIT c enc # OP_SET_IVLEN n # OP_KEY_IV k iv # ops \<or> ctx = OP_INIT_FULL c enc k iv # ops \<and> n = 12"
proof (cases ctx)
  case (Cons op rest)
  then show ?thesis
    by (cases op) (auto simp: gcm_setup_def bind_eq_Some_conv ivlen_of_Some key_iv_of_Some)
qed (simp add: gcm_setup_def)

lemma gcm_setup_append:
  "gcm_setup ctx = Some (enc, g, ops) \<Longrightarrow> gcm_setup (ctx @ ops') = Some (enc, g, ops @ ops')"
  by (cases g) (auto simp: gcm_setup_Some)

lemma evp_call_setup:
  assumes "evp_call S ctx op = Some ctx'" "gcm_setup ctx = Some (enc, g, ops)"
  shows "gcm_setup ctx' = Some (enc, g, ops @ [op])"
  using assms gcm_setup_append [OF assms(2), of "[op]"] by (auto simp: evp_call_def split: if_splits)

section \<open>A reference instance\<close>

text \<open>
  An executable instance without any cryptographic strength. It shows that the contract can be met and
  evaluates the definitions on concrete inputs.
\<close>

definition ref_ks :: "gcm_id \<Rightarrow> nat \<Rightarrow> byte" where
  "ref_ks g i = 0x5A"

definition ref_tag :: "gcm_id \<Rightarrow> bytes \<Rightarrow> bytes \<Rightarrow> bytes" where
  "ref_tag g aad ct = replicate 16 (sum_list aad + sum_list ct)"

definition ref_cipher_op :: "cipher_ctx \<Rightarrow> cipher_op \<Rightarrow> bool" where
  "ref_cipher_op ctx op = (case op of
     OP_FINAL \<Rightarrow> (case gcm_setup ctx of
        None \<Rightarrow> False
      | Some (enc, g, ops) \<Rightarrow> enc \<or>
          (case tag_of ops of None \<Rightarrow> False | Some t \<Rightarrow> t = take (length t) (ref_tag g (aad_of ops) (data_of ops))))
   | _ \<Rightarrow> True)"

definition ref_cipher_out :: "cipher_ctx \<Rightarrow> bytes \<Rightarrow> bytes" where
  "ref_cipher_out ctx d = (case gcm_setup ctx of
     None \<Rightarrow> d | Some (enc, g, ops) \<Rightarrow> ctr_xor (ref_ks g) (length (data_of ops)) d)"

definition ref_get_tag :: "cipher_ctx \<Rightarrow> nat \<Rightarrow> bytes option" where
  "ref_get_tag ctx n = (case gcm_setup ctx of
     None \<Rightarrow> Some [] | Some (enc, g, ops) \<Rightarrow> Some (take n (ref_tag g (aad_of ops) (ctr_xor (ref_ks g) 0 (data_of ops)))))"

definition openssl_ref :: openssl where
  "openssl_ref = \<lparr>
     ssl_version_number = 0x30000000, ssl_cipher_ctx_new = True, ssl_cipher_op = ref_cipher_op, ssl_cipher_out = ref_cipher_out,
     ssl_final_outlen = (\<lambda>ctx. 0), ssl_final_error = (\<lambda>ctx. False), ssl_get_tag = ref_get_tag,
     ssl_hkdf_ctx_new = True, ssl_hkdf_derive_init = True, ssl_hkdf_set_md = (\<lambda>md. True),
     ssl_hkdf_set_salt = (\<lambda>salt. True), ssl_hkdf_set_key = (\<lambda>key. True), ssl_hkdf_add_info = (\<lambda>info. True),
     ssl_hkdf_derive = (\<lambda>md salt key info n. Some (replicate n (sum_list salt + sum_list key + sum_list info))),
     ssl_hmac = (\<lambda>md key data. Some (replicate (EVP_MD_size md) (sum_list key + sum_list data)))\<rparr>"

lemma openssl_ref_simps:
  "ssl_version_number openssl_ref = 0x30000000" "ssl_cipher_ctx_new openssl_ref" "ssl_cipher_op openssl_ref = ref_cipher_op"
  "ssl_cipher_out openssl_ref = ref_cipher_out" "ssl_final_outlen openssl_ref = (\<lambda>ctx. 0)"
  "ssl_final_error openssl_ref = (\<lambda>ctx. False)" "ssl_get_tag openssl_ref = ref_get_tag"
  "ssl_hkdf_ctx_new openssl_ref" "ssl_hkdf_derive_init openssl_ref" "ssl_hkdf_set_md openssl_ref md"
  "ssl_hkdf_set_salt openssl_ref salt" "ssl_hkdf_set_key openssl_ref key" "ssl_hkdf_add_info openssl_ref info"
  "ssl_hkdf_derive openssl_ref md salt key info n = Some (replicate n (sum_list salt + sum_list key + sum_list info))"
  "ssl_hmac openssl_ref md key data = Some (replicate (EVP_MD_size md) (sum_list key + sum_list data))"
  by (simp_all add: openssl_ref_def)

lemma openssl_ref_spec: "gcm_spec openssl_ref ref_ks ref_tag"
  by (auto simp: gcm_spec_def openssl_ref_simps ref_cipher_out_def ref_get_tag_def ref_cipher_op_def ref_tag_def)

lemma openssl_ref_ok: "gcm_ok openssl_ref"
  by (auto simp: gcm_ok_def openssl_ref_simps ref_get_tag_def ref_cipher_op_def split: option.split cipher_op.split)

end
