(* ===== verification/Hkdf.thy ===== *)
theory Hkdf
  imports OpenSSL
begin

text \<open>
  HKDF, \<^verbatim>\<open>source/hkdf.c\<close>: the implementation on top of HMAC for libraries before version 1.1.0, the one on top of
  \<^verbatim>\<open>EVP_PKEY_HKDF\<close>, and their equivalence with RFC 5869.
\<close>

section \<open>The code\<close>

abbreviation EVP_MAX_MD_SIZE :: nat where
  "EVP_MAX_MD_SIZE \<equiv> 64"

fun aws_cryptosdk_get_evp_md :: "sha_version \<Rightarrow> evp_md option" where
  "aws_cryptosdk_get_evp_md AWS_CRYPTOSDK_SHA256 = Some EVP_sha256"
| "aws_cryptosdk_get_evp_md AWS_CRYPTOSDK_SHA384 = Some EVP_sha384"
| "aws_cryptosdk_get_evp_md AWS_CRYPTOSDK_SHA512 = Some EVP_sha512"
| "aws_cryptosdk_get_evp_md AWS_CRYPTOSDK_NOSHA = None"

definition mysalt :: "evp_md \<Rightarrow> bytes \<Rightarrow> bytes" where
  "mysalt evp_md salt = (if salt \<noteq> [] then salt else replicate (EVP_MD_size evp_md) 0)"

definition aws_cryptosdk_hkdf_extract :: "openssl \<Rightarrow> sha_version \<Rightarrow> bytes \<Rightarrow> bytes \<Rightarrow> bytes result" where
  "aws_cryptosdk_hkdf_extract S which_sha salt ikm =
     (case aws_cryptosdk_get_evp_md which_sha of
        None \<Rightarrow> Inl AWS_CRYPTOSDK_ERR_UNSUPPORTED_FORMAT
      | Some evp_md \<Rightarrow>
          (case ssl_hmac S evp_md (mysalt evp_md salt) ikm of
             None \<Rightarrow> Inl AWS_CRYPTOSDK_ERR_CRYPTO_UNKNOWN
           | Some prk \<Rightarrow> if length prk = 0 then Inl AWS_CRYPTOSDK_ERR_CRYPTO_UNKNOWN else Inr prk))"

text \<open>
  The loop of the expansion, from index \<open>idx\<close> up to \<open>n\<close>: \<open>t\<close> is the previous block and \<open>remaining\<close> the number of bytes still to be written;
  \<^const>\<open>None\<close> is the jump to \<^verbatim>\<open>err\<close>.
\<close>

function hkdf_expand_loop ::
  "openssl \<Rightarrow> evp_md \<Rightarrow> bytes \<Rightarrow> bytes \<Rightarrow> nat \<Rightarrow> nat \<Rightarrow> bytes \<Rightarrow> nat \<Rightarrow> bytes \<Rightarrow> bytes option" where
  "hkdf_expand_loop S evp_md prk info n idx t remaining mem =
     (if n < idx then Some mem
      else case ssl_hmac S evp_md prk
          ((if idx \<noteq> 1 then take (EVP_MD_size evp_md) t else []) @ info @ [word_of_nat idx]) of
        None \<Rightarrow> None
      | Some t \<Rightarrow>
          let hash_len = EVP_MD_size evp_md;
              bytes_to_write = (if remaining < hash_len then remaining else hash_len)
          in hkdf_expand_loop S evp_md prk info n (idx + 1) t (remaining - bytes_to_write)
               (splice mem ((idx - 1) * hash_len) (take bytes_to_write t)))"
  by pat_completeness auto

termination hkdf_expand_loop
  by (relation "measure (\<lambda>(S, evp_md, prk, info, n, idx, t, remaining, mem). Suc n - idx)") auto

declare hkdf_expand_loop.simps [simp del]

definition aws_cryptosdk_hkdf_expand ::
  "aws_lib \<Rightarrow> openssl \<Rightarrow> byte_buf \<Rightarrow> sha_version \<Rightarrow> bytes \<Rightarrow> bytes \<Rightarrow> status \<times> byte_buf" where
  "aws_cryptosdk_hkdf_expand L S okm which_sha prk info =
     (case aws_cryptosdk_get_evp_md which_sha of
        None \<Rightarrow> (AWS_OP_ERR AWS_CRYPTOSDK_ERR_UNSUPPORTED_FORMAT, okm)
      | Some evp_md \<Rightarrow>
          let hash_len = EVP_MD_size evp_md;
              n = (buf_len okm + hash_len - 1) div hash_len;
              err = (AWS_OP_ERR AWS_CRYPTOSDK_ERR_CRYPTO_UNKNOWN, lib_secure_zero L okm)
          in if buf_len okm = 0 \<or> length prk = 0 then err
             else if n > 255 then err
             else case hkdf_expand_loop S evp_md prk info n 1 [] (buf_len okm) (buf_mem okm) of
                    None \<Rightarrow> err
                  | Some mem \<Rightarrow> (AWS_OP_SUCCESS, okm\<lparr>buf_mem := mem\<rparr>))"

definition aws_cryptosdk_openssl_hkdf_version ::
  "aws_lib \<Rightarrow> openssl \<Rightarrow> byte_buf \<Rightarrow> sha_version \<Rightarrow> bytes \<Rightarrow> bytes \<Rightarrow> bytes \<Rightarrow> status \<times> byte_buf" where
  "aws_cryptosdk_openssl_hkdf_version L S okm which_sha salt ikm info =
     (case aws_cryptosdk_get_evp_md which_sha of
        None \<Rightarrow> (AWS_OP_ERR AWS_CRYPTOSDK_ERR_UNSUPPORTED_FORMAT, okm)
      | Some evp_md \<Rightarrow>
          if \<not> ssl_hkdf_ctx_new S then (AWS_OP_ERR AWS_CRYPTOSDK_ERR_CRYPTO_UNKNOWN, okm)
          else
            let salt = mysalt evp_md salt;
                err = (AWS_OP_ERR AWS_CRYPTOSDK_ERR_CRYPTO_UNKNOWN, lib_secure_zero L okm)
            in if \<not> ssl_hkdf_derive_init S then err
               else if \<not> ssl_hkdf_set_md S evp_md then err
               else if \<not> ssl_hkdf_set_salt S salt then err
               else if \<not> ssl_hkdf_set_key S ikm then err
               else if \<not> ssl_hkdf_add_info S info then err
               else case ssl_hkdf_derive S evp_md salt ikm info (buf_len okm) of
                      None \<Rightarrow> err
                    | Some out \<Rightarrow>
                        (AWS_OP_SUCCESS, okm\<lparr>buf_mem := splice (buf_mem okm) 0 out, buf_len := length out\<rparr>))"

definition aws_cryptosdk_hkdf ::
  "aws_lib \<Rightarrow> openssl \<Rightarrow> byte_buf \<Rightarrow> sha_version \<Rightarrow> bytes \<Rightarrow> bytes \<Rightarrow> bytes \<Rightarrow> status \<times> byte_buf" where
  "aws_cryptosdk_hkdf L S okm which_sha salt ikm info =
     (if ssl_version_number S < 0x10100000 then
        (case aws_cryptosdk_hkdf_extract S which_sha salt ikm of
           Inl e \<Rightarrow> (AWS_OP_ERR e, okm)
         | Inr prk \<Rightarrow> aws_cryptosdk_hkdf_expand L S okm which_sha prk info)
      else aws_cryptosdk_openssl_hkdf_version L S okm which_sha salt ikm info)"

section \<open>RFC 5869\<close>

fun rfc5869_T :: "(bytes \<Rightarrow> bytes) \<Rightarrow> bytes \<Rightarrow> nat \<Rightarrow> bytes" where
  "rfc5869_T hm info 0 = []"
| "rfc5869_T hm info (Suc i) = hm (rfc5869_T hm info i @ info @ [word_of_nat (Suc i)])"

definition rfc5869_expand :: "(bytes \<Rightarrow> bytes) \<Rightarrow> bytes \<Rightarrow> nat \<Rightarrow> nat \<Rightarrow> bytes" where
  "rfc5869_expand hm info n len = take len (concat (map (rfc5869_T hm info) [1..<Suc n]))"

text \<open>\<open>rfc5869 hmac md salt ikm info len\<close> is the output keying material.\<close>

definition rfc5869 ::
  "(evp_md \<Rightarrow> bytes \<Rightarrow> bytes \<Rightarrow> bytes) \<Rightarrow> evp_md \<Rightarrow> bytes \<Rightarrow> bytes \<Rightarrow> bytes \<Rightarrow> nat \<Rightarrow> bytes" where
  "rfc5869 hmac md salt ikm info len =
     (let salt = (if salt = [] then replicate (EVP_MD_size md) 0 else salt);
          prk = hmac md salt ikm
      in rfc5869_expand (hmac md prk) info ((len + EVP_MD_size md - 1) div EVP_MD_size md) len)"

text \<open>
  The documented behaviour of the library: HMAC is a function whose value has the length of the digest, and
  \<^verbatim>\<open>EVP_PKEY_derive\<close> on an HKDF context computes RFC 5869.
\<close>

definition hkdf_spec :: "openssl \<Rightarrow> (evp_md \<Rightarrow> bytes \<Rightarrow> bytes \<Rightarrow> bytes) \<Rightarrow> bool" where
  "hkdf_spec S hmac \<longleftrightarrow>
     (\<forall>md key data. ssl_hmac S md key data = Some (hmac md key data) \<and> length (hmac md key data) = EVP_MD_size md) \<and>
     ssl_hkdf_ctx_new S \<and> ssl_hkdf_derive_init S \<and> (\<forall>md. ssl_hkdf_set_md S md) \<and>
     (\<forall>salt. ssl_hkdf_set_salt S salt) \<and> (\<forall>key. ssl_hkdf_set_key S key) \<and> (\<forall>info. ssl_hkdf_add_info S info) \<and>
     (\<forall>md salt key info n. 0 < n \<longrightarrow> n \<le> 255 * EVP_MD_size md \<longrightarrow>
        ssl_hkdf_derive S md salt key info n = Some (rfc5869 hmac md salt key info n))"

section \<open>Equivalence\<close>

lemma length_rfc5869_T: "(\<And>d. length (hm d) = h) \<Longrightarrow> length (rfc5869_T hm info (Suc i)) = h"
  by simp

lemma length_concat_T:
  "(\<And>d. length (hm d) = h) \<Longrightarrow> length (concat (map (rfc5869_T hm info) [1..<Suc k])) = k * h"
  by (induction k) auto

lemma hkdf_expand_loop_eq:
  assumes hm: "\<And>d. ssl_hmac S md prk d = Some (hm d)" "\<And>d. length (hm d) = EVP_MD_size md"
    and len: "len \<le> length m" "len \<le> n * EVP_MD_size md" "n = 0 \<or> (n - 1) * EVP_MD_size md < len"
    and k: "k \<le> n"
  shows "hkdf_expand_loop S md prk info n (Suc k) (rfc5869_T hm info k) (len - k * EVP_MD_size md)
      (splice m 0 (rfc5869_expand hm info k len)) = Some (splice m 0 (rfc5869_expand hm info n len))"
  using k
proof (induction "n - k" arbitrary: k)
  case 0
  then show ?case by (subst hkdf_expand_loop.simps) simp
next
  case (Suc d)
  let ?h = "EVP_MD_size md" and ?T = "rfc5869_T hm info" and ?A = "concat (map (rfc5869_T hm info) [1..<Suc k])"
  have kn: "k < n" "d = n - Suc k" using Suc by simp_all
  have "k \<le> n - 1" using kn by linarith
  then have "k * ?h \<le> (n - 1) * ?h" by (rule mult_le_mono1)
  then have kh: "k * ?h < len" using len(3) kn(1) by linarith
  have A: "length ?A = k * ?h" using length_concat_T [OF hm(2)] .
  have T: "(if Suc k \<noteq> 1 then take ?h (?T k) else []) = ?T k" by (cases k) (simp_all add: hm(2))
  let ?B = "take (len - k * ?h) (?T (Suc k))"
  have B: "take (if len - k * ?h < ?h then len - k * ?h else ?h) (?T (Suc k)) = ?B" by (simp add: hm(2))
  have e: "rfc5869_expand hm info k len = ?A" using A kh by (simp add: rfc5869_expand_def)
  have e': "rfc5869_expand hm info (Suc k) len = ?A @ ?B" using A kh by (simp add: rfc5869_expand_def)
  have "splice (splice m 0 ?A) (k * ?h) ?B = splice m 0 (?A @ ?B)"
    using splice_adjacent [of 0 ?A ?B m] A kh len(1) by simp
  moreover have "len - k * ?h - (if len - k * ?h < ?h then len - k * ?h else ?h) = len - Suc k * ?h"
    by (simp add: add.commute)
  moreover have u: "ssl_hmac S md prk ((if Suc k \<noteq> 1 then take ?h (?T k) else []) @ info @ [word_of_nat (Suc k)]) =
      Some (?T (Suc k))"
    by (simp only: T hm(1) rfc5869_T.simps)
  moreover have "\<not> n < Suc k" "Suc k - 1 = k" using kn(1) by simp_all
  ultimately have "hkdf_expand_loop S md prk info n (Suc k) (?T k) (len - k * ?h) (splice m 0 ?A) =
      hkdf_expand_loop S md prk info n (Suc k + 1) (?T (Suc k)) (len - Suc k * ?h) (splice m 0 (?A @ ?B))"
    by (subst hkdf_expand_loop.simps) (simp only: u option.case Let_def if_False B)
  then show ?case using Suc.hyps(1) [OF kn(2)] kn(1) unfolding e e' by simp
qed

lemma rfc5869_expand_0: "rfc5869_expand hm info 0 len = []"
  by (simp add: rfc5869_expand_def)

lemma hkdf_expand_eq:
  assumes hm: "\<And>d. ssl_hmac S md prk d = Some (hm d)" "\<And>d. length (hm d) = EVP_MD_size md"
    and md: "aws_cryptosdk_get_evp_md which_sha = Some md" and prk: "length prk \<noteq> 0"
    and okm: "buf_valid okm" "0 < buf_len okm" "buf_len okm \<le> 255 * EVP_MD_size md"
  shows "aws_cryptosdk_hkdf_expand L S okm which_sha prk info =
    (AWS_OP_SUCCESS, okm\<lparr>buf_mem := splice (buf_mem okm) 0
       (rfc5869_expand hm info ((buf_len okm + EVP_MD_size md - 1) div EVP_MD_size md) (buf_len okm))\<rparr>)"
proof -
  let ?h = "EVP_MD_size md"
  define n where "n = (buf_len okm + ?h - 1) div ?h"
  have h: "0 < ?h" by (cases md) simp_all
  have hi: "buf_len okm \<le> n * ?h" "(n - 1) * ?h < buf_len okm" "0 < n" "n \<le> 255"
  proof -
    have q: "n * ?h \<le> buf_len okm + ?h - 1" by (simp add: n_def)
    have "buf_len okm + ?h - 1 < n * ?h + ?h"
      using mod_less_divisor [OF h, of "buf_len okm + ?h - 1"] div_mult_mod_eq [of "buf_len okm + ?h - 1" ?h]
      by (simp only: n_def)
    then show le: "buf_len okm \<le> n * ?h" by linarith
    then show n0: "0 < n" using okm(2) by (cases n) auto
    have "n * ?h = (n - 1) * ?h + ?h" using n0 by (cases n) auto
    then show lt: "(n - 1) * ?h < buf_len okm" using q h okm(2) by linarith
    then have "(n - 1) * ?h < 255 * ?h" using okm(3) by linarith
    then have "n - 1 < 255" by simp
    then show "n \<le> 255" by linarith
  qed
  have "hkdf_expand_loop S md prk info n 1 [] (buf_len okm) (buf_mem okm) =
      Some (splice (buf_mem okm) 0 (rfc5869_expand hm info n (buf_len okm)))"
    using hkdf_expand_loop_eq [where hm = hm and k = 0, OF hm, of "buf_len okm" "buf_mem okm" n] hi okm(1)
    by (simp add: rfc5869_expand_0 buf_valid_def)
  then show ?thesis
    unfolding aws_cryptosdk_hkdf_expand_def Let_def md option.case n_def [symmetric] using prk okm(2) hi(4) by simp
qed

lemma length_rfc5869_expand:
  "(\<And>d. length (hm d) = h) \<Longrightarrow> len \<le> n * h \<Longrightarrow> length (rfc5869_expand hm info n len) = len"
  unfolding rfc5869_expand_def length_take using length_concat_T [of hm h info n] by simp

lemma length_rfc5869:
  assumes "hkdf_spec S hmac"
  shows "length (rfc5869 hmac md salt ikm info len) = len"
proof -
  let ?h = "EVP_MD_size md"
  have h: "0 < ?h" by (cases md) simp_all
  have "len \<le> (len + ?h - 1) div ?h * ?h"
    using mod_less_divisor [OF h, of "len + ?h - 1"] div_mult_mod_eq [of "len + ?h - 1" ?h] by linarith
  then show ?thesis
    using assms unfolding rfc5869_def Let_def by (intro length_rfc5869_expand [where h = ?h]) (auto simp: hkdf_spec_def)
qed

lemma hkdf_rfc5869:
  assumes S: "hkdf_spec S hmac" and md: "aws_cryptosdk_get_evp_md which_sha = Some md"
    and okm: "buf_valid okm" "0 < buf_len okm" "buf_len okm \<le> 255 * EVP_MD_size md"
  shows "aws_cryptosdk_hkdf L S okm which_sha salt ikm info =
    (AWS_OP_SUCCESS, okm\<lparr>buf_mem := splice (buf_mem okm) 0 (rfc5869 hmac md salt ikm info (buf_len okm))\<rparr>)"
proof (cases "ssl_version_number S < 0x10100000")
  case True
  let ?prk = "hmac md (mysalt md salt) ikm"
  have hm: "\<And>key d. ssl_hmac S md key d = Some (hmac md key d)" "\<And>key d. length (hmac md key d) = EVP_MD_size md"
    using S by (simp_all add: hkdf_spec_def)
  have h: "EVP_MD_size md \<noteq> 0" by (cases md) simp_all
  then have "?prk \<noteq> []" using hm(2) by (metis list.size(3))
  then have "aws_cryptosdk_hkdf_extract S which_sha salt ikm = Inr ?prk"
    using hm(1) md by (simp add: aws_cryptosdk_hkdf_extract_def)
  then show ?thesis
    using True h hkdf_expand_eq [where prk = ?prk and hm = "hmac md ?prk" and S = S, OF hm md _ okm]
    by (simp add: aws_cryptosdk_hkdf_def rfc5869_def mysalt_def hm(2))
next
  case False
  let ?salt = "mysalt md salt"
  have e: "rfc5869 hmac md ?salt ikm info (buf_len okm) = rfc5869 hmac md salt ikm info (buf_len okm)"
    by (simp add: rfc5869_def mysalt_def)
  have "length (rfc5869 hmac md salt ikm info (buf_len okm)) = buf_len okm" by (rule length_rfc5869 [OF S])
  then show ?thesis
    using False S md okm
    by (simp add: aws_cryptosdk_hkdf_def aws_cryptosdk_openssl_hkdf_version_def hkdf_spec_def Let_def e)
qed

text \<open>
  C31: Whichever implementation is compiled in, HKDF returns the output keying material of RFC 5869 in the requested length, for every
  length the standard allows and every digest; it changes nothing beyond the requested bytes.
\<close>

theorem hkdf_correct:
  assumes S: "hkdf_spec S hmac" and md: "aws_cryptosdk_get_evp_md which_sha = Some md"
    and okm: "buf_valid okm" "0 < buf_len okm" "buf_len okm \<le> 255 * EVP_MD_size md"
  shows "aws_cryptosdk_hkdf L S okm which_sha salt ikm info =
    (AWS_OP_SUCCESS, okm\<lparr>buf_mem := splice (buf_mem okm) 0 (rfc5869 hmac md salt ikm info (buf_len okm))\<rparr>)"
  by (rule hkdf_rfc5869 [OF assms])

definition ref_hmac :: "evp_md \<Rightarrow> bytes \<Rightarrow> bytes \<Rightarrow> bytes" where
  "ref_hmac md key data = replicate (EVP_MD_size md) (sum_list key + sum_list data)"

definition hkdf_ref :: "nat \<Rightarrow> openssl" where
  "hkdf_ref v = openssl_ref\<lparr>ssl_version_number := v, ssl_hkdf_derive := (\<lambda>md salt key info n. Some (rfc5869 ref_hmac md salt key info n))\<rparr>"

lemma hkdf_ref_spec: "hkdf_spec (hkdf_ref v) ref_hmac"
  by (simp add: hkdf_spec_def hkdf_ref_def openssl_ref_simps ref_hmac_def)

theorem hkdf_witness:
  "fst (aws_cryptosdk_hkdf aws_ref (hkdf_ref 0x1000200f) (buf_from_array (replicate 40 0)) AWS_CRYPTOSDK_SHA256 [] [1, 2] [3]) =
     AWS_OP_SUCCESS"
  using hkdf_correct [OF hkdf_ref_spec, of AWS_CRYPTOSDK_SHA256 EVP_sha256 "buf_from_array (replicate 40 0)" aws_ref
      "0x1000200f" "[]" "[1, 2]" "[3]"]
  by (simp add: buf_valid_def buf_from_array_def)

end
