(* ===== verification/FrameFmt.thy ===== *)
theory FrameFmt
  imports AlgProps
begin

text \<open>
  The format of message bodies (\<^verbatim>\<open>source/framefmt.c\<close>): frames, final frames and non-framed bodies.
  One set of functions both writes and reads a frame, steered by the \<^verbatim>\<open>writing\<close> flag of the frame
  state; the initialization vector, the ciphertext and the tag are not copied but located inside
  the ciphertext buffer.
\<close>

type_synonym uint64 = "64 word"
type_synonym uint32 = "32 word"

abbreviation LAST_FRAME_MARK :: uint32 where
  "LAST_FRAME_MARK \<equiv> 0xFFFFFFFF"
abbreviation MAX_FRAME_SIZE :: uint64 where
  "MAX_FRAME_SIZE \<equiv> 0xFFFFFFFF"
abbreviation MAX_UNFRAMED_PLAINTEXT_SIZE :: uint64 where
  "MAX_UNFRAMED_PLAINTEXT_SIZE \<equiv> 0xFFFFFFFE0"
abbreviation SIZE_MAX64 :: uint64 where
  "SIZE_MAX64 \<equiv> - 1"

section \<open>Frames and frame states\<close>

datatype frame_type = FRAME_TYPE_SINGLE | FRAME_TYPE_FRAME | FRAME_TYPE_FINAL

text \<open>
  A byte buffer inside the ciphertext: \<open>sl_ptr\<close> is its address as an offset into the ciphertext
  object, \<^const>\<open>None\<close> the null pointer.
\<close>

record slice =
  sl_ptr :: "nat option"
  sl_len :: nat
  sl_capacity :: nat

definition slice_zero :: slice where
  "slice_zero = \<lparr>sl_ptr = None, sl_len = 0, sl_capacity = 0\<rparr>"

record frame =
  frame_ty :: frame_type
  sequence_number :: uint32
  frame_iv :: slice
  frame_ciphertext :: slice
  frame_authtag :: slice

definition frame_zero :: frame where
  "frame_zero = \<lparr>frame_ty = FRAME_TYPE_SINGLE, sequence_number = 0, frame_iv = slice_zero,
     frame_ciphertext = slice_zero, frame_authtag = slice_zero\<rparr>"

text \<open>The union of cursor and buffer is kept as two fields; \<open>fs_writing\<close> says which one is in use.\<close>

record framestate =
  fs_max_frame_size :: uint64
  fs_plaintext_size :: uint64
  fs_ciphertext_size :: uint64
  fs_alg_props :: alg_properties
  fs_cursor :: byte_cursor
  fs_buffer :: byte_buf
  fs_writing :: bool
  fs_too_small :: bool

section \<open>Fields\<close>

definition field_be32 :: "aws_lib \<Rightarrow> framestate \<Rightarrow> uint32 \<Rightarrow> uint32 \<times> framestate" where
  "field_be32 L state field =
     (let state = state\<lparr>fs_ciphertext_size := fs_ciphertext_size state + 4\<rparr> in
      if fs_writing state then
        (if fs_too_small state then (field, state)
         else case lib_write_be32 L (fs_buffer state) field of
           None \<Rightarrow> (field, state\<lparr>fs_too_small := True\<rparr>)
         | Some b \<Rightarrow> (field, state\<lparr>fs_buffer := b\<rparr>))
      else
        (if fs_too_small state then (0, state)
         else case lib_read_be32 L (fs_cursor state) of
           None \<Rightarrow> (0, state\<lparr>fs_too_small := True\<rparr>)
         | Some (v, c) \<Rightarrow> (v, state\<lparr>fs_cursor := c\<rparr>)))"

definition field_be64 :: "aws_lib \<Rightarrow> framestate \<Rightarrow> uint64 \<Rightarrow> uint64 \<times> framestate" where
  "field_be64 L state field =
     (let state = state\<lparr>fs_ciphertext_size := fs_ciphertext_size state + 8\<rparr> in
      if fs_writing state then
        (if fs_too_small state then (field, state)
         else case lib_write_be64 L (fs_buffer state) field of
           None \<Rightarrow> (field, state\<lparr>fs_too_small := True\<rparr>)
         | Some b \<Rightarrow> (field, state\<lparr>fs_buffer := b\<rparr>))
      else
        (if fs_too_small state then (0, state)
         else case lib_read_be64 L (fs_cursor state) of
           None \<Rightarrow> (0, state\<lparr>fs_too_small := True\<rparr>)
         | Some (v, c) \<Rightarrow> (v, state\<lparr>fs_cursor := c\<rparr>)))"

text \<open>The output buffer is not null: a null buffer has no room for the first field of any frame.\<close>

definition field_sized :: "aws_lib \<Rightarrow> framestate \<Rightarrow> uint64 \<Rightarrow> slice \<times> framestate" where
  "field_sized L state sz =
     (let state = state\<lparr>fs_ciphertext_size := fs_ciphertext_size state + sz\<rparr>;
          n = unat sz in
      if fs_writing state then
        (let b = fs_buffer state in
         if buf_capacity b - buf_len b \<ge> n
         then (\<lparr>sl_ptr = Some (buf_len b), sl_len = 0, sl_capacity = n\<rparr>,
               state\<lparr>fs_buffer := b\<lparr>buf_len := buf_len b + n\<rparr>\<rparr>)
         else (slice_zero, state\<lparr>fs_too_small := True\<rparr>))
      else
        (case lib_advance L (fs_cursor state) n of
           None \<Rightarrow> (slice_zero, state\<lparr>fs_too_small := True\<rparr>)
         | Some (p, c) \<Rightarrow>
             (\<lparr>sl_ptr = Some (cur_ptr p), sl_len = cur_len p, sl_capacity = cur_len p\<rparr>,
              state\<lparr>fs_cursor := c\<rparr>)))"

section \<open>Serialization and deserialization of one frame\<close>

text \<open>The returned error code is not raised yet; \<^const>\<open>None\<close> is \<^verbatim>\<open>AWS_ERROR_SUCCESS\<close>.\<close>

definition serde_last_frame ::
  "aws_lib \<Rightarrow> framestate \<Rightarrow> frame \<Rightarrow> error option \<times> framestate \<times> frame" where
  "serde_last_frame L state frame =
     (let (seqno, state) = field_be32 L state (sequence_number frame);
          frame = frame\<lparr>sequence_number := seqno\<rparr>;
          (iv, state) = field_sized L state (word_of_nat (iv_len (fs_alg_props state)));
          frame = frame\<lparr>frame_iv := iv\<rparr>;
          (size32, state) = field_be32 L state (ucast (fs_plaintext_size state));
          state = (if fs_writing state then state else state\<lparr>fs_plaintext_size := ucast size32\<rparr>)
      in if fs_plaintext_size state > fs_max_frame_size state
         then (Some AWS_CRYPTOSDK_ERR_BAD_CIPHERTEXT, state, frame)
         else
           let (ct, state) = field_sized L state (fs_plaintext_size state);
               frame = frame\<lparr>frame_ciphertext := ct\<rparr>;
               (tag, state) = field_sized L state (word_of_nat (tag_len (fs_alg_props state)));
               frame = frame\<lparr>frame_authtag := tag, frame_ty := FRAME_TYPE_FINAL\<rparr>
           in (None, state, frame))"

definition serde_framed ::
  "aws_lib \<Rightarrow> framestate \<Rightarrow> frame \<Rightarrow> error option \<times> framestate \<times> frame" where
  "serde_framed L state frame =
     (let seqno_mark = sequence_number frame in
      if fs_writing state \<and> frame_ty frame \<noteq> FRAME_TYPE_FINAL \<and> seqno_mark = LAST_FRAME_MARK
      then (Some AWS_CRYPTOSDK_ERR_LIMIT_EXCEEDED, state, frame)
      else
        let seqno_mark = (if fs_writing state \<and> frame_ty frame = FRAME_TYPE_FINAL
                          then LAST_FRAME_MARK else seqno_mark);
            (seqno_mark, state) = field_be32 L state seqno_mark
        in if seqno_mark = LAST_FRAME_MARK then serde_last_frame L state frame
           else
             let frame = frame\<lparr>sequence_number := seqno_mark\<rparr>;
                 state = state\<lparr>fs_plaintext_size := fs_max_frame_size state\<rparr>;
                 (iv, state) = field_sized L state (word_of_nat (iv_len (fs_alg_props state)));
                 frame = frame\<lparr>frame_iv := iv\<rparr>;
                 (ct, state) = field_sized L state (fs_plaintext_size state);
                 frame = frame\<lparr>frame_ciphertext := ct\<rparr>;
                 (tag, state) = field_sized L state (word_of_nat (tag_len (fs_alg_props state)));
                 frame = frame\<lparr>frame_authtag := tag, frame_ty := FRAME_TYPE_FRAME\<rparr>
             in (None, state, frame))"

definition serde_nonframed ::
  "aws_lib \<Rightarrow> framestate \<Rightarrow> frame \<Rightarrow> error option \<times> framestate \<times> frame" where
  "serde_nonframed L state frame =
     (let (iv, state) = field_sized L state (word_of_nat (iv_len (fs_alg_props state)));
          frame = frame\<lparr>frame_iv := iv\<rparr>;
          (sz, state) = field_be64 L state (fs_plaintext_size state);
          state = state\<lparr>fs_plaintext_size := sz\<rparr>
      in if fs_plaintext_size state \<ge> MAX_UNFRAMED_PLAINTEXT_SIZE
         then (Some AWS_CRYPTOSDK_ERR_BAD_CIPHERTEXT, state, frame)
         else
           let (ct, state) = field_sized L state (fs_plaintext_size state);
               frame = frame\<lparr>frame_ciphertext := ct\<rparr>;
               (tag, state) = field_sized L state (word_of_nat (tag_len (fs_alg_props state)));
               frame = frame\<lparr>frame_authtag := tag, sequence_number := 1, frame_ty := FRAME_TYPE_SINGLE\<rparr>
           in (None, state, frame))"

text \<open>
  The outcome of \<^verbatim>\<open>aws_cryptosdk_serialize_frame\<close>: status, frame, \<^verbatim>\<open>*ciphertext_size\<close> and the buffer.
  On the first error exit \<^verbatim>\<open>*ciphertext_size\<close> keeps the value \<open>csize0\<close> it had before the call.
\<close>

definition aws_cryptosdk_serialize_frame ::
  "aws_lib \<Rightarrow> frame \<Rightarrow> uint64 \<Rightarrow> uint64 \<Rightarrow> byte_buf \<Rightarrow> alg_properties \<Rightarrow>
   status \<times> frame \<times> uint64 \<times> byte_buf" where
  "aws_cryptosdk_serialize_frame L frame csize0 plaintext_size ciphertext_buf alg_props =
     (if (frame_ty frame = FRAME_TYPE_SINGLE \<and> plaintext_size > MAX_UNFRAMED_PLAINTEXT_SIZE) \<or>
         (frame_ty frame \<noteq> FRAME_TYPE_SINGLE \<and> plaintext_size > MAX_FRAME_SIZE)
      then (AWS_OP_ERR AWS_CRYPTOSDK_ERR_LIMIT_EXCEEDED, frame, csize0, lib_secure_zero L ciphertext_buf)
      else
        let state = \<lparr>fs_max_frame_size = plaintext_size, fs_plaintext_size = plaintext_size,
                     fs_ciphertext_size = 0, fs_alg_props = alg_props,
                     fs_cursor = cursor_of [], fs_buffer = ciphertext_buf,
                     fs_writing = True, fs_too_small = False\<rparr>;
            (result, state, frame) =
              (if frame_ty frame = FRAME_TYPE_SINGLE then serde_nonframed L state frame
               else serde_framed L state frame);
            result = (if result = None \<and> fs_too_small state then Some AWS_ERROR_SHORT_BUFFER else result)
        in case result of
             Some e \<Rightarrow> (AWS_OP_ERR e, frame, fs_ciphertext_size state, lib_secure_zero L ciphertext_buf)
           | None \<Rightarrow> (AWS_OP_SUCCESS, frame, fs_ciphertext_size state, fs_buffer state))"

text \<open>The outcome: status, frame, \<^verbatim>\<open>*ciphertext_size\<close>, \<^verbatim>\<open>*plaintext_size\<close> and the cursor.\<close>

definition aws_cryptosdk_deserialize_frame ::
  "aws_lib \<Rightarrow> byte_cursor \<Rightarrow> alg_properties \<Rightarrow> uint64 \<Rightarrow>
   status \<times> frame \<times> uint64 \<times> uint64 \<times> byte_cursor" where
  "aws_cryptosdk_deserialize_frame L ciphertext_buf alg_props max_frame_size =
     (let state = \<lparr>fs_max_frame_size = max_frame_size, fs_plaintext_size = 0,
                   fs_ciphertext_size = 0, fs_alg_props = alg_props,
                   fs_cursor = ciphertext_buf, fs_buffer = buf_zero,
                   fs_writing = False, fs_too_small = False\<rparr>;
          (result, state, frame) =
            (if max_frame_size \<noteq> 0 then serde_framed L state frame_zero
             else serde_nonframed L state frame_zero);
          result = (if result = None \<and> fs_too_small state then Some AWS_ERROR_SHORT_BUFFER else result);
          result = (if fs_ciphertext_size state > SIZE_MAX64 \<or> fs_plaintext_size state > SIZE_MAX64
                    then Some AWS_CRYPTOSDK_ERR_LIMIT_EXCEEDED else result)
      in case result of
           Some e \<Rightarrow> (AWS_OP_ERR e, frame_zero, fs_ciphertext_size state, fs_plaintext_size state, ciphertext_buf)
         | None \<Rightarrow> (AWS_OP_SUCCESS, frame, fs_ciphertext_size state, fs_plaintext_size state, fs_cursor state))"

section \<open>Predicates on frames\<close>

definition slice_valid :: "slice \<Rightarrow> bool" where
  "slice_valid s \<longleftrightarrow> sl_len s \<le> sl_capacity s \<and> (sl_ptr s = None \<longrightarrow> sl_capacity s = 0)"

definition aws_cryptosdk_frame_is_valid :: "frame \<Rightarrow> bool" where
  "aws_cryptosdk_frame_is_valid f \<longleftrightarrow>
     slice_valid (frame_authtag f) \<and>
     (slice_valid (frame_ciphertext f) \<or>
      (sl_len (frame_ciphertext f) = 0 \<and> sl_ptr (frame_ciphertext f) \<noteq> None \<and>
       sl_capacity (frame_ciphertext f) = 0)) \<and>
     slice_valid (frame_iv f)"

definition aws_cryptosdk_frame_serialized :: "frame \<Rightarrow> alg_properties \<Rightarrow> nat \<Rightarrow> bool" where
  "aws_cryptosdk_frame_serialized f p plaintext_size \<longleftrightarrow>
     (((frame_ty f = FRAME_TYPE_SINGLE \<or> frame_ty f = FRAME_TYPE_FRAME) \<and>
       sl_capacity (frame_ciphertext f) = plaintext_size) \<or>
      (frame_ty f = FRAME_TYPE_FINAL \<and> sl_capacity (frame_ciphertext f) \<le> plaintext_size)) \<and>
     sl_len (frame_iv f) = 0 \<and> sl_capacity (frame_iv f) = iv_len p \<and>
     sl_len (frame_authtag f) = 0 \<and> sl_capacity (frame_authtag f) = tag_len p"

end
