(* ===== verification/Cipher.thy ===== *)
theory Cipher
  imports Hkdf FrameFmt
begin

text \<open>
  The cryptographic operations of \<^verbatim>\<open>source/cipher.c\<close> on top of the cryptographic library: derivation of the
  content key, signing and verification of headers, encryption and decryption of frames, random bytes, and the
  AES-GCM and RSA operations of the raw keyrings. An operation that can end the process has a result in
  \<^typ>\<open>'a run\<close>.
\<close>

section \<open>Keys\<close>

text \<open>\<^verbatim>\<open>struct data_key\<close> and \<^verbatim>\<open>struct content_key\<close>: arrays of \<open>MAX_DATA_KEY_SIZE\<close> bytes.\<close>

abbreviation MAX_DATA_KEY_SIZE :: nat where
  "MAX_DATA_KEY_SIZE \<equiv> 32"

abbreviation MSG_ID_LEN :: nat where
  "MSG_ID_LEN \<equiv> 16"

abbreviation MSG_ID_LEN_V2 :: nat where
  "MSG_ID_LEN_V2 \<equiv> 32"

type_synonym content_key = bytes
type_synonym data_key = bytes

definition zero_key :: content_key where
  "zero_key = replicate MAX_DATA_KEY_SIZE 0"

text \<open>The bytes of a C string literal.\<close>

definition c_bytes :: "string \<Rightarrow> bytes" where
  "c_bytes s = map of_char s"

section \<open>Key derivation\<close>

text \<open>
  The result is the error code \<^verbatim>\<open>derive_key\<close> returns without raising it; a failing HKDF raises its error and is
  returned as \<^verbatim>\<open>AWS_OP_ERR\<close>, that is \<^const>\<open>RAISED_MINUS_ONE\<close> when used as an error code.
\<close>

definition hkdf_into :: "status \<times> byte_buf \<Rightarrow> error option" where
  "hkdf_into r = (case fst r of None \<Rightarrow> None | Some e \<Rightarrow> Some RAISED_MINUS_ONE)"

definition aws_cryptosdk_private_derive_key_v1 ::
  "aws_lib \<Rightarrow> openssl \<Rightarrow> alg_properties \<Rightarrow> content_key \<Rightarrow> data_key \<Rightarrow> byte_buf \<Rightarrow> error option \<times> content_key" where
  "aws_cryptosdk_private_derive_key_v1 L S props content_key data_key message_id =
     (if buf_len message_id \<noteq> MSG_ID_LEN then (Some AWS_CRYPTOSDK_ERR_UNSUPPORTED_FORMAT, content_key)
      else
        let info = be_bytes 2 (alg_id props) @ take MSG_ID_LEN (buf_mem message_id);
            which_sha = aws_cryptosdk_which_sha (alg_id props)
        in if which_sha = AWS_CRYPTOSDK_NOSHA
           then (None, splice zero_key 0 (take (data_key_len props) data_key))
           else
             let (ret, okm) = aws_cryptosdk_hkdf L S (buf_from_array (take (content_key_len props) zero_key)) which_sha
                                [] (take (data_key_len props) data_key) info
             in (hkdf_into (ret, okm), splice zero_key 0 (buf_mem okm)))"

definition aws_cryptosdk_private_derive_key_v2 ::
  "aws_lib \<Rightarrow> openssl \<Rightarrow> alg_properties \<Rightarrow> content_key \<Rightarrow> data_key \<Rightarrow> byte_buf \<Rightarrow> byte_buf \<Rightarrow>
   error option \<times> content_key \<times> byte_buf" where
  "aws_cryptosdk_private_derive_key_v2 L S props content_key data_key commitment message_id =
     (if buf_capacity commitment < commitment_len props
      then (Some AWS_CRYPTOSDK_ERR_CRYPTO_UNKNOWN, content_key, commitment)
      else if buf_len message_id \<noteq> MSG_ID_LEN_V2
      then (Some AWS_CRYPTOSDK_ERR_UNSUPPORTED_FORMAT, content_key, commitment)
      else
        let salt = take (buf_len message_id) (buf_mem message_id);
            ikm = take (data_key_len props) data_key;
            commitment = commitment\<lparr>buf_mem := splice (buf_mem commitment) 0 (replicate (commitment_len props) 0)\<rparr>;
            derivekey_info = be_bytes 2 (alg_id props) @ c_bytes ''DERIVEKEY'';
            commitkey_info = c_bytes ''COMMITKEY'';
            which_sha = aws_cryptosdk_which_sha (alg_id props)
        in if which_sha = AWS_CRYPTOSDK_NOSHA
           then (Some AWS_CRYPTOSDK_ERR_UNSUPPORTED_FORMAT, zero_key, commitment)
           else
             let commitment = commitment\<lparr>buf_len := commitment_len props\<rparr>;
                 (rv, commitment) = aws_cryptosdk_hkdf L S commitment which_sha salt ikm commitkey_info
             in if rv \<noteq> None then (Some RAISED_MINUS_ONE, zero_key, commitment)
                else
                  let (ret, okm) = aws_cryptosdk_hkdf L S (buf_from_array (take (content_key_len props) zero_key)) which_sha
                                     salt ikm derivekey_info
                  in (hkdf_into (ret, okm), splice zero_key 0 (buf_mem okm), commitment))"

definition aws_cryptosdk_private_derive_key ::
  "aws_lib \<Rightarrow> openssl \<Rightarrow> alg_properties \<Rightarrow> content_key \<Rightarrow> data_key \<Rightarrow> byte_buf \<Rightarrow> byte_buf \<Rightarrow>
   error option \<times> content_key \<times> byte_buf" where
  "aws_cryptosdk_private_derive_key L S props content_key data_key commitment message_id =
     (if msg_format_version props = AWS_CRYPTOSDK_HEADER_VERSION_1_0 then
        (if buf_len commitment \<noteq> 0 then (Some AWS_CRYPTOSDK_ERR_CRYPTO_UNKNOWN, content_key, commitment)
         else
           let (r, content_key) = aws_cryptosdk_private_derive_key_v1 L S props content_key data_key message_id
           in (r, content_key, commitment))
      else if msg_format_version props = AWS_CRYPTOSDK_HEADER_VERSION_2_0
      then aws_cryptosdk_private_derive_key_v2 L S props content_key data_key commitment message_id
      else (Some AWS_CRYPTOSDK_ERR_UNSUPPORTED_FORMAT, content_key, commitment))"

section \<open>Cipher contexts\<close>

text \<open>
  The library takes the length of its input as an \<^verbatim>\<open>int\<close>: \<open>int_len\<close> is the conversion of a \<^verbatim>\<open>size_t\<close>, and \<open>read_len bs\<close> are the bytes
  that a call reads which is given the object \<open>bs\<close> and its converted length (none if that is negative).
\<close>

abbreviation INT_MAX :: nat where
  "INT_MAX \<equiv> 0x7FFFFFFF"

definition int_len :: "nat \<Rightarrow> int" where
  "int_len n = sint (word_of_nat n :: 32 word)"

definition read_len :: "bytes \<Rightarrow> bytes" where
  "read_len bs = take (nat (int_len (length bs))) bs"

text \<open>A new context with cipher, length of the vector, key and vector; \<^const>\<open>None\<close> is the null pointer.\<close>

definition evp_gcm_cipher_init ::
  "openssl \<Rightarrow> alg_properties \<Rightarrow> content_key \<Rightarrow> bytes \<Rightarrow> bool \<Rightarrow> cipher_ctx option" where
  "evp_gcm_cipher_init S props content_key iv enc =
     (if \<not> ssl_cipher_ctx_new S then None
      else do {
        ctx \<leftarrow> evp_call S [] (OP_INIT (cipher_ctor (the (impl props))) enc);
        ctx \<leftarrow> evp_call S ctx (OP_SET_IVLEN (iv_len props));
        evp_call S ctx (OP_KEY_IV content_key (take (iv_len props) iv))
      })"

text \<open>The error code, or the tag; the process ends if the final call reports output.\<close>

definition evp_gcm_encrypt_final :: "openssl \<Rightarrow> alg_properties \<Rightarrow> cipher_ctx \<Rightarrow> bytes result run" where
  "evp_gcm_encrypt_final S props ctx =
     (case evp_call S ctx OP_FINAL of
        None \<Rightarrow> Some (Inl AWS_CRYPTOSDK_ERR_CRYPTO_UNKNOWN)
      | Some ctx \<Rightarrow>
          if ssl_final_outlen S ctx \<noteq> 0 then None
          else case ssl_get_tag S ctx (tag_len props) of
                 None \<Rightarrow> Some (Inl AWS_CRYPTOSDK_ERR_CRYPTO_UNKNOWN)
               | Some tag \<Rightarrow> Some (Inr tag))"

definition evp_gcm_decrypt_final :: "openssl \<Rightarrow> alg_properties \<Rightarrow> cipher_ctx \<Rightarrow> bytes \<Rightarrow> error option run" where
  "evp_gcm_decrypt_final S props ctx tag =
     (case evp_call S ctx (OP_SET_TAG (take (tag_len props) tag)) of
        None \<Rightarrow> Some (Some AWS_CRYPTOSDK_ERR_CRYPTO_UNKNOWN)
      | Some ctx \<Rightarrow>
          (case evp_call S ctx OP_FINAL of
             None \<Rightarrow> Some (Some (if \<not> ssl_final_error S ctx then AWS_CRYPTOSDK_ERR_BAD_CIPHERTEXT
                                 else AWS_CRYPTOSDK_ERR_CRYPTO_UNKNOWN))
           | Some ctx \<Rightarrow> if ssl_final_outlen S ctx \<noteq> 0 then None else Some None))"

section \<open>Headers\<close>

definition ZERO_IV :: bytes where
  "ZERO_IV = replicate 12 0"

text \<open>The buffer \<open>authtag\<close> receives the tag (and, in the first format, the initialization vector before it).\<close>

definition aws_cryptosdk_sign_header ::
  "openssl \<Rightarrow> alg_properties \<Rightarrow> content_key \<Rightarrow> byte_buf \<Rightarrow> bytes \<Rightarrow> (status \<times> byte_buf) run" where
  "aws_cryptosdk_sign_header S props content_key authtag header =
     (let v1 = (msg_format_version props = AWS_CRYPTOSDK_HEADER_VERSION_1_0);
          v2 = (msg_format_version props = AWS_CRYPTOSDK_HEADER_VERSION_2_0)
      in if v1 \<and> buf_len authtag \<noteq> iv_len props + tag_len props
         then Some (AWS_OP_ERR AWS_CRYPTOSDK_ERR_BAD_CIPHERTEXT, authtag)
         else if v2 \<and> buf_len authtag \<noteq> tag_len props
         then Some (AWS_OP_ERR AWS_CRYPTOSDK_ERR_BAD_CIPHERTEXT, authtag)
         else if \<not> v1 \<and> \<not> v2 then Some (AWS_OP_ERR AWS_CRYPTOSDK_ERR_CRYPTO_UNKNOWN, authtag)
         else
           let authtag = (if v1 then authtag\<lparr>buf_mem := splice (buf_mem authtag) 0 (replicate (iv_len props) 0)\<rparr>
                          else authtag);
               iv = (if v1 then take (iv_len props) (buf_mem authtag) else ZERO_IV);
               tag_off = (if v1 then iv_len props else 0)
           in case evp_gcm_cipher_init S props content_key iv True of
                None \<Rightarrow> Some (AWS_OP_ERR AWS_CRYPTOSDK_ERR_CRYPTO_UNKNOWN, authtag)
              | Some ctx \<Rightarrow>
                  (case evp_call S ctx (OP_AAD (read_len header)) of
                     None \<Rightarrow> Some (AWS_OP_ERR AWS_CRYPTOSDK_ERR_CRYPTO_UNKNOWN, authtag)
                   | Some ctx \<Rightarrow> do {
                       r \<leftarrow> evp_gcm_encrypt_final S props ctx;
                       (case r of
                          Inl e \<Rightarrow> Some (AWS_OP_ERR e, authtag)
                        | Inr tag \<Rightarrow>
                            Some (AWS_OP_SUCCESS, authtag\<lparr>buf_mem := splice (buf_mem authtag) tag_off tag\<rparr>))
                     }))"

definition aws_cryptosdk_verify_header ::
  "openssl \<Rightarrow> alg_properties \<Rightarrow> content_key \<Rightarrow> byte_buf \<Rightarrow> bytes \<Rightarrow> status run" where
  "aws_cryptosdk_verify_header S props content_key authtag header =
     (let v1 = (msg_format_version props = AWS_CRYPTOSDK_HEADER_VERSION_1_0);
          v2 = (msg_format_version props = AWS_CRYPTOSDK_HEADER_VERSION_2_0)
      in if v1 \<and> buf_len authtag \<noteq> iv_len props + tag_len props
         then Some (AWS_OP_ERR AWS_CRYPTOSDK_ERR_BAD_CIPHERTEXT)
         else if v2 \<and> buf_len authtag \<noteq> tag_len props
         then Some (AWS_OP_ERR AWS_CRYPTOSDK_ERR_BAD_CIPHERTEXT)
         else if \<not> v1 \<and> \<not> v2 then Some (AWS_OP_ERR AWS_CRYPTOSDK_ERR_CRYPTO_UNKNOWN)
         else
           let iv = (if v1 then take (iv_len props) (buf_mem authtag) else ZERO_IV);
               tag = (if v1 then drop (iv_len props) (buf_mem authtag) else buf_mem authtag)
           in case evp_gcm_cipher_init S props content_key iv False of
                None \<Rightarrow> Some (AWS_OP_ERR AWS_CRYPTOSDK_ERR_CRYPTO_UNKNOWN)
              | Some ctx \<Rightarrow>
                  (case evp_call S ctx (OP_AAD (read_len header)) of
                     None \<Rightarrow> Some (AWS_OP_ERR AWS_CRYPTOSDK_ERR_CRYPTO_UNKNOWN)
                   | Some ctx \<Rightarrow> evp_gcm_decrypt_final S props ctx tag))"

section \<open>Frames\<close>

definition aad_string :: "frame_type \<Rightarrow> string" where
  "aad_string ty = (case ty of
     FRAME_TYPE_SINGLE \<Rightarrow> ''AWSKMSEncryptionClient Single Block''
   | FRAME_TYPE_FRAME \<Rightarrow> ''AWSKMSEncryptionClient Frame''
   | FRAME_TYPE_FINAL \<Rightarrow> ''AWSKMSEncryptionClient Final Frame'')"

text \<open>
  The type is \<^const>\<open>None\<close> for an \<^verbatim>\<open>int\<close> outside the enumeration: the error that is raised then has the return value \<^verbatim>\<open>-1\<close>, which the
  callers take as success.
\<close>

definition update_frame_aad ::
  "openssl \<Rightarrow> cipher_ctx \<Rightarrow> byte_buf \<Rightarrow> frame_type option \<Rightarrow> uint32 \<Rightarrow> uint64 \<Rightarrow> cipher_ctx option" where
  "update_frame_aad S ctx message_id body_frame_type seqno data_size =
     (case body_frame_type of
        None \<Rightarrow> Some ctx
      | Some ty \<Rightarrow> do {
          ctx \<leftarrow> evp_call S ctx (OP_AAD (read_len (buf_contents message_id)));
          ctx \<leftarrow> evp_call S ctx (OP_AAD (c_bytes (aad_string ty)));
          ctx \<leftarrow> evp_call S ctx (OP_AAD (be_bytes 4 seqno));
          evp_call S ctx (OP_AAD (be_bytes 4 (word_of_nat (unat (drop_bit 32 data_size)) :: uint32) @
                                  be_bytes 4 (word_of_nat (unat (data_size AND 0xFFFFFFFF)) :: uint32)))
        })"

text \<open>
  The loops over the input, in pieces of at most \<^const>\<open>INT_MAX\<close> bytes. The flag tells the end of the loop from a jump to
  \<^verbatim>\<open>out\<close>; the buffer has the memory as far as it has been written.
\<close>

definition in_len :: "byte_cursor \<Rightarrow> nat" where
  "in_len incurs = (if cur_len incurs > INT_MAX then INT_MAX else cur_len incurs)"

definition update_out :: "openssl \<Rightarrow> cipher_ctx \<Rightarrow> byte_buf \<Rightarrow> bytes \<Rightarrow> byte_buf \<times> nat" where
  "update_out S ctx outbuf d =
     (let out = ssl_cipher_out S ctx d
      in (outbuf\<lparr>buf_mem := splice (buf_mem outbuf) (buf_len outbuf) out\<rparr>, length out))"

partial_function (option) encrypt_loop ::
  "aws_lib \<Rightarrow> openssl \<Rightarrow> cipher_ctx \<Rightarrow> byte_buf \<Rightarrow> byte_cursor \<Rightarrow> (bool \<times> cipher_ctx \<times> byte_buf) run" where
  "encrypt_loop L S ctx outbuf incurs =
     (if cur_len incurs = 0 then Some (True, ctx, outbuf)
      else if cur_len incurs \<noteq> buf_capacity outbuf - buf_len outbuf then Some (False, ctx, outbuf)
      else
        let d = take (in_len incurs) (cur_data incurs)
        in case evp_call S ctx (OP_DATA d) of
             None \<Rightarrow> Some (False, ctx, outbuf)
           | Some ctx' \<Rightarrow>
               let (outbuf', ct_len) = update_out S ctx outbuf d
               in case lib_advance L incurs (in_len incurs) of
                    None \<Rightarrow> Some (False, ctx', outbuf')
                  | Some (_, incurs') \<Rightarrow>
                      (case lib_add_size_checked L [buf_len outbuf', ct_len] of
                         None \<Rightarrow> Some (False, ctx', outbuf')
                       | Some n \<Rightarrow>
                           if buf_capacity outbuf < n then None
                           else encrypt_loop L S ctx' (outbuf'\<lparr>buf_len := n\<rparr>) incurs'))"

partial_function (option) decrypt_loop ::
  "aws_lib \<Rightarrow> openssl \<Rightarrow> cipher_ctx \<Rightarrow> byte_buf \<Rightarrow> byte_cursor \<Rightarrow> (bool \<times> cipher_ctx \<times> byte_buf) run" where
  "decrypt_loop L S ctx outcurs incurs =
     (if cur_len incurs = 0 then Some (True, ctx, outcurs)
      else
        let d = take (in_len incurs) (cur_data incurs)
        in case evp_call S ctx (OP_DATA d) of
             None \<Rightarrow> Some (False, ctx, outcurs)
           | Some ctx' \<Rightarrow>
               let (outcurs', pt_len) = update_out S ctx outcurs d
               in case lib_advance L incurs (in_len incurs) of
                    None \<Rightarrow> Some (False, ctx', outcurs')
                  | Some (_, incurs') \<Rightarrow>
                      (case lib_add_size_checked L [buf_len outcurs', pt_len] of
                         None \<Rightarrow> Some (False, ctx', outcurs')
                       | Some n \<Rightarrow>
                           if n > buf_capacity outcurs then None
                           else decrypt_loop L S ctx' (outcurs'\<lparr>buf_len := n\<rparr>) incurs'))"

text \<open>The output of \<open>encrypt_body\<close>: status, ciphertext buffer, and the memory of the vector and of the tag.\<close>

definition frame_iv_bytes :: "alg_properties \<Rightarrow> uint32 \<Rightarrow> bytes" where
  "frame_iv_bytes props seqno =
     splice (replicate (iv_len props) 0) (iv_len props - 8) (be_bytes 8 (word_of_nat (unat seqno) :: uint64))"

definition aws_cryptosdk_encrypt_body ::
  "aws_lib \<Rightarrow> openssl \<Rightarrow> alg_properties \<Rightarrow> byte_buf \<Rightarrow> byte_cursor \<Rightarrow> byte_buf \<Rightarrow> uint32 \<Rightarrow> bytes \<Rightarrow> content_key \<Rightarrow> bytes \<Rightarrow>
   frame_type option \<Rightarrow> (status \<times> byte_buf \<times> bytes \<times> bytes) run" where
  "aws_cryptosdk_encrypt_body L S props outp inp message_id seqno iv key tag body_frame_type =
     (if cur_len inp \<noteq> buf_capacity outp then Some (AWS_OP_ERR AWS_ERROR_SHORT_BUFFER, outp, iv, tag)
      else if seqno = 0 then Some (AWS_OP_ERR AWS_CRYPTOSDK_ERR_CRYPTO_UNKNOWN, outp, iv, tag)
      else if iv_len props < 8 then Some (AWS_OP_ERR AWS_CRYPTOSDK_ERR_CRYPTO_UNKNOWN, outp, iv, tag)
      else
        let iv = splice iv 0 (frame_iv_bytes props seqno);
            err = (\<lambda>e outp. Some (AWS_OP_ERR e, lib_secure_zero L outp, iv, tag))
        in case evp_gcm_cipher_init S props key iv True of
             None \<Rightarrow> err AWS_CRYPTOSDK_ERR_CRYPTO_UNKNOWN outp
           | Some ctx \<Rightarrow>
               (case update_frame_aad S ctx message_id body_frame_type seqno (word_of_nat (cur_len inp)) of
                  None \<Rightarrow> err AWS_CRYPTOSDK_ERR_CRYPTO_UNKNOWN outp
                | Some ctx \<Rightarrow> do {
                    (done, ctx, outbuf) \<leftarrow> encrypt_loop L S ctx outp inp;
                    if \<not> done then err AWS_CRYPTOSDK_ERR_CRYPTO_UNKNOWN (outp\<lparr>buf_mem := buf_mem outbuf\<rparr>)
                    else do {
                      r \<leftarrow> evp_gcm_encrypt_final S props ctx;
                      (case r of
                         Inl e \<Rightarrow> err e (outp\<lparr>buf_mem := buf_mem outbuf\<rparr>)
                       | Inr t \<Rightarrow> Some (AWS_OP_SUCCESS, outbuf, iv, splice tag 0 t))
                    }
                  }))"

definition aws_cryptosdk_decrypt_body ::
  "aws_lib \<Rightarrow> openssl \<Rightarrow> alg_properties \<Rightarrow> byte_buf \<Rightarrow> byte_cursor \<Rightarrow> byte_buf \<Rightarrow> uint32 \<Rightarrow> bytes \<Rightarrow> content_key \<Rightarrow> bytes \<Rightarrow>
   frame_type option \<Rightarrow> (status \<times> byte_buf) run" where
  "aws_cryptosdk_decrypt_body L S props outp inp message_id seqno iv key tag body_frame_type =
     (if cur_len inp \<noteq> buf_capacity outp - buf_len outp then Some (AWS_OP_ERR AWS_ERROR_SHORT_BUFFER, outp)
      else
        let err = (\<lambda>e outp. Some (AWS_OP_ERR e, lib_secure_zero L outp))
        in case evp_gcm_cipher_init S props key iv False of
             None \<Rightarrow> err AWS_CRYPTOSDK_ERR_CRYPTO_UNKNOWN outp
           | Some ctx \<Rightarrow>
               (case update_frame_aad S ctx message_id body_frame_type seqno (word_of_nat (cur_len inp)) of
                  None \<Rightarrow> err AWS_CRYPTOSDK_ERR_CRYPTO_UNKNOWN outp
                | Some ctx \<Rightarrow> do {
                    (done, ctx, outcurs) \<leftarrow> decrypt_loop L S ctx outp inp;
                    if \<not> done then err AWS_CRYPTOSDK_ERR_CRYPTO_UNKNOWN (outp\<lparr>buf_mem := buf_mem outcurs\<rparr>)
                    else do {
                      r \<leftarrow> evp_gcm_decrypt_final S props ctx tag;
                      (case r of
                         Some e \<Rightarrow> err e (outp\<lparr>buf_mem := buf_mem outcurs\<rparr>)
                       | None \<Rightarrow> Some (AWS_OP_SUCCESS, outcurs))
                    }
                  }))"

section \<open>Random bytes\<close>

text \<open>The buffer is filled by the \<open>i\<close>-th call of the source; no call is made for an empty buffer.\<close>

definition aws_cryptosdk_genrandom :: "rand_source \<Rightarrow> nat \<Rightarrow> bytes \<Rightarrow> status \<times> bytes" where
  "aws_cryptosdk_genrandom R i buf =
     (if length buf = 0 then (AWS_OP_SUCCESS, buf)
      else case R i (length buf) of
             None \<Rightarrow> (AWS_OP_ERR AWS_CRYPTOSDK_ERR_CRYPTO_UNKNOWN, replicate (length buf) 0)
           | Some bs \<Rightarrow> (AWS_OP_SUCCESS, bs))"

section \<open>AES-GCM of the raw keyrings\<close>

definition get_alg_from_key_size :: "nat \<Rightarrow> evp_cipher option" where
  "get_alg_from_key_size key_len =
     (if key_len = 16 then Some EVP_aes_128_gcm
      else if key_len = 24 then Some EVP_aes_192_gcm
      else if key_len = 32 then Some EVP_aes_256_gcm
      else None)"

abbreviation aes_gcm_tag_len :: nat where
  "aes_gcm_tag_len \<equiv> 16"

abbreviation aes_gcm_iv_len :: nat where
  "aes_gcm_iv_len \<equiv> 12"

definition update_aad :: "openssl \<Rightarrow> cipher_ctx \<Rightarrow> bytes \<Rightarrow> cipher_ctx option" where
  "update_aad S ctx aad = (if length aad \<noteq> 0 then evp_call S ctx (OP_AAD (read_len aad)) else Some ctx)"

definition aws_cryptosdk_aes_gcm_encrypt ::
  "aws_lib \<Rightarrow> openssl \<Rightarrow> byte_buf \<Rightarrow> byte_buf \<Rightarrow> bytes \<Rightarrow> bytes \<Rightarrow> bytes \<Rightarrow> bytes \<Rightarrow> status \<times> byte_buf \<times> byte_buf" where
  "aws_cryptosdk_aes_gcm_encrypt L S cipher tag plain iv aad key =
     (case get_alg_from_key_size (length key) of
        None \<Rightarrow> (AWS_OP_ERR AWS_ERROR_INVALID_BUFFER_SIZE, cipher, tag)
      | Some alg \<Rightarrow>
          if length iv \<noteq> aes_gcm_iv_len \<or> buf_capacity tag < aes_gcm_tag_len \<or> buf_capacity cipher < length plain
          then (AWS_OP_ERR AWS_ERROR_INVALID_BUFFER_SIZE, cipher, tag)
          else
            let openssl_err = (\<lambda>cipher. (AWS_OP_ERR AWS_CRYPTOSDK_ERR_CRYPTO_UNKNOWN,
                                 lib_secure_zero L cipher, lib_secure_zero L tag))
            in if \<not> ssl_cipher_ctx_new S then openssl_err cipher
               else case evp_call S [] (OP_INIT_FULL alg True key iv) of
                 None \<Rightarrow> openssl_err cipher
               | Some ctx \<Rightarrow>
                   (case update_aad S ctx aad of
                      None \<Rightarrow> openssl_err cipher
                    | Some ctx \<Rightarrow>
                        (case evp_call S ctx (OP_DATA (read_len plain)) of
                           None \<Rightarrow> openssl_err cipher
                         | Some ctx' \<Rightarrow>
                             let out = ssl_cipher_out S ctx (read_len plain);
                                 cipher = cipher\<lparr>buf_mem := splice (buf_mem cipher) 0 out\<rparr>
                             in case evp_call S ctx' OP_FINAL of
                                  None \<Rightarrow> openssl_err cipher
                                | Some ctx'' \<Rightarrow>
                                    (case ssl_get_tag S ctx'' aes_gcm_tag_len of
                                       None \<Rightarrow> openssl_err cipher
                                     | Some t \<Rightarrow>
                                         (AWS_OP_SUCCESS,
                                          cipher\<lparr>buf_len := length out + ssl_final_outlen S ctx''\<rparr>,
                                          tag\<lparr>buf_mem := splice (buf_mem tag) 0 t, buf_len := aes_gcm_tag_len\<rparr>)))))"

definition aws_cryptosdk_aes_gcm_decrypt ::
  "aws_lib \<Rightarrow> openssl \<Rightarrow> byte_buf \<Rightarrow> bytes \<Rightarrow> bytes \<Rightarrow> bytes \<Rightarrow> bytes \<Rightarrow> bytes \<Rightarrow> status \<times> byte_buf" where
  "aws_cryptosdk_aes_gcm_decrypt L S plain cipher tag iv aad key =
     (case get_alg_from_key_size (length key) of
        None \<Rightarrow> (AWS_OP_ERR AWS_ERROR_INVALID_BUFFER_SIZE, plain)
      | Some alg \<Rightarrow>
          if length iv \<noteq> aes_gcm_iv_len \<or> length tag \<noteq> aes_gcm_tag_len \<or> buf_capacity plain < length cipher
          then (AWS_OP_ERR AWS_ERROR_INVALID_BUFFER_SIZE, plain)
          else
            let decrypt_err = (\<lambda>openssl_err plain.
                  (AWS_OP_ERR (if openssl_err then AWS_CRYPTOSDK_ERR_CRYPTO_UNKNOWN else AWS_CRYPTOSDK_ERR_BAD_CIPHERTEXT),
                   lib_secure_zero L plain))
            in if \<not> ssl_cipher_ctx_new S then decrypt_err True plain
               else case evp_call S [] (OP_INIT_FULL alg False key iv) of
                 None \<Rightarrow> decrypt_err True plain
               | Some ctx \<Rightarrow>
                   (case evp_call S ctx (OP_SET_TAG tag) of
                      None \<Rightarrow> decrypt_err True plain
                    | Some ctx \<Rightarrow>
                        (case update_aad S ctx aad of
                           None \<Rightarrow> decrypt_err True plain
                         | Some ctx \<Rightarrow>
                             (case evp_call S ctx (OP_DATA (read_len cipher)) of
                                None \<Rightarrow> decrypt_err True plain
                              | Some ctx' \<Rightarrow>
                                  let out = ssl_cipher_out S ctx (read_len cipher);
                                      plain = plain\<lparr>buf_mem := splice (buf_mem plain) 0 out\<rparr>
                                  in case evp_call S ctx' OP_FINAL of
                                       None \<Rightarrow> decrypt_err (ssl_final_error S ctx') plain
                                     | Some ctx'' \<Rightarrow>
                                         (AWS_OP_SUCCESS,
                                          plain\<lparr>buf_len := length out + ssl_final_outlen S ctx''\<rparr>)))))"

end
