(* ===== verification/CipherProps.thy ===== *)
theory CipherProps
  imports Cipher
begin

text \<open>
  Correctness of \<^verbatim>\<open>source/cipher.c\<close> under the documented behaviour of the cryptographic library: frames and headers
  that were produced are accepted, nothing else leaves plaintext behind, vectors do not repeat, and the keys are those
  that the message format prescribes.
\<close>

section \<open>Contexts\<close>

lemma read_len_small: "length bs \<le> INT_MAX \<Longrightarrow> read_len bs = bs"
  by (simp add: read_len_def int_len_def sint_uint uint_nat unat_of_nat signed_take_bit_eq_take_bit_shift take_bit_eq_mod)

definition suite_gcm :: "alg_properties \<Rightarrow> content_key \<Rightarrow> bytes \<Rightarrow> gcm_id" where
  "suite_gcm props key iv = (cipher_ctor (the (impl props)), iv_len props, key, take (iv_len props) iv)"

lemma cipher_init_setup:
  "evp_gcm_cipher_init S props key iv enc = Some ctx \<Longrightarrow> gcm_setup ctx = Some (enc, suite_gcm props key iv, [])"
  by (auto simp: evp_gcm_cipher_init_def evp_call_def suite_gcm_def gcm_setup_Some bind_eq_Some_conv split: if_splits)

lemma cipher_init_ok: "gcm_ok S \<Longrightarrow> \<exists>ctx. evp_gcm_cipher_init S props key iv enc = Some ctx"
  by (simp add: evp_gcm_cipher_init_def gcm_ok_def evp_call_def)

lemma evp_call_ok: "gcm_ok S \<Longrightarrow> op \<noteq> OP_FINAL \<Longrightarrow> evp_call S ctx op = Some (ctx @ [op])"
  by (simp add: evp_call_def gcm_ok_def)

lemma gcm_out: "gcm_spec S ks tg \<Longrightarrow> gcm_setup ctx = Some (enc, g, ops) \<Longrightarrow>
    ssl_cipher_out S ctx d = ctr_xor (ks g) (length (data_of ops)) d"
  unfolding gcm_spec_def by blast

lemma gcm_final_outlen: "gcm_spec S ks tg \<Longrightarrow> ssl_final_outlen S ctx = 0"
  unfolding gcm_spec_def by blast

lemma gcm_tag: "gcm_spec S ks tg \<Longrightarrow> gcm_setup ctx = Some (True, g, ops) \<Longrightarrow> ssl_get_tag S ctx n = Some t \<Longrightarrow>
    t = take n (tg g (aad_of ops) (ctr_xor (ks g) 0 (data_of ops)))"
  unfolding gcm_spec_def by blast

lemma gcm_verify: "gcm_spec S ks tg \<Longrightarrow> gcm_setup ctx = Some (False, g, ops) \<Longrightarrow> tag_of ops = Some t \<Longrightarrow>
    ssl_cipher_op S ctx OP_FINAL \<longleftrightarrow> t = take (length t) (tg g (aad_of ops) (data_of ops))"
proof -
  assume S: "gcm_spec S ks tg" and ctx: "gcm_setup ctx = Some (False, g, ops)" and t: "tag_of ops = Some t"
  have "ssl_cipher_op S ctx OP_FINAL =
      (case tag_of ops of None \<Rightarrow> False | Some t \<Rightarrow> t = take (length t) (tg g (aad_of ops) (data_of ops)))"
    using S ctx unfolding gcm_spec_def by blast
  then show ?thesis using t by simp
qed

lemma gcm_no_error: "gcm_spec S ks tg \<Longrightarrow> gcm_setup ctx = Some (False, g, ops) \<Longrightarrow> \<not> ssl_final_error S ctx"
  unfolding gcm_spec_def by blast

lemma gcm_tag_length: "gcm_spec S ks tg \<Longrightarrow> length (tg g aad ct) = 16"
  unfolding gcm_spec_def by blast

section \<open>Associated data of frames\<close>

definition frame_aad :: "bytes \<Rightarrow> frame_type option \<Rightarrow> uint32 \<Rightarrow> uint64 \<Rightarrow> bytes" where
  "frame_aad mid ty seqno n =
     (case ty of None \<Rightarrow> [] | Some ty \<Rightarrow> mid @ c_bytes (aad_string ty) @ be_bytes 4 seqno @ be_bytes 8 n)"

lemma nat_be_split: "nat_be (j + k) m = nat_be j (m div 256 ^ k) @ nat_be k m"
  by (induction j) (simp_all add: power_add mult.commute flip: div_mult2_eq)

lemma be_bytes_halves:
  "be_bytes 4 (word_of_nat (unat (drop_bit 32 x)) :: 32 word) @
   be_bytes 4 (word_of_nat (unat (x AND 0xFFFFFFFF)) :: 32 word) = be_bytes 8 (x :: 64 word)"
proof -
  have u: "unat (word_of_nat n :: 32 word) = n mod 2 ^ 32" for n by (simp add: unat_of_nat)
  have hi: "unat (drop_bit 32 x) mod 2 ^ 32 = unat x div 256 ^ 4"
    using unsigned_less [of x, where 'a = nat] unfolding unat_drop_bit_eq unfolding drop_bit_eq_div by simp
  have m: "x AND 0xFFFFFFFF = take_bit 32 x" by (simp add: take_bit_eq_mask mask_eq_exp_minus_1)
  have lo: "unat (x AND 0xFFFFFFFF) mod 2 ^ 32 = unat x mod 256 ^ 4"
    unfolding m unsigned_take_bit_eq by (simp add: take_bit_eq_mod)
  have "(4::nat) + 4 = 8" by simp
  then show ?thesis
    using nat_be_split [of 4 4 "unat x"] unfolding be_bytes_def u hi lo nat_be_mod [OF order.refl] by (simp only:)
qed

lemma frame_aad_setup:
  assumes "update_frame_aad S ctx mid ty seqno n = Some ctx'" "gcm_setup ctx = Some (enc, g, ops)"
    and "buf_len mid \<le> INT_MAX"
  shows "\<exists>ops'. gcm_setup ctx' = Some (enc, g, ops @ ops') \<and> aad_of ops' = frame_aad (buf_contents mid) ty seqno n \<and>
    data_of ops' = [] \<and> tag_of ops' = None"
proof (cases ty)
  case None
  then show ?thesis using assms by (intro exI [of _ "[]"]) (simp add: update_frame_aad_def frame_aad_def)
next
  case (Some t)
  let ?a = "OP_AAD (buf_contents mid)" and ?b = "OP_AAD (c_bytes (aad_string t))" and ?c = "OP_AAD (be_bytes 4 seqno)"
    and ?d = "OP_AAD (be_bytes 8 n)"
  have "length (buf_contents mid) \<le> INT_MAX" using assms(3) by (simp add: buf_contents_def)
  then have "ctx' = ctx @ [?a, ?b, ?c, ?d]"
    using assms(1) unfolding Some update_frame_aad_def be_bytes_halves
    by (auto simp: evp_call_def bind_eq_Some_conv read_len_small split: if_splits)
  then show ?thesis
    using gcm_setup_append [OF assms(2), of "[?a, ?b, ?c, ?d]"]
    by (intro exI [of _ "[?a, ?b, ?c, ?d]"]) (simp add: Some frame_aad_def)
qed

lemma update_frame_aad_aad:
  assumes "update_frame_aad S [] mid ty seqno n = Some ctx" "buf_len mid \<le> INT_MAX"
  shows "aad_of ctx = frame_aad (buf_contents mid) ty seqno n"
proof -
  have "length (buf_contents mid) \<le> INT_MAX" using assms(2) by (simp add: buf_contents_def)
  then show ?thesis
    using assms(1) unfolding update_frame_aad_def be_bytes_halves frame_aad_def
    by (auto simp: evp_call_def bind_eq_Some_conv read_len_small split: if_splits option.splits)
qed

lemma frame_aad_ok: "gcm_ok S \<Longrightarrow> \<exists>ctx'. update_frame_aad S ctx mid ty seqno n = Some ctx'"
  by (simp add: update_frame_aad_def evp_call_ok split: option.split)

section \<open>The loops over the data\<close>

text \<open>The outcome of a loop over \<open>d\<close>: where it has not jumped out, all of \<open>d\<close> went through the context and its output into the buffer.\<close>

definition loop_post ::
  "(gcm_id \<Rightarrow> nat \<Rightarrow> byte) \<Rightarrow> bool \<Rightarrow> gcm_id \<Rightarrow> cipher_op list \<Rightarrow> byte_buf \<Rightarrow> bytes \<Rightarrow> bool \<times> cipher_ctx \<times> byte_buf \<Rightarrow> bool" where
  "loop_post ks enc g ops b d r =
     (case r of (fin, ctx', b') \<Rightarrow>
        buf_capacity b' = buf_capacity b \<and>
        (fin \<longrightarrow> b' = written b (ctr_xor (ks g) (length (data_of ops)) d) \<and>
          (\<exists>ops'. gcm_setup ctx' = Some (enc, g, ops @ ops') \<and> aad_of ops' = [] \<and> data_of ops' = d \<and> tag_of ops' = None)))"

lemma loop_post_Nil: "gcm_setup ctx = Some (enc, g, ops) \<Longrightarrow> loop_post ks enc g ops b [] (True, ctx, b)"
  by (auto simp: loop_post_def ctr_xor_def intro: exI [of _ "[]"])

lemma loop_post_jump: "buf_capacity b' = buf_capacity b \<Longrightarrow> loop_post ks enc g ops b d (False, ctx, b')"
  by (simp add: loop_post_def)

lemma loop_post_step:
  assumes "loop_post ks enc g (ops @ [OP_DATA d]) (written b (ctr_xor (ks g) (length (data_of ops)) d)) d' r"
    and "fits b (length d)"
  shows "loop_post ks enc g ops b (d @ d') r"
proof -
  obtain fin ctx' b' where r: "r = (fin, ctx', b')" by (cases r)
  have x: "gcm_setup ctx' = Some (enc, g, (ops @ [OP_DATA d]) @ ops') \<Longrightarrow> aad_of ops' = [] \<Longrightarrow> data_of ops' = d' \<Longrightarrow>
      tag_of ops' = None \<Longrightarrow>
      \<exists>ops'. gcm_setup ctx' = Some (enc, g, ops @ ops') \<and> aad_of ops' = [] \<and> data_of ops' = d @ d' \<and> tag_of ops' = None" for ops'
    by (intro exI [of _ "OP_DATA d # ops'"]) simp
  show ?thesis using assms x by (auto simp: loop_post_def r written_written ctr_xor_append)
qed

lemma in_len_le: "in_len c \<le> cur_len c" "0 < cur_len c \<Longrightarrow> 0 < in_len c"
  by (simp_all add: in_len_def)

context aws_c_common
begin

lemma decrypt_loop_post:
  assumes S: "gcm_spec S ks tg"
  shows "gcm_setup ctx = Some (enc, g, ops) \<Longrightarrow> fits b (cur_len c) \<Longrightarrow> buf_capacity b < 2 ^ 64 \<Longrightarrow>
    \<exists>r. decrypt_loop L S ctx b c = Some r \<and> loop_post ks enc g ops b (cur_data c) r \<and> (gcm_ok S \<longrightarrow> fst r)"
proof (induction "cur_len c" arbitrary: ctx ops b c rule: less_induct)
  case less
  show ?case
  proof (cases "cur_len c = 0")
    case True
    then show ?thesis using less.prems by (subst decrypt_loop.simps) (simp add: loop_post_Nil)
  next
    case False
    let ?n = "in_len c"
    let ?d = "take ?n (cur_data c)"
    let ?out = "ctr_xor (ks g) (length (data_of ops)) ?d"
    have n: "?n \<le> cur_len c" "0 < ?n" using in_len_le False by simp_all
    show ?thesis
    proof (cases "evp_call S ctx (OP_DATA ?d)")
      case None
      then have "\<not> gcm_ok S" using evp_call_ok [of S "OP_DATA ?d" ctx] by auto
      then show ?thesis using None False by (subst decrypt_loop.simps) (simp add: loop_post_jump)
    next
      case (Some ctx')
      have set: "gcm_setup ctx' = Some (enc, g, ops @ [OP_DATA ?d])" by (rule evp_call_setup [OF Some less.prems(1)])
      have out: "ssl_cipher_out S ctx ?d = ?out" by (rule gcm_out [OF S less.prems(1)])
      have f: "fits b (length ?out)" using less.prems(2) n by (simp add: fits_def)
      have e: "decrypt_loop L S ctx b c = decrypt_loop L S ctx' (written b ?out) (advanced c ?n)"
        using False Some n f less.prems(3)
        by (subst decrypt_loop.simps)
          (simp add: update_out_def out Let_def advance add_size_checked fits_def written_def)
      have fit: "fits (written b ?out) (cur_len (advanced c ?n))"
        using f less.prems(2) n by (simp add: fits_def written_def)
      have lt: "cur_len (advanced c ?n) < cur_len c" using n by simp
      have cap: "buf_capacity (written b ?out) < 2 ^ 64" using f less.prems(3) by simp
      obtain r where r: "decrypt_loop L S ctx' (written b ?out) (advanced c ?n) = Some r" "gcm_ok S \<longrightarrow> fst r"
        and p: "loop_post ks enc g (ops @ [OP_DATA ?d]) (written b ?out) (cur_data (advanced c ?n)) r"
        using less.hyps [OF lt set fit cap] by blast
      have "loop_post ks enc g ops b (?d @ cur_data (advanced c ?n)) r"
        by (rule loop_post_step [OF p]) (use f in simp)
      then show ?thesis using e r by simp
    qed
  qed
qed

lemma encrypt_loop_eq:
  assumes S: "gcm_spec S ks tg"
  shows "gcm_setup ctx = Some (enc, g, ops) \<Longrightarrow> buf_len b + cur_len c = buf_capacity b \<Longrightarrow> buf_capacity b < 2 ^ 64 \<Longrightarrow>
    encrypt_loop L S ctx b c = decrypt_loop L S ctx b c"
proof (induction "cur_len c" arbitrary: ctx ops b c rule: less_induct)
  case less
  let ?n = "in_len c"
  let ?d = "take ?n (cur_data c)"
  let ?out = "ctr_xor (ks g) (length (data_of ops)) ?d"
  have n: "?n \<le> cur_len c" "cur_len c \<noteq> 0 \<Longrightarrow> 0 < ?n" using in_len_le by simp_all
  have out: "ssl_cipher_out S ctx ?d = ?out" by (rule gcm_out [OF S less.prems(1)])
  have f: "fits b (length ?out)" using less.prems(2) n by (simp add: fits_def)
  have l: "cur_len c = buf_capacity b - buf_len b" using less.prems(2) by simp
  consider "cur_len c = 0" | "cur_len c \<noteq> 0" "evp_call S ctx (OP_DATA ?d) = None"
    | ctx' where "cur_len c \<noteq> 0" "evp_call S ctx (OP_DATA ?d) = Some ctx'" by blast
  then show ?case
  proof cases
    case 3
    let ?r = "\<lambda>loop. loop L S ctx' (written b ?out) (advanced c ?n)"
    have add: "buf_len b + length ?out \<le> buf_capacity b" using f by (simp only: fits_def)
    have "encrypt_loop L S ctx b c = ?r encrypt_loop" "decrypt_loop L S ctx b c = ?r decrypt_loop"
      using 3 l n(1) add less.prems(3)
      by (subst encrypt_loop.simps decrypt_loop.simps, simp add: update_out_def out advance add_size_checked written_def)+
    moreover have "?r encrypt_loop = ?r decrypt_loop"
    proof (rule less.hyps)
      show "cur_len (advanced c ?n) < cur_len c" using n 3 by simp
      show "gcm_setup ctx' = Some (enc, g, ops @ [OP_DATA ?d])" by (rule evp_call_setup [OF 3(2) less.prems(1)])
      show "buf_len (written b ?out) + cur_len (advanced c ?n) = buf_capacity (written b ?out)"
        using n f less.prems(2) by simp
      show "buf_capacity (written b ?out) < 2 ^ 64" using f less.prems(3) by simp
    qed
    ultimately show ?thesis by simp
  qed (subst encrypt_loop.simps, subst decrypt_loop.simps, use l in simp)+
qed

end

section \<open>The final calls\<close>

lemma encrypt_final_spec:
  assumes S: "gcm_spec S ks tg" and ctx: "gcm_setup ctx = Some (True, g, ops)"
  shows "\<exists>r. evp_gcm_encrypt_final S props ctx = Some r \<and>
    (\<forall>t. r = Inr t \<longrightarrow> t = take (tag_len props) (tg g (aad_of ops) (ctr_xor (ks g) 0 (data_of ops)))) \<and>
    (gcm_ok S \<longrightarrow> \<not> isl r)"
proof (cases "ssl_cipher_op S ctx OP_FINAL")
  case True
  have "gcm_setup (ctx @ [OP_FINAL]) = Some (True, g, ops @ [OP_FINAL])" by (rule gcm_setup_append [OF ctx])
  moreover have "gcm_ok S \<longrightarrow> (\<exists>t. ssl_get_tag S (ctx @ [OP_FINAL]) (tag_len props) = Some t)" by (simp add: gcm_ok_def)
  ultimately show ?thesis
    using True gcm_tag [OF S, of "ctx @ [OP_FINAL]" g "ops @ [OP_FINAL]" "tag_len props"]
    by (auto simp: evp_gcm_encrypt_final_def evp_call_def gcm_final_outlen [OF S] split: option.split)
next
  case False
  then have "\<not> gcm_ok S" using ctx unfolding gcm_ok_def by blast
  then show ?thesis using False by (simp add: evp_gcm_encrypt_final_def evp_call_def)
qed

definition tag_matches :: "alg_properties \<Rightarrow> bytes \<Rightarrow> bytes \<Rightarrow> bool" where
  "tag_matches props tag t \<longleftrightarrow> take (tag_len props) tag = take (length (take (tag_len props) tag)) t"

lemma decrypt_final_spec:
  assumes S: "gcm_spec S ks tg" and ctx: "gcm_setup ctx = Some (False, g, ops)"
  shows "\<exists>r. evp_gcm_decrypt_final S props ctx tag = Some r \<and>
    (r = None \<longrightarrow> tag_matches props tag (tg g (aad_of ops) (data_of ops))) \<and>
    (gcm_ok S \<longrightarrow> r = (if tag_matches props tag (tg g (aad_of ops) (data_of ops)) then None
                      else Some AWS_CRYPTOSDK_ERR_BAD_CIPHERTEXT))"
proof (cases "ssl_cipher_op S ctx (OP_SET_TAG (take (tag_len props) tag))")
  case True
  let ?ctx = "ctx @ [OP_SET_TAG (take (tag_len props) tag)]"
  have c: "gcm_setup ?ctx = Some (False, g, ops @ [OP_SET_TAG (take (tag_len props) tag)])"
    by (rule gcm_setup_append [OF ctx])
  have "ssl_cipher_op S ?ctx OP_FINAL \<longleftrightarrow> tag_matches props tag (tg g (aad_of ops) (data_of ops))"
    using gcm_verify [OF S c] by (simp add: tag_matches_def)
  then show ?thesis
    using True gcm_no_error [OF S c] by (simp add: evp_gcm_decrypt_final_def evp_call_def gcm_final_outlen [OF S])
next
  case False
  then have "\<not> gcm_ok S" by (auto simp: gcm_ok_def)
  then show ?thesis using False by (simp add: evp_gcm_decrypt_final_def evp_call_def)
qed

section \<open>Frames\<close>

definition zeroed :: "byte_buf \<Rightarrow> byte_buf" where
  "zeroed b = b\<lparr>buf_mem := replicate (buf_capacity b) 0, buf_len := 0\<rparr>"

definition frame_tag ::
  "(gcm_id \<Rightarrow> bytes \<Rightarrow> bytes \<Rightarrow> bytes) \<Rightarrow> gcm_id \<Rightarrow> byte_buf \<Rightarrow> frame_type option \<Rightarrow> uint32 \<Rightarrow> bytes \<Rightarrow> bytes" where
  "frame_tag tg g mid ty seqno ct = tg g (frame_aad (buf_contents mid) ty seqno (word_of_nat (length ct))) ct"

context aws_c_common
begin

lemma decrypt_body_spec:
  assumes S: "gcm_spec S ks tg" and g: "g = suite_gcm props key iv"
    and b: "cur_len inp = buf_capacity outp - buf_len outp" "buf_valid outp" "buf_capacity outp < 2 ^ 64"
    and mid: "buf_len mid \<le> INT_MAX"
  shows "\<exists>st outp'. aws_cryptosdk_decrypt_body L S props outp inp mid seqno iv key tag ty = Some (st, outp') \<and>
    (st = None \<longrightarrow> tag_matches props tag (frame_tag tg g mid ty seqno (cur_data inp)) \<and>
      outp' = written outp (ctr_xor (ks g) 0 (cur_data inp))) \<and>
    (st \<noteq> None \<longrightarrow> outp' = zeroed outp) \<and>
    (gcm_ok S \<longrightarrow> st = (if tag_matches props tag (frame_tag tg g mid ty seqno (cur_data inp)) then None
       else Some AWS_CRYPTOSDK_ERR_BAD_CIPHERTEXT))"
proof -
  let ?n = "word_of_nat (cur_len inp) :: uint64"
  consider "evp_gcm_cipher_init S props key iv False = None"
    | ctx where "evp_gcm_cipher_init S props key iv False = Some ctx" "update_frame_aad S ctx mid ty seqno ?n = None"
    | ctx ctx' where "evp_gcm_cipher_init S props key iv False = Some ctx" "update_frame_aad S ctx mid ty seqno ?n = Some ctx'"
    by blast
  then show ?thesis
  proof cases
    case 1
    then have "\<not> gcm_ok S" using cipher_init_ok [of S props key iv False] by auto
    then show ?thesis using 1 b(1) by (simp add: aws_cryptosdk_decrypt_body_def secure_zero zeroed_def)
  next
    case 2
    then have "\<not> gcm_ok S" using frame_aad_ok [of S ctx mid ty seqno ?n] by auto
    then show ?thesis using 2 b(1) by (simp add: aws_cryptosdk_decrypt_body_def secure_zero zeroed_def)
  next
    case 3
    obtain ops where ops: "gcm_setup ctx' = Some (False, g, ops)" "aad_of ops = frame_aad (buf_contents mid) ty seqno ?n"
      "data_of ops = []" "tag_of ops = None"
      using frame_aad_setup [OF 3(2) cipher_init_setup [OF 3(1)] mid] g by auto
    have "fits outp (cur_len inp)" using b by (simp add: fits_def buf_valid_def)
    then obtain fin ctx'' b' where loop: "decrypt_loop L S ctx' outp inp = Some (fin, ctx'', b')"
      "loop_post ks False g ops outp (cur_data inp) (fin, ctx'', b')" "gcm_ok S \<longrightarrow> fin"
      using decrypt_loop_post [OF S ops(1) _ b(3), of inp] by auto
    have cap: "buf_capacity b' = buf_capacity outp" using loop(2) by (simp add: loop_post_def)
    show ?thesis
    proof (cases fin)
      case True
      then obtain ops' where ops': "gcm_setup ctx'' = Some (False, g, ops @ ops')" "aad_of ops' = []" "data_of ops' = cur_data inp"
        "b' = written outp (ctr_xor (ks g) 0 (cur_data inp))"
        using loop(2) ops(3) by (auto simp: loop_post_def)
      obtain r where "evp_gcm_decrypt_final S props ctx'' tag = Some r"
        "r = None \<longrightarrow> tag_matches props tag (frame_tag tg g mid ty seqno (cur_data inp))"
        "gcm_ok S \<longrightarrow> r = (if tag_matches props tag (frame_tag tg g mid ty seqno (cur_data inp)) then None
           else Some AWS_CRYPTOSDK_ERR_BAD_CIPHERTEXT)"
        using decrypt_final_spec [OF S ops'(1), of props tag] ops(2,3) ops'(2,3) by (auto simp: frame_tag_def)
      then show ?thesis
        using 3 b(1) loop(1) True ops'(4) cap
        by (cases r) (simp_all add: aws_cryptosdk_decrypt_body_def secure_zero zeroed_def)
    next
      case False
      then show ?thesis
        using 3 b(1) loop cap by (simp add: aws_cryptosdk_decrypt_body_def secure_zero zeroed_def)
    qed
  qed
qed

lemma encrypt_body_spec:
  assumes S: "gcm_spec S ks tg" and g: "g = suite_gcm props key (frame_iv_bytes props seqno)"
    and b: "cur_len inp = buf_capacity outp" "buf_len outp = 0" "buf_capacity outp < 2 ^ 64"
    and mid: "buf_len mid \<le> INT_MAX" and seqno: "seqno \<noteq> 0" and iv: "8 \<le> iv_len props"
  shows "\<exists>st outp' tag'. aws_cryptosdk_encrypt_body L S props outp inp mid seqno iv key tag ty =
      Some (st, outp', splice iv 0 (frame_iv_bytes props seqno), tag') \<and>
    (st = None \<longrightarrow> outp' = written outp (ctr_xor (ks g) 0 (cur_data inp)) \<and>
      tag' = splice tag 0 (take (tag_len props) (frame_tag tg g mid ty seqno (ctr_xor (ks g) 0 (cur_data inp))))) \<and>
    (st \<noteq> None \<longrightarrow> outp' = zeroed outp \<and> tag' = tag) \<and>
    (gcm_ok S \<longrightarrow> st = None)"
proof -
  let ?n = "word_of_nat (cur_len inp) :: uint64" and ?iv = "splice iv 0 (frame_iv_bytes props seqno)"
  have "length (frame_iv_bytes props seqno) = iv_len props" using iv by (simp add: frame_iv_bytes_def)
  then have g': "suite_gcm props key ?iv = g" by (simp add: g suite_gcm_def splice_def)
  consider "evp_gcm_cipher_init S props key ?iv True = None"
    | ctx where "evp_gcm_cipher_init S props key ?iv True = Some ctx" "update_frame_aad S ctx mid ty seqno ?n = None"
    | ctx ctx' where "evp_gcm_cipher_init S props key ?iv True = Some ctx" "update_frame_aad S ctx mid ty seqno ?n = Some ctx'"
    by blast
  then show ?thesis
  proof cases
    case 1
    then have "\<not> gcm_ok S" using cipher_init_ok [of S props key ?iv True] by auto
    then show ?thesis using 1 b(1) seqno iv by (simp add: aws_cryptosdk_encrypt_body_def secure_zero zeroed_def)
  next
    case 2
    then have "\<not> gcm_ok S" using frame_aad_ok [of S ctx mid ty seqno ?n] by auto
    then show ?thesis using 2 b(1) seqno iv by (simp add: aws_cryptosdk_encrypt_body_def secure_zero zeroed_def)
  next
    case 3
    obtain ops where ops: "gcm_setup ctx' = Some (True, g, ops)" "aad_of ops = frame_aad (buf_contents mid) ty seqno ?n"
      "data_of ops = []"
      using frame_aad_setup [OF 3(2) cipher_init_setup [OF 3(1)] mid] g' by auto
    have "fits outp (cur_len inp)" "buf_len outp + cur_len inp = buf_capacity outp" using b by (simp_all add: fits_def)
    then obtain fin ctx'' b' where loop: "encrypt_loop L S ctx' outp inp = Some (fin, ctx'', b')"
      "loop_post ks True g ops outp (cur_data inp) (fin, ctx'', b')" "gcm_ok S \<longrightarrow> fin"
      using decrypt_loop_post [OF S ops(1) _ b(3), of inp] encrypt_loop_eq [OF S ops(1) _ b(3), of inp] by auto
    have cap: "buf_capacity b' = buf_capacity outp" using loop(2) by (simp add: loop_post_def)
    show ?thesis
    proof (cases fin)
      case True
      then obtain ops' where ops': "gcm_setup ctx'' = Some (True, g, ops @ ops')" "aad_of ops' = []" "data_of ops' = cur_data inp"
        "b' = written outp (ctr_xor (ks g) 0 (cur_data inp))"
        using loop(2) ops(3) by (auto simp: loop_post_def)
      obtain r where r: "evp_gcm_encrypt_final S props ctx'' = Some r" "gcm_ok S \<longrightarrow> \<not> isl r"
        "\<And>t. r = Inr t \<Longrightarrow> t = take (tag_len props) (frame_tag tg g mid ty seqno (ctr_xor (ks g) 0 (cur_data inp)))"
        using encrypt_final_spec [OF S ops'(1), of props] ops(2,3) ops'(2,3) by (auto simp: frame_tag_def)
      show ?thesis
        using 3 b(1) seqno iv loop(1) True ops'(4) cap r
        by (cases r) (simp_all add: aws_cryptosdk_encrypt_body_def secure_zero zeroed_def)
    next
      case False
      then show ?thesis
        using 3 b(1) seqno iv loop cap by (simp add: aws_cryptosdk_encrypt_body_def secure_zero zeroed_def)
    qed
  qed
qed

end

lemma encrypt_body_iv:
  assumes "aws_cryptosdk_encrypt_body L S props outp inp mid seqno iv key tag ty = Some (None, ct, iv', tag')"
  shows "take (iv_len props) iv' = frame_iv_bytes props seqno" "seqno \<noteq> 0" "8 \<le> iv_len props"
proof -
  show "seqno \<noteq> 0" and l: "8 \<le> iv_len props"
    using assms by (auto simp: aws_cryptosdk_encrypt_body_def split: if_splits)
  have "iv' = splice iv 0 (frame_iv_bytes props seqno)"
    using assms
    by (auto simp: aws_cryptosdk_encrypt_body_def Let_def bind_eq_Some_conv split: if_splits option.splits)
      (auto split: sum.splits)
  then show "take (iv_len props) iv' = frame_iv_bytes props seqno" using l by (simp add: splice_def frame_iv_bytes_def)
qed

lemma frame_iv_bytes_0: "8 \<le> iv_len props \<Longrightarrow> frame_iv_bytes props 0 = replicate (iv_len props) 0"
proof -
  assume l: "8 \<le> iv_len props"
  have "nat_be k 0 = replicate k 0" for k by (induction k) simp_all
  then have "be_bytes 8 (0 :: uint64) = replicate 8 0" by (simp only: be_bytes_def unsigned_0)
  moreover have "replicate (iv_len props - 8) 0 @ replicate 8 0 = (replicate (iv_len props) 0 :: bytes)"
    using l by (metis le_add_diff_inverse2 replicate_add)
  ultimately show ?thesis using l by (simp add: frame_iv_bytes_def splice_def)
qed

lemma frame_iv_bytes_inj:
  assumes "8 \<le> iv_len props"
  shows "frame_iv_bytes props seqno = frame_iv_bytes props seqno' \<longleftrightarrow> seqno = seqno'"
proof
  let ?w = "\<lambda>s :: uint32. word_of_nat (unat s) :: uint64"
  assume "frame_iv_bytes props seqno = frame_iv_bytes props seqno'"
  then have "be_bytes 8 (?w seqno) = be_bytes 8 (?w seqno')" using assms by (simp add: frame_iv_bytes_def splice_def)
  then have "?w seqno = ?w seqno'" using be_val_64 [of "?w seqno"] be_val_64 [of "?w seqno'"] by metis
  then have "unat (?w seqno) = unat (?w seqno')" by (rule arg_cong)
  then have "unat seqno = unat seqno'"
    using unsigned_less [of seqno, where 'a = nat] unsigned_less [of seqno', where 'a = nat]
    unfolding unat_of_nat by simp
  then show "seqno = seqno'" by (simp add: word_unat_eq_iff)
qed simp

section \<open>Headers\<close>

lemma aad_call_setup:
  assumes "evp_gcm_cipher_init S props key iv enc = Some ctx" "evp_call S ctx (OP_AAD a) = Some ctx'"
  shows "gcm_setup ctx' = Some (enc, suite_gcm props key iv, [OP_AAD a])"
  using evp_call_setup [OF assms(2) cipher_init_setup [OF assms(1)]] by simp

text \<open>The calls on one context that sign or check a header, with the error code for every failing call.\<close>

definition header_ctx :: "openssl \<Rightarrow> alg_properties \<Rightarrow> content_key \<Rightarrow> bytes \<Rightarrow> bool \<Rightarrow> bytes \<Rightarrow> cipher_ctx option" where
  "header_ctx S props key iv enc header =
     Option.bind (evp_gcm_cipher_init S props key iv enc) (\<lambda>ctx. evp_call S ctx (OP_AAD (read_len header)))"

lemma header_ctx_setup:
  "header_ctx S props key iv enc header = Some ctx \<Longrightarrow> length header \<le> INT_MAX \<Longrightarrow>
     gcm_setup ctx = Some (enc, suite_gcm props key iv, [OP_AAD header])"
  by (auto simp: header_ctx_def bind_eq_Some_conv read_len_small dest: aad_call_setup)

lemma header_ctx_ok: "gcm_ok S \<Longrightarrow> \<exists>ctx. header_ctx S props key iv enc header = Some ctx"
  using cipher_init_ok [of S props key iv enc] by (auto simp: header_ctx_def evp_call_ok)

lemma sign_header_alt:
  assumes props: "aws_cryptosdk_alg_props i = Some props" and b: "buf_len authtag = aws_cryptosdk_private_authtag_len props"
  defines "v1 \<equiv> \<not> aws_cryptosdk_algorithm_is_committing i"
  defines "authtag' \<equiv> if v1 then authtag\<lparr>buf_mem := splice (buf_mem authtag) 0 (replicate 12 0)\<rparr> else authtag"
  shows "aws_cryptosdk_sign_header S props key authtag header =
    (case header_ctx S props key ZERO_IV True header of
       None \<Rightarrow> Some (Some AWS_CRYPTOSDK_ERR_CRYPTO_UNKNOWN, authtag')
     | Some ctx \<Rightarrow> Option.bind (evp_gcm_encrypt_final S props ctx) (\<lambda>r. case r of
          Inl e \<Rightarrow> Some (Some e, authtag')
        | Inr tag \<Rightarrow> Some (None, authtag'\<lparr>buf_mem := splice (buf_mem authtag') (if v1 then 12 else 0) tag\<rparr>)))"
proof -
  have "take 12 (splice (buf_mem authtag) 0 (replicate 12 0)) = ZERO_IV" by (simp add: splice_def ZERO_IV_def)
  then show ?thesis
    using b alg_props_fields [OF props]
    by (simp add: aws_cryptosdk_sign_header_def header_ctx_def aws_cryptosdk_private_authtag_len_def v1_def authtag'_def Let_def
        split: option.split)
qed

lemma sign_header_spec:
  assumes S: "gcm_spec S ks tg" and props: "aws_cryptosdk_alg_props i = Some props" and h: "length header \<le> INT_MAX"
    and b: "buf_valid authtag" "buf_len authtag = aws_cryptosdk_private_authtag_len props"
  defines "zs \<equiv> (if aws_cryptosdk_algorithm_is_committing i then [] else replicate 12 0)"
  shows "\<exists>st authtag'. aws_cryptosdk_sign_header S props key authtag header = Some (st, authtag') \<and>
    (st = None \<longrightarrow> authtag' = authtag\<lparr>buf_mem := splice (buf_mem authtag) 0 (zs @ tg (suite_gcm props key ZERO_IV) header [])\<rparr>) \<and>
    (gcm_ok S \<longrightarrow> st = None)"
proof (cases "header_ctx S props key ZERO_IV True header")
  case None
  then have "\<not> gcm_ok S" using header_ctx_ok [of S props key ZERO_IV True header] by auto
  then show ?thesis using None by (simp add: sign_header_alt [OF props b(2)])
next
  case (Some ctx)
  let ?t = "tg (suite_gcm props key ZERO_IV) header []"
  have len: "tag_len props = 16" "length ?t = 16" using alg_props_fields [OF props] gcm_tag_length [OF S] by simp_all
  obtain r where r: "evp_gcm_encrypt_final S props ctx = Some r" "gcm_ok S \<longrightarrow> \<not> isl r" "\<And>t. r = Inr t \<Longrightarrow> t = ?t"
    using encrypt_final_spec [OF S header_ctx_setup [OF Some h], of props] len by (auto simp: ctr_xor_def)
  have "12 + 16 \<le> buf_capacity authtag" if "\<not> aws_cryptosdk_algorithm_is_committing i"
    using that b alg_props_fields [OF props] by (simp add: buf_valid_def aws_cryptosdk_private_authtag_len_def)
  then show ?thesis
    using Some r splice_adjacent [of 0 "replicate 12 0" ?t "buf_mem authtag"] len(2)
    by (cases r) (auto simp: sign_header_alt [OF props b(2)] zs_def)
qed

definition header_iv :: "alg_id \<Rightarrow> byte_buf \<Rightarrow> bytes" where
  "header_iv i authtag = (if aws_cryptosdk_algorithm_is_committing i then ZERO_IV else take 12 (buf_mem authtag))"

definition header_tag :: "alg_id \<Rightarrow> byte_buf \<Rightarrow> bytes" where
  "header_tag i authtag =
     (if aws_cryptosdk_algorithm_is_committing i then buf_contents authtag else drop 12 (buf_contents authtag))"

lemma verify_header_spec:
  assumes S: "gcm_spec S ks tg" and props: "aws_cryptosdk_alg_props i = Some props" and h: "length header \<le> INT_MAX"
    and b: "buf_valid authtag" "buf_len authtag = aws_cryptosdk_private_authtag_len props"
    and ok: "ok \<longleftrightarrow> header_tag i authtag = tg (suite_gcm props key (header_iv i authtag)) header []"
  shows "\<exists>st. aws_cryptosdk_verify_header S props key authtag header = Some st \<and> (st = None \<longrightarrow> ok) \<and>
    (gcm_ok S \<longrightarrow> st = (if ok then None else Some AWS_CRYPTOSDK_ERR_BAD_CIPHERTEXT))"
proof -
  let ?iv = "header_iv i authtag"
  let ?tag = "if aws_cryptosdk_algorithm_is_committing i then buf_mem authtag else drop 12 (buf_mem authtag)"
  note f = alg_props_fields [OF props]
  have e: "aws_cryptosdk_verify_header S props key authtag header =
    (case header_ctx S props key ?iv False header of None \<Rightarrow> Some (Some AWS_CRYPTOSDK_ERR_CRYPTO_UNKNOWN)
     | Some ctx \<Rightarrow> evp_gcm_decrypt_final S props ctx ?tag)"
    using b f by (simp add: aws_cryptosdk_verify_header_def header_ctx_def header_iv_def
        aws_cryptosdk_private_authtag_len_def split: option.split)
  show ?thesis
  proof (cases "header_ctx S props key ?iv False header")
    case None
    then have "\<not> gcm_ok S" using header_ctx_ok [of S props key ?iv False header] by auto
    then show ?thesis using None by (simp add: e)
  next
    case (Some ctx)
    have t: "take 16 ?tag = header_tag i authtag" "length (header_tag i authtag) = 16"
      using b f by (auto simp: header_tag_def buf_contents_def buf_valid_def aws_cryptosdk_private_authtag_len_def take_drop)
    have "tag_matches props ?tag (tg (suite_gcm props key ?iv) header []) \<longleftrightarrow> ok"
      using t f(3) gcm_tag_length [OF S] by (simp add: tag_matches_def ok)
    then show ?thesis
      using Some decrypt_final_spec [OF S header_ctx_setup [OF Some h], of props ?tag] by (simp add: e)
  qed
qed

section \<open>AES-GCM of the raw keyrings\<close>

text \<open>What the calls on one context compute, with the jump to the error label as \<^const>\<open>None\<close>.\<close>

definition raw_gcm :: "bytes \<Rightarrow> bytes \<Rightarrow> gcm_id" where
  "raw_gcm key iv = (the (get_alg_from_key_size (length key)), 12, key, iv)"

lemma update_aad_setup:
  assumes "update_aad S ctx a = Some ctx'" "gcm_setup ctx = Some (enc, g, ops)" "length a \<le> INT_MAX"
  shows "\<exists>ops'. gcm_setup ctx' = Some (enc, g, ops @ ops') \<and> aad_of ops' = a \<and> data_of ops' = [] \<and> tag_of ops' = None"
proof (cases "a = []")
  case True
  then show ?thesis using assms by (intro exI [of _ "[]"]) (simp add: update_aad_def)
next
  case False
  then show ?thesis
    using assms evp_call_setup [of S ctx "OP_AAD a" ctx', OF _ assms(2)]
    by (intro exI [of _ "[OP_AAD a]"]) (simp add: update_aad_def read_len_small)
qed

lemma update_aad_ok: "gcm_ok S \<Longrightarrow> \<exists>ctx'. update_aad S ctx a = Some ctx'"
  by (simp add: update_aad_def evp_call_ok)

lemma init_full_setup:
  "evp_call S [] (OP_INIT_FULL c enc key iv) = Some ctx \<Longrightarrow> gcm_setup ctx = Some (enc, (c, 12, key, iv), [])"
  by (auto simp: evp_call_def gcm_setup_Some split: if_splits)

context aws_c_common
begin

lemma aes_gcm_encrypt_spec:
  assumes S: "gcm_spec S ks tg" "gcm_ok S" and key: "length key \<in> {16, 24, 32}" and iv: "length iv = 12"
    and b: "length plain \<le> buf_capacity cipher" "16 \<le> buf_capacity tag"
    and len: "length plain \<le> INT_MAX" "length aad \<le> INT_MAX"
  defines "g \<equiv> raw_gcm key iv"
  defines "ct \<equiv> ctr_xor (ks g) 0 plain"
  shows "aws_cryptosdk_aes_gcm_encrypt L S cipher tag plain iv aad key =
    (None, cipher\<lparr>buf_mem := splice (buf_mem cipher) 0 ct, buf_len := length plain\<rparr>,
     tag\<lparr>buf_mem := splice (buf_mem tag) 0 (tg g aad ct), buf_len := 16\<rparr>)"
proof -
  obtain c where c: "get_alg_from_key_size (length key) = Some c" using key by (auto simp: get_alg_from_key_size_def)
  have new: "ssl_cipher_ctx_new S" using S(2) by (simp add: gcm_ok_def)
  obtain ctx where 1: "evp_call S [] (OP_INIT_FULL c True key iv) = Some ctx" by (simp add: evp_call_ok [OF S(2)])
  obtain ctx' where 2: "update_aad S ctx aad = Some ctx'" using update_aad_ok [OF S(2)] by blast
  obtain ops where ops: "gcm_setup ctx' = Some (True, g, ops)" "aad_of ops = aad" "data_of ops = []"
    using update_aad_setup [OF 2 init_full_setup [OF 1] len(2)] by (auto simp: g_def raw_gcm_def c)
  let ?ctx = "ctx' @ [OP_DATA plain]"
  have 3: "evp_call S ctx' (OP_DATA plain) = Some ?ctx" by (simp add: evp_call_ok [OF S(2)])
  have out: "ssl_cipher_out S ctx' plain = ct" using gcm_out [OF S(1) ops(1)] ops(3) by (simp add: ct_def)
  have s: "gcm_setup ?ctx = Some (True, g, ops @ [OP_DATA plain])" by (rule gcm_setup_append [OF ops(1)])
  have 4: "evp_call S ?ctx OP_FINAL = Some (?ctx @ [OP_FINAL])" using S(2) s unfolding gcm_ok_def evp_call_def by metis
  obtain t where t: "ssl_get_tag S (?ctx @ [OP_FINAL]) 16 = Some t" using S(2) unfolding gcm_ok_def by blast
  have "t = tg g aad ct"
    using gcm_tag [OF S(1) gcm_setup_append [OF s] t] ops gcm_tag_length [OF S(1)] by (simp add: ct_def)
  then show ?thesis
    using c iv b new 1 2 3 4 t out gcm_final_outlen [OF S(1)]
    by (simp add: aws_cryptosdk_aes_gcm_encrypt_def read_len_small [OF len(1)] Let_def) (simp add: ct_def)
qed

lemma aes_gcm_decrypt_spec:
  assumes S: "gcm_spec S ks tg" "gcm_ok S" and key: "length key \<in> {16, 24, 32}" and iv: "length iv = 12" and tag: "length tag = 16"
    and b: "length cipher \<le> buf_capacity plain" and len: "length cipher \<le> INT_MAX" "length aad \<le> INT_MAX"
  defines "g \<equiv> raw_gcm key iv"
  shows "aws_cryptosdk_aes_gcm_decrypt L S plain cipher tag iv aad key =
    (if tag = tg g aad cipher
     then (None, plain\<lparr>buf_mem := splice (buf_mem plain) 0 (ctr_xor (ks g) 0 cipher), buf_len := length cipher\<rparr>)
     else (Some AWS_CRYPTOSDK_ERR_BAD_CIPHERTEXT, zeroed plain))"
proof -
  obtain c where c: "get_alg_from_key_size (length key) = Some c" using key by (auto simp: get_alg_from_key_size_def)
  have new: "ssl_cipher_ctx_new S" using S(2) by (simp add: gcm_ok_def)
  obtain ctx where 1: "evp_call S [] (OP_INIT_FULL c False key iv) = Some ctx" by (simp add: evp_call_ok [OF S(2)])
  have 2: "evp_call S ctx (OP_SET_TAG tag) = Some (ctx @ [OP_SET_TAG tag])" by (simp add: evp_call_ok [OF S(2)])
  obtain ctx' where 3: "update_aad S (ctx @ [OP_SET_TAG tag]) aad = Some ctx'" using update_aad_ok [OF S(2)] by blast
  have "gcm_setup (ctx @ [OP_SET_TAG tag]) = Some (False, g, [OP_SET_TAG tag])"
    using gcm_setup_append [OF init_full_setup [OF 1]] by (simp add: g_def raw_gcm_def c)
  from update_aad_setup [OF 3 this len(2)] obtain ops where ops: "gcm_setup ctx' = Some (False, g, ops)" "aad_of ops = aad"
    "data_of ops = []" "tag_of ops = Some tag"
    by auto
  let ?ctx = "ctx' @ [OP_DATA cipher]"
  have 4: "evp_call S ctx' (OP_DATA cipher) = Some ?ctx" by (simp add: evp_call_ok [OF S(2)])
  have out: "ssl_cipher_out S ctx' cipher = ctr_xor (ks g) 0 cipher" using gcm_out [OF S(1) ops(1)] ops(3) by simp
  have s: "gcm_setup ?ctx = Some (False, g, ops @ [OP_DATA cipher])" by (rule gcm_setup_append [OF ops(1)])
  have "ssl_cipher_op S ?ctx OP_FINAL \<longleftrightarrow> tag = tg g aad cipher"
    using gcm_verify [OF S(1) s] ops tag gcm_tag_length [OF S(1)] by simp
  then show ?thesis
    using c iv tag b new 1 2 3 4 out gcm_final_outlen [OF S(1)] gcm_no_error [OF S(1) s]
    by (simp add: aws_cryptosdk_aes_gcm_decrypt_def read_len_small [OF len(1)] Let_def evp_call_def [of S ?ctx OP_FINAL]
        secure_zero zeroed_def)
qed

end

section \<open>Keys\<close>

text \<open>The content key and the commitment that the message format prescribes.\<close>

definition padded_key :: "bytes \<Rightarrow> content_key" where
  "padded_key k = k @ replicate (MAX_DATA_KEY_SIZE - length k) 0"

definition spec_content_key ::
  "(evp_md \<Rightarrow> bytes \<Rightarrow> bytes \<Rightarrow> bytes) \<Rightarrow> alg_properties \<Rightarrow> data_key \<Rightarrow> bytes \<Rightarrow> content_key" where
  "spec_content_key hmac p dk mid =
     padded_key (case aws_cryptosdk_get_evp_md (aws_cryptosdk_which_sha (alg_id p)) of
       None \<Rightarrow> take (data_key_len p) dk
     | Some md \<Rightarrow>
         if aws_cryptosdk_algorithm_is_committing (alg_id p)
         then rfc5869 hmac md mid (take (data_key_len p) dk) (be_bytes 2 (alg_id p) @ c_bytes ''DERIVEKEY'') (content_key_len p)
         else rfc5869 hmac md [] (take (data_key_len p) dk) (be_bytes 2 (alg_id p) @ mid) (content_key_len p))"

definition spec_commitment :: "(evp_md \<Rightarrow> bytes \<Rightarrow> bytes \<Rightarrow> bytes) \<Rightarrow> alg_properties \<Rightarrow> data_key \<Rightarrow> bytes \<Rightarrow> bytes" where
  "spec_commitment hmac p dk mid = rfc5869 hmac EVP_sha512 mid (take (data_key_len p) dk) (c_bytes ''COMMITKEY'') 32"

lemma which_sha_committing:
  "aws_cryptosdk_algorithm_is_committing i \<Longrightarrow> aws_cryptosdk_which_sha i = AWS_CRYPTOSDK_SHA512"
  by (auto simp: aws_cryptosdk_algorithm_is_committing_def aws_cryptosdk_which_sha_def)

lemma derive_okm:
  assumes S: "hkdf_spec S hmac" and md: "aws_cryptosdk_get_evp_md sha = Some md" and n: "0 < n" "n \<le> MAX_DATA_KEY_SIZE"
    and r_def: "r = aws_cryptosdk_hkdf L S (buf_from_array (take n zero_key)) sha salt ikm info"
  shows "hkdf_into r = None" "splice zero_key 0 (buf_mem (snd r)) = padded_key (rfc5869 hmac md salt ikm info n)"
proof -
  let ?b = "buf_from_array (take n zero_key)"
  have b: "buf_len ?b = n" "buf_valid ?b" using n by (simp_all add: buf_from_array_def zero_key_def buf_valid_def)
  have "n \<le> 255 * EVP_MD_size md" using n by (cases md) simp_all
  then have r: "r = (None, ?b\<lparr>buf_mem := splice (buf_mem ?b) 0 (rfc5869 hmac md salt ikm info n)\<rparr>)"
    using hkdf_rfc5869 [OF S md b(2)] b n by (simp add: r_def)
  show "hkdf_into r = None" by (simp add: r hkdf_into_def)
  show "splice zero_key 0 (buf_mem (snd r)) = padded_key (rfc5869 hmac md salt ikm info n)"
    using length_rfc5869 [OF S, of md salt ikm info n] n
    by (simp add: r splice_def buf_from_array_def zero_key_def padded_key_def)
qed

lemma derive_key_v1_eq:
  assumes S: "hkdf_spec S hmac" and p: "aws_cryptosdk_alg_props i = Some p" "\<not> aws_cryptosdk_algorithm_is_committing i"
    and dk: "data_key_len p \<le> length data_key" and mid: "buf_valid mid" "buf_len mid = MSG_ID_LEN"
  shows "aws_cryptosdk_private_derive_key_v1 L S p content_key data_key mid =
    (None, spec_content_key hmac p data_key (buf_contents mid))"
proof -
  have f: "alg_id p = i" "content_key_len p = data_key_len p" "data_key_len p \<in> {16, 24, 32}"
    using alg_props_fields [OF p(1)] by simp_all
  have len: "0 < content_key_len p" "content_key_len p \<le> MAX_DATA_KEY_SIZE" using f by auto
  show ?thesis
  proof (cases "aws_cryptosdk_which_sha i = AWS_CRYPTOSDK_NOSHA")
    case True
    then show ?thesis
      using f dk mid
      by (auto simp: aws_cryptosdk_private_derive_key_v1_def spec_content_key_def padded_key_def splice_def zero_key_def)
  next
    case False
    then obtain md where md: "aws_cryptosdk_get_evp_md (aws_cryptosdk_which_sha i) = Some md"
      by (cases "aws_cryptosdk_which_sha i") simp_all
    show ?thesis
      using derive_okm [OF S md len refl, where L = L] False mid f p(2)
      by (simp add: aws_cryptosdk_private_derive_key_v1_def spec_content_key_def md buf_contents_def case_prod_unfold Let_def)
  qed
qed

lemma derive_key_v2_eq:
  assumes S: "hkdf_spec S hmac" and p: "aws_cryptosdk_alg_props i = Some p" "aws_cryptosdk_algorithm_is_committing i"
    and mid: "buf_len mid = MSG_ID_LEN_V2" and com: "32 \<le> buf_capacity com"
  shows "aws_cryptosdk_private_derive_key_v2 L S p content_key data_key com mid =
    (None, spec_content_key hmac p data_key (buf_contents mid),
     com\<lparr>buf_mem := splice (buf_mem com) 0 (spec_commitment hmac p data_key (buf_contents mid)), buf_len := 32\<rparr>)"
proof -
  let ?com = "com\<lparr>buf_mem := splice (buf_mem com) 0 (replicate 32 0), buf_len := 32\<rparr>"
  let ?k = "take (data_key_len p) data_key" and ?r = "spec_commitment hmac p data_key (buf_contents mid)"
  have f: "alg_id p = i" "content_key_len p = data_key_len p" "data_key_len p \<in> {16, 24, 32}" "commitment_len p = 32"
    using alg_props_fields [OF p(1)] p(2) by simp_all
  have len: "0 < content_key_len p" "content_key_len p \<le> MAX_DATA_KEY_SIZE" using f by auto
  have sha: "aws_cryptosdk_which_sha i = AWS_CRYPTOSDK_SHA512" by (rule which_sha_committing [OF p(2)])
  have l: "length ?r = 32" unfolding spec_commitment_def by (rule length_rfc5869 [OF S])
  have "splice (splice (buf_mem com) 0 (replicate 32 0)) 0 ?r = splice (buf_mem com) 0 ?r"
    using com l by (simp add: splice_def)
  then have "aws_cryptosdk_hkdf L S ?com AWS_CRYPTOSDK_SHA512 (buf_contents mid) ?k (c_bytes ''COMMITKEY'') =
      (None, com\<lparr>buf_mem := splice (buf_mem com) 0 ?r, buf_len := 32\<rparr>)"
    using hkdf_rfc5869 [OF S, of AWS_CRYPTOSDK_SHA512 EVP_sha512 ?com L "buf_contents mid" ?k "c_bytes ''COMMITKEY''"] com
    by (simp add: buf_valid_def spec_commitment_def)
  then show ?thesis
    using derive_okm [OF S _ len refl, where L = L and sha = AWS_CRYPTOSDK_SHA512 and md = EVP_sha512] com mid f p(2) sha
    by (simp add: aws_cryptosdk_private_derive_key_v2_def spec_content_key_def buf_contents_def case_prod_unfold Let_def)
qed

lemma derive_key_eq:
  assumes S: "hkdf_spec S hmac" and p: "aws_cryptosdk_alg_props i = Some p" and dk: "data_key_len p \<le> length data_key"
    and mid: "buf_valid mid" "buf_len mid = aws_cryptosdk_private_algorithm_message_id_len p"
    and com: "if aws_cryptosdk_algorithm_is_committing i then 32 \<le> buf_capacity com else buf_len com = 0"
  shows "aws_cryptosdk_private_derive_key L S p content_key data_key com mid =
    (None, spec_content_key hmac p data_key (buf_contents mid),
     if aws_cryptosdk_algorithm_is_committing i
     then com\<lparr>buf_mem := splice (buf_mem com) 0 (spec_commitment hmac p data_key (buf_contents mid)), buf_len := 32\<rparr>
     else com)"
  using derive_key_v1_eq [OF S p _ dk mid(1)] derive_key_v2_eq [OF S p] alg_props_fields(8) [OF p] mid(2) com
  by (simp add: aws_cryptosdk_private_derive_key_def aws_cryptosdk_private_algorithm_message_id_len_def)

section \<open>Properties\<close>

text \<open>
  C24: Frames round-trip. For every suite, with a working library, encrypting a frame into a buffer of its size succeeds, and decrypting the
  ciphertext with the vector and the tag that were written, under the same key, message id, type and sequence
  number, succeeds and gives back the plaintext.
\<close>

theorem frame_encrypt_decrypt:
  assumes "aws_c_common L" "gcm_spec S ks tg" "gcm_ok S" and props: "aws_cryptosdk_alg_props i = Some props"
    and out: "cur_len inp = buf_capacity outp" "buf_len outp = 0" "buf_capacity outp < 2 ^ 64"
    and pb: "buf_capacity plain = cur_len inp" "buf_len plain = 0"
    and mid: "buf_len mid \<le> INT_MAX" and "seqno \<noteq> 0" and len: "length tag = 16"
  shows "\<exists>ct iv' tag'. aws_cryptosdk_encrypt_body L S props outp inp mid seqno iv key tag ty = Some (None, ct, iv', tag') \<and>
    (\<exists>pt. aws_cryptosdk_decrypt_body L S props plain (cursor_of (buf_contents ct)) mid seqno iv' key tag' ty = Some (None, pt) \<and>
       buf_contents pt = cur_data inp)"
proof -
  let ?g = "suite_gcm props key (frame_iv_bytes props seqno)"
  let ?ct = "ctr_xor (ks ?g) 0 (cur_data inp)" and ?iv = "splice iv 0 (frame_iv_bytes props seqno)"
  have p: "iv_len props = 12" "tag_len props = 16" "8 \<le> iv_len props" using alg_props_fields [OF props] by simp_all
  let ?t = "frame_tag tg ?g mid ty seqno ?ct"
  have t: "length ?t = 16" by (simp add: frame_tag_def gcm_tag_length [OF assms(2)])
  have e: "aws_cryptosdk_encrypt_body L S props outp inp mid seqno iv key tag ty =
      Some (None, written outp ?ct, ?iv, splice tag 0 ?t)"
    using aws_c_common.encrypt_body_spec [OF assms(1,2) refl out mid assms(11) p(3), where key = key and iv = iv and tag = tag and ty = ty] assms(3) p(2) t by auto
  have c: "buf_contents (written outp ?ct) = ?ct" using out by (simp add: buf_contents_def written_def fits_def splice_def)
  have "length (frame_iv_bytes props seqno) = iv_len props" by (simp add: frame_iv_bytes_def p)
  then have g: "?g = suite_gcm props key ?iv" by (simp add: suite_gcm_def splice_def)
  have m: "tag_matches props (splice tag 0 ?t) ?t" using len t by (simp add: tag_matches_def splice_def p)
  have "aws_cryptosdk_decrypt_body L S props plain (cursor_of ?ct) mid seqno ?iv key (splice tag 0 ?t) ty =
      Some (None, written plain (cur_data inp))"
    using aws_c_common.decrypt_body_spec [OF assms(1,2) g, of "cursor_of ?ct" plain mid seqno "splice tag 0 ?t" ty]
      assms(3) pb out mid m by (auto simp: cursor_of_def buf_valid_def)
  moreover have "buf_contents (written plain (cur_data inp)) = cur_data inp"
    using pb by (simp add: buf_contents_def written_def splice_def)
  ultimately show ?thesis using e c by auto
qed

theorem frame_encrypt_decrypt_witness:
  "\<exists>ct iv' tag'. aws_cryptosdk_encrypt_body aws_ref openssl_ref (the (aws_cryptosdk_alg_props 0x0578))
      (buf_from_empty_array [0, 0]) (cursor_of [1, 2]) (buf_from_array [9]) 1 (replicate 12 0) zero_key (replicate 16 0)
      (Some FRAME_TYPE_FINAL) = Some (None, ct, iv', tag') \<and>
    (\<exists>pt. aws_cryptosdk_decrypt_body aws_ref openssl_ref (the (aws_cryptosdk_alg_props 0x0578)) (buf_from_empty_array [0, 0])
       (cursor_of (buf_contents ct)) (buf_from_array [9]) 1 iv' zero_key tag' (Some FRAME_TYPE_FINAL) = Some (None, pt) \<and>
       buf_contents pt = [1, 2])"
proof -
  obtain p where p: "aws_cryptosdk_alg_props 0x0578 = Some p" by (simp add: alg_table)
  show ?thesis
    using frame_encrypt_decrypt [OF ref.aws_c_common_axioms openssl_ref_spec openssl_ref_ok p, of "cursor_of [1, 2]"
        "buf_from_empty_array [0, 0]" "buf_from_empty_array [0, 0]" "buf_from_array [9]" 1 "replicate 16 0" "replicate 12 0"
        zero_key "Some FRAME_TYPE_FINAL"]
    by (simp add: p cursor_of_def buf_from_empty_array_def buf_from_array_def)
qed

text \<open>
  C25: Decryption of a frame always returns, and it releases plaintext only under a valid tag. If the length of the input differs from the room in the output, the result
  is \<^const>\<open>AWS_ERROR_SHORT_BUFFER\<close> and the output is left untouched: nothing was decrypted, and nothing is zeroed. Otherwise success means that the tag is that of the
  ciphertext with the associated data of this message id, frame type, sequence number and length, and the output is
  the decryption; on every other failure the whole output buffer is zero and empty. With a working library the only such failure is \<^const>\<open>AWS_CRYPTOSDK_ERR_BAD_CIPHERTEXT\<close>,
  for a wrong tag.
\<close>

theorem decrypt_body_authenticated:
  assumes "aws_c_common L" "gcm_spec S ks tg" "buf_valid outp" "buf_capacity outp < 2 ^ 64" "buf_len mid \<le> INT_MAX"
    and g: "g = suite_gcm props key iv"
  shows "\<exists>st outp'. aws_cryptosdk_decrypt_body L S props outp inp mid seqno iv key tag ty = Some (st, outp') \<and>
    (if cur_len inp \<noteq> buf_capacity outp - buf_len outp then st = Some AWS_ERROR_SHORT_BUFFER \<and> outp' = outp
     else case st of
       None \<Rightarrow> tag_matches props tag (frame_tag tg g mid ty seqno (cur_data inp)) \<and>
         buf_contents outp' = buf_contents outp @ ctr_xor (ks g) 0 (cur_data inp)
     | Some e \<Rightarrow> outp' = zeroed outp \<and> (gcm_ok S \<longrightarrow> e = AWS_CRYPTOSDK_ERR_BAD_CIPHERTEXT \<and>
         \<not> tag_matches props tag (frame_tag tg g mid ty seqno (cur_data inp))))"
proof (cases "cur_len inp = buf_capacity outp - buf_len outp")
  case True
  obtain st outp' where r: "aws_cryptosdk_decrypt_body L S props outp inp mid seqno iv key tag ty = Some (st, outp')"
    "st = None \<longrightarrow> tag_matches props tag (frame_tag tg g mid ty seqno (cur_data inp)) \<and>
      outp' = written outp (ctr_xor (ks g) 0 (cur_data inp))" "st \<noteq> None \<longrightarrow> outp' = zeroed outp"
    "gcm_ok S \<longrightarrow> st = (if tag_matches props tag (frame_tag tg g mid ty seqno (cur_data inp)) then None
       else Some AWS_CRYPTOSDK_ERR_BAD_CIPHERTEXT)"
    using aws_c_common.decrypt_body_spec [OF assms(1,2) g True assms(3-5), of seqno tag ty] by blast
  moreover have "fits outp (cur_len inp)" using True assms(3) by (simp add: fits_def buf_valid_def)
  ultimately show ?thesis using True by (cases st) (auto split: if_splits)
qed (simp add: aws_cryptosdk_decrypt_body_def)

theorem decrypt_body_authenticated_witness:
  "aws_cryptosdk_decrypt_body aws_ref openssl_ref (the (aws_cryptosdk_alg_props 0x0578)) (buf_from_empty_array [7, 7])
     (cursor_of [1, 2]) (buf_from_array [9]) 1 (replicate 12 0) zero_key (replicate 16 0) (Some FRAME_TYPE_FRAME) =
   Some (Some AWS_CRYPTOSDK_ERR_BAD_CIPHERTEXT, buf_from_empty_array [0, 0])"
proof -
  let ?p = "the (aws_cryptosdk_alg_props 0x0578)" and ?t = "replicate 16 0 :: bytes"
  have "tag_len ?p = 16" by (simp add: alg_table)
  then have "\<not> tag_matches ?p ?t (frame_tag ref_tag g (buf_from_array [9]) (Some FRAME_TYPE_FRAME) 1 [1, 2])" for g
    by (simp add: tag_matches_def frame_tag_def ref_tag_def frame_aad_def c_bytes_def aad_string_def be_bytes_def
        buf_contents_def buf_from_array_def of_char_def)
  then show ?thesis
    using decrypt_body_authenticated [OF ref.aws_c_common_axioms openssl_ref_spec, of "buf_from_empty_array [7, 7]"
        "buf_from_array [9]" _ ?p zero_key "replicate 12 0" "cursor_of [1, 2]" 1 ?t "Some FRAME_TYPE_FRAME", OF _ _ _ refl]
      openssl_ref_ok
    by (auto simp: buf_valid_def buf_from_empty_array_def buf_from_array_def cursor_of_def zeroed_def split: option.splits)
qed

text \<open>
  C26: Initialization vectors do not repeat under one key: two frames that were encrypted successfully have the same vector only if they have the same
  sequence number, and no frame has the all-zero vector of the header.
\<close>

theorem frame_iv_unique:
  assumes "aws_cryptosdk_encrypt_body L S props outp inp mid seqno iv key tag ty = Some (None, ct, iv1, tag1)"
    and "aws_cryptosdk_encrypt_body L S' props outp' inp' mid' seqno' iv' key' tag' ty' = Some (None, ct', iv2, tag2)"
  shows "(take (iv_len props) iv1 = take (iv_len props) iv2 \<longleftrightarrow> seqno = seqno') \<and>
    take (iv_len props) iv1 \<noteq> replicate (iv_len props) 0"
  using encrypt_body_iv [OF assms(1)] encrypt_body_iv [OF assms(2)] frame_iv_bytes_inj [of props seqno seqno']
    frame_iv_bytes_inj [of props seqno 0] frame_iv_bytes_0 [of props] by auto

theorem frame_iv_unique_witness:
  "\<exists>ct iv' tag'. aws_cryptosdk_encrypt_body aws_ref openssl_ref (the (aws_cryptosdk_alg_props 0x0578))
      (buf_from_empty_array []) (cursor_of []) (buf_from_array [9]) 1 (replicate 12 0) zero_key (replicate 16 0)
      (Some FRAME_TYPE_FINAL) = Some (None, ct, iv', tag') \<and> take 12 iv' \<noteq> replicate 12 0"
proof -
  obtain p where p: "aws_cryptosdk_alg_props 0x0578 = Some p" by (simp add: alg_table)
  have l: "iv_len p = 12" "8 \<le> iv_len p" using alg_props_fields [OF p] by simp_all
  obtain ct iv' tag' where e: "aws_cryptosdk_encrypt_body aws_ref openssl_ref p (buf_from_empty_array []) (cursor_of [])
      (buf_from_array [9]) 1 (replicate 12 0) zero_key (replicate 16 0) (Some FRAME_TYPE_FINAL) = Some (None, ct, iv', tag')"
    using ref.encrypt_body_spec [OF openssl_ref_spec refl, of "cursor_of []" "buf_from_empty_array []" "buf_from_array [9]" 1 p,
        OF _ _ _ _ _ l(2)] openssl_ref_ok
    by (auto simp: cursor_of_def buf_from_empty_array_def buf_from_array_def)
  show ?thesis using e frame_iv_unique [OF e e] l by (auto simp: p)
qed

text \<open>
  C27: The associated data of a frame binds all its parameters: for message ids of one length, the same associated data means the same message id,
  frame type, sequence number and data size.
\<close>

theorem frame_aad_binding:
  assumes "update_frame_aad S [] mid (Some ty) seqno n = Some ctx" "update_frame_aad S' [] mid' (Some ty') seqno' n' = Some ctx'"
    and "aad_of ctx = aad_of ctx'" and "buf_valid mid" "buf_valid mid'" "buf_len mid = buf_len mid'" "buf_len mid \<le> INT_MAX"
  shows "buf_contents mid = buf_contents mid' \<and> ty = ty' \<and> seqno = seqno' \<and> n = n'"
proof -
  have aad: "aad_of ctx = frame_aad (buf_contents mid) (Some ty) seqno n" "aad_of ctx' = frame_aad (buf_contents mid') (Some ty') seqno' n'"
    using update_frame_aad_aad [OF assms(1)] update_frame_aad_aad [OF assms(2)] assms(6,7) by simp_all
  have l: "length (buf_contents mid) = length (buf_contents mid')"
    using assms(4-6) by (simp add: buf_contents_def buf_valid_def)
  have e: "buf_contents mid = buf_contents mid'"
    "c_bytes (aad_string ty) @ be_bytes 4 seqno @ be_bytes 8 n = c_bytes (aad_string ty') @ be_bytes 4 seqno' @ be_bytes 8 n'"
    using assms(3) l by (simp_all add: aad frame_aad_def)
  have "ty = ty'"
    using arg_cong [OF e(2), of length] by (cases ty; cases ty') (simp_all add: c_bytes_def aad_string_def)
  moreover from this e(2) have "be_bytes 4 seqno = be_bytes 4 seqno'" "be_bytes 8 n = be_bytes 8 n'" by simp_all
  ultimately show ?thesis using e(1) be_val_32 [of seqno] be_val_32 [of seqno'] be_val_64 [of n] be_val_64 [of n'] by metis
qed

theorem frame_aad_binding_witness:
  "\<exists>ctx. update_frame_aad openssl_ref [] (buf_from_array [9]) (Some FRAME_TYPE_FRAME) 1 5 = Some ctx \<and>
     (\<forall>ctx'. update_frame_aad openssl_ref [] (buf_from_array [9]) (Some FRAME_TYPE_FINAL) 1 5 = Some ctx' \<longrightarrow>
        aad_of ctx \<noteq> aad_of ctx')"
proof -
  obtain ctx where "update_frame_aad openssl_ref [] (buf_from_array [9]) (Some FRAME_TYPE_FRAME) 1 5 = Some ctx"
    using frame_aad_ok [OF openssl_ref_ok] by blast
  then show ?thesis
    using frame_aad_binding [of openssl_ref "buf_from_array [9]" FRAME_TYPE_FRAME 1 5 ctx openssl_ref "buf_from_array [9]"
        FRAME_TYPE_FINAL 1 5]
    by (auto simp: buf_valid_def buf_from_array_def)
qed

text \<open>
  C28: A header that was signed is accepted, for both header formats, and with the same key and tag another header is
  accepted exactly if it has the same GCM tag; otherwise verification reports \<^const>\<open>AWS_CRYPTOSDK_ERR_BAD_CIPHERTEXT\<close>.
\<close>

theorem header_sign_verify:
  assumes S: "gcm_spec S ks tg" "gcm_ok S" and props: "aws_cryptosdk_alg_props i = Some props"
    and h: "length header \<le> INT_MAX" "length header' \<le> INT_MAX"
    and b: "buf_valid authtag" "buf_len authtag = aws_cryptosdk_private_authtag_len props"
    and g: "g = suite_gcm props key ZERO_IV"
  shows "\<exists>authtag'. aws_cryptosdk_sign_header S props key authtag header = Some (None, authtag') \<and>
    aws_cryptosdk_verify_header S props key authtag' header = Some None \<and>
    aws_cryptosdk_verify_header S props key authtag' header' =
      Some (if tg g header' [] = tg g header [] then None else Some AWS_CRYPTOSDK_ERR_BAD_CIPHERTEXT)"
proof -
  let ?zs = "if aws_cryptosdk_algorithm_is_committing i then [] else replicate 12 0 :: bytes"
  let ?a = "authtag\<lparr>buf_mem := splice (buf_mem authtag) 0 (?zs @ tg g header [])\<rparr>"
  have t: "length (tg g header []) = 16" by (rule gcm_tag_length [OF S(1)])
  have sign: "aws_cryptosdk_sign_header S props key authtag header = Some (None, ?a)"
    using sign_header_spec [OF S(1) props h(1) b, of key] S(2) unfolding g by blast
  have len: "buf_len authtag = length ?zs + 16"
    using b(2) alg_props_fields [OF props] by (simp add: aws_cryptosdk_private_authtag_len_def)
  have m: "buf_mem ?a = ?zs @ tg g header [] @ drop (buf_len authtag) (buf_mem authtag)"
    unfolding splice_def using len t by simp
  have a: "buf_valid ?a" "buf_len ?a = aws_cryptosdk_private_authtag_len props"
    using b len t by (simp_all add: buf_valid_def)
  have "header_tag i ?a = tg g header []" "header_iv i ?a = ZERO_IV"
    unfolding header_tag_def header_iv_def buf_contents_def m using len t
    by (cases "aws_cryptosdk_algorithm_is_committing i"; simp add: ZERO_IV_def)+
  note a = a this(1) this(2) [THEN arg_cong, of "suite_gcm props key", folded g]
  have v: "aws_cryptosdk_verify_header S props key ?a x =
      Some (if tg g x [] = tg g header [] then None else Some AWS_CRYPTOSDK_ERR_BAD_CIPHERTEXT)" if "length x \<le> INT_MAX" for x
    using verify_header_spec [OF S(1) props that a(1,2) refl, of key] S(2) unfolding a(3,4) by metis
  show ?thesis
    by (rule exI [of _ ?a]) (simp only: sign v [OF h(1)] v [OF h(2)] if_True simp_thms)
qed

theorem header_sign_verify_witness:
  "\<exists>authtag'. aws_cryptosdk_sign_header openssl_ref (the (aws_cryptosdk_alg_props 0x0378)) zero_key
      (buf_from_array (replicate 28 7)) [1, 2, 3] = Some (None, authtag') \<and>
    aws_cryptosdk_verify_header openssl_ref (the (aws_cryptosdk_alg_props 0x0378)) zero_key authtag' [1, 2, 3] = Some None \<and>
    aws_cryptosdk_verify_header openssl_ref (the (aws_cryptosdk_alg_props 0x0378)) zero_key authtag' [1, 2, 4] =
      Some (Some AWS_CRYPTOSDK_ERR_BAD_CIPHERTEXT)"
proof -
  obtain p where p: "aws_cryptosdk_alg_props 0x0378 = Some p" by (simp add: alg_table)
  have "aws_cryptosdk_private_authtag_len p = 28"
    using alg_props_fields [OF p]
    by (simp add: aws_cryptosdk_private_authtag_len_def aws_cryptosdk_algorithm_is_committing_def)
  then show ?thesis
    using header_sign_verify [OF openssl_ref_spec openssl_ref_ok p, of "[1, 2, 3]" "[1, 2, 4]" "buf_from_array (replicate 28 7)" _
        zero_key, OF _ _ _ _ refl]
    by (simp add: p buf_valid_def buf_from_array_def ref_tag_def)
qed

text \<open>
  C29: Key derivation computes the keys of the message format: the content key (HKDF with the suite id and the message id or label as info, or
  the data key itself for suites without a derivation) and, for committing suites, the key commitment, both padded with zeros to the size of their arrays.
\<close>

theorem derive_key_correct:
  assumes "hkdf_spec S hmac" "aws_cryptosdk_alg_props i = Some p" "data_key_len p \<le> length data_key"
    and "buf_valid mid" "buf_len mid = aws_cryptosdk_private_algorithm_message_id_len p"
    and "if aws_cryptosdk_algorithm_is_committing i then 32 \<le> buf_capacity com else buf_len com = 0"
  shows "aws_cryptosdk_private_derive_key L S p content_key data_key com mid =
    (None, spec_content_key hmac p data_key (buf_contents mid),
     if aws_cryptosdk_algorithm_is_committing i
     then com\<lparr>buf_mem := splice (buf_mem com) 0 (spec_commitment hmac p data_key (buf_contents mid)), buf_len := 32\<rparr>
     else com)"
  by (rule derive_key_eq [OF assms])

theorem derive_key_witness:
  "fst (aws_cryptosdk_private_derive_key aws_ref (hkdf_ref 0x30000000) (the (aws_cryptosdk_alg_props 0x0578)) zero_key
     (replicate 32 3) (buf_from_empty_array (replicate 32 0)) (buf_from_array (replicate 32 5))) = None"
proof -
  obtain p where p: "aws_cryptosdk_alg_props 0x0578 = Some p" by (simp add: alg_table)
  have c: "aws_cryptosdk_algorithm_is_committing 0x0578" by (simp add: aws_cryptosdk_algorithm_is_committing_def)
  then have "aws_cryptosdk_private_algorithm_message_id_len p = 32"
    using alg_props_fields [OF p] by (simp add: aws_cryptosdk_private_algorithm_message_id_len_def)
  moreover have "data_key_len p \<le> 32" using alg_props_fields(5) [OF p] by auto
  ultimately show ?thesis
    using derive_key_correct [OF hkdf_ref_spec p, of "replicate 32 3" "buf_from_array (replicate 32 5)"
        "buf_from_empty_array (replicate 32 0)" aws_ref "0x30000000" zero_key] c
    by (simp add: p buf_valid_def buf_from_array_def buf_from_empty_array_def)
qed

text \<open>
  C30: AES-GCM of the raw keyrings: encryption succeeds and its result decrypts to the plaintext, and decryption of any other ciphertext, tag
  or associated data succeeds exactly if the tag is right; otherwise the output buffer is zeroed and the error is \<^const>\<open>AWS_CRYPTOSDK_ERR_BAD_CIPHERTEXT\<close>.
\<close>

theorem aes_gcm_roundtrip:
  assumes L: "aws_c_common L" and S: "gcm_spec S ks tg" "gcm_ok S"
    and key: "length key \<in> {16, 24, 32}" and iv: "length iv = 12"
    and b: "length plain \<le> buf_capacity cipher" "16 \<le> buf_capacity tag" "length plain \<le> buf_capacity out" "length ct' \<le> buf_capacity out"
    and len: "length plain \<le> INT_MAX" "length ct' \<le> INT_MAX" "length aad \<le> INT_MAX" "length aad' \<le> INT_MAX" "length tag' = 16"
  shows "\<exists>ct t. aws_cryptosdk_aes_gcm_encrypt L S cipher tag plain iv aad key = (None, ct, t) \<and>
      (\<exists>pt. aws_cryptosdk_aes_gcm_decrypt L S out (buf_contents ct) (buf_contents t) iv aad key = (None, pt) \<and>
         buf_contents pt = plain) \<and>
      (\<exists>st pt. aws_cryptosdk_aes_gcm_decrypt L S out ct' tag' iv aad' key = (st, pt) \<and>
         (st = None \<longleftrightarrow> tag' = tg (raw_gcm key iv) aad' ct') \<and>
         (st \<noteq> None \<longrightarrow> st = Some AWS_CRYPTOSDK_ERR_BAD_CIPHERTEXT \<and> pt = zeroed out))"
proof -
  let ?g = "raw_gcm key iv"
  let ?ct = "ctr_xor (ks ?g) 0 plain"
  let ?c = "cipher\<lparr>buf_mem := splice (buf_mem cipher) 0 ?ct, buf_len := length plain\<rparr>"
  let ?t = "tag\<lparr>buf_mem := splice (buf_mem tag) 0 (tg ?g aad ?ct), buf_len := 16\<rparr>"
  have tl: "length (tg ?g aad ?ct) = 16" by (rule gcm_tag_length [OF S(1)])
  have e: "aws_cryptosdk_aes_gcm_encrypt L S cipher tag plain iv aad key = (None, ?c, ?t)"
    by (rule aws_c_common.aes_gcm_encrypt_spec [OF L S key iv b(1,2) len(1,3)])
  have c: "buf_contents ?c = ?ct" "buf_contents ?t = tg ?g aad ?ct" using b tl by (simp_all add: buf_contents_def splice_def)
  have d: "aws_cryptosdk_aes_gcm_decrypt L S out ?ct (tg ?g aad ?ct) iv aad key =
      (None, out\<lparr>buf_mem := splice (buf_mem out) 0 plain, buf_len := length plain\<rparr>)"
    using aws_c_common.aes_gcm_decrypt_spec [OF L S key iv tl, of ?ct out aad] b(3) len(1,3) by simp
  have "buf_contents (out\<lparr>buf_mem := splice (buf_mem out) 0 plain, buf_len := length plain\<rparr>) = plain"
    using b(3) by (simp add: buf_contents_def splice_def)
  then show ?thesis
    using e d c aws_c_common.aes_gcm_decrypt_spec [OF L S key iv len(5) b(4) len(2,4)] by auto
qed

theorem aes_gcm_roundtrip_witness:
  "\<exists>ct t. aws_cryptosdk_aes_gcm_encrypt aws_ref openssl_ref (buf_from_empty_array [0, 0]) (buf_from_empty_array (replicate 16 0))
       [1, 2] (replicate 12 4) [3] (replicate 32 5) = (None, ct, t) \<and>
     (\<exists>pt. aws_cryptosdk_aes_gcm_decrypt aws_ref openssl_ref (buf_from_empty_array [0, 0]) (buf_contents ct) (buf_contents t)
        (replicate 12 4) [3] (replicate 32 5) = (None, pt) \<and> buf_contents pt = [1, 2])"
  using aes_gcm_roundtrip [OF ref.aws_c_common_axioms openssl_ref_spec openssl_ref_ok, of "replicate 32 5" "replicate 12 4"
      "[1, 2]" "buf_from_empty_array [0, 0]" "buf_from_empty_array (replicate 16 0)" "buf_from_empty_array [0, 0]" "[]" "[3]" "[]"
      "replicate 16 0"]
  by (auto simp: buf_from_empty_array_def)

end
