(* ===== verification/Signature.thy ===== *)
theory Signature
  imports OpenSSL
begin

text \<open>
  Trailing signatures and digests, \<^verbatim>\<open>source/cipher_openssl.c\<close>: signature contexts for signing and verification, the
  encodings of public and private keys, and signatures of a fixed length. Where the source has variants
  for versions of the cryptographic library, this is the one for version 1.1.0 and later.
\<close>

section \<open>The libraries\<close>

text \<open>
  The elliptic-curve and digest operations of the cryptographic library and the base64 encoding of the common runtime. Curves are identified by
  their numbers, points and big integers by numbers, and a digest context by its algorithm and the data
  added to it. Every operation that draws random numbers takes the index of the draw. \<^const>\<open>None\<close> and \<^const>\<open>False\<close>
  are failures.

  \<^item> \<open>ec_i2o\<close> and \<open>ec_o2i\<close> are \<^verbatim>\<open>i2o_ECPublicKey\<close> and \<^verbatim>\<open>o2i_ECPublicKey\<close> with the compressed form; the second also gives the number of bytes read.
  \<^item> \<open>ec_bn_to_asn1\<close>, \<open>ec_i2d_int\<close>, \<open>ec_d2i_int\<close> and \<open>ec_asn1_to_bn\<close> convert big integers to and from their ASN.1 form.
  \<^item> \<open>ec_sign\<close> is \<^verbatim>\<open>EVP_PKEY_sign\<close> with an output, \<open>ec_sign_size\<close> the same without one.
  \<^item> \<open>b64_encode\<close> and \<open>b64_decode\<close> write to a buffer and replace what it holds.
\<close>

record siglib =
  ec_txt2nid :: "string \<Rightarrow> nat option"
  ec_group_new :: "nat \<Rightarrow> bool"
  ec_key_new :: bool
  ec_set_group :: "nat \<Rightarrow> bool"
  ec_generate_key :: "nat \<Rightarrow> nat \<Rightarrow> (nat \<times> nat) option"
  ec_i2o :: "nat \<Rightarrow> nat \<Rightarrow> bytes option"
  ec_o2i :: "nat \<Rightarrow> bytes \<Rightarrow> (nat \<times> nat) option"
  ec_bn_to_asn1 :: "nat \<Rightarrow> bool"
  ec_i2d_int :: "nat \<Rightarrow> bytes option"
  ec_d2i_int :: "bytes \<Rightarrow> (nat \<times> nat) option"
  ec_asn1_to_bn :: "nat \<Rightarrow> bool"
  ec_set_private_key :: "nat \<Rightarrow> bool"
  ec_pkey_new :: bool
  ec_pkey_set1 :: bool
  ec_md_ctx_new :: bool
  ec_digest_init :: "evp_md \<Rightarrow> bool"
  ec_digest_verify_init :: "evp_md \<Rightarrow> bool"
  ec_digest_update :: "evp_md \<Rightarrow> bytes \<Rightarrow> bytes \<Rightarrow> bool"
  ec_digest_final :: "evp_md \<Rightarrow> bytes \<Rightarrow> bytes option"
  ec_verify_final :: "nat \<Rightarrow> nat \<Rightarrow> evp_md \<Rightarrow> bytes \<Rightarrow> bytes \<Rightarrow> bool"
  ec_pkey_ctx_new :: bool
  ec_sign_init :: bool
  ec_sign_size :: "nat \<Rightarrow> nat option"
  ec_sign :: "nat \<Rightarrow> nat \<Rightarrow> bytes \<Rightarrow> nat \<Rightarrow> bytes option"
  ec_order :: "nat \<Rightarrow> int"
  ec_d2i_sig :: "bytes \<Rightarrow> (int \<times> int) option"
  ec_bn_dup :: "int \<Rightarrow> bool"
  ec_bn_sub :: "int \<Rightarrow> int \<Rightarrow> bool"
  ec_i2d_sig :: "int \<times> int \<Rightarrow> bytes option"
  b64_encoded_len :: "nat \<Rightarrow> nat result"
  b64_encode :: "bytes \<Rightarrow> byte_buf \<Rightarrow> byte_buf result"
  b64_decode :: "bytes \<Rightarrow> byte_buf \<Rightarrow> byte_buf result"

abbreviation MAX_PUBKEY_SIZE :: nat where
  "MAX_PUBKEY_SIZE \<equiv> 64"

abbreviation MAX_PUBKEY_SIZE_B64 :: nat where
  "MAX_PUBKEY_SIZE_B64 \<equiv> 88"

text \<open>The sizes of the structures that are allocated, with 64-bit pointers.\<close>

abbreviation SIZEOF_sig_ctx :: nat where
  "SIZEOF_sig_ctx \<equiv> 48"

abbreviation SIZEOF_md_context :: nat where
  "SIZEOF_md_context \<equiv> 16"

section \<open>Digests\<close>

text \<open>\<^const>\<open>None\<close> stands for a number that is not \<^verbatim>\<open>AWS_CRYPTOSDK_MD_SHA512\<close>.\<close>

datatype md_alg = AWS_CRYPTOSDK_MD_SHA512

type_synonym md_context = "evp_md \<times> bytes"

definition aws_cryptosdk_md_init :: "aws_lib \<Rightarrow> siglib \<Rightarrow> md_alg option \<Rightarrow> md_context result" where
  "aws_cryptosdk_md_init L E md_alg =
     (case md_alg of
        None \<Rightarrow> Inl AWS_CRYPTOSDK_ERR_CRYPTO_UNKNOWN
      | Some AWS_CRYPTOSDK_MD_SHA512 \<Rightarrow>
          if \<not> ec_md_ctx_new E then Inl AWS_ERROR_OOM
          else if \<not> ec_digest_init E EVP_sha512 then Inl AWS_CRYPTOSDK_ERR_CRYPTO_UNKNOWN
          else if \<not> lib_acquire L SIZEOF_md_context then Inl AWS_ERROR_OOM
          else Inr (EVP_sha512, []))"

definition aws_cryptosdk_md_size :: "md_alg option \<Rightarrow> nat" where
  "aws_cryptosdk_md_size md_alg = (case md_alg of Some AWS_CRYPTOSDK_MD_SHA512 \<Rightarrow> 512 div 8 | None \<Rightarrow> 0)"

definition aws_cryptosdk_md_update :: "siglib \<Rightarrow> md_context \<Rightarrow> bytes \<Rightarrow> status \<times> md_context" where
  "aws_cryptosdk_md_update E md_context buf =
     (case md_context of (md, d) \<Rightarrow>
        if \<not> ec_digest_update E md d buf then (AWS_OP_ERR AWS_CRYPTOSDK_ERR_CRYPTO_UNKNOWN, md_context)
        else (AWS_OP_SUCCESS, (md, d @ buf)))"

text \<open>The digest written to the output and its length; the context is gone afterwards.\<close>

definition aws_cryptosdk_md_finish :: "siglib \<Rightarrow> md_context \<Rightarrow> status \<times> bytes" where
  "aws_cryptosdk_md_finish E md_context =
     (case md_context of (md, d) \<Rightarrow>
        (case ec_digest_final E md d of
           None \<Rightarrow> (AWS_OP_ERR AWS_CRYPTOSDK_ERR_CRYPTO_UNKNOWN, [])
         | Some out \<Rightarrow> (AWS_OP_SUCCESS, out)))"

section \<open>Keys\<close>

record ec_key =
  ek_group :: nat
  ek_pub :: nat
  ek_priv :: "nat option"

record sig_ctx =
  sc_props :: alg_properties
  sc_keypair :: ec_key
  sc_md :: evp_md
  sc_data :: bytes
  sc_is_sign :: bool

definition sig_curve :: "alg_properties \<Rightarrow> string option" where
  "sig_curve props = curve_name (the (impl props))"

definition sig_md :: "alg_properties \<Rightarrow> evp_md" where
  "sig_md props = the (sig_md_ctor (the (impl props)))"

definition group_for_props :: "siglib \<Rightarrow> alg_properties \<Rightarrow> nat option" where
  "group_for_props E props =
     (case ec_txt2nid E (the (sig_curve props)) of
        None \<Rightarrow> None
      | Some nid \<Rightarrow> if ec_group_new E nid then Some nid else None)"

definition sign_start :: "aws_lib \<Rightarrow> siglib \<Rightarrow> ec_key \<Rightarrow> alg_properties \<Rightarrow> sig_ctx result" where
  "sign_start L E keypair props =
     (if \<not> lib_acquire L SIZEOF_sig_ctx then Inl AWS_ERROR_OOM
      else if \<not> ec_pkey_new E then Inl AWS_ERROR_OOM
      else if \<not> ec_pkey_set1 E then Inl AWS_ERROR_OOM
      else if \<not> ec_md_ctx_new E then Inl AWS_ERROR_OOM
      else if \<not> ec_digest_init E (sig_md props) then Inl AWS_CRYPTOSDK_ERR_CRYPTO_UNKNOWN
      else Inr \<lparr>sc_props = props, sc_keypair = keypair, sc_md = sig_md props, sc_data = [], sc_is_sign = True\<rparr>)"

text \<open>A trailing NUL that the encoder may have added is dropped.\<close>

definition serialize_pubkey :: "aws_lib \<Rightarrow> siglib \<Rightarrow> ec_key \<Rightarrow> bytes result" where
  "serialize_pubkey L E keypair =
     (case ec_i2o E (ek_group keypair) (ek_pub keypair) of
        None \<Rightarrow> Inl AWS_CRYPTOSDK_ERR_CRYPTO_UNKNOWN
      | Some buf \<Rightarrow>
          if length buf = 0 then Inl AWS_CRYPTOSDK_ERR_CRYPTO_UNKNOWN
          else bindE (b64_encoded_len E (length buf)) (\<lambda>b64_len.
               bindE (b64_encode E buf (buf_from_empty_array (replicate MAX_PUBKEY_SIZE_B64 0))) (\<lambda>b64.
               let b64 = (if buf_len b64 \<noteq> 0 \<and> buf_mem b64 ! (buf_len b64 - 1) = 0
                          then b64\<lparr>buf_len := buf_len b64 - 1\<rparr> else b64)
               in orE (aws_string_new_from_array L (buf_contents b64)) AWS_ERROR_OOM)))"

definition aws_cryptosdk_sig_get_pubkey :: "aws_lib \<Rightarrow> siglib \<Rightarrow> sig_ctx \<Rightarrow> bytes result" where
  "aws_cryptosdk_sig_get_pubkey L E ctx = serialize_pubkey L E (sc_keypair ctx)"

text \<open>The array has \<open>2 * MAX_PUBKEY_SIZE + 2\<close> bytes.\<close>

definition privkey_append :: "aws_lib \<Rightarrow> byte_buf \<Rightarrow> bytes \<Rightarrow> byte_buf result" where
  "privkey_append L b bs = orE (lib_write L b bs) AWS_ERROR_DEST_COPY_TOO_SMALL"

definition aws_cryptosdk_sig_get_privkey :: "aws_lib \<Rightarrow> siglib \<Rightarrow> sig_ctx \<Rightarrow> bytes result" where
  "aws_cryptosdk_sig_get_privkey L E ctx =
     (let priv = the (ek_priv (sc_keypair ctx));
          tmpbuf = buf_from_empty_array (replicate (2 * MAX_PUBKEY_SIZE + 2) 0)
      in if \<not> ec_bn_to_asn1 E priv then Inl AWS_ERROR_OOM
         else case (ec_i2d_int E priv, ec_i2o E (ek_group (sc_keypair ctx)) (ek_pub (sc_keypair ctx))) of
           (Some privkey_buf, Some pubkey_buf) \<Rightarrow>
             if length privkey_buf > 0xFF \<or> length pubkey_buf > 0xFF then Inl AWS_CRYPTOSDK_ERR_CRYPTO_UNKNOWN
             else bindE (privkey_append L tmpbuf (be_bytes 2 (alg_id (sc_props ctx)))) (\<lambda>tmpbuf.
                  let tmpbuf = written tmpbuf [word_of_nat (length pubkey_buf)];
                      tmpbuf = written tmpbuf [word_of_nat (length privkey_buf)]
                  in bindE (privkey_append L tmpbuf pubkey_buf) (\<lambda>tmpbuf.
                     bindE (privkey_append L tmpbuf privkey_buf) (\<lambda>tmpbuf.
                     orE (aws_string_new_from_array L (buf_contents tmpbuf)) AWS_ERROR_OOM)))
         | _ \<Rightarrow> Inl AWS_ERROR_OOM)"

text \<open>
  The result is the context and the public key, both absent for a suite without signatures. The public key is asked for by all
  callers.
\<close>

definition aws_cryptosdk_sig_sign_start_keygen ::
  "aws_lib \<Rightarrow> siglib \<Rightarrow> nat \<Rightarrow> alg_properties \<Rightarrow> (sig_ctx option \<times> bytes option) result" where
  "aws_cryptosdk_sig_sign_start_keygen L E draw props =
     (if sig_curve props = None then Inr (None, None)
      else case group_for_props E props of
        None \<Rightarrow> Inl AWS_CRYPTOSDK_ERR_CRYPTO_UNKNOWN
      | Some grp \<Rightarrow>
          if \<not> ec_key_new E then Inl AWS_CRYPTOSDK_ERR_CRYPTO_UNKNOWN
          else if \<not> ec_set_group E grp then Inl AWS_CRYPTOSDK_ERR_CRYPTO_UNKNOWN
          else (case ec_generate_key E grp draw of
            None \<Rightarrow> Inl AWS_CRYPTOSDK_ERR_CRYPTO_UNKNOWN
          | Some (pub, priv) \<Rightarrow>
              let keypair = \<lparr>ek_group = grp, ek_pub = pub, ek_priv = Some priv\<rparr>
              in bindE (serialize_pubkey L E keypair) (\<lambda>pub_key.
                 bindE (sign_start L E keypair props) (\<lambda>ctx. Inr (Some ctx, Some pub_key)))))"

text \<open>The public key string is optional here; \<open>want_pub\<close> says whether it is asked for.\<close>

definition read_privkey :: "aws_lib \<Rightarrow> siglib \<Rightarrow> alg_properties \<Rightarrow> bytes \<Rightarrow> ec_key result" where
  "read_privkey L E props priv_key =
     bindE (orE (lib_read_be16 L (cursor_of priv_key)) AWS_CRYPTOSDK_ERR_CRYPTO_UNKNOWN) (\<lambda>(serialized_alg_id, cursor).
     bindE (orE (lib_read_u8 L cursor) AWS_CRYPTOSDK_ERR_CRYPTO_UNKNOWN) (\<lambda>(pubkey_len, cursor).
     bindE (orE (lib_read_u8 L cursor) AWS_CRYPTOSDK_ERR_CRYPTO_UNKNOWN) (\<lambda>(privkey_len, cursor).
     bindE (guardE (serialized_alg_id = alg_id props) AWS_CRYPTOSDK_ERR_CRYPTO_UNKNOWN) (\<lambda>_.
     bindE (guardE (ec_key_new E) AWS_ERROR_OOM) (\<lambda>_.
     bindE (orE (group_for_props E props) AWS_CRYPTOSDK_ERR_CRYPTO_UNKNOWN) (\<lambda>grp.
     bindE (guardE (ec_set_group E grp) AWS_CRYPTOSDK_ERR_CRYPTO_UNKNOWN) (\<lambda>_.
     bindE (orE (lib_advance L cursor (unat pubkey_len)) AWS_CRYPTOSDK_ERR_CRYPTO_UNKNOWN) (\<lambda>(field, cursor).
     bindE (orE (ec_o2i E grp (cur_data field)) AWS_CRYPTOSDK_ERR_CRYPTO_UNKNOWN) (\<lambda>(pub, n).
     bindE (guardE (n = cur_len field) AWS_CRYPTOSDK_ERR_CRYPTO_UNKNOWN) (\<lambda>_.
     bindE (orE (lib_advance L cursor (unat privkey_len)) AWS_CRYPTOSDK_ERR_CRYPTO_UNKNOWN) (\<lambda>(field, cursor).
     bindE (orE (ec_d2i_int E (cur_data field)) AWS_CRYPTOSDK_ERR_CRYPTO_UNKNOWN) (\<lambda>(priv, n).
     bindE (guardE (n = cur_len field) AWS_CRYPTOSDK_ERR_CRYPTO_UNKNOWN) (\<lambda>_.
     bindE (guardE (ec_asn1_to_bn E priv) AWS_ERROR_OOM) (\<lambda>_.
     bindE (guardE (ec_set_private_key E priv) AWS_ERROR_OOM) (\<lambda>_.
     bindE (guardE (cur_len cursor = 0) AWS_CRYPTOSDK_ERR_CRYPTO_UNKNOWN) (\<lambda>_.
     Inr \<lparr>ek_group = grp, ek_pub = pub, ek_priv = Some priv\<rparr>))))))))))))))))"

definition aws_cryptosdk_sig_sign_start ::
  "aws_lib \<Rightarrow> siglib \<Rightarrow> bool \<Rightarrow> alg_properties \<Rightarrow> bytes \<Rightarrow> (sig_ctx option \<times> bytes option) result" where
  "aws_cryptosdk_sig_sign_start L E want_pub props priv_key =
     (if sig_curve props = None then Inr (None, None)
      else if length priv_key < 5 then Inl AWS_CRYPTOSDK_ERR_CRYPTO_UNKNOWN
      else bindE (read_privkey L E props priv_key) (\<lambda>keypair.
           bindE (if want_pub then bindE (serialize_pubkey L E keypair) (\<lambda>s. Inr (Some s)) else Inr None) (\<lambda>pub_key_str.
           bindE (sign_start L E keypair props) (\<lambda>ctx.
           Inr (Some ctx, pub_key_str)))))"

definition load_pubkey :: "siglib \<Rightarrow> alg_properties \<Rightarrow> bytes \<Rightarrow> ec_key result" where
  "load_pubkey E props pub_key_s =
     (case b64_decode E pub_key_s (buf_from_array (replicate MAX_PUBKEY_SIZE 0)) of
        Inl e \<Rightarrow> Inl AWS_CRYPTOSDK_ERR_BAD_CIPHERTEXT
      | Inr b64_decode_buf \<Rightarrow>
          bindE (orE (group_for_props E props) AWS_CRYPTOSDK_ERR_CRYPTO_UNKNOWN) (\<lambda>grp.
          bindE (guardE (ec_key_new E) AWS_ERROR_OOM) (\<lambda>_.
          bindE (guardE (ec_set_group E grp) AWS_CRYPTOSDK_ERR_CRYPTO_UNKNOWN) (\<lambda>_.
          bindE (orE (ec_o2i E grp (buf_contents b64_decode_buf)) AWS_CRYPTOSDK_ERR_BAD_CIPHERTEXT) (\<lambda>(pub, n).
          Inr \<lparr>ek_group = grp, ek_pub = pub, ek_priv = None\<rparr>)))))"

definition aws_cryptosdk_sig_verify_start ::
  "aws_lib \<Rightarrow> siglib \<Rightarrow> bytes \<Rightarrow> alg_properties \<Rightarrow> sig_ctx option result" where
  "aws_cryptosdk_sig_verify_start L E pub_key props =
     (if sig_curve props = None then Inr None
      else if \<not> lib_acquire L SIZEOF_sig_ctx then Inl AWS_ERROR_OOM
      else bindE (load_pubkey E props pub_key) (\<lambda>keypair.
           bindE (guardE (ec_pkey_new E) AWS_ERROR_OOM) (\<lambda>_.
           bindE (guardE (ec_pkey_set1 E) AWS_ERROR_OOM) (\<lambda>_.
           bindE (guardE (ec_md_ctx_new E) AWS_ERROR_OOM) (\<lambda>_.
           bindE (guardE (ec_digest_verify_init E (sig_md props)) AWS_CRYPTOSDK_ERR_CRYPTO_UNKNOWN) (\<lambda>_.
           Inr (Some \<lparr>sc_props = props, sc_keypair = keypair, sc_md = sig_md props, sc_data = [], sc_is_sign = False\<rparr>)))))))"

section \<open>Signing and verifying\<close>

definition aws_cryptosdk_sig_update :: "siglib \<Rightarrow> sig_ctx \<Rightarrow> bytes \<Rightarrow> status \<times> sig_ctx" where
  "aws_cryptosdk_sig_update E ctx cursor =
     (if length cursor = 0 then (AWS_OP_SUCCESS, ctx)
      else if \<not> ec_digest_update E (sc_md ctx) (sc_data ctx) cursor then (AWS_OP_ERR AWS_CRYPTOSDK_ERR_CRYPTO_UNKNOWN, ctx)
      else (AWS_OP_SUCCESS, ctx\<lparr>sc_data := sc_data ctx @ cursor\<rparr>))"

definition aws_cryptosdk_sig_verify_finish :: "siglib \<Rightarrow> sig_ctx \<Rightarrow> bytes \<Rightarrow> status" where
  "aws_cryptosdk_sig_verify_finish E ctx signature =
     (if ec_verify_final E (ek_group (sc_keypair ctx)) (ek_pub (sc_keypair ctx)) (sc_md ctx) (sc_data ctx) signature
      then AWS_OP_SUCCESS else AWS_OP_ERR AWS_CRYPTOSDK_ERR_BAD_CIPHERTEXT)"

text \<open>
  One pass of the loop that signs again until the length is right: \<^const>\<open>Inl\<close> is the jump to \<^verbatim>\<open>out\<close> with the error, \<^const>\<open>Inr\<close> the
  contents of \<^verbatim>\<open>sigtmp\<close>. A signature of another length is replaced by the one with the
  negated second component.
\<close>

definition sign_once :: "siglib \<Rightarrow> sig_ctx \<Rightarrow> bytes \<Rightarrow> nat \<Rightarrow> bytes result" where
  "sign_once E ctx digest draw =
     (let grp = ek_group (sc_keypair ctx)
      in case ec_sign E grp (the (ek_priv (sc_keypair ctx))) digest draw of
           None \<Rightarrow> Inl AWS_CRYPTOSDK_ERR_CRYPTO_UNKNOWN
         | Some sig \<Rightarrow>
             if length sig = signature_len (sc_props ctx) then Inr sig
             else (case ec_d2i_sig E sig of
               None \<Rightarrow> Inr sig
             | Some (orig_r, orig_s) \<Rightarrow>
                 if \<not> ec_bn_dup E orig_r \<or> \<not> ec_bn_dup E orig_s then Inl AWS_ERROR_OOM
                 else if \<not> ec_bn_sub E (ec_order E grp) orig_s then Inl AWS_CRYPTOSDK_ERR_CRYPTO_UNKNOWN
                 else (case ec_i2d_sig E (orig_r, ec_order E grp - orig_s) of
                   None \<Rightarrow> Inl AWS_CRYPTOSDK_ERR_CRYPTO_UNKNOWN
                 | Some sig \<Rightarrow> Inr sig)))"

text \<open>The loop may run forever: then there is no result.\<close>

partial_function (option) sign_loop :: "siglib \<Rightarrow> sig_ctx \<Rightarrow> bytes \<Rightarrow> nat \<Rightarrow> bytes \<Rightarrow> (bytes result \<times> nat) run" where
  "sign_loop E ctx digest draw sigtmp =
     (if length sigtmp = signature_len (sc_props ctx) then Some (Inr sigtmp, draw)
      else case sign_once E ctx digest draw of
             Inl e \<Rightarrow> Some (Inl e, Suc draw)
           | Inr sig \<Rightarrow> sign_loop E ctx digest (Suc draw) sig)"

definition aws_cryptosdk_sig_sign_finish :: "aws_lib \<Rightarrow> siglib \<Rightarrow> nat \<Rightarrow> sig_ctx \<Rightarrow> (bytes result \<times> nat) run" where
  "aws_cryptosdk_sig_sign_finish L E draw ctx =
     (if EVP_MD_size (sc_md ctx) > 64 then Some (Inl AWS_CRYPTOSDK_ERR_CRYPTO_UNKNOWN, draw)
      else case ec_digest_final E (sc_md ctx) (sc_data ctx) of
        None \<Rightarrow> Some (Inl AWS_CRYPTOSDK_ERR_CRYPTO_UNKNOWN, draw)
      | Some digest \<Rightarrow>
          if \<not> ec_pkey_ctx_new E then Some (Inl AWS_ERROR_OOM, draw)
          else if \<not> ec_sign_init E then Some (Inl AWS_CRYPTOSDK_ERR_CRYPTO_UNKNOWN, draw)
          else (case ec_sign_size E (ek_group (sc_keypair ctx)) of
            None \<Rightarrow> Some (Inl AWS_CRYPTOSDK_ERR_CRYPTO_UNKNOWN, draw)
          | Some siglen \<Rightarrow>
              (case lib_buf_init L siglen of
                 None \<Rightarrow> Some (Inl AWS_ERROR_OOM, draw)
               | Some sigtmp \<Rightarrow>
                   (case sign_loop E ctx digest draw [] of
                      None \<Rightarrow> None
                    | Some (Inl e, draw) \<Rightarrow> Some (Inl e, draw)
                    | Some (Inr sig, draw) \<Rightarrow>
                        Some (orE (aws_string_new_from_array L sig) AWS_ERROR_OOM, draw)))))"

section \<open>The contract\<close>

text \<open>
  The documented behaviour of the libraries, with the base64 encoding \<open>enc\<close>, the digest \<open>dig\<close> and the relation \<open>kp\<close> between the points and private keys of a
  curve as parameters:
  base64 decodes to what was encoded, with or without a NUL that the encoder adds; keys decode to what was
  encoded, and the encodings of points have at most 49 bytes (those of the larger of the two curves); generated keys are pairs; a signature made with a private key is valid for its point, and stays so if its
  second component is negated modulo the order of the group (SEC 1, section 4.1).
\<close>

definition b64_spec :: "siglib \<Rightarrow> (bytes \<Rightarrow> bytes) \<Rightarrow> bool" where
  "b64_spec E enc \<longleftrightarrow>
     (\<forall>bs. 0 \<notin> set (enc bs) \<and> length (enc bs) \<le> 4 * ((length bs + 2) div 3)) \<and>
     (\<forall>n. n \<le> MAX_PUBKEY_SIZE \<longrightarrow> b64_encoded_len E n = Inr (4 * ((n + 2) div 3) + 1)) \<and>
     (\<forall>bs b. 4 * ((length bs + 2) div 3) + 1 \<le> buf_capacity b \<longrightarrow>
        (\<exists>b'. b64_encode E bs b = Inr b' \<and> buf_valid b' \<and> buf_contents b' \<in> {enc bs, enc bs @ [0]})) \<and>
     (\<forall>bs b. length bs \<le> buf_capacity b \<longrightarrow> (\<exists>b'. b64_decode E (enc bs) b = Inr b' \<and> buf_contents b' = bs))"

definition ec_ok :: "siglib \<Rightarrow> bool" where
  "ec_ok E \<longleftrightarrow> ec_key_new E \<and> ec_pkey_new E \<and> ec_pkey_set1 E \<and> ec_md_ctx_new E \<and> ec_pkey_ctx_new E \<and> ec_sign_init E \<and>
     (\<forall>c. c \<in> {''prime256v1'', ''secp384r1''} \<longrightarrow> (\<exists>g. ec_txt2nid E c = Some g \<and> ec_group_new E g)) \<and>
     (\<forall>g. ec_set_group E g) \<and> (\<forall>n. ec_bn_to_asn1 E n \<and> ec_asn1_to_bn E n \<and> ec_set_private_key E n) \<and>
     (\<forall>md. ec_digest_init E md \<and> ec_digest_verify_init E md) \<and> (\<forall>md d x. ec_digest_update E md d x) \<and>
     (\<forall>g. \<exists>n. ec_sign_size E g = Some n)"

definition ec_spec :: "siglib \<Rightarrow> (evp_md \<Rightarrow> bytes \<Rightarrow> bytes) \<Rightarrow> (nat \<Rightarrow> nat \<Rightarrow> nat \<Rightarrow> bool) \<Rightarrow> bool" where
  "ec_spec E dig kp \<longleftrightarrow>
     (\<forall>md d. ec_digest_final E md d = Some (dig md d)) \<and>
     (\<forall>g p n. kp g p n \<longrightarrow> (\<exists>bs. ec_i2o E g p = Some bs \<and> ec_o2i E g bs = Some (p, length bs) \<and> 0 < length bs \<and>
        length bs \<le> 49)) \<and>
     (\<forall>g p n. kp g p n \<longrightarrow> (\<exists>bs. ec_i2d_int E n = Some bs \<and> ec_d2i_int E bs = Some (n, length bs) \<and> 0 < length bs \<and>
        length bs \<le> 62)) \<and>
     (\<forall>g i p n. ec_generate_key E g i = Some (p, n) \<longrightarrow> kp g p n) \<and>
     (\<forall>g p n md d i sig. kp g p n \<longrightarrow> ec_sign E g n (dig md d) i = Some sig \<longrightarrow> ec_verify_final E g p md d sig) \<and>
     (\<forall>g p md d sig sig' r s. ec_verify_final E g p md d sig \<longrightarrow> ec_d2i_sig E sig = Some (r, s) \<longrightarrow>
        ec_i2d_sig E (r, ec_order E g - s) = Some sig' \<longrightarrow> ec_verify_final E g p md d sig')"

section \<open>Facts\<close>

lemma sig_suites:
  assumes "aws_cryptosdk_alg_props i = Some p"
  shows "sig_curve p = None \<longleftrightarrow> signature_len p = 0"
    and "signature_len p \<noteq> 0 \<Longrightarrow> \<exists>c. sig_curve p = Some c \<and> c \<in> {''prime256v1'', ''secp384r1''}"
  using assms unfolding aws_cryptosdk_alg_props_def
  by (simp only: option.inject option.distinct split: if_split_asm; force simp: STATIC_ALG_PROPS_def sig_curve_def)+

lemma group_for_props_ok:
  assumes "ec_ok E" "aws_cryptosdk_alg_props i = Some p" "signature_len p \<noteq> 0"
  shows "\<exists>g. group_for_props E p = Some g"
proof -
  obtain c where c: "sig_curve p = Some c" "c \<in> {''prime256v1'', ''secp384r1''}" using sig_suites(2) [OF assms(2,3)] by blast
  then obtain g where "ec_txt2nid E c = Some g" "ec_group_new E g" using assms(1) unfolding ec_ok_def by blast
  then show ?thesis using c(1) by (simp add: group_for_props_def)
qed

lemma ec_spec_point:
  "ec_spec E dig kp \<Longrightarrow> kp g p n \<Longrightarrow>
     \<exists>bs. ec_i2o E g p = Some bs \<and> ec_o2i E g bs = Some (p, length bs) \<and> 0 < length bs \<and> length bs \<le> 49"
  unfolding ec_spec_def by metis

lemma ec_spec_int:
  "ec_spec E dig kp \<Longrightarrow> kp g p n \<Longrightarrow>
     \<exists>bs. ec_i2d_int E n = Some bs \<and> ec_d2i_int E bs = Some (n, length bs) \<and> 0 < length bs \<and> length bs \<le> 62"
  unfolding ec_spec_def by metis

lemma drop_nul:
  assumes "buf_valid b" "buf_contents b \<in> {e, e @ [0]}" "0 \<notin> set e"
  shows "buf_contents (if buf_len b \<noteq> 0 \<and> buf_mem b ! (buf_len b - 1) = 0 then b\<lparr>buf_len := buf_len b - 1\<rparr> else b) = e"
proof -
  have len: "length (buf_contents b) = buf_len b" using assms(1) by (simp add: buf_contents_def buf_valid_def)
  have last: "buf_mem b ! (buf_len b - 1) = last (buf_contents b)" if "buf_len b \<noteq> 0"
    using that assms(1) len by (subst last_conv_nth) (auto simp: buf_contents_def buf_valid_def)
  show ?thesis
  proof (cases "buf_contents b = e @ [0]")
    case True
    then have "take (buf_len b - 1) (buf_mem b) = e"
      using len by (metis buf_contents_def butlast_snoc butlast_take assms(1) buf_valid_def)
    then show ?thesis using True len last by (auto simp: buf_contents_def)
  next
    case False
    then have e: "buf_contents b = e" using assms(2) by simp
    then have "buf_len b = 0 \<or> last (buf_contents b) \<noteq> 0" using assms(3) len by (metis last_in_set length_0_conv)
    then show ?thesis using e last by auto
  qed
qed

lemma serialize_pubkey_eq:
  assumes "aws_c_common_mem L" "b64_spec E enc" "ec_spec E dig kp" "kp (ek_group k) (ek_pub k) n"
  shows "\<exists>bs. ec_i2o E (ek_group k) (ek_pub k) = Some bs \<and> serialize_pubkey L E k = Inr (enc bs) \<and> length bs \<le> 49 \<and>
    0 < length bs \<and> ec_o2i E (ek_group k) bs = Some (ek_pub k, length bs)"
proof -
  obtain bs where bs: "ec_i2o E (ek_group k) (ek_pub k) = Some bs" "ec_o2i E (ek_group k) bs = Some (ek_pub k, length bs)"
    "0 < length bs" "length bs \<le> 49"
    using ec_spec_point [OF assms(3,4)] by blast
  have "(length bs + 2) div 3 \<le> 17" using bs(4) by linarith
  then have "4 * ((length bs + 2) div 3) + 1 \<le> buf_capacity (buf_from_empty_array (replicate MAX_PUBKEY_SIZE_B64 0))"
    using bs(4) by (simp add: buf_from_empty_array_def)
  then obtain b where b: "b64_encode E bs (buf_from_empty_array (replicate MAX_PUBKEY_SIZE_B64 0)) = Inr b" "buf_valid b"
    "buf_contents b \<in> {enc bs, enc bs @ [0]}"
    using assms(2) unfolding b64_spec_def by blast
  have "\<exists>n. b64_encoded_len E (length bs) = Inr n" "0 \<notin> set (enc bs)"
    using assms(2) bs(4) by (simp_all add: b64_spec_def)
  then have "serialize_pubkey L E k = Inr (enc bs)"
    using bs b(1) drop_nul [OF b(2,3)] aws_c_common_mem.acquire_ok [OF assms(1)]
    by (auto simp: serialize_pubkey_def aws_string_new_from_array_def Let_def)
  then show ?thesis using bs by blast
qed

section \<open>Properties\<close>

lemma sign_loop_result:
  assumes "sign_loop E ctx digest draw t = Some y"
  shows "\<forall>sig. fst y = Inr sig \<longrightarrow> length sig = signature_len (sc_props ctx) \<and> (sig = t \<or> (\<exists>j. sign_once E ctx digest j = Inr sig))"
proof (rule sign_loop.raw_induct [OF _ assms])
  let ?P = "\<lambda>E ctx digest t y. \<forall>sig. fst y = Inr sig \<longrightarrow>
    length sig = signature_len (sc_props ctx) \<and> (sig = t \<or> (\<exists>j. sign_once E ctx digest j = Inr sig))"
  fix f E ctx digest draw t y
  assume IH: "\<And>E ctx digest draw t y. f E ctx digest draw t = Some y \<Longrightarrow> ?P E ctx digest t y"
    and e: "(if length t = signature_len (sc_props ctx) then Some (Inr t, draw)
      else case sign_once E ctx digest draw of
             Inl e \<Rightarrow> Some (Inl e, Suc draw) | Inr sig \<Rightarrow> f E ctx digest (Suc draw) sig) = Some y"
  consider "length t = signature_len (sc_props ctx)" | x where "length t \<noteq> signature_len (sc_props ctx)"
      "sign_once E ctx digest draw = Inl x"
    | s where "length t \<noteq> signature_len (sc_props ctx)" "sign_once E ctx digest draw = Inr s"
    by (cases "sign_once E ctx digest draw") auto
  then show "?P E ctx digest t y"
  proof cases
    case (3 s)
    then have "f E ctx digest (Suc draw) s = Some y" using e by simp
    from IH [OF this] 3(2) show ?thesis by metis
  qed (use e in auto)
qed

lemma sign_loop_progress:
  assumes "sign_once E ctx digest (draw + k) = Inr sig" "length sig = signature_len (sc_props ctx)"
  shows "(\<And>j. j < k \<Longrightarrow> \<exists>s. sign_once E ctx digest (draw + j) = Inr s \<and> length s \<noteq> signature_len (sc_props ctx)) \<Longrightarrow>
    length t \<noteq> signature_len (sc_props ctx) \<Longrightarrow> sign_loop E ctx digest draw t = Some (Inr sig, Suc (draw + k))"
  using assms(1)
proof (induction k arbitrary: draw t)
  case 0
  have "sign_loop E ctx digest (Suc draw) sig = Some (Inr sig, Suc draw)"
    using assms(2) by (subst sign_loop.simps) simp
  then show ?case using 0 by (subst sign_loop.simps) simp
next
  case (Suc k)
  obtain s where s: "sign_once E ctx digest draw = Inr s" "length s \<noteq> signature_len (sc_props ctx)"
    using Suc.prems(1) [of 0] by auto
  have "\<exists>s. sign_once E ctx digest (Suc draw + j) = Inr s \<and> length s \<noteq> signature_len (sc_props ctx)" if "j < k" for j
    using Suc.prems(1) [of "Suc j"] that by simp
  then have "sign_loop E ctx digest (Suc draw) s = Some (Inr sig, Suc (Suc draw + k))"
    using Suc.prems(3) s(2) by (intro Suc.IH) simp_all
  then show ?case using s(1) Suc.prems(2) by (subst sign_loop.simps) simp
qed

lemma sign_loop_returns:
  assumes "\<And>j. j < k \<Longrightarrow> \<exists>s. sign_once E ctx digest (draw + j) = Inr s"
    and "\<exists>s. sign_once E ctx digest (draw + k) = Inr s \<and> length s = signature_len (sc_props ctx)"
  shows "\<exists>sig d. sign_loop E ctx digest draw t = Some (Inr sig, d)"
proof (cases "length t = signature_len (sc_props ctx)")
  case True
  then show ?thesis by (subst sign_loop.simps) simp
next
  case False
  let ?ok = "\<lambda>j. \<exists>s. sign_once E ctx digest (draw + j) = Inr s \<and> length s = signature_len (sc_props ctx)"
  define j where "j = (LEAST j. ?ok j)"
  have ok: "?ok j" unfolding j_def by (rule LeastI [of ?ok k]) (rule assms(2))
  have jk: "j \<le> k" unfolding j_def by (rule Least_le) (rule assms(2))
  have "\<not> ?ok i" if "i < j" for i using not_less_Least [of i ?ok] that by (simp only: j_def simp_thms)
  then have "\<exists>s. sign_once E ctx digest (draw + i) = Inr s \<and> length s \<noteq> signature_len (sc_props ctx)" if "i < j" for i
    using assms(1) [of i] that jk by fastforce
  then show ?thesis using ok False sign_loop_progress [of E ctx digest draw j] by blast
qed

lemma sign_once_valid:
  assumes "ec_spec E dig kp" "sc_keypair ctx = \<lparr>ek_group = g, ek_pub = p, ek_priv = Some n\<rparr>" "kp g p n"
    and "sign_once E ctx (dig md d) j = Inr sig"
  shows "ec_verify_final E g p md d sig"
proof -
  have v: "ec_sign E g n (dig md d) j = Some s \<Longrightarrow> ec_verify_final E g p md d s" for s
    using assms(1,3) unfolding ec_spec_def by blast
  have neg: "ec_verify_final E g p md d s \<Longrightarrow> ec_d2i_sig E s = Some (x, y) \<Longrightarrow>
      ec_i2d_sig E (x, ec_order E g - y) = Some s' \<Longrightarrow> ec_verify_final E g p md d s'" for s x y s'
    using assms(1) unfolding ec_spec_def by blast
  show ?thesis
    using assms(4) v neg by (auto simp: sign_once_def assms(2) Let_def split: option.splits if_splits)
qed

lemma sign_finish_loop:
  assumes "ec_digest_final E (sc_md ctx) (sc_data ctx) = Some digest"
    and "aws_cryptosdk_sig_sign_finish L E draw ctx = Some (Inr sig, draw')"
  shows "\<exists>i. sign_loop E ctx digest draw [] = Some (Inr sig, i)"
  using assms by (auto simp: aws_cryptosdk_sig_sign_finish_def aws_string_new_from_array_def orE_def
      split: if_splits option.splits sum.splits)

lemma sign_finish_len:
  assumes "aws_cryptosdk_sig_sign_finish L E draw ctx = Some (Inr sig, draw')" "ec_digest_final E (sc_md ctx) (sc_data ctx) = Some digest"
  shows "length sig = signature_len (sc_props ctx)"
  using sign_finish_loop [OF assms(2,1)] sign_loop_result by fastforce

text \<open>
  C33: A signature has exactly the length of the suite, whatever the library returns, so that the size of a message is known
  in advance; and signing returns as soon as one attempt, directly or after negating its second component, has
  that length.
\<close>

theorem sign_finish_length:
  assumes "ec_digest_final E (sc_md ctx) (sc_data ctx) = Some digest"
  shows "(aws_cryptosdk_sig_sign_finish L E draw ctx = Some (Inr sig, draw') \<longrightarrow> length sig = signature_len (sc_props ctx)) \<and>
    ((\<forall>j < k. \<exists>s. sign_once E ctx digest (draw + j) = Inr s) \<and>
     (\<exists>s. sign_once E ctx digest (draw + k) = Inr s \<and> length s = signature_len (sc_props ctx)) \<longrightarrow>
     aws_cryptosdk_sig_sign_finish L E draw ctx \<noteq> None)"
proof (intro conjI impI)
  assume "aws_cryptosdk_sig_sign_finish L E draw ctx = Some (Inr sig, draw')"
  then show "length sig = signature_len (sc_props ctx)" using sign_finish_len [OF _ assms] by blast
next
  let ?n = "signature_len (sc_props ctx)"
  assume k: "(\<forall>j < k. \<exists>s. sign_once E ctx digest (draw + j) = Inr s) \<and>
    (\<exists>s. sign_once E ctx digest (draw + k) = Inr s \<and> length s = ?n)"
  then have "\<exists>sig d. sign_loop E ctx digest draw [] = Some (Inr sig, d)" by (intro sign_loop_returns [where k = k]) auto
  then show "aws_cryptosdk_sig_sign_finish L E draw ctx \<noteq> None"
    using assms by (auto simp: aws_cryptosdk_sig_sign_finish_def split: option.split sum.split)
qed

text \<open>The context after adding a sequence of pieces.\<close>

definition sig_updates :: "siglib \<Rightarrow> sig_ctx \<Rightarrow> bytes list \<Rightarrow> sig_ctx" where
  "sig_updates E ctx pieces = foldl (\<lambda>ctx x. snd (aws_cryptosdk_sig_update E ctx x)) ctx pieces"

lemma sig_update_ok: "ec_ok E \<Longrightarrow> aws_cryptosdk_sig_update E ctx x = (None, ctx\<lparr>sc_data := sc_data ctx @ x\<rparr>)"
  by (simp add: aws_cryptosdk_sig_update_def ec_ok_def)

lemma sig_updates_ok: "ec_ok E \<Longrightarrow> sig_updates E ctx pieces = ctx\<lparr>sc_data := sc_data ctx @ concat pieces\<rparr>"
  by (induction pieces arbitrary: ctx) (simp_all add: sig_updates_def sig_update_ok)

lemma sign_start_ok:
  assumes "aws_c_common_mem L" "ec_ok E"
  shows "sign_start L E k p = Inr \<lparr>sc_props = p, sc_keypair = k, sc_md = sig_md p, sc_data = [], sc_is_sign = True\<rparr>"
  using assms aws_c_common_mem.acquire_ok [OF assms(1)] by (simp add: sign_start_def ec_ok_def)

lemma keygen_result:
  assumes L: "aws_c_common_mem L" "b64_spec E enc" "ec_ok E" "ec_spec E dig kp"
    and p: "aws_cryptosdk_alg_props i = Some p" "signature_len p \<noteq> 0"
    and r: "aws_cryptosdk_sig_sign_start_keygen L E draw p = Inr (c, pub_key)"
  shows "\<exists>g pub priv bs. group_for_props E p = Some g \<and> kp g pub priv \<and> ec_o2i E g bs = Some (pub, length bs) \<and> length bs \<le> 49 \<and>
    0 < length bs \<and> ec_i2o E g pub = Some bs \<and>
    serialize_pubkey L E \<lparr>ek_group = g, ek_pub = pub, ek_priv = Some priv\<rparr> = Inr (enc bs) \<and>
    c = Some \<lparr>sc_props = p,
      sc_keypair = \<lparr>ek_group = g, ek_pub = pub, ek_priv = Some priv\<rparr>, sc_md = sig_md p, sc_data = [], sc_is_sign = True\<rparr> \<and>
    pub_key = Some (enc bs)"
proof -
  obtain g where g: "group_for_props E p = Some g" using group_for_props_ok [OF L(3) p] by blast
  have "sig_curve p \<noteq> None" using sig_suites(1) [OF p(1)] p(2) by simp
  then obtain pub priv where k: "ec_generate_key E g draw = Some (pub, priv)"
    using r g by (auto simp: aws_cryptosdk_sig_sign_start_keygen_def split: option.splits if_splits)
  then have kp: "kp g pub priv" using L(4) unfolding ec_spec_def by blast
  let ?k = "\<lparr>ek_group = g, ek_pub = pub, ek_priv = Some priv\<rparr>"
  obtain bs where bs: "serialize_pubkey L E ?k = Inr (enc bs)" "length bs \<le> 49" "ec_o2i E g bs = Some (pub, length bs)"
    "0 < length bs" "ec_i2o E g pub = Some bs"
    using serialize_pubkey_eq [OF L(1,2,4), of ?k priv] kp by auto
  have "aws_cryptosdk_sig_sign_start_keygen L E draw p = Inr (Some \<lparr>sc_props = p,
      sc_keypair = ?k, sc_md = sig_md p, sc_data = [], sc_is_sign = True\<rparr>, Some (enc bs))"
    using \<open>sig_curve p \<noteq> None\<close> g k bs(1) sign_start_ok [OF L(1,3)] L(3)
    by (simp add: aws_cryptosdk_sig_sign_start_keygen_def ec_ok_def)
  then show ?thesis
    using g kp bs r by (intro exI [of _ g] exI [of _ pub] exI [of _ priv] exI [of _ bs]) (simp only: sum.inject prod.inject simp_thms)
qed

lemma keygen_ok:
  assumes L: "aws_c_common_mem L" "b64_spec E enc" "ec_ok E" "ec_spec E dig kp"
    and p: "aws_cryptosdk_alg_props i = Some p" "signature_len p \<noteq> 0" and key: "\<And>g. ec_generate_key E g draw \<noteq> None"
  shows "\<exists>g pub priv bs. group_for_props E p = Some g \<and> kp g pub priv \<and> ec_o2i E g bs = Some (pub, length bs) \<and> length bs \<le> 49 \<and>
    0 < length bs \<and> ec_i2o E g pub = Some bs \<and>
    serialize_pubkey L E \<lparr>ek_group = g, ek_pub = pub, ek_priv = Some priv\<rparr> = Inr (enc bs) \<and>
    aws_cryptosdk_sig_sign_start_keygen L E draw p = Inr (Some \<lparr>sc_props = p,
      sc_keypair = \<lparr>ek_group = g, ek_pub = pub, ek_priv = Some priv\<rparr>, sc_md = sig_md p, sc_data = [], sc_is_sign = True\<rparr>,
      Some (enc bs))"
proof -
  obtain g where g: "group_for_props E p = Some g" using group_for_props_ok [OF L(3) p] by blast
  obtain pub priv where k: "ec_generate_key E g draw = Some (pub, priv)" using key [of g] by auto
  then have kp: "kp g pub priv" using L(4) unfolding ec_spec_def by blast
  have "sig_curve p \<noteq> None" using sig_suites(1) [OF p(1)] p(2) by simp
  then have "\<exists>c pk. aws_cryptosdk_sig_sign_start_keygen L E draw p = Inr (c, pk)"
    using g k serialize_pubkey_eq [OF L(1,2,4), of "\<lparr>ek_group = g, ek_pub = pub, ek_priv = Some priv\<rparr>" priv] kp
      sign_start_ok [OF L(1,3)] L(3) by (auto simp: aws_cryptosdk_sig_sign_start_keygen_def ec_ok_def)
  then show ?thesis using keygen_result [OF L p, of draw] by blast
qed

lemma verify_start_ok:
  assumes L: "aws_c_common_mem L" "b64_spec E enc" "ec_ok E" and p: "aws_cryptosdk_alg_props i = Some p" "signature_len p \<noteq> 0"
    and g: "group_for_props E p = Some g" "ec_o2i E g bs = Some (pub, length bs)" "length bs \<le> 49"
  shows "aws_cryptosdk_sig_verify_start L E (enc bs) p = Inr (Some \<lparr>sc_props = p,
    sc_keypair = \<lparr>ek_group = g, ek_pub = pub, ek_priv = None\<rparr>, sc_md = sig_md p, sc_data = [], sc_is_sign = False\<rparr>)"
proof -
  have "length bs \<le> buf_capacity (buf_from_array (replicate MAX_PUBKEY_SIZE 0))" using g(3) by (simp add: buf_from_array_def)
  then obtain b where "b64_decode E (enc bs) (buf_from_array (replicate MAX_PUBKEY_SIZE 0)) = Inr b" "buf_contents b = bs"
    using L(2) unfolding b64_spec_def by blast
  then have "load_pubkey E p (enc bs) = Inr \<lparr>ek_group = g, ek_pub = pub, ek_priv = None\<rparr>"
    using g L(3) by (simp add: load_pubkey_def ec_ok_def)
  moreover have "sig_curve p \<noteq> None" using sig_suites(1) [OF p(1)] p(2) by simp
  ultimately show ?thesis
    using L(3) aws_c_common_mem.acquire_ok [OF L(1)] by (simp add: aws_cryptosdk_sig_verify_start_def ec_ok_def)
qed

text \<open>What a signing context signs is valid for its public key.\<close>

lemma sign_finish_verifies:
  assumes E: "ec_spec E dig kp" and k: "kp (ek_group (sc_keypair c)) (ek_pub (sc_keypair c)) priv \<and> ek_priv (sc_keypair c) = Some priv \<and>
      signature_len (sc_props c) \<noteq> 0"
    and sf: "aws_cryptosdk_sig_sign_finish L E draw c = Some (Inr sig, draw')"
  shows "ec_verify_final E (ek_group (sc_keypair c)) (ek_pub (sc_keypair c)) (sc_md c) (sc_data c) sig"
proof -
  have "ec_digest_final E (sc_md c) (sc_data c) = Some (dig (sc_md c) (sc_data c))" using E by (simp add: ec_spec_def)
  then obtain j where "sign_loop E c (dig (sc_md c) (sc_data c)) draw [] = Some (Inr sig, j)"
    using sign_finish_loop [of E c, OF _ sf] by auto
  from sign_loop_result [OF this] obtain j where "sign_once E c (dig (sc_md c) (sc_data c)) j = Inr sig" using k by auto
  then show ?thesis using sign_once_valid [OF E, of c "ek_group (sc_keypair c)" "ek_pub (sc_keypair c)" priv "sc_md c" "sc_data c" j sig] k
    by (cases "sc_keypair c") simp
qed

text \<open>
  C32: Signatures verify. For every suite with signatures, a new key pair gives a signing context and a public key from which a verification context can be made;
  whatever data is added to both, in whatever pieces, a signature that the first produces is accepted by the second.
\<close>

theorem sign_then_verify:
  assumes L: "aws_c_common_mem L" "b64_spec E enc" "ec_ok E" "ec_spec E dig kp"
    and p: "aws_cryptosdk_alg_props i = Some p" "signature_len p \<noteq> 0" and key: "\<And>g. ec_generate_key E g draw \<noteq> None"
  shows "\<exists>ctx pub_key vctx. aws_cryptosdk_sig_sign_start_keygen L E draw p = Inr (Some ctx, Some pub_key) \<and>
    aws_cryptosdk_sig_verify_start L E pub_key p = Inr (Some vctx) \<and>
    (concat pieces = concat pieces' \<longrightarrow>
     aws_cryptosdk_sig_sign_finish L E draw' (sig_updates E ctx pieces) = Some (Inr sig, draw'') \<longrightarrow>
     aws_cryptosdk_sig_verify_finish E (sig_updates E vctx pieces') sig = None)"
proof -
  obtain g pub priv bs where k: "group_for_props E p = Some g" "kp g pub priv" "ec_o2i E g bs = Some (pub, length bs)" "length bs \<le> 49"
    "aws_cryptosdk_sig_sign_start_keygen L E draw p = Inr (Some \<lparr>sc_props = p,
      sc_keypair = \<lparr>ek_group = g, ek_pub = pub, ek_priv = Some priv\<rparr>, sc_md = sig_md p, sc_data = [], sc_is_sign = True\<rparr>,
      Some (enc bs))"
    using keygen_ok [OF L p key] by blast
  let ?d = "concat pieces" and ?c = "\<lparr>sc_props = p, sc_keypair = \<lparr>ek_group = g, ek_pub = pub, ek_priv = Some priv\<rparr>,
    sc_md = sig_md p, sc_data = concat pieces, sc_is_sign = True\<rparr>"
  have "ec_verify_final E g pub (sig_md p) ?d sig" if sf: "aws_cryptosdk_sig_sign_finish L E draw' ?c = Some (Inr sig, draw'')"
    using sign_finish_verifies [OF L(4) _ sf, of priv] k(2) p(2) by simp
  then show ?thesis
    using k(5) verify_start_ok [OF L(1-3) p k(1,3,4)]
    by (auto simp: sig_updates_ok [OF L(3)] aws_cryptosdk_sig_verify_finish_def)
qed

definition privkey_bytes :: "alg_id \<Rightarrow> bytes \<Rightarrow> bytes \<Rightarrow> bytes" where
  "privkey_bytes i pk sk = be_bytes 2 i @ [word_of_nat (length pk)] @ [word_of_nat (length sk)] @ pk @ sk"

lemma get_privkey_eq:
  assumes L: "aws_c_common_mem L" and E: "ec_ok E" and k: "sc_keypair ctx = \<lparr>ek_group = g, ek_pub = pub, ek_priv = Some n\<rparr>"
    and pk: "ec_i2o E g pub = Some pk" "length pk \<le> 49" and sk: "ec_i2d_int E n = Some sk" "length sk \<le> 62"
  shows "aws_cryptosdk_sig_get_privkey L E ctx = Inr (privkey_bytes (alg_id (sc_props ctx)) pk sk)"
proof -
  let ?b = "buf_from_empty_array (replicate (2 * MAX_PUBKEY_SIZE + 2) 0)" and ?i = "be_bytes 2 (alg_id (sc_props ctx))"
  let ?l = "[word_of_nat (length pk)] @ [word_of_nat (length sk)] :: bytes"
  have w: "buf_valid b \<Longrightarrow> fits b (length bs) \<Longrightarrow> privkey_append L b bs = Inr (written b bs)" for b bs
    using aws_c_common.buf_write [OF aws_c_common_mem.axioms(1) [OF L]] by (simp add: privkey_append_def)
  have f: "fits ?b n" if "n \<le> 130" for n using that by (simp add: fits_def buf_from_empty_array_def)
  have b: "buf_valid ?b" "buf_contents ?b = []" by (simp_all add: buf_valid_def buf_from_empty_array_def buf_contents_def)
  have ww: "written (written b x) y = written b (x @ y)" if "fits b (length x)" for b x y by (rule written_written [OF that])
  have 1: "privkey_append L ?b ?i = Inr (written ?b ?i)" using w b(1) f by simp
  have 2: "written (written (written ?b ?i) [word_of_nat (length pk)]) [word_of_nat (length sk)] = written ?b (?i @ ?l)"
    using f by (simp add: ww)
  have 3: "privkey_append L (written ?b (?i @ ?l)) pk = Inr (written ?b (?i @ ?l @ pk))"
    using f pk(2) by (subst w) (simp_all add: ww)
  have 4: "privkey_append L (written ?b (?i @ ?l @ pk)) sk = Inr (written ?b (?i @ ?l @ pk @ sk))"
    using f pk(2) sk(2) by (subst w) (simp_all add: ww)
  have "buf_contents (written ?b (?i @ ?l @ pk @ sk)) = ?i @ ?l @ pk @ sk" using f pk(2) sk(2) b(2) by simp
  moreover have "ec_bn_to_asn1 E n" using E by (simp add: ec_ok_def)
  ultimately show ?thesis
    using k pk sk 1 2 3 4 aws_c_common_mem.acquire_ok [OF L]
    by (simp add: aws_cryptosdk_sig_get_privkey_def Let_def privkey_bytes_def aws_string_new_from_array_def del: append_Cons append_Nil)
qed

lemma read_privkey_eq:
  assumes L: "aws_c_common L" and E: "ec_ok E" and g: "i = alg_id p \<Longrightarrow> group_for_props E p = Some g"
    and pk: "ec_o2i E g pk = Some (pub, length pk)" "length pk \<le> 49" and sk: "ec_d2i_int E sk = Some (n, length sk)" "length sk \<le> 62"
  shows "read_privkey L E p (privkey_bytes i pk sk) =
    (if i = alg_id p then Inr \<lparr>ek_group = g, ek_pub = pub, ek_priv = Some n\<rparr> else Inl AWS_CRYPTOSDK_ERR_CRYPTO_UNKNOWN)"
proof -
  let ?c = "cursor_of (privkey_bytes i pk sk)" and ?a = "word_of_nat (length pk) :: byte" and ?b = "word_of_nat (length sk) :: byte"
  have u: "unat ?a = length pk" "unat ?b = length sk" using pk(2) sk(2) by (simp_all add: unat_of_nat)
  have d: "cur_data ?c = be_bytes 2 i @ ?a # ?b # pk @ sk" by (simp add: cursor_of_def privkey_bytes_def)
  have 1: "lib_read_be16 L ?c = Some (i, advanced ?c 2)" by (rule aws_c_common.read_be16_append [OF L d])
  have 2: "lib_read_u8 L (advanced ?c 2) = Some (?a, advanced ?c 3)"
    using aws_c_common.read_u8_Cons [OF L, of "advanced ?c 2" ?a "?b # pk @ sk"] d by simp
  have 3: "lib_read_u8 L (advanced ?c 3) = Some (?b, advanced ?c 4)"
    using aws_c_common.read_u8_Cons [OF L, of "advanced ?c 3" ?b "pk @ sk"] d by simp
  have 4: "lib_advance L (advanced ?c 4) (length pk) = Some (\<lparr>cur_ptr = 4, cur_data = pk\<rparr>, advanced ?c (4 + length pk))"
    using aws_c_common.advance_append [OF L, of "advanced ?c 4" pk sk "length pk"] d by (simp add: cursor_of_def)
  have 5: "lib_advance L (advanced ?c (4 + length pk)) (length sk) =
      Some (\<lparr>cur_ptr = 4 + length pk, cur_data = sk\<rparr>, advanced ?c (4 + length pk + length sk))"
    using aws_c_common.advance_append [OF L, of "advanced ?c (4 + length pk)" sk "[]" "length sk"] d by (simp add: cursor_of_def)
  have 6: "cur_len (advanced ?c (4 + length pk + length sk)) = 0" using d by simp
  show ?thesis
    using 1 2 3 4 5 6 g pk(1) sk(1) u E by (simp add: read_privkey_def ec_ok_def)
qed

text \<open>
  C34: Private keys round-trip: the serialized private key of a signing context gives back, for the same suite, a context with the same key pair and the same public key string;
  for another suite with signatures it is refused.
\<close>

theorem privkey_roundtrip:
  assumes L: "aws_c_common_mem L" "b64_spec E enc" "ec_ok E" "ec_spec E dig kp"
    and p: "aws_cryptosdk_alg_props i = Some p" "signature_len p \<noteq> 0" and key: "\<And>g. ec_generate_key E g draw \<noteq> None"
    and q: "aws_cryptosdk_alg_props j = Some q" "signature_len q \<noteq> 0"
  shows "\<exists>ctx pub_key priv. aws_cryptosdk_sig_sign_start_keygen L E draw p = Inr (Some ctx, Some pub_key) \<and>
    aws_cryptosdk_sig_get_pubkey L E ctx = Inr pub_key \<and>
    aws_cryptosdk_sig_get_privkey L E ctx = Inr priv \<and>
    aws_cryptosdk_sig_sign_start L E True q priv =
      (if i = j then Inr (Some ctx, Some pub_key) else Inl AWS_CRYPTOSDK_ERR_CRYPTO_UNKNOWN)"
proof -
  obtain g pub n pk where k: "group_for_props E p = Some g" "kp g pub n"
    and gen: "aws_cryptosdk_sig_sign_start_keygen L E draw p = Inr (Some \<lparr>sc_props = p,
      sc_keypair = \<lparr>ek_group = g, ek_pub = pub, ek_priv = Some n\<rparr>, sc_md = sig_md p, sc_data = [], sc_is_sign = True\<rparr>,
      Some (enc pk))"
    and pk: "ec_i2o E g pub = Some pk" "serialize_pubkey L E \<lparr>ek_group = g, ek_pub = pub, ek_priv = Some n\<rparr> = Inr (enc pk)"
      "length pk \<le> 49" "0 < length pk" "ec_o2i E g pk = Some (pub, length pk)"
    using keygen_ok [OF L p key] by blast
  let ?k = "\<lparr>ek_group = g, ek_pub = pub, ek_priv = Some n\<rparr>"
  let ?c = "\<lparr>sc_props = p, sc_keypair = ?k, sc_md = sig_md p, sc_data = [], sc_is_sign = True\<rparr>"
  obtain sk where sk: "ec_i2d_int E n = Some sk" "ec_d2i_int E sk = Some (n, length sk)" "0 < length sk" "length sk \<le> 62"
    using ec_spec_int [OF L(4) k(2)] by blast
  let ?s = "privkey_bytes i pk sk"
  have ids: "alg_id p = i" "alg_id q = j" using alg_props_fields(1) p(1) q(1) by blast+
  have get: "aws_cryptosdk_sig_get_privkey L E ?c = Inr ?s"
    using get_privkey_eq [OF L(1,3), of ?c g pub n pk sk] pk(1,3) sk(1,4) ids by simp
  have "i = j \<Longrightarrow> p = q" using p(1) q(1) by simp
  then have "read_privkey L E q ?s = (if i = j then Inr ?k else Inl AWS_CRYPTOSDK_ERR_CRYPTO_UNKNOWN)"
    using read_privkey_eq [OF aws_c_common_mem.axioms(1) [OF L(1)] L(3) _ pk(5,3) sk(2,4), of i q] k(1) ids by auto
  moreover have "sig_curve q \<noteq> None" using sig_suites(1) [OF q(1)] q(2) by simp
  moreover have "5 \<le> length ?s" using pk(4) by (cases pk) (simp_all add: privkey_bytes_def)
  ultimately have "aws_cryptosdk_sig_sign_start L E True q ?s =
      (if i = j then Inr (Some ?c, Some (enc pk)) else Inl AWS_CRYPTOSDK_ERR_CRYPTO_UNKNOWN)"
    using pk(2) sign_start_ok [OF L(1,3)] \<open>i = j \<Longrightarrow> p = q\<close>
    by (cases "i = j") (simp_all add: aws_cryptosdk_sig_sign_start_def)
  then show ?thesis using gen pk(2) get by (auto simp: aws_cryptosdk_sig_get_pubkey_def)
qed

section \<open>A reference instance\<close>

text \<open>Three bytes are encoded as a mask of the zero bytes among them and the bytes themselves, with 1 in place of 0.\<close>

definition ref_mask :: "byte \<Rightarrow> byte \<Rightarrow> byte \<Rightarrow> byte" where
  "ref_mask a b c = (if a = 0 then if b = 0 then if c = 0 then 8 else 4 else if c = 0 then 6 else 2
     else if b = 0 then if c = 0 then 7 else 3 else if c = 0 then 5 else 1)"

definition ref_nz :: "byte \<Rightarrow> byte" where
  "ref_nz a = (if a = 0 then 1 else a)"

fun ref_b64 :: "bytes \<Rightarrow> bytes" where
  "ref_b64 (a # b # c # r) = ref_mask a b c # ref_nz a # ref_nz b # ref_nz c # ref_b64 r"
| "ref_b64 [a, b] = [ref_mask a b 1, ref_nz a, ref_nz b]"
| "ref_b64 [a] = [ref_mask a 1 1, ref_nz a]"
| "ref_b64 [] = []"

fun ref_unb64 :: "bytes \<Rightarrow> bytes" where
  "ref_unb64 (m # a # b # c # r) = (if m \<in> {2, 4, 6, 8} then 0 else a) # (if m \<in> {3, 4, 7, 8} then 0 else b) #
     (if m \<in> {5, 6, 7, 8} then 0 else c) # ref_unb64 r"
| "ref_unb64 [m, a, b] = [if m \<in> {2, 4} then 0 else a, if m \<in> {3, 4} then 0 else b]"
| "ref_unb64 [m, a] = [if m = 2 then 0 else a]"
| "ref_unb64 _ = []"

lemma ref_unb64_b64: "ref_unb64 (ref_b64 bs) = bs"
  by (induction bs rule: ref_b64.induct) (simp_all add: ref_mask_def ref_nz_def)

lemma ref_b64_nonzero: "0 \<notin> set (ref_b64 bs)"
  by (induction bs rule: ref_b64.induct) (simp_all add: ref_mask_def ref_nz_def)

lemma ref_b64_length: "length (ref_b64 bs) \<le> 4 * ((length bs + 2) div 3)"
proof (induction bs rule: ref_b64.induct)
  case (1 a b c r)
  have "(length (a # b # c # r) + 2) div 3 = (length r + 2) div 3 + 1" by simp
  then show ?case using 1 by simp
qed simp_all

lemmas ref_b64_props = ref_b64_nonzero ref_b64_length

definition ref_sig_len :: "nat \<Rightarrow> nat" where
  "ref_sig_len g = (if g = 1 then 71 else 103)"

definition siglib_ref :: siglib where
  "siglib_ref = \<lparr>
     ec_txt2nid = (\<lambda>c. if c = ''prime256v1'' then Some 1 else if c = ''secp384r1'' then Some 2 else None),
     ec_group_new = (\<lambda>g. True), ec_key_new = True, ec_set_group = (\<lambda>g. True),
     ec_generate_key = (\<lambda>g i. Some (7, 7)),
     ec_i2o = (\<lambda>g p. Some [word_of_nat p]), ec_o2i = (\<lambda>g bs. case bs of [b] \<Rightarrow> Some (unat b, 1) | _ \<Rightarrow> None),
     ec_bn_to_asn1 = (\<lambda>n. True), ec_i2d_int = (\<lambda>n. Some [word_of_nat n]),
     ec_d2i_int = (\<lambda>bs. case bs of [b] \<Rightarrow> Some (unat b, 1) | _ \<Rightarrow> None), ec_asn1_to_bn = (\<lambda>n. True),
     ec_set_private_key = (\<lambda>n. True), ec_pkey_new = True, ec_pkey_set1 = True, ec_md_ctx_new = True,
     ec_digest_init = (\<lambda>md. True), ec_digest_verify_init = (\<lambda>md. True), ec_digest_update = (\<lambda>md d x. True),
     ec_digest_final = (\<lambda>md d. Some [sum_list d]),
     ec_verify_final = (\<lambda>g p md d sig. sig = replicate (ref_sig_len g) (sum_list d + word_of_nat p)),
     ec_pkey_ctx_new = True, ec_sign_init = True, ec_sign_size = (\<lambda>g. Some 104),
     ec_sign = (\<lambda>g n dg i. Some (replicate (ref_sig_len g) (hd dg + word_of_nat n))),
     ec_order = (\<lambda>g. 1), ec_d2i_sig = (\<lambda>sig. None), ec_bn_dup = (\<lambda>x. True), ec_bn_sub = (\<lambda>x y. True),
     ec_i2d_sig = (\<lambda>rs. None),
     b64_encoded_len = (\<lambda>n. Inr (4 * ((n + 2) div 3) + 1)),
     b64_encode = (\<lambda>bs b. if length (ref_b64 bs) \<le> buf_capacity b
        then Inr (b\<lparr>buf_mem := splice (buf_mem b) 0 (ref_b64 bs), buf_len := length (ref_b64 bs)\<rparr>) else Inl AWS_ERROR_SHORT_BUFFER),
     b64_decode = (\<lambda>bs b. if length (ref_unb64 bs) \<le> buf_capacity b
        then Inr (b\<lparr>buf_mem := splice (buf_mem b) 0 (ref_unb64 bs), buf_len := length (ref_unb64 bs)\<rparr>) else Inl AWS_ERROR_SHORT_BUFFER)\<rparr>"

definition ref_dig :: "evp_md \<Rightarrow> bytes \<Rightarrow> bytes" where
  "ref_dig md d = [sum_list d]"

definition ref_kp :: "nat \<Rightarrow> nat \<Rightarrow> nat \<Rightarrow> bool" where
  "ref_kp g p n \<longleftrightarrow> p = n \<and> n < 256"

lemma siglib_ref_b64: "b64_spec siglib_ref ref_b64"
proof -
  have "length (ref_b64 bs) \<le> buf_capacity b" if "4 * ((length bs + 2) div 3) + 1 \<le> buf_capacity b" for bs and b :: byte_buf
    using ref_b64_props(2) [of bs] that by linarith
  then show ?thesis
    unfolding b64_spec_def using ref_b64_props
    by (auto simp: siglib_ref_def ref_unb64_b64 buf_valid_def buf_contents_def splice_def)
qed

lemma siglib_ref_ok: "ec_ok siglib_ref"
  by (auto simp: ec_ok_def siglib_ref_def)

lemma siglib_ref_spec: "ec_spec siglib_ref ref_dig ref_kp"
  by (auto simp: ec_spec_def siglib_ref_def ref_dig_def ref_kp_def unat_of_nat)

lemma siglib_ref_keygen: "ec_generate_key siglib_ref g i \<noteq> None"
  by (simp add: siglib_ref_def)

lemma p256_suite:
  obtains p where "aws_cryptosdk_alg_props 0x0214 = Some p" "signature_len p \<noteq> 0"
  by (simp add: alg_table)

theorem sign_then_verify_witness:
  "\<exists>p ctx pub_key vctx. aws_cryptosdk_alg_props 0x0214 = Some p \<and>
    aws_cryptosdk_sig_sign_start_keygen aws_ref siglib_ref 0 p = Inr (Some ctx, Some pub_key) \<and>
    aws_cryptosdk_sig_verify_start aws_ref siglib_ref pub_key p = Inr (Some vctx)"
proof -
  obtain p where p: "aws_cryptosdk_alg_props 0x0214 = Some p" "signature_len p \<noteq> 0" by (rule p256_suite)
  show ?thesis
    using p(1) sign_then_verify [OF ref.aws_c_common_mem_axioms siglib_ref_b64 siglib_ref_ok siglib_ref_spec p siglib_ref_keygen]
    by blast
qed

theorem privkey_roundtrip_witness:
  "\<exists>p ctx priv. aws_cryptosdk_alg_props 0x0214 = Some p \<and>
    aws_cryptosdk_sig_get_privkey aws_ref siglib_ref ctx = Inr priv \<and>
    (\<exists>pub_key. aws_cryptosdk_sig_sign_start aws_ref siglib_ref True p priv = Inr (Some ctx, Some pub_key))"
proof -
  obtain p where p: "aws_cryptosdk_alg_props 0x0214 = Some p" "signature_len p \<noteq> 0" by (rule p256_suite)
  show ?thesis
    using p(1) privkey_roundtrip [OF ref.aws_c_common_mem_axioms siglib_ref_b64 siglib_ref_ok siglib_ref_spec p siglib_ref_keygen p,
        of 0] by (simp only: if_True simp_thms) blast
qed

theorem sign_finish_length_witness:
  "\<exists>p ctx. aws_cryptosdk_alg_props 0x0214 = Some p \<and> sc_props ctx = p \<and>
     aws_cryptosdk_sig_sign_finish aws_ref siglib_ref 0 ctx \<noteq> None"
proof -
  obtain p where p: "aws_cryptosdk_alg_props 0x0214 = Some p" by (rule p256_suite)
  let ?c = "\<lparr>sc_props = p, sc_keypair = \<lparr>ek_group = 1, ek_pub = 7, ek_priv = Some 7\<rparr>, sc_md = EVP_sha256, sc_data = [1], sc_is_sign = True\<rparr>"
  have "signature_len (the (aws_cryptosdk_alg_props 0x0214)) = 71" by (simp add: alg_table)
  then have "signature_len p = 71" by (simp add: p)
  then have "\<exists>s. sign_once siglib_ref ?c [1] (0 + 0) = Inr s \<and> length s = signature_len (sc_props ?c)"
    by (simp add: sign_once_def siglib_ref_def ref_sig_len_def)
  moreover have "ec_digest_final siglib_ref (sc_md ?c) (sc_data ?c) = Some [1]" by (simp add: siglib_ref_def)
  ultimately have "aws_cryptosdk_sig_sign_finish aws_ref siglib_ref 0 ?c \<noteq> None"
    using sign_finish_length [of siglib_ref ?c "[1]" aws_ref 0 _ _ 0] by blast
  then show ?thesis using p by (intro exI [of _ p] exI [of _ ?c]) simp
qed

end
