(* ===== verification/EncCtx.thy ===== *)
theory EncCtx
  imports AwsCommon
begin

text \<open>
  Encryption contexts (\<^verbatim>\<open>source/enc_ctx.c\<close>, with the helpers of \<^verbatim>\<open>source/utils.c\<close>): hash tables from
  strings to strings, their size when serialized, serialization in key order, deserialization
  and cloning. The wire format itself is the reference definition \<open>enc_ctx_bytes\<close>; the lemmas
  show that the code writes exactly it, that the computed size is its length, and that reading
  it back gives the same table.
\<close>

abbreviation UINT16_MAX :: nat where
  "UINT16_MAX \<equiv> 65535"

section \<open>Helpers of utils.c\<close>

definition aws_cryptosdk_compare_hash_elems_by_key_string ::
  "aws_lib \<Rightarrow> bytes \<times> bytes \<Rightarrow> bytes \<times> bytes \<Rightarrow> int" where
  "aws_cryptosdk_compare_hash_elems_by_key_string L a b = lib_string_compare L (fst a) (fst b)"

fun push_back_all :: "aws_lib \<Rightarrow> 'a list \<Rightarrow> 'a list \<Rightarrow> 'a list option" where
  "push_back_all L elems [] = Some elems"
| "push_back_all L elems (e # es) =
     (if lib_push_back L (length elems) then push_back_all L (elems @ [e]) es else None)"

definition aws_cryptosdk_hash_elems_array_init :: "aws_lib \<Rightarrow> hash_table \<Rightarrow> hash_table result" where
  "aws_cryptosdk_hash_elems_array_init L m =
     (if \<not> lib_list_init L (length m) then Inl AWS_ERROR_OOM
      else orE (push_back_all L [] m) AWS_ERROR_OOM)"

definition aws_cryptosdk_string_dup :: "aws_lib \<Rightarrow> bytes \<Rightarrow> bytes option" where
  "aws_cryptosdk_string_dup L str =
     (if \<not> lib_string_static L str then aws_string_new_from_array L str else Some str)"

section \<open>Operations of enc_ctx.c\<close>

definition aws_cryptosdk_enc_ctx_init :: "aws_lib \<Rightarrow> hash_table result" where
  "aws_cryptosdk_enc_ctx_init L = orE (lib_hash_init L 10) AWS_ERROR_OOM"

definition aws_cryptosdk_enc_ctx_clear :: "hash_table \<Rightarrow> hash_table" where
  "aws_cryptosdk_enc_ctx_clear t = []"

fun enc_ctx_size_loop :: "aws_lib \<Rightarrow> nat \<Rightarrow> hash_table \<Rightarrow> nat result" where
  "enc_ctx_size_loop L serialized_len [] = Inr serialized_len"
| "enc_ctx_size_loop L serialized_len ((key, value) # elems) =
     (case lib_add_size_checked L [serialized_len, length key, length value, 4] of
        None \<Rightarrow> Inl AWS_ERROR_OVERFLOW_DETECTED
      | Some len \<Rightarrow>
          if len > UINT16_MAX then Inl AWS_CRYPTOSDK_ERR_LIMIT_EXCEEDED
          else enc_ctx_size_loop L len elems)"

definition aws_cryptosdk_enc_ctx_size :: "aws_lib \<Rightarrow> hash_table \<Rightarrow> nat result" where
  "aws_cryptosdk_enc_ctx_size L enc_ctx =
     (if length enc_ctx > UINT16_MAX then Inl AWS_CRYPTOSDK_ERR_LIMIT_EXCEEDED
      else if length enc_ctx = 0 then Inr 0
      else enc_ctx_size_loop L 2 enc_ctx)"

fun serialize_elems :: "aws_lib \<Rightarrow> byte_buf \<Rightarrow> hash_table \<Rightarrow> byte_buf option" where
  "serialize_elems L output [] = Some output"
| "serialize_elems L output ((key, value) # elems) =
     (case lib_write_be16 L output (word_of_nat (length key)) of
        None \<Rightarrow> None
      | Some o1 \<Rightarrow>
          (case lib_write L o1 key of
             None \<Rightarrow> None
           | Some o2 \<Rightarrow>
               (case lib_write_be16 L o2 (word_of_nat (length value)) of
                  None \<Rightarrow> None
                | Some o3 \<Rightarrow>
                    (case lib_write L o3 value of
                       None \<Rightarrow> None
                     | Some o4 \<Rightarrow> serialize_elems L o4 elems))))"

definition aws_cryptosdk_enc_ctx_serialize ::
  "aws_lib \<Rightarrow> byte_buf \<Rightarrow> hash_table \<Rightarrow> status \<times> byte_buf" where
  "aws_cryptosdk_enc_ctx_serialize L output enc_ctx =
     (let num_elems = length enc_ctx in
      if num_elems > UINT16_MAX then (AWS_OP_ERR AWS_CRYPTOSDK_ERR_LIMIT_EXCEEDED, output)
      else case aws_cryptosdk_enc_ctx_size L enc_ctx of
        Inl e \<Rightarrow> (AWS_OP_ERR e, output)
      | Inr len \<Rightarrow>
          if len = 0 then (AWS_OP_SUCCESS, output)
          else if buf_capacity output < len then (AWS_OP_ERR AWS_ERROR_SHORT_BUFFER, output)
          else case lib_write_be16 L output (word_of_nat num_elems) of
            None \<Rightarrow> (AWS_OP_ERR AWS_ERROR_SHORT_BUFFER, buf_zero)
          | Some o1 \<Rightarrow>
              (case aws_cryptosdk_hash_elems_array_init L enc_ctx of
                 Inl e \<Rightarrow> (AWS_OP_ERR e, o1)
               | Inr elems \<Rightarrow>
                   (case serialize_elems L o1
                       (lib_list_sort L (aws_cryptosdk_compare_hash_elems_by_key_string L) elems) of
                      None \<Rightarrow> (AWS_OP_ERR AWS_ERROR_SHORT_BUFFER, buf_zero)
                    | Some o2 \<Rightarrow> (AWS_OP_SUCCESS, o2))))"

fun deserialize_elems ::
  "aws_lib \<Rightarrow> nat \<Rightarrow> hash_table \<Rightarrow> byte_cursor \<Rightarrow> status \<times> hash_table \<times> byte_cursor" where
  "deserialize_elems L 0 enc_ctx cursor = (AWS_OP_SUCCESS, enc_ctx, cursor)"
| "deserialize_elems L (Suc n) enc_ctx cursor =
     (case lib_read_be16 L cursor of
        None \<Rightarrow> (AWS_OP_ERR AWS_ERROR_SHORT_BUFFER, enc_ctx, cursor)
      | Some (klen, c1) \<Rightarrow>
     (case lib_advance L c1 (unat klen) of
        None \<Rightarrow> (AWS_OP_ERR AWS_ERROR_SHORT_BUFFER, enc_ctx, c1)
      | Some (k_cursor, c2) \<Rightarrow>
     (case lib_read_be16 L c2 of
        None \<Rightarrow> (AWS_OP_ERR AWS_ERROR_SHORT_BUFFER, enc_ctx, c2)
      | Some (vlen, c3) \<Rightarrow>
     (case lib_advance L c3 (unat vlen) of
        None \<Rightarrow> (AWS_OP_ERR AWS_ERROR_SHORT_BUFFER, enc_ctx, c3)
      | Some (v_cursor, c4) \<Rightarrow>
     (case (aws_string_new_from_array L (cur_data k_cursor),
            aws_string_new_from_array L (cur_data v_cursor)) of
        (Some k, Some v) \<Rightarrow>
          (case lib_hash_put L enc_ctx k v of
             None \<Rightarrow> (AWS_OP_ERR AWS_ERROR_OOM, enc_ctx, c4)
           | Some (t, was_created) \<Rightarrow>
               if \<not> was_created then (AWS_OP_ERR AWS_CRYPTOSDK_ERR_BAD_CIPHERTEXT, t, c4)
               else deserialize_elems L n t c4)
      | _ \<Rightarrow> (AWS_OP_ERR AWS_ERROR_OOM, enc_ctx, c4))))))"

definition aws_cryptosdk_enc_ctx_deserialize ::
  "aws_lib \<Rightarrow> hash_table \<Rightarrow> byte_cursor \<Rightarrow> status \<times> hash_table \<times> byte_cursor" where
  "aws_cryptosdk_enc_ctx_deserialize L enc_ctx0 cursor =
     (let enc_ctx = aws_cryptosdk_enc_ctx_clear enc_ctx0 in
      if cur_len cursor = 0 then (AWS_OP_SUCCESS, enc_ctx, cursor)
      else case lib_read_be16 L cursor of
        None \<Rightarrow> (AWS_OP_ERR AWS_ERROR_SHORT_BUFFER, aws_cryptosdk_enc_ctx_clear enc_ctx, cursor)
      | Some (elem_count, c) \<Rightarrow>
          if elem_count = 0 then (AWS_OP_ERR AWS_CRYPTOSDK_ERR_BAD_CIPHERTEXT, enc_ctx, c)
          else (case deserialize_elems L (unat elem_count) enc_ctx c of
                  (None, t, c') \<Rightarrow> (AWS_OP_SUCCESS, t, c')
                | (Some e, t, c') \<Rightarrow> (AWS_OP_ERR e, aws_cryptosdk_enc_ctx_clear t, c')))"

definition clone_or_reuse_string :: "aws_lib \<Rightarrow> bytes \<Rightarrow> bytes option" where
  "clone_or_reuse_string L str =
     (if lib_string_static L str then Some str else aws_string_new_from_array L str)"

fun clone_scan_dest :: "hash_table \<Rightarrow> hash_table \<Rightarrow> hash_table" where
  "clone_scan_dest src [] = []"
| "clone_scan_dest src ((key, value) # dest) =
     (if hash_find src key = None then clone_scan_dest src dest
      else (key, value) # clone_scan_dest src dest)"

definition hash_set_value :: "hash_table \<Rightarrow> bytes \<Rightarrow> bytes \<Rightarrow> hash_table" where
  "hash_set_value t k v = map (\<lambda>e. if fst e = k then (fst e, v) else e) t"

fun clone_copy_src :: "aws_lib \<Rightarrow> hash_table \<Rightarrow> hash_table \<Rightarrow> status \<times> hash_table" where
  "clone_copy_src L dest [] = (AWS_OP_SUCCESS, dest)"
| "clone_copy_src L dest ((key, value) # src) =
     (case hash_find dest key of
        Some dest_value \<Rightarrow>
          if dest_value \<noteq> value then
            (case clone_or_reuse_string L value of
               None \<Rightarrow> (AWS_OP_ERR AWS_ERROR_OOM, dest)
             | Some v \<Rightarrow> clone_copy_src L (hash_set_value dest key v) src)
          else clone_copy_src L dest src
      | None \<Rightarrow>
          (case (clone_or_reuse_string L key, clone_or_reuse_string L value) of
             (Some k, Some v) \<Rightarrow>
               (case lib_hash_put L dest k v of
                  None \<Rightarrow> (AWS_OP_ERR AWS_ERROR_OOM, dest)
                | Some (dest', _) \<Rightarrow> clone_copy_src L dest' src)
           | _ \<Rightarrow> (AWS_OP_ERR AWS_ERROR_OOM, dest)))"

definition aws_cryptosdk_enc_ctx_clone ::
  "aws_lib \<Rightarrow> hash_table \<Rightarrow> hash_table \<Rightarrow> status \<times> hash_table" where
  "aws_cryptosdk_enc_ctx_clone L dest src = clone_copy_src L (clone_scan_dest src dest) src"

section \<open>The wire format\<close>

definition elem_bytes :: "bytes \<times> bytes \<Rightarrow> bytes" where
  "elem_bytes e = be_bytes 2 (word_of_nat (length (fst e)) :: 16 word) @ fst e @
                  be_bytes 2 (word_of_nat (length (snd e)) :: 16 word) @ snd e"

definition elems_bytes :: "hash_table \<Rightarrow> bytes" where
  "elems_bytes t = concat (map elem_bytes t)"

definition enc_ctx_bytes :: "hash_table \<Rightarrow> bytes" where
  "enc_ctx_bytes t =
     (if t = [] then [] else be_bytes 2 (word_of_nat (length t) :: 16 word) @
        elems_bytes (sort_key fst t))"

text \<open>The contexts the format can represent.\<close>

definition enc_ctx_fits :: "hash_table \<Rightarrow> bool" where
  "enc_ctx_fits t \<longleftrightarrow> length (enc_ctx_bytes t) \<le> UINT16_MAX"

section \<open>Lemmas on the format\<close>

lemma length_elem_bytes [simp]: "length (elem_bytes e) = 4 + length (fst e) + length (snd e)"
  by (simp add: elem_bytes_def)

lemma elems_bytes_simps [simp]:
  "elems_bytes [] = []" "elems_bytes (e # t) = elem_bytes e @ elems_bytes t"
  by (simp_all add: elems_bytes_def)

lemma length_elems_bytes: "length (elems_bytes t) = (\<Sum>e\<leftarrow>t. 4 + length (fst e) + length (snd e))"
  by (induction t) simp_all

lemma length_elems_bytes_mset: "mset s = mset t \<Longrightarrow> length (elems_bytes s) = length (elems_bytes t)"
  unfolding length_elems_bytes sum_mset_sum_list [symmetric] mset_map by simp

lemma length_le_elems_bytes: "4 * length t \<le> length (elems_bytes t)"
  by (induction t) simp_all

lemma elem_le_elems_bytes: "e \<in> set t \<Longrightarrow> length (fst e) + length (snd e) \<le> length (elems_bytes t)"
  by (induction t) auto

lemma length_enc_ctx_bytes:
  "length (enc_ctx_bytes t) = (if t = [] then 0 else 2 + length (elems_bytes t))"
  using length_elems_bytes_mset [of "sort_key fst t" t] by (simp add: enc_ctx_bytes_def)

context aws_c_common
begin

lemma enc_ctx_size_loop_Inr:
  "enc_ctx_size_loop L n t = Inr m \<longleftrightarrow>
     m = n + length (elems_bytes t) \<and> (t = [] \<or> m \<le> UINT16_MAX)"
proof (induction t arbitrary: n)
  case (Cons e t)
  obtain k v where e: "e = (k, v)" by (cases e)
  let ?len = "n + length k + length v + 4"
  show ?case
  proof (cases "?len \<le> UINT16_MAX")
    case True
    then have "enc_ctx_size_loop L n (e # t) = enc_ctx_size_loop L ?len t"
      by (simp add: e add_size_checked add.assoc)
    then show ?thesis using True Cons.IH [of ?len] by (auto simp: e)
  next
    case False
    then have "\<exists>err. enc_ctx_size_loop L n (e # t) = Inl err"
      by (simp add: e split: option.split) (simp add: add_size_checked add.assoc split: if_splits)
    then show ?thesis using False by (auto simp: e)
  qed
qed auto

lemma enc_ctx_size_Inr:
  "aws_cryptosdk_enc_ctx_size L t = Inr m \<longleftrightarrow> m = length (enc_ctx_bytes t) \<and> enc_ctx_fits t"
  using length_le_elems_bytes [of t]
  by (auto simp: aws_cryptosdk_enc_ctx_size_def enc_ctx_size_loop_Inr enc_ctx_fits_def
      length_enc_ctx_bytes)

lemma writes_serialize_elems: "writes (\<lambda>b. serialize_elems L b t) (elems_bytes t)"
proof (induction t)
  case (Cons e t)
  then show ?case
    unfolding serialize_elems.simps elems_bytes_simps elem_bytes_def append_assoc
    by (cases e) (auto intro!: writes_seq writes_lib)
qed (simp add: writes_done)

end

lemma enc_ctx_fits_elem:
  "enc_ctx_fits t \<Longrightarrow> e \<in> set t \<Longrightarrow> length (fst e) \<le> UINT16_MAX \<and> length (snd e) \<le> UINT16_MAX"
  using elem_le_elems_bytes [of e t] by (auto simp: enc_ctx_fits_def length_enc_ctx_bytes split: if_splits)

lemma unat_of_length_16: "n \<le> UINT16_MAX \<Longrightarrow> unat (word_of_nat n :: 16 word) = n"
  by (simp add: unat_of_nat)

lemma enc_ctx_fits_length: "enc_ctx_fits t \<Longrightarrow> length t \<le> UINT16_MAX"
  using length_le_elems_bytes [of t] by (auto simp: enc_ctx_fits_def length_enc_ctx_bytes split: if_splits)

context aws_c_common_mem
begin

lemma push_back_all_ok: "push_back_all L acc es = Some (acc @ es)"
  by (induction es arbitrary: acc) (simp_all add: push_back_ok)

lemma hash_elems_array_init_ok: "aws_cryptosdk_hash_elems_array_init L t = Inr t"
  by (simp add: aws_cryptosdk_hash_elems_array_init_def push_back_all_ok list_init_ok)

lemma string_new_ok: "aws_string_new_from_array L s = Some s"
  by (simp add: aws_string_new_from_array_def acquire_ok)

lemma sorted_elems:
  assumes "hash_valid t"
  shows "lib_list_sort L (aws_cryptosdk_compare_hash_elems_by_key_string L) t = sort_key fst t"
proof -
  have cmp: "aws_cryptosdk_compare_hash_elems_by_key_string L =
      (\<lambda>x y. lib_string_compare L (fst x) (fst y))"
    by (simp add: fun_eq_iff aws_cryptosdk_compare_hash_elems_by_key_string_def)
  have "inj_on fst (set t)" using assms by (simp add: hash_valid_def distinct_map)
  then show ?thesis
    unfolding cmp using sort_keys [OF assms] by (intro sort_key_inj_key_eq [symmetric]) simp_all
qed

lemma enc_ctx_serialize_eq:
  assumes "hash_valid t" "buf_valid out" "enc_ctx_fits t" "fits out (length (enc_ctx_bytes t))"
  shows "aws_cryptosdk_enc_ctx_serialize L out t = (AWS_OP_SUCCESS, written out (enc_ctx_bytes t))"
proof (cases "t = []")
  case True
  then show ?thesis
    by (simp add: aws_cryptosdk_enc_ctx_serialize_def aws_cryptosdk_enc_ctx_size_def enc_ctx_bytes_def)
next
  case False
  let ?hd = "be_bytes 2 (word_of_nat (length t) :: 16 word)"
  have size: "aws_cryptosdk_enc_ctx_size L t = Inr (length (enc_ctx_bytes t))"
    using assms(3) by (simp add: enc_ctx_size_Inr)
  have bytes: "enc_ctx_bytes t = ?hd @ elems_bytes (sort_key fst t)"
    using False by (simp add: enc_ctx_bytes_def)
  have room: "fits out 2" "\<not> buf_capacity out < length (enc_ctx_bytes t)"
    using assms(4) by (simp_all add: bytes fits_def)
  have "serialize_elems L (written out ?hd) (sort_key fst t) = Some (written out (enc_ctx_bytes t))"
    using assms(4) room(1) writesD [OF writes_serialize_elems, of "written out ?hd" "sort_key fst t"]
    by (simp add: bytes written_written)
  then show ?thesis
    using False assms enc_ctx_fits_length [OF assms(3)] room
    by (simp add: aws_cryptosdk_enc_ctx_serialize_def size hash_elems_array_init_ok sorted_elems
        write_be16 length_enc_ctx_bytes)
qed

lemma writes_enc_ctx_serialize:
  assumes "hash_valid t" "enc_ctx_fits t"
  shows "writes (\<lambda>b. case aws_cryptosdk_enc_ctx_serialize L b t of (Some e, _) \<Rightarrow> None
           | (None, b') \<Rightarrow> Some b') (enc_ctx_bytes t)"
  unfolding writes_def
proof (intro allI impI)
  fix b assume v: "buf_valid b"
  show "(case aws_cryptosdk_enc_ctx_serialize L b t of (Some e, _) \<Rightarrow> None | (None, b') \<Rightarrow> Some b') =
      (if fits b (length (enc_ctx_bytes t)) then Some (written b (enc_ctx_bytes t)) else None)"
  proof (cases "fits b (length (enc_ctx_bytes t))")
    case True
    then show ?thesis using enc_ctx_serialize_eq [OF assms(1) v assms(2)] by simp
  next
    case False
    then have "t \<noteq> []" using v by (auto simp: enc_ctx_bytes_def fits_def buf_valid_def)
    let ?hd = "be_bytes 2 (word_of_nat (length t) :: 16 word)"
    have "serialize_elems L (written b ?hd) (sort_key fst t) = None" if "fits b 2"
      using that False \<open>t \<noteq> []\<close> writesD [OF writes_serialize_elems, of "written b ?hd" "sort_key fst t"]
      by (simp add: enc_ctx_bytes_def)
    moreover have "aws_cryptosdk_enc_ctx_size L t = Inr (length (enc_ctx_bytes t))"
      using assms(2) by (simp add: enc_ctx_size_Inr)
    ultimately show ?thesis
      using False v \<open>t \<noteq> []\<close> enc_ctx_fits_length [OF assms(2)]
      by (auto simp: aws_cryptosdk_enc_ctx_serialize_def write_be16 hash_elems_array_init_ok
          sorted_elems assms(1) length_enc_ctx_bytes split: option.splits)
  qed
qed

lemma deserialize_elems_eq:
  assumes "cur_data c = elems_bytes s @ rest" "hash_valid t" "distinct (map fst s)"
    and "\<forall>e \<in> set s. length (fst e) \<le> UINT16_MAX \<and> length (snd e) \<le> UINT16_MAX"
    and "\<forall>e \<in> set s. map_of t (fst e) = None"
  shows "\<exists>t'. deserialize_elems L (length s) t c =
            (AWS_OP_SUCCESS, t', advanced c (length (elems_bytes s))) \<and>
          hash_valid t' \<and> map_of t' = map_of t ++ map_of s"
  using assms
proof (induction s arbitrary: t c)
  case (Cons e s)
  obtain k v where e: "e = (k, v)" by (cases e)
  have len: "unat (word_of_nat (length k) :: 16 word) = length k"
    "unat (word_of_nat (length v) :: 16 word) = length v"
    using Cons.prems(4) by (simp_all add: e unat_of_length_16)
  obtain t1 where t1: "lib_hash_put L t k v = Some (t1, True)" "hash_valid t1"
      "map_of t1 = (map_of t)(k \<mapsto> v)"
    using Cons.prems by (elim hash_put_new [of t k v]) (simp_all add: e)
  let ?c = "advanced c (length (elem_bytes e))"
  have step: "deserialize_elems L (length (e # s)) t c = deserialize_elems L (length s) t1 ?c"
    using Cons.prems(1) t1(1)
    by (simp add: e elem_bytes_def read_back len string_new_ok)
  have "\<exists>t'. deserialize_elems L (length s) t1 ?c =
        (AWS_OP_SUCCESS, t', advanced ?c (length (elems_bytes s))) \<and>
      hash_valid t' \<and> map_of t' = map_of t1 ++ map_of s"
    using Cons.prems t1 by (intro Cons.IH) (auto simp: e)
  moreover have "map_of t1 ++ map_of s = map_of t ++ map_of (e # s)"
  proof -
    have "map_of s k = None" using Cons.prems(3) by (simp add: e map_of_eq_None_iff)
    then show ?thesis by (simp add: e t1(3) fun_eq_iff map_add_def split: option.split)
  qed
  ultimately show ?case unfolding step by (simp add: add.assoc del: map_of.simps)
qed simp

lemma enc_ctx_deserialize_eq:
  assumes "cur_data c = enc_ctx_bytes t @ rest" "hash_valid t" "enc_ctx_fits t"
    and "t = [] \<Longrightarrow> rest = []"
  shows "\<exists>t'. aws_cryptosdk_enc_ctx_deserialize L t0 c =
            (AWS_OP_SUCCESS, t', advanced c (length (enc_ctx_bytes t))) \<and>
          hash_valid t' \<and> map_of t' = map_of t"
proof (cases "t = []")
  case True
  then show ?thesis
    using assms by (simp add: aws_cryptosdk_enc_ctx_deserialize_def aws_cryptosdk_enc_ctx_clear_def
        enc_ctx_bytes_def hash_valid_def)
next
  case False
  let ?s = "sort_key fst t" and ?n = "word_of_nat (length t) :: 16 word"
  have data: "cur_data c = be_bytes 2 ?n @ elems_bytes ?s @ rest"
    using assms(1) False by (simp add: enc_ctx_bytes_def)
  have n: "unat ?n = length ?s" "?n \<noteq> 0"
    using False unat_of_length_16 [OF enc_ctx_fits_length [OF assms(3)]]
    by (auto simp: unat_eq_0 [symmetric])
  have dist: "distinct (map fst ?s)"
    using assms(2) by (metis distinct_map distinct_sort hash_valid_def set_sort)
  have "map_of ?s = map_of t"
    using dist assms(2) by (simp add: hash_valid_def map_of_inject_set)
  then have "\<exists>t'. deserialize_elems L (length ?s) [] (advanced c 2) =
        (AWS_OP_SUCCESS, t', advanced (advanced c 2) (length (elems_bytes ?s))) \<and>
      hash_valid t' \<and> map_of t' = map_of t"
    using deserialize_elems_eq [of "advanced c 2" ?s rest "[]"] enc_ctx_fits_elem [OF assms(3)] dist
    by (simp add: data hash_valid_def)
  then show ?thesis
    using False n
    by (auto simp: aws_cryptosdk_enc_ctx_deserialize_def aws_cryptosdk_enc_ctx_clear_def data
        read_back enc_ctx_bytes_def)
qed

end

lemma deserialize_elems_valid:
  assumes "aws_c_common L" "hash_valid t" "deserialize_elems L n t c = (r, t', c')"
  shows "hash_valid t'"
  using assms(2, 3)
proof (induction n arbitrary: t c)
  case (Suc n)
  show ?case
    using Suc.prems
    by (auto split: option.splits prod.splits if_splits
        intro: Suc.IH Suc.prems(1) aws_c_common.hash_put_valid [OF assms(1) Suc.prems(1)])
qed simp

lemma enc_ctx_deserialize_valid:
  assumes "aws_c_common L" "aws_cryptosdk_enc_ctx_deserialize L t0 c = (r, t, c')"
  shows "hash_valid t" "r \<noteq> AWS_OP_SUCCESS \<Longrightarrow> t = []"
proof -
  have "hash_valid []" by (simp add: hash_valid_def)
  then show "hash_valid t"
    using assms(2) deserialize_elems_valid [OF assms(1)]
    by (auto simp: aws_cryptosdk_enc_ctx_deserialize_def aws_cryptosdk_enc_ctx_clear_def Let_def
        split: option.splits prod.splits if_splits)
  show "r \<noteq> AWS_OP_SUCCESS \<Longrightarrow> t = []"
    using assms(2)
    by (auto simp: aws_cryptosdk_enc_ctx_deserialize_def aws_cryptosdk_enc_ctx_clear_def Let_def
        split: option.splits prod.splits if_splits)
qed

section \<open>Cloning\<close>

lemma clone_scan_dest_eq: "clone_scan_dest src dest = filter (\<lambda>e. map_of src (fst e) \<noteq> None) dest"
  by (induction src dest rule: clone_scan_dest.induct) (auto simp: hash_find_def)

lemma map_of_hash_set_value:
  "map_of t k \<noteq> None \<Longrightarrow> map_of (hash_set_value t k v) = (map_of t)(k \<mapsto> v)"
proof -
  have "map_of (hash_set_value t k v) x =
      (if x = k then map_option (\<lambda>_. v) (map_of t k) else map_of t x)" for x
    unfolding hash_set_value_def by (induction t) auto
  then show "map_of t k \<noteq> None \<Longrightarrow> ?thesis" by (auto simp: fun_eq_iff)
qed

lemma hash_valid_set_value [simp]: "hash_valid (hash_set_value t k v) = hash_valid t"
proof -
  have "map fst (hash_set_value t k v) = map fst t"
    by (induction t) (auto simp: hash_set_value_def)
  then show ?thesis by (simp add: hash_valid_def)
qed

lemma clone_or_reuse_string_Some: "clone_or_reuse_string L s = Some s' \<Longrightarrow> s' = s"
  by (auto simp: clone_or_reuse_string_def aws_string_new_from_array_def split: if_splits)

lemma clone_copy_src_map:
  assumes "aws_c_common L" "hash_valid dest" "distinct (map fst src)"
    and "clone_copy_src L dest src = (AWS_OP_SUCCESS, dest')"
  shows "hash_valid dest' \<and> map_of dest' = map_of dest ++ map_of src"
  using assms(2-4)
proof (induction src arbitrary: dest)
  case (Cons e src)
  obtain k v where e: "e = (k, v)" by (cases e)
  have "\<exists>d. hash_valid d \<and> map_of d = (map_of dest)(k \<mapsto> v) \<and>
      clone_copy_src L d src = (AWS_OP_SUCCESS, dest')"
    using Cons.prems(3) Cons.prems(1) aws_c_common.hash_put_valid [OF assms(1)]
      aws_c_common.hash_put_map [OF assms(1)]
    by (auto simp: e hash_find_def map_of_hash_set_value dest!: clone_or_reuse_string_Some
        split: option.splits prod.splits if_splits;
        metis fun_upd_triv hash_valid_set_value map_of_hash_set_value option.distinct(1))
  then obtain d where d: "hash_valid d" "map_of d = (map_of dest)(k \<mapsto> v)"
      "clone_copy_src L d src = (AWS_OP_SUCCESS, dest')" by blast
  have "map_of src k = None" using Cons.prems(2) by (simp add: e map_of_eq_None_iff)
  then have "map_of d ++ map_of src = map_of dest ++ map_of (e # src)"
    by (simp add: e d(2) fun_eq_iff map_add_def split: option.split)
  then show ?case using Cons.IH [OF d(1) _ d(3)] Cons.prems(2) by (simp del: map_of.simps)
qed simp

section \<open>Properties\<close>

text \<open>
  C19: The size computed for a context is the length of its serialization, and the computation
  succeeds exactly for the contexts whose serialization has at most 65535 bytes.
\<close>

theorem enc_ctx_size_correct:
  assumes "aws_c_common L"
  shows "aws_cryptosdk_enc_ctx_size L t = Inr n \<longleftrightarrow>
           n = length (enc_ctx_bytes t) \<and> length (enc_ctx_bytes t) \<le> UINT16_MAX"
  using aws_c_common.enc_ctx_size_Inr [OF assms] by (simp add: enc_ctx_fits_def)

theorem enc_ctx_size_witness: "aws_cryptosdk_enc_ctx_size aws_ref [([65], [66, 67])] = Inr 9"
  using enc_ctx_size_correct [OF ref.aws_c_common_axioms, of "[([65], [66, 67])]" 9]
  by (simp add: enc_ctx_bytes_def elem_bytes_def)

text \<open>
  C18: Round trip: a context that is serialized into a buffer with room for it is appended to
  the buffer, and deserializing the appended bytes, with whatever table, gives back a table with
  the same entries and consumes exactly those bytes.
\<close>

theorem enc_ctx_roundtrip:
  assumes "aws_c_common_mem L" "hash_valid t" "buf_valid out"
    and "aws_cryptosdk_enc_ctx_size L t = Inr n" "fits out n"
    and "aws_cryptosdk_enc_ctx_serialize L out t = (r, out')"
  shows "r = AWS_OP_SUCCESS \<and>
    (\<exists>bs t' c'. length bs = n \<and> buf_contents out' = buf_contents out @ bs \<and>
       aws_cryptosdk_enc_ctx_deserialize L t0 \<lparr>cur_ptr = p, cur_data = bs\<rparr> = (AWS_OP_SUCCESS, t', c') \<and>
       cur_data c' = [] \<and> hash_valid t' \<and> map_of t' = map_of t)"
proof -
  have n: "n = length (enc_ctx_bytes t)" "enc_ctx_fits t"
    using assms(1, 4) aws_c_common.enc_ctx_size_Inr by (auto simp: aws_c_common_mem_def)
  let ?c = "\<lparr>cur_ptr = p, cur_data = enc_ctx_bytes t\<rparr>"
  obtain t' where "aws_cryptosdk_enc_ctx_deserialize L t0 ?c =
      (AWS_OP_SUCCESS, t', advanced ?c (length (enc_ctx_bytes t)))"
      "hash_valid t'" "map_of t' = map_of t"
    using aws_c_common_mem.enc_ctx_deserialize_eq [OF assms(1), of ?c t "[]" t0] assms(2) n by auto
  then show ?thesis
    using aws_c_common_mem.enc_ctx_serialize_eq [OF assms(1-3) n(2)] assms(5, 6) n(1)
    by (auto intro!: exI [of _ "enc_ctx_bytes t"])
qed

theorem enc_ctx_roundtrip_witness:
  "\<exists>out' bs t' c'. aws_cryptosdk_enc_ctx_serialize aws_ref (buf_from_empty_array (replicate 20 0)) [([65], [66, 67])] = (AWS_OP_SUCCESS, out') \<and>
    length bs = 9 \<and> buf_contents out' = bs \<and>
    aws_cryptosdk_enc_ctx_deserialize aws_ref [] \<lparr>cur_ptr = 0, cur_data = bs\<rparr> = (AWS_OP_SUCCESS, t', c') \<and>
    map_of t' = [[65] \<mapsto> [66, 67]]"
proof -
  let ?out = "buf_from_empty_array (replicate 20 0)" and ?t = "[([65], [66, 67])] :: hash_table"
  have h: "hash_valid ?t" "buf_valid ?out" "fits ?out 9" "buf_contents ?out = []"
    by (simp_all add: hash_valid_def buf_from_empty_array_def buf_valid_def fits_def buf_contents_def)
  have s: "aws_cryptosdk_enc_ctx_size aws_ref ?t = Inr 9"
    by (simp add: ref.enc_ctx_size_Inr enc_ctx_fits_def enc_ctx_bytes_def elem_bytes_def)
  show ?thesis
    using enc_ctx_roundtrip [OF ref.aws_c_common_mem_axioms h(1, 2) s h(3) surjective_pairing, of "[]" 0] h(4)
    by (cases "aws_cryptosdk_enc_ctx_serialize aws_ref ?out ?t") auto
qed

text \<open>
  C20: Cloning makes the destination equal to the source: when it succeeds, the destination holds
  exactly the entries of the source, whatever it held before.
\<close>

theorem enc_ctx_clone_correct:
  assumes "aws_c_common L" "hash_valid dest" "hash_valid src"
    and "aws_cryptosdk_enc_ctx_clone L dest src = (AWS_OP_SUCCESS, dest')"
  shows "hash_valid dest' \<and> map_of dest' = map_of src"
proof -
  let ?d = "clone_scan_dest src dest"
  have d: "hash_valid ?d"
    using assms(2) by (simp add: clone_scan_dest_eq hash_valid_def distinct_map_filter)
  have "dom (map_of ?d) \<subseteq> dom (map_of src)"
    by (auto simp: clone_scan_dest_eq dom_map_of_conv_image_fst map_of_eq_None_iff)
  then have "map_of ?d ++ map_of src = map_of src"
    by (auto simp: fun_eq_iff map_add_def split: option.split)
  then show ?thesis
    using clone_copy_src_map [OF assms(1) d, of src dest'] assms(3, 4)
    by (simp add: aws_cryptosdk_enc_ctx_clone_def hash_valid_def)
qed

theorem enc_ctx_clone_witness:
  "\<exists>dest'. aws_cryptosdk_enc_ctx_clone aws_ref [([65], [1]), ([70], [2])] [([65], [66, 67])] = (AWS_OP_SUCCESS, dest') \<and>
     hash_valid dest' \<and> map_of dest' = [[65] \<mapsto> [66, 67]]"
proof -
  let ?d = "[([65], [1]), ([70], [2])] :: hash_table" and ?s = "[([65], [66, 67])] :: hash_table"
  have "\<exists>dest'. aws_cryptosdk_enc_ctx_clone aws_ref ?d ?s = (AWS_OP_SUCCESS, dest')"
    by (simp add: aws_cryptosdk_enc_ctx_clone_def hash_find_def hash_set_value_def clone_or_reuse_string_def
        aws_string_new_from_array_def aws_ref_simps ref_put_def)
  then show ?thesis
    using enc_ctx_clone_correct [OF ref.aws_c_common_axioms, of ?d ?s] by (auto simp: hash_valid_def)
qed

end
