(* ===== verification/ListUtils.thy ===== *)
theory ListUtils
  imports EncCtx
begin

text \<open>
  The list helpers of \<^verbatim>\<open>source/list_utils.c\<close> and the encrypted data keys of \<^verbatim>\<open>source/edk.c\<close>. Both
  copy functions of the library are instances of \<^verbatim>\<open>list_copy_all\<close>, which restores the destination
  when a copy fails half way; \<^verbatim>\<open>aws_cryptosdk_transfer_list\<close> moves items without copying them.
\<close>

section \<open>Moving and copying list items\<close>

fun transfer_loop :: "aws_lib \<Rightarrow> 'a list \<Rightarrow> 'a list \<Rightarrow> status \<times> 'a list" where
  "transfer_loop L dest [] = (AWS_OP_SUCCESS, dest)"
| "transfer_loop L dest (item # src) =
     (if lib_push_back L (length dest) then transfer_loop L (dest @ [item]) src
      else (AWS_OP_ERR AWS_ERROR_OOM, dest))"

definition aws_cryptosdk_transfer_list ::
  "aws_lib \<Rightarrow> 'a list \<Rightarrow> 'a list \<Rightarrow> status \<times> 'a list \<times> 'a list" where
  "aws_cryptosdk_transfer_list L dest src =
     (case transfer_loop L dest src of
        (None, dest') \<Rightarrow> (AWS_OP_SUCCESS, dest', [])
      | (Some e, dest') \<Rightarrow> (AWS_OP_ERR e, dest', src))"

fun copy_loop :: "aws_lib \<Rightarrow> ('a \<Rightarrow> 'a result) \<Rightarrow> 'a list \<Rightarrow> 'a list \<Rightarrow> status \<times> 'a list" where
  "copy_loop L cloner dest [] = (AWS_OP_SUCCESS, dest)"
| "copy_loop L cloner dest (src_item # src) =
     (case cloner src_item of
        Inl e \<Rightarrow> (AWS_OP_ERR e, dest)
      | Inr dest_item \<Rightarrow>
          if lib_push_back L (length dest) then copy_loop L cloner (dest @ [dest_item]) src
          else (AWS_OP_ERR AWS_ERROR_OOM, dest))"

function rollback :: "nat \<Rightarrow> 'a list \<Rightarrow> 'a list" where
  "rollback initial_length dest =
     (if length dest > initial_length then rollback initial_length (butlast dest) else dest)"
  by pat_completeness auto
termination
  by (relation "measure (length \<circ> snd)") auto

definition list_copy_all ::
  "aws_lib \<Rightarrow> nat \<Rightarrow> ('a \<Rightarrow> 'a result) \<Rightarrow> 'a list \<Rightarrow> 'a list \<Rightarrow> status \<times> 'a list" where
  "list_copy_all L item_size cloner dest src =
     (if \<not> lib_acquire L item_size then (AWS_OP_ERR AWS_ERROR_OOM, dest)
      else case copy_loop L cloner dest src of
        (None, dest') \<Rightarrow> (AWS_OP_SUCCESS, dest')
      | (Some e, dest') \<Rightarrow> (AWS_OP_ERR e, rollback (length dest) dest'))"

section \<open>Encrypted data keys\<close>

record edk =
  provider_id :: byte_buf
  provider_info :: byte_buf
  ciphertext :: byte_buf

definition edk_zero :: edk where
  "edk_zero = \<lparr>provider_id = buf_zero, provider_info = buf_zero, ciphertext = buf_zero\<rparr>"

text \<open>The size of \<^verbatim>\<open>struct aws_cryptosdk_edk\<close>: three byte buffers of four words each.\<close>

abbreviation sizeof_edk :: nat where
  "sizeof_edk \<equiv> 96"

definition aws_cryptosdk_edk_list_init :: "aws_lib \<Rightarrow> edk list result" where
  "aws_cryptosdk_edk_list_init L = (if lib_list_init L 4 then Inr [] else Inl AWS_ERROR_OOM)"

definition aws_cryptosdk_edk_clean_up :: "edk \<Rightarrow> edk" where
  "aws_cryptosdk_edk_clean_up e =
     \<lparr>provider_id = (if buf_owned (provider_id e) then buf_zero else provider_id e),
      provider_info = (if buf_owned (provider_info e) then buf_zero else provider_info e),
      ciphertext = (if buf_owned (ciphertext e) then buf_zero else ciphertext e)\<rparr>"

definition aws_cryptosdk_edk_list_clear :: "edk list \<Rightarrow> edk list" where
  "aws_cryptosdk_edk_list_clear edks = []"

definition aws_cryptosdk_edk_init_clone :: "aws_lib \<Rightarrow> edk \<Rightarrow> status \<times> edk" where
  "aws_cryptosdk_edk_init_clone L src =
     (case lib_buf_init_copy L (provider_id src) of
        None \<Rightarrow> (AWS_OP_ERR AWS_ERROR_OOM, edk_zero)
      | Some b1 \<Rightarrow>
          (case lib_buf_init_copy L (provider_info src) of
             None \<Rightarrow> (AWS_OP_ERR AWS_ERROR_OOM, edk_zero)
           | Some b2 \<Rightarrow>
               (case lib_buf_init_copy L (ciphertext src) of
                  None \<Rightarrow> (AWS_OP_ERR AWS_ERROR_OOM, edk_zero)
                | Some b3 \<Rightarrow>
                    (AWS_OP_SUCCESS,
                     \<lparr>provider_id = b1, provider_info = b2, ciphertext = b3\<rparr>))))"

definition aws_cryptosdk_edk_is_valid :: "edk \<Rightarrow> bool" where
  "aws_cryptosdk_edk_is_valid e \<longleftrightarrow>
     buf_valid (provider_id e) \<and> buf_valid (provider_info e) \<and> buf_valid (ciphertext e)"

fun aws_cryptosdk_edk_list_elements_are_valid :: "edk list \<Rightarrow> bool" where
  "aws_cryptosdk_edk_list_elements_are_valid [] = True"
| "aws_cryptosdk_edk_list_elements_are_valid (e # es) =
     (if \<not> aws_cryptosdk_edk_is_valid e then False
      else aws_cryptosdk_edk_list_elements_are_valid es)"

definition aws_cryptosdk_edk_eq :: "edk \<Rightarrow> edk \<Rightarrow> bool" where
  "aws_cryptosdk_edk_eq a b \<longleftrightarrow>
     buf_contents (ciphertext a) = buf_contents (ciphertext b) \<and>
     buf_contents (provider_info a) = buf_contents (provider_info b) \<and>
     buf_contents (provider_id a) = buf_contents (provider_id b)"

text \<open>A \<^verbatim>\<open>clone_item_fn\<close>: the status and the item written through \<^verbatim>\<open>dest\<close>, as one result.\<close>

definition clone_item :: "('a \<Rightarrow> status \<times> 'a) \<Rightarrow> 'a \<Rightarrow> 'a result" where
  "clone_item clone x = (case clone x of (None, y) \<Rightarrow> Inr y | (Some e, _) \<Rightarrow> Inl e)"

definition aws_cryptosdk_edk_list_copy_all :: "aws_lib \<Rightarrow> edk list \<Rightarrow> edk list \<Rightarrow> status \<times> edk list" where
  "aws_cryptosdk_edk_list_copy_all L dest src =
     list_copy_all L sizeof_edk (clone_item (aws_cryptosdk_edk_init_clone L)) dest src"

section \<open>Lemmas\<close>

declare rollback.simps [simp del]

lemma rollback_eq: "n \<le> length dest \<Longrightarrow> rollback n dest = take n dest"
proof (induction n dest rule: rollback.induct)
  case (1 n dest)
  show ?case
  proof (cases "n < length dest")
    case True
    then have "rollback n (butlast dest) = take n (butlast dest)" using 1 by simp
    moreover have "take n (butlast dest) = take n dest"
      using True by (auto simp: butlast_conv_take min_def)
    ultimately show ?thesis using True by (subst rollback.simps) simp
  next
    case False
    then show ?thesis using 1 by (subst rollback.simps) simp
  qed
qed

lemma transfer_loop_result:
  assumes "transfer_loop L dest src = (r, dest')"
  shows "case r of None \<Rightarrow> dest' = dest @ src
    | Some e \<Rightarrow> e = AWS_ERROR_OOM \<and> (\<exists>k < length src. dest' = dest @ take k src)"
  using assms
proof (induction src arbitrary: dest)
  case (Cons x src)
  show ?case
  proof (cases "lib_push_back L (length dest)")
    case True
    then show ?thesis
      using Cons.IH [of "dest @ [x]"] Cons.prems
      by (auto split: option.splits)
  next
    case False
    then show ?thesis using Cons.prems by auto
  qed
qed auto

lemma copy_loop_result:
  assumes "copy_loop L cloner dest src = (r, dest')"
  shows "\<exists>ys. dest' = dest @ ys \<and> (r = None \<longrightarrow> list_all2 (\<lambda>x y. cloner x = Inr y) src ys)"
  using assms
proof (induction src arbitrary: dest)
  case (Cons x src)
  show ?case
  proof (cases "cloner x")
    case (Inr y)
    show ?thesis
    proof (cases "lib_push_back L (length dest)")
      case True
      then obtain ys where "dest' = (dest @ [y]) @ ys"
        "r = None \<longrightarrow> list_all2 (\<lambda>x y. cloner x = Inr y) src ys"
        using Cons.IH [of "dest @ [y]"] Cons.prems Inr by auto
      then show ?thesis using Inr by (intro exI [of _ "y # ys"]) simp
    qed (use Cons.prems Inr in auto)
  qed (use Cons.prems in auto)
qed auto

lemma list_copy_all_result:
  assumes "list_copy_all L n cloner dest src = (r, dest')"
  shows "case r of None \<Rightarrow> \<exists>ys. dest' = dest @ ys \<and> list_all2 (\<lambda>x y. cloner x = Inr y) src ys
    | Some e \<Rightarrow> dest' = dest"
proof (cases "copy_loop L cloner dest src")
  case (Pair r' d)
  then show ?thesis
    using assms copy_loop_result [OF Pair]
    by (auto simp: list_copy_all_def rollback_eq split: option.splits if_splits)
qed

context aws_c_common
begin

lemma edk_init_clone_result:
  "clone_item (aws_cryptosdk_edk_init_clone L) e = Inr e' \<Longrightarrow>
     e' = \<lparr>provider_id = (provider_id e)\<lparr>buf_owned := True\<rparr>,
           provider_info = (provider_info e)\<lparr>buf_owned := True\<rparr>,
           ciphertext = (ciphertext e)\<lparr>buf_owned := True\<rparr>\<rparr>"
  by (auto simp: clone_item_def aws_cryptosdk_edk_init_clone_def buf_init_copy
      split: option.splits if_splits)

lemma edk_clone_eq:
  "clone_item (aws_cryptosdk_edk_init_clone L) e = Inr e' \<Longrightarrow> aws_cryptosdk_edk_eq e e'"
  using edk_init_clone_result [of e e'] by (simp add: aws_cryptosdk_edk_eq_def buf_contents_def)

end

section \<open>Properties\<close>

text \<open>
  C22: Copying a list of encrypted data keys either appends one equal copy of each source key, in
  order, or fails and leaves the destination exactly as it was.
\<close>

theorem edk_list_copy_all_correct:
  assumes "aws_c_common L" "aws_cryptosdk_edk_list_copy_all L dest src = (r, dest')"
  shows "case r of
      None \<Rightarrow> \<exists>copies. dest' = dest @ copies \<and> list_all2 aws_cryptosdk_edk_eq src copies
    | Some e \<Rightarrow> dest' = dest"
  using list_copy_all_result [OF assms(2) [unfolded aws_cryptosdk_edk_list_copy_all_def]]
    list_all2_mono [where P = "\<lambda>x y. clone_item (aws_cryptosdk_edk_init_clone L) x = Inr y"
      and Q = aws_cryptosdk_edk_eq, OF _ aws_c_common.edk_clone_eq [OF assms(1)]]
  by (auto split: option.splits)

theorem edk_list_copy_all_witness:
  "\<exists>copies. snd (aws_cryptosdk_edk_list_copy_all aws_ref [edk_zero] [edk_zero]) = [edk_zero] @ copies \<and>
     list_all2 aws_cryptosdk_edk_eq [edk_zero] copies"
proof -
  have r: "fst (aws_cryptosdk_edk_list_copy_all aws_ref [edk_zero] [edk_zero]) = None"
    by (simp add: aws_cryptosdk_edk_list_copy_all_def list_copy_all_def clone_item_def
        aws_cryptosdk_edk_init_clone_def aws_ref_def)
  show ?thesis
    using edk_list_copy_all_correct [OF ref.aws_c_common_axioms surjective_pairing, of "[edk_zero]" "[edk_zero]"]
    unfolding r by simp
qed

text \<open>
  C23: Transferring a list either moves every item to the end of the destination and empties the
  source, or fails for lack of memory; in the latter case a proper prefix of the source items has
  been appended to the destination while the source still holds all of them, so the transferred
  items are owned by both lists.
\<close>

theorem transfer_list_correct:
  "case aws_cryptosdk_transfer_list L dest src of
     (None, dest', src') \<Rightarrow> dest' = dest @ src \<and> src' = []
   | (Some e, dest', src') \<Rightarrow>
       e = AWS_ERROR_OOM \<and> src' = src \<and> (\<exists>k < length src. dest' = dest @ take k src)"
proof (cases "transfer_loop L dest src")
  case (Pair r d)
  then show ?thesis
    using transfer_loop_result [OF Pair]
    by (auto simp: aws_cryptosdk_transfer_list_def split: option.splits)
qed

end
