(* ===== verification/KeyringTrace.thy ===== *)
theory KeyringTrace
  imports ListUtils
begin

text \<open>
  Keyring traces, \<^verbatim>\<open>source/keyring_trace.c\<close>: records of which wrapping key did what to the data key of a request.
  A record that is on a trace has both its strings (\<^verbatim>\<open>aws_cryptosdk_keyring_trace_record_is_valid\<close>); here this is part of its type, so that the fatal
  preconditions on traces hold by construction, and a record that could not be built is an error value.
\<close>

section \<open>Records\<close>

abbreviation AWS_CRYPTOSDK_WRAPPING_KEY_GENERATED_DATA_KEY :: "32 word" where
  "AWS_CRYPTOSDK_WRAPPING_KEY_GENERATED_DATA_KEY \<equiv> 1"

abbreviation AWS_CRYPTOSDK_WRAPPING_KEY_ENCRYPTED_DATA_KEY :: "32 word" where
  "AWS_CRYPTOSDK_WRAPPING_KEY_ENCRYPTED_DATA_KEY \<equiv> 2"

abbreviation AWS_CRYPTOSDK_WRAPPING_KEY_DECRYPTED_DATA_KEY :: "32 word" where
  "AWS_CRYPTOSDK_WRAPPING_KEY_DECRYPTED_DATA_KEY \<equiv> 4"

abbreviation AWS_CRYPTOSDK_WRAPPING_KEY_SIGNED_ENC_CTX :: "32 word" where
  "AWS_CRYPTOSDK_WRAPPING_KEY_SIGNED_ENC_CTX \<equiv> 8"

abbreviation AWS_CRYPTOSDK_WRAPPING_KEY_VERIFIED_ENC_CTX :: "32 word" where
  "AWS_CRYPTOSDK_WRAPPING_KEY_VERIFIED_ENC_CTX \<equiv> 16"

record trace_record =
  wrapping_key_namespace :: bytes
  wrapping_key_name :: bytes
  trace_flags :: "32 word"

type_synonym keyring_trace = "trace_record list"

abbreviation SIZEOF_trace_record :: nat where
  "SIZEOF_trace_record \<equiv> 24"

text \<open>The strings are \<^const>\<open>None\<close> when they could not be allocated.\<close>

definition record_init_check :: "32 word \<Rightarrow> bytes option \<Rightarrow> bytes option \<Rightarrow> trace_record result" where
  "record_init_check flags wk_namespace wk_name =
     (case (wk_namespace, wk_name) of
        (Some ns, Some n) \<Rightarrow> Inr \<lparr>wrapping_key_namespace = ns, wrapping_key_name = n, trace_flags = flags\<rparr>
      | _ \<Rightarrow> Inl AWS_ERROR_OOM)"

definition record_init_from_c_strs :: "aws_lib \<Rightarrow> bytes \<Rightarrow> bytes \<Rightarrow> 32 word \<Rightarrow> trace_record result" where
  "record_init_from_c_strs L wk_namespace wk_name flags =
     record_init_check flags (aws_string_new_from_array L wk_namespace) (aws_string_new_from_array L wk_name)"

definition record_init_from_strings :: "aws_lib \<Rightarrow> bytes \<Rightarrow> bytes \<Rightarrow> 32 word \<Rightarrow> trace_record result" where
  "record_init_from_strings L wk_namespace wk_name flags =
     record_init_check flags (aws_cryptosdk_string_dup L wk_namespace) (aws_cryptosdk_string_dup L wk_name)"

definition record_init_from_bufs :: "aws_lib \<Rightarrow> byte_buf \<Rightarrow> byte_buf \<Rightarrow> 32 word \<Rightarrow> trace_record result" where
  "record_init_from_bufs L wk_namespace wk_name flags =
     record_init_check flags (aws_string_new_from_array L (buf_contents wk_namespace))
       (aws_string_new_from_array L (buf_contents wk_name))"

section \<open>Traces\<close>

definition push_record_onto_trace :: "aws_lib \<Rightarrow> keyring_trace \<Rightarrow> trace_record \<Rightarrow> status \<times> keyring_trace" where
  "push_record_onto_trace L trace record =
     (if lib_push_back L (length trace) then (AWS_OP_SUCCESS, trace @ [record])
      else (AWS_OP_ERR AWS_ERROR_OOM, trace))"

definition aws_cryptosdk_keyring_trace_add_record ::
  "aws_lib \<Rightarrow> keyring_trace \<Rightarrow> bytes \<Rightarrow> bytes \<Rightarrow> 32 word \<Rightarrow> status \<times> keyring_trace" where
  "aws_cryptosdk_keyring_trace_add_record L trace wk_namespace wk_name flags =
     (case record_init_from_strings L wk_namespace wk_name flags of
        Inl e \<Rightarrow> (AWS_OP_ERR e, trace)
      | Inr record \<Rightarrow> push_record_onto_trace L trace record)"

definition aws_cryptosdk_keyring_trace_add_record_c_str ::
  "aws_lib \<Rightarrow> keyring_trace \<Rightarrow> bytes \<Rightarrow> bytes \<Rightarrow> 32 word \<Rightarrow> status \<times> keyring_trace" where
  "aws_cryptosdk_keyring_trace_add_record_c_str L trace wk_namespace wk_name flags =
     (case record_init_from_c_strs L wk_namespace wk_name flags of
        Inl e \<Rightarrow> (AWS_OP_ERR e, trace)
      | Inr record \<Rightarrow> push_record_onto_trace L trace record)"

definition aws_cryptosdk_keyring_trace_add_record_buf ::
  "aws_lib \<Rightarrow> keyring_trace \<Rightarrow> byte_buf \<Rightarrow> byte_buf \<Rightarrow> 32 word \<Rightarrow> status \<times> keyring_trace" where
  "aws_cryptosdk_keyring_trace_add_record_buf L trace wk_namespace wk_name flags =
     (case record_init_from_bufs L wk_namespace wk_name flags of
        Inl e \<Rightarrow> (AWS_OP_ERR e, trace)
      | Inr record \<Rightarrow> push_record_onto_trace L trace record)"

definition aws_cryptosdk_keyring_trace_init :: "aws_lib \<Rightarrow> keyring_trace result" where
  "aws_cryptosdk_keyring_trace_init L = (if lib_list_init L 10 then Inr [] else Inl AWS_ERROR_OOM)"

definition aws_cryptosdk_keyring_trace_record_init_clone :: "aws_lib \<Rightarrow> trace_record \<Rightarrow> trace_record result" where
  "aws_cryptosdk_keyring_trace_record_init_clone L src =
     record_init_check (trace_flags src) (aws_cryptosdk_string_dup L (wrapping_key_namespace src))
       (aws_cryptosdk_string_dup L (wrapping_key_name src))"

definition aws_cryptosdk_keyring_trace_copy_all ::
  "aws_lib \<Rightarrow> keyring_trace \<Rightarrow> keyring_trace \<Rightarrow> status \<times> keyring_trace" where
  "aws_cryptosdk_keyring_trace_copy_all L dest src =
     list_copy_all L SIZEOF_trace_record (aws_cryptosdk_keyring_trace_record_init_clone L) dest src"

definition aws_cryptosdk_keyring_trace_record_eq :: "trace_record \<Rightarrow> trace_record \<Rightarrow> bool" where
  "aws_cryptosdk_keyring_trace_record_eq a b \<longleftrightarrow>
     trace_flags a = trace_flags b \<and> wrapping_key_namespace a = wrapping_key_namespace b \<and>
     wrapping_key_name a = wrapping_key_name b"

fun trace_eq_loop :: "keyring_trace \<Rightarrow> keyring_trace \<Rightarrow> bool" where
  "trace_eq_loop (a # as) (b # bs) = (if \<not> aws_cryptosdk_keyring_trace_record_eq a b then False else trace_eq_loop as bs)"
| "trace_eq_loop _ _ = True"

definition aws_cryptosdk_keyring_trace_eq :: "keyring_trace \<Rightarrow> keyring_trace \<Rightarrow> bool" where
  "aws_cryptosdk_keyring_trace_eq a b = (if length a \<noteq> length b then False else trace_eq_loop a b)"

definition aws_cryptosdk_keyring_trace_clear :: "keyring_trace \<Rightarrow> keyring_trace" where
  "aws_cryptosdk_keyring_trace_clear trace = []"

section \<open>Lemmas\<close>

lemma record_eq_iff: "aws_cryptosdk_keyring_trace_record_eq a b \<longleftrightarrow> a = b"
  by (cases a; cases b) (auto simp: aws_cryptosdk_keyring_trace_record_eq_def)

lemma trace_eq_loop_iff: "length as = length bs \<Longrightarrow> trace_eq_loop as bs \<longleftrightarrow> as = bs"
  by (induction as bs rule: list_induct2) (auto simp: record_eq_iff)

lemma keyring_trace_eq_iff: "aws_cryptosdk_keyring_trace_eq a b \<longleftrightarrow> a = b"
  by (auto simp: aws_cryptosdk_keyring_trace_eq_def trace_eq_loop_iff)

lemma record_init_check_result:
  "record_init_check flags ns n = Inr r \<Longrightarrow>
     ns = Some (wrapping_key_namespace r) \<and> n = Some (wrapping_key_name r) \<and> flags = trace_flags r"
  by (auto simp: record_init_check_def split: option.splits)

lemma string_dup_result: "aws_cryptosdk_string_dup L s = Some t \<Longrightarrow> t = s"
  by (auto simp: aws_cryptosdk_string_dup_def aws_string_new_from_array_def split: if_splits)

lemma record_init_from_strings_result:
  "record_init_from_strings L ns n flags = Inr r \<Longrightarrow>
     r = \<lparr>wrapping_key_namespace = ns, wrapping_key_name = n, trace_flags = flags\<rparr>"
  by (cases r)
     (auto simp: record_init_from_strings_def dest!: record_init_check_result string_dup_result)

lemma clone_record_result: "aws_cryptosdk_keyring_trace_record_init_clone L s = Inr r \<Longrightarrow> r = s"
  by (cases r; cases s)
     (auto simp: aws_cryptosdk_keyring_trace_record_init_clone_def
           dest!: record_init_check_result string_dup_result)

text \<open>Adding a record puts it at the end of the trace, or leaves the trace as it was.\<close>

lemma add_record_cases:
  "aws_cryptosdk_keyring_trace_add_record L trace ns n flags = (st, trace') \<Longrightarrow>
     trace' = (if st = None then trace @ [\<lparr>wrapping_key_namespace = ns, wrapping_key_name = n, trace_flags = flags\<rparr>]
               else trace)"
  by (auto simp: aws_cryptosdk_keyring_trace_add_record_def push_record_onto_trace_def
           split: sum.splits if_splits dest!: record_init_from_strings_result)

end
