(* ===== verification/Materials.thy ===== *)
theory Materials
  imports CipherProps Signature KeyringTrace
begin

text \<open>
  Materials, keyrings and crypto materials managers, \<^verbatim>\<open>source/materials.c\<close> and \<^verbatim>\<open>include/aws/cryptosdk/materials.h\<close>: the requests and
  materials that pass between sessions, managers and keyrings, and the dispatch through their virtual tables
  with the conditions it enforces. Reference counting is not modelled: a keyring or manager is the value of its virtual table.
\<close>

section \<open>The libraries below\<close>

text \<open>
  What the layers above \<^verbatim>\<open>cipher.c\<close> are given: the common runtime, the cryptographic library, its random numbers and its
  elliptic curves. Random numbers are drawn one after the other; the index of the next draw is part of the state of
  whoever draws.
\<close>

record env =
  env_lib :: aws_lib
  env_ssl :: openssl
  env_rand :: rand_source
  env_ec :: siglib

text \<open>Random bytes come in the number asked for.\<close>

definition rand_spec :: "rand_source \<Rightarrow> bool" where
  "rand_spec R \<longleftrightarrow> (\<forall>i n bs. R i n = Some bs \<longrightarrow> length bs = n)"

lemma genrandom_result:
  "rand_spec R \<Longrightarrow> aws_cryptosdk_genrandom R i buf = (None, bs) \<Longrightarrow> length bs = length buf"
  by (auto simp: aws_cryptosdk_genrandom_def rand_spec_def split: option.splits if_splits)

section \<open>Commitment policies\<close>

type_synonym commitment_policy = "32 word"

abbreviation COMMITMENT_POLICY_REQUIRE_ENCRYPT_REQUIRE_DECRYPT :: commitment_policy where
  "COMMITMENT_POLICY_REQUIRE_ENCRYPT_REQUIRE_DECRYPT \<equiv> 0x598f396c"

abbreviation COMMITMENT_POLICY_REQUIRE_ENCRYPT_ALLOW_DECRYPT :: commitment_policy where
  "COMMITMENT_POLICY_REQUIRE_ENCRYPT_ALLOW_DECRYPT \<equiv> 0x493769b7"

abbreviation COMMITMENT_POLICY_FORBID_ENCRYPT_ALLOW_DECRYPT :: commitment_policy where
  "COMMITMENT_POLICY_FORBID_ENCRYPT_ALLOW_DECRYPT \<equiv> 0x2735f98a"

definition aws_cryptosdk_commitment_policy_is_valid :: "commitment_policy \<Rightarrow> bool" where
  "aws_cryptosdk_commitment_policy_is_valid p \<longleftrightarrow>
     p = COMMITMENT_POLICY_REQUIRE_ENCRYPT_REQUIRE_DECRYPT \<or>
     p = COMMITMENT_POLICY_REQUIRE_ENCRYPT_ALLOW_DECRYPT \<or>
     p = COMMITMENT_POLICY_FORBID_ENCRYPT_ALLOW_DECRYPT"

definition aws_cryptosdk_commitment_policy_encrypt_must_include_commitment :: "commitment_policy \<Rightarrow> bool" where
  "aws_cryptosdk_commitment_policy_encrypt_must_include_commitment p =
     (if p = COMMITMENT_POLICY_REQUIRE_ENCRYPT_REQUIRE_DECRYPT \<or>
         p = COMMITMENT_POLICY_REQUIRE_ENCRYPT_ALLOW_DECRYPT then True
      else False)"

section \<open>Requests and materials\<close>

text \<open>
  The buffer of an unencrypted data key: \<^const>\<open>None\<close> while its pointer is NULL, otherwise its address and the buffer.
\<close>

record key_buf =
  kb_addr :: nat
  kb_buf :: byte_buf

type_synonym data_key_buf = "key_buf option"

definition dk_len :: "data_key_buf \<Rightarrow> nat" where
  "dk_len k = (case k of None \<Rightarrow> 0 | Some b \<Rightarrow> buf_len (kb_buf b))"

definition dk_contents :: "data_key_buf \<Rightarrow> bytes" where
  "dk_contents k = (case k of None \<Rightarrow> [] | Some b \<Rightarrow> buf_contents (kb_buf b))"

record enc_request =
  er_enc_ctx :: hash_table
  er_requested_alg :: alg_id
  er_plaintext_size :: "64 word"
  er_commitment_policy :: commitment_policy

record enc_materials =
  em_unencrypted_data_key :: data_key_buf
  em_keyring_trace :: keyring_trace
  em_encrypted_data_keys :: "edk list"
  em_signctx :: "sig_ctx option"
  em_alg :: alg_id

record dec_request =
  dr_enc_ctx :: hash_table
  dr_encrypted_data_keys :: "edk list"
  dr_alg :: alg_id

record dec_materials =
  dm_unencrypted_data_key :: data_key_buf
  dm_keyring_trace :: keyring_trace
  dm_signctx :: "sig_ctx option"
  dm_alg :: alg_id

text \<open>The sizes of the structures that are allocated, with 64-bit pointers.\<close>

abbreviation SIZEOF_enc_materials :: nat where
  "SIZEOF_enc_materials \<equiv> 136"

abbreviation SIZEOF_dec_materials :: nat where
  "SIZEOF_dec_materials \<equiv> 96"

definition aws_cryptosdk_enc_materials_new :: "aws_lib \<Rightarrow> alg_id \<Rightarrow> enc_materials result" where
  "aws_cryptosdk_enc_materials_new L alg =
     (if \<not> lib_acquire L SIZEOF_enc_materials then Inl AWS_ERROR_OOM
      else bindE (aws_cryptosdk_edk_list_init L) (\<lambda>edks.
           bindE (aws_cryptosdk_keyring_trace_init L) (\<lambda>trace.
           Inr \<lparr>em_unencrypted_data_key = None, em_keyring_trace = trace, em_encrypted_data_keys = edks,
                em_signctx = None, em_alg = alg\<rparr>)))"

definition aws_cryptosdk_dec_materials_new :: "aws_lib \<Rightarrow> alg_id \<Rightarrow> dec_materials result" where
  "aws_cryptosdk_dec_materials_new L alg =
     (if \<not> lib_acquire L SIZEOF_dec_materials then Inl AWS_ERROR_OOM
      else bindE (aws_cryptosdk_keyring_trace_init L) (\<lambda>trace.
           Inr \<lparr>dm_unencrypted_data_key = None, dm_keyring_trace = trace, dm_signctx = None, dm_alg = alg\<rparr>))"

section \<open>Keyrings\<close>

text \<open>
  What a keyring changes during a request: the buffer of the data key, the trace, the encrypted data keys and the number of random draws.
  Decryption draws nothing and only reads the encrypted data keys.
  A virtual function that is not there is \<^const>\<open>None\<close>.
\<close>

record kr_state =
  ks_key :: data_key_buf
  ks_trace :: keyring_trace
  ks_edks :: "edk list"
  ks_draws :: nat

type_synonym on_encrypt_fn = "kr_state \<Rightarrow> hash_table \<Rightarrow> alg_id \<Rightarrow> status \<times> kr_state"

type_synonym on_decrypt_fn =
  "data_key_buf \<Rightarrow> keyring_trace \<Rightarrow> edk list \<Rightarrow> hash_table \<Rightarrow> alg_id \<Rightarrow> status \<times> data_key_buf \<times> keyring_trace"

record keyring =
  kr_on_encrypt :: "on_encrypt_fn option"
  kr_on_decrypt :: "on_decrypt_fn option"

text \<open>
  The comparison of two buffers with \<^verbatim>\<open>memcmp\<close>: pointer, length, capacity and allocator, not the bytes.
\<close>

definition same_buf :: "key_buf \<Rightarrow> data_key_buf \<Rightarrow> bool" where
  "same_buf b k = (case k of None \<Rightarrow> False | Some b' \<Rightarrow>
     kb_addr b = kb_addr b' \<and> buf_len (kb_buf b) = buf_len (kb_buf b') \<and>
     buf_capacity (kb_buf b) = buf_capacity (kb_buf b') \<and> buf_owned (kb_buf b) = buf_owned (kb_buf b'))"

definition wrong_key_len :: "data_key_buf \<Rightarrow> alg_id \<Rightarrow> bool" where
  "wrong_key_len k alg \<longleftrightarrow>
     (case aws_cryptosdk_alg_props alg of None \<Rightarrow> True | Some props \<Rightarrow> dk_len k \<noteq> data_key_len props)"

definition aws_cryptosdk_keyring_on_encrypt :: "keyring \<Rightarrow> on_encrypt_fn" where
  "aws_cryptosdk_keyring_on_encrypt kr st enc_ctx alg =
     (let precall = ks_key st
      in if precall = None \<and> length (ks_edks st) \<noteq> 0 then (AWS_OP_ERR AWS_CRYPTOSDK_ERR_BAD_STATE, st)
         else case kr_on_encrypt kr of
           None \<Rightarrow> (AWS_OP_ERR AWS_ERROR_UNIMPLEMENTED, st)
         | Some on_encrypt \<Rightarrow>
             (case on_encrypt st enc_ctx alg of (ret, st') \<Rightarrow>
                if precall = None \<and> ks_key st' \<noteq> None \<and> wrong_key_len (ks_key st') alg
                then (AWS_OP_ERR AWS_CRYPTOSDK_ERR_BAD_STATE, st')
                else if precall \<noteq> None \<and> \<not> same_buf (the precall) (ks_key st')
                then (AWS_OP_ERR AWS_CRYPTOSDK_ERR_BAD_STATE, st')
                else (ret, st')))"

definition aws_cryptosdk_keyring_on_decrypt :: "keyring \<Rightarrow> on_decrypt_fn" where
  "aws_cryptosdk_keyring_on_decrypt kr key trace edks enc_ctx alg =
     (if key \<noteq> None then (AWS_OP_ERR AWS_CRYPTOSDK_ERR_BAD_STATE, key, trace)
      else case kr_on_decrypt kr of
        None \<Rightarrow> (AWS_OP_ERR AWS_ERROR_UNIMPLEMENTED, key, trace)
      | Some on_decrypt \<Rightarrow>
          (case on_decrypt key trace edks enc_ctx alg of (ret, key', trace') \<Rightarrow>
             if key' \<noteq> None \<and> wrong_key_len key' alg then (AWS_OP_ERR AWS_CRYPTOSDK_ERR_BAD_CIPHERTEXT, key', trace')
             else (ret, key', trace')))"

section \<open>Crypto materials managers\<close>

text \<open>
  A manager gives materials or an error. Generating materials may change the encryption context of the request and draws random
  numbers; the requested algorithm is a local value of the request.
\<close>

type_synonym generate_fn = "enc_request \<Rightarrow> nat \<Rightarrow> enc_materials result \<times> hash_table \<times> nat"

type_synonym decrypt_fn = "dec_request \<Rightarrow> dec_materials result"

record cmm =
  cmm_generate_enc_materials :: "generate_fn option"
  cmm_decrypt_materials :: "decrypt_fn option"

definition aws_cryptosdk_cmm_generate_enc_materials :: "cmm \<Rightarrow> generate_fn" where
  "aws_cryptosdk_cmm_generate_enc_materials c request draws =
     (case cmm_generate_enc_materials c of
        None \<Rightarrow> (Inl AWS_ERROR_UNIMPLEMENTED, er_enc_ctx request, draws)
      | Some f \<Rightarrow> f request draws)"

definition aws_cryptosdk_cmm_decrypt_materials :: "cmm \<Rightarrow> decrypt_fn" where
  "aws_cryptosdk_cmm_decrypt_materials c request =
     (case cmm_decrypt_materials c of None \<Rightarrow> Inl AWS_ERROR_UNIMPLEMENTED | Some f \<Rightarrow> f request)"

section \<open>The contracts\<close>

text \<open>
  What the default manager relies on when it has a keyring make a new data key. The documentation of keyrings in \<^verbatim>\<open>materials.h\<close> is weaker: a keyring may
  succeed without generating a data key, and it adds zero or more encrypted data keys. This is the contract of the keyrings that do
  generate, such as the raw AES keyring and a multi-keyring whose generator keeps it: on success there is a data key of the length of the suite,
  and at least one encrypted data key on the list, all well formed; from a list that starts with those keys and an equal encryption
  context, the keyring decrypts that data key. Encrypted data keys and contexts may have been copied in between, and more encrypted data keys, of other keyrings, may follow.
\<close>

locale keyring_contract =
  fixes kr :: keyring
  assumes wrap: "aws_cryptosdk_alg_props alg = Some p \<Longrightarrow> hash_valid ctx \<Longrightarrow> enc_ctx_fits ctx \<Longrightarrow>
      aws_cryptosdk_keyring_on_encrypt kr \<lparr>ks_key = None, ks_trace = tr, ks_edks = [], ks_draws = d\<rparr> ctx alg = (None, st) \<Longrightarrow>
      ks_key st \<noteq> None \<and> length (dk_contents (ks_key st)) = data_key_len p \<and>
      ks_edks st \<noteq> [] \<and> list_all aws_cryptosdk_edk_is_valid (ks_edks st)"
    and unwrap: "aws_cryptosdk_alg_props alg = Some p \<Longrightarrow> hash_valid ctx \<Longrightarrow> enc_ctx_fits ctx \<Longrightarrow>
      aws_cryptosdk_keyring_on_encrypt kr \<lparr>ks_key = None, ks_trace = tr, ks_edks = [], ks_draws = d\<rparr> ctx alg = (None, st) \<Longrightarrow>
      list_all2 aws_cryptosdk_edk_eq (ks_edks st) edks \<Longrightarrow> list_all aws_cryptosdk_edk_is_valid (edks @ others) \<Longrightarrow>
      hash_valid ctx' \<Longrightarrow> map_of ctx' = map_of ctx \<Longrightarrow>
      \<exists>k tr''. aws_cryptosdk_keyring_on_decrypt kr None tr' (edks @ others) ctx' alg = (None, Some k, tr'') \<and>
        dk_contents (Some k) = dk_contents (ks_key st)"

text \<open>
  What a multi-keyring relies on from its children: a child that is given a data key and succeeds leaves its bytes alone, and only appends well formed encrypted data keys. The
  dispatch compares the buffers before and after, but not their bytes.
\<close>

locale child_contract =
  fixes kr :: keyring
  assumes adds: "aws_cryptosdk_alg_props alg = Some p \<Longrightarrow> hash_valid ctx \<Longrightarrow> enc_ctx_fits ctx \<Longrightarrow>
      ks_key st \<noteq> None \<Longrightarrow> length (dk_contents (ks_key st)) = data_key_len p \<Longrightarrow>
      aws_cryptosdk_keyring_on_encrypt kr st ctx alg = (None, st') \<Longrightarrow>
      dk_contents (ks_key st') = dk_contents (ks_key st) \<and>
      (\<exists>new. ks_edks st' = ks_edks st @ new \<and> list_all aws_cryptosdk_edk_is_valid new)"

text \<open>A context that signs and one that verifies with the matching keys, after the same updates.\<close>

definition sig_pair :: "(nat \<Rightarrow> nat \<Rightarrow> nat \<Rightarrow> bool) \<Rightarrow> sig_ctx \<Rightarrow> sig_ctx \<Rightarrow> bool" where
  "sig_pair kp c v \<longleftrightarrow>
     (\<exists>g pub priv. kp g pub priv \<and> sc_keypair c = \<lparr>ek_group = g, ek_pub = pub, ek_priv = Some priv\<rparr> \<and>
        sc_keypair v = \<lparr>ek_group = g, ek_pub = pub, ek_priv = None\<rparr>) \<and>
     sc_props c = sc_props v \<and> sc_md c = sc_md v \<and> sc_data c = sc_data v"

text \<open>
  What a manager promises to a session: materials it generates for a context that can be serialized have a data key of the length of their suite, and encrypted data
  keys; from those keys and an equal context it gives materials for decryption with the same suite and data key, and with
  the verification context that belongs to the signature context.
\<close>

locale cmm_contract =
  fixes c :: cmm and kp :: "nat \<Rightarrow> nat \<Rightarrow> nat \<Rightarrow> bool"
  assumes generated: "hash_valid (er_enc_ctx rq) \<Longrightarrow> aws_cryptosdk_cmm_generate_enc_materials c rq d = (Inr m, ctx, d') \<Longrightarrow>
      enc_ctx_fits ctx \<Longrightarrow>
      hash_valid ctx \<and> em_encrypted_data_keys m \<noteq> [] \<and> list_all aws_cryptosdk_edk_is_valid (em_encrypted_data_keys m) \<and>
      (\<exists>p. aws_cryptosdk_alg_props (em_alg m) = Some p \<and> length (dk_contents (em_unencrypted_data_key m)) = data_key_len p \<and>
         dk_len (em_unencrypted_data_key m) = data_key_len p \<and> (em_signctx m = None \<longleftrightarrow> signature_len p = 0) \<and>
         (\<forall>sc. em_signctx m = Some sc \<longrightarrow> sc_data sc = [] \<and> sc_props sc = p))"
    and decrypted: "hash_valid (er_enc_ctx rq) \<Longrightarrow> aws_cryptosdk_cmm_generate_enc_materials c rq d = (Inr m, ctx, d') \<Longrightarrow>
      enc_ctx_fits ctx \<Longrightarrow>
      list_all2 aws_cryptosdk_edk_eq (em_encrypted_data_keys m) (dr_encrypted_data_keys r) \<Longrightarrow>
      list_all aws_cryptosdk_edk_is_valid (dr_encrypted_data_keys r) \<Longrightarrow>
      hash_valid (dr_enc_ctx r) \<Longrightarrow> map_of (dr_enc_ctx r) = map_of ctx \<Longrightarrow> dr_alg r = em_alg m \<Longrightarrow>
      \<exists>dm. aws_cryptosdk_cmm_decrypt_materials c r = Inr dm \<and> dm_alg dm = em_alg m \<and>
        dk_contents (dm_unencrypted_data_key dm) = dk_contents (em_unencrypted_data_key m) \<and>
        dk_len (dm_unencrypted_data_key dm) = dk_len (em_unencrypted_data_key m) \<and>
        (em_signctx m = None \<longrightarrow> dm_signctx dm = None) \<and>
        (\<forall>sc. em_signctx m = Some sc \<longrightarrow> (\<exists>vc. dm_signctx dm = Some vc \<and> sig_pair kp sc vc))"

section \<open>A reference instance\<close>

definition rand_ref :: rand_source where
  "rand_ref i n = Some (map (\<lambda>j. word_of_nat (i + j)) [0..<n])"

definition env_ref :: env where
  "env_ref = \<lparr>env_lib = aws_ref, env_ssl = hkdf_ref 0x30000000, env_rand = rand_ref, env_ec = siglib_ref\<rparr>"

lemma env_ref_simps [simp]:
  "env_lib env_ref = aws_ref" "env_ssl env_ref = hkdf_ref 0x30000000" "env_rand env_ref = rand_ref" "env_ec env_ref = siglib_ref"
  by (simp_all add: env_ref_def)

lemma rand_ref_spec: "rand_spec rand_ref"
  by (auto simp: rand_spec_def rand_ref_def)

lemma hkdf_ref_gcm: "gcm_spec (hkdf_ref v) ref_ks ref_tag" "gcm_ok (hkdf_ref v)"
  using openssl_ref_spec openssl_ref_ok by (simp_all add: gcm_spec_def gcm_ok_def hkdf_ref_def)

section \<open>The lengths of data keys\<close>

lemma on_encrypt_key_len:
  "aws_cryptosdk_keyring_on_encrypt kr st ctx alg = (None, st') \<Longrightarrow> aws_cryptosdk_alg_props alg = Some p \<Longrightarrow>
   ks_key st = None \<Longrightarrow> ks_key st' \<noteq> None \<Longrightarrow> dk_len (ks_key st') = data_key_len p"
  by (auto simp: aws_cryptosdk_keyring_on_encrypt_def wrong_key_len_def Let_def split: option.splits if_splits prod.splits)

lemma on_decrypt_key_len:
  "aws_cryptosdk_keyring_on_decrypt kr key tr edks ctx alg = (None, Some k, tr') \<Longrightarrow> aws_cryptosdk_alg_props alg = Some p \<Longrightarrow>
   dk_len (Some k) = data_key_len p"
  by (auto simp: aws_cryptosdk_keyring_on_decrypt_def wrong_key_len_def split: option.splits if_splits prod.splits)

section \<open>Properties\<close>

text \<open>
  C40: What the dispatch guarantees of every keyring, whatever its functions do: an encryption that succeeds was not asked to add to existing
  encrypted data keys without a data key, leaves a data key that was there in its buffer, and gives one that was not there the
  length of the suite; a decryption that succeeds was given no data key, and a data key it gives has the length of the suite.
\<close>

theorem keyring_dispatch_guarantees:
  "(aws_cryptosdk_keyring_on_encrypt kr st ctx alg = (None, st') \<longrightarrow>
      (case ks_key st of
         None \<Rightarrow> ks_edks st = [] \<and>
           (ks_key st' \<noteq> None \<longrightarrow> (\<exists>p. aws_cryptosdk_alg_props alg = Some p \<and> dk_len (ks_key st') = data_key_len p))
       | Some b \<Rightarrow> same_buf b (ks_key st'))) \<and>
   (aws_cryptosdk_keyring_on_decrypt kr key tr edks ctx alg = (None, key', tr') \<longrightarrow>
      key = None \<and>
      (key' \<noteq> None \<longrightarrow> (\<exists>p. aws_cryptosdk_alg_props alg = Some p \<and> dk_len key' = data_key_len p)))"
  by (auto simp: aws_cryptosdk_keyring_on_encrypt_def aws_cryptosdk_keyring_on_decrypt_def wrong_key_len_def Let_def
      split: option.splits if_splits prod.splits)

theorem keyring_dispatch_witness:
  "let kr = \<lparr>kr_on_encrypt = Some (\<lambda>st ctx alg. (None, st)),
             kr_on_decrypt = Some (\<lambda>k tr edks ctx alg. (None, Some \<lparr>kb_addr = 0, kb_buf = buf_from_array (replicate 32 1)\<rparr>, tr))\<rparr>;
       st = \<lparr>ks_key = Some \<lparr>kb_addr = 4, kb_buf = buf_from_array [1, 2]\<rparr>, ks_trace = [], ks_edks = [], ks_draws = 0\<rparr>
   in aws_cryptosdk_keyring_on_encrypt kr st [] 0x0578 = (None, st) \<and> same_buf \<lparr>kb_addr = 4, kb_buf = buf_from_array [1, 2]\<rparr> (ks_key st) \<and>
      aws_cryptosdk_keyring_on_decrypt kr None [] [] [] 0x0578 = (None, Some \<lparr>kb_addr = 0, kb_buf = buf_from_array (replicate 32 1)\<rparr>, []) \<and>
      (\<exists>p. aws_cryptosdk_alg_props 0x0578 = Some p \<and> data_key_len p = 32)"
proof -
  let ?kr = "\<lparr>kr_on_encrypt = Some (\<lambda>st ctx alg. (None, st)),
     kr_on_decrypt = Some (\<lambda>k tr edks ctx alg. (None, Some \<lparr>kb_addr = 0, kb_buf = buf_from_array (replicate 32 1)\<rparr>, tr))\<rparr>"
  let ?st = "\<lparr>ks_key = Some \<lparr>kb_addr = 4, kb_buf = buf_from_array [1, 2]\<rparr>, ks_trace = [], ks_edks = [], ks_draws = 0\<rparr> :: kr_state"
  have 1: "aws_cryptosdk_keyring_on_encrypt ?kr ?st [] 0x0578 = (None, ?st)"
    by (simp add: aws_cryptosdk_keyring_on_encrypt_def same_buf_def)
  have 2: "aws_cryptosdk_keyring_on_decrypt ?kr None [] [] [] 0x0578 = (None, Some \<lparr>kb_addr = 0, kb_buf = buf_from_array (replicate 32 1)\<rparr>, [])"
    by (simp add: aws_cryptosdk_keyring_on_decrypt_def wrong_key_len_def dk_len_def buf_from_array_def alg_table)
  show ?thesis
    using keyring_dispatch_guarantees [of ?kr ?st "[]" "0x0578" ?st None "[]" "[]"
        "Some \<lparr>kb_addr = 0, kb_buf = buf_from_array (replicate 32 1)\<rparr>" "[]"] 1 2
    by (simp add: dk_len_def buf_from_array_def)
qed

end
