(* ===== verification/RawAes.thy ===== *)
theory RawAes
  imports Materials
begin

text \<open>
  The raw AES keyring, \<^verbatim>\<open>source/raw_aes_keyring.c\<close>: data keys wrapped with AES-GCM under a fixed key, bound to the encryption
  context.
\<close>

section \<open>Definitions\<close>

abbreviation RAW_AES_KR_IV_LEN :: nat where
  "RAW_AES_KR_IV_LEN \<equiv> 12"

abbreviation RAW_AES_KR_TAG_LEN :: nat where
  "RAW_AES_KR_TAG_LEN \<equiv> 16"

record raw_aes_keyring =
  ra_key_namespace :: bytes
  ra_key_name :: bytes
  ra_raw_key :: bytes

definition serialize_aad_init :: "aws_lib \<Rightarrow> hash_table \<Rightarrow> byte_buf result" where
  "serialize_aad_init L enc_ctx =
     bindE (aws_cryptosdk_enc_ctx_size L enc_ctx) (\<lambda>aad_len.
     bindE (orE (lib_buf_init L aad_len) AWS_ERROR_OOM) (\<lambda>aad.
     case aws_cryptosdk_enc_ctx_serialize L aad enc_ctx of
       (Some e, _) \<Rightarrow> Inl e
     | (None, aad) \<Rightarrow> Inr aad))"

definition aws_cryptosdk_serialize_provider_info_init :: "aws_lib \<Rightarrow> bytes \<Rightarrow> bytes \<Rightarrow> byte_buf result" where
  "aws_cryptosdk_serialize_provider_info_init L key_name iv =
     (let serialized_len = length key_name + RAW_AES_KR_IV_LEN + 8
      in bindE (orE (lib_buf_init L serialized_len) AWS_ERROR_OOM) (\<lambda>output.
         bindE (orE (lib_write L output key_name) AWS_ERROR_UNKNOWN) (\<lambda>output.
         bindE (orE (lib_write_be32 L output (word_of_nat (RAW_AES_KR_TAG_LEN * 8))) AWS_ERROR_UNKNOWN) (\<lambda>output.
         bindE (orE (lib_write_be32 L output (word_of_nat RAW_AES_KR_IV_LEN)) AWS_ERROR_UNKNOWN) (\<lambda>output.
         orE (lib_write L output iv) AWS_ERROR_UNKNOWN)))))"

text \<open>The initialization vector, if the information is that of this keyring.\<close>

definition aws_cryptosdk_parse_provider_info :: "aws_lib \<Rightarrow> raw_aes_keyring \<Rightarrow> byte_buf \<Rightarrow> bytes option" where
  "aws_cryptosdk_parse_provider_info L self info =
     (let mkid_len = length (ra_key_name self);
          serialized_len = mkid_len + RAW_AES_KR_IV_LEN + 8
      in if serialized_len \<noteq> buf_len info then None
         else case lib_advance L (cursor_of (buf_contents info)) mkid_len of
           None \<Rightarrow> None
         | Some (mkid, cur) \<Rightarrow>
             if ra_key_name self \<noteq> cur_data mkid then None
             else (case lib_read_be32 L cur of
               None \<Rightarrow> None
             | Some (tlen, cur) \<Rightarrow>
                 if tlen \<noteq> word_of_nat (RAW_AES_KR_TAG_LEN * 8) then None
                 else (case lib_read_be32 L cur of
                   None \<Rightarrow> None
                 | Some (ivlen, cur) \<Rightarrow>
                     if ivlen \<noteq> word_of_nat RAW_AES_KR_IV_LEN then None
                     else Some (cur_data cur))))"

text \<open>
  The ciphertext of an encrypted data key is the encrypted bytes followed by the tag; both are written through buffers on
  its parts.
\<close>

definition aws_cryptosdk_raw_aes_keyring_encrypt_data_key_with_iv ::
  "aws_lib \<Rightarrow> openssl \<Rightarrow> raw_aes_keyring \<Rightarrow> data_key_buf \<Rightarrow> edk list \<Rightarrow> hash_table \<Rightarrow> alg_id \<Rightarrow> bytes \<Rightarrow> status \<times> edk list" where
  "aws_cryptosdk_raw_aes_keyring_encrypt_data_key_with_iv L S self key edks enc_ctx alg iv =
     (let data_key_len = data_key_len (the (aws_cryptosdk_alg_props alg))
      in case serialize_aad_init L enc_ctx of
           Inl e \<Rightarrow> (AWS_OP_ERR e, edks)
         | Inr aad \<Rightarrow>
     (case lib_buf_init L (data_key_len + RAW_AES_KR_TAG_LEN) of
        None \<Rightarrow> (AWS_OP_ERR AWS_ERROR_OOM, edks)
      | Some cipher \<Rightarrow>
          (let edk_bytes = buf_from_array (take data_key_len (buf_mem cipher));
               tag = buf_from_array (drop data_key_len (buf_mem cipher))
           in case aws_cryptosdk_aes_gcm_encrypt L S edk_bytes tag (dk_contents key) iv (buf_contents aad) (ra_raw_key self) of
                (Some e, _, _) \<Rightarrow> (AWS_OP_ERR e, edks)
              | (None, edk_bytes, tag) \<Rightarrow>
                  let cipher = cipher\<lparr>buf_mem := buf_mem edk_bytes @ buf_mem tag, buf_len := buf_capacity cipher\<rparr>
                  in case aws_cryptosdk_serialize_provider_info_init L (ra_key_name self) iv of
                       Inl e \<Rightarrow> (AWS_OP_ERR e, edks)
                     | Inr info \<Rightarrow>
                         (case lib_buf_init L (length (ra_key_namespace self)) of
                            None \<Rightarrow> (AWS_OP_ERR AWS_ERROR_OOM, edks)
                          | Some prov \<Rightarrow>
                              (case lib_write L prov (ra_key_namespace self) of
                                 None \<Rightarrow> (AWS_OP_ERR LAST_ERROR_UNCHANGED, edks)
                               | Some prov \<Rightarrow>
                                   if lib_push_back L (length edks)
                                   then (AWS_OP_SUCCESS,
                                         edks @ [\<lparr>provider_id = prov, provider_info = info, ciphertext = cipher\<rparr>])
                                   else (AWS_OP_ERR AWS_ERROR_OOM, edks))))))"

text \<open>
  The outcome of adding a trace record is ignored. The address of a data key that is generated is the number of
  the draw it comes from, so that the addresses of different generated keys differ.
\<close>

definition generate_data_key :: "env \<Rightarrow> kr_state \<Rightarrow> nat \<Rightarrow> (error \<times> kr_state) + kr_state" where
  "generate_data_key V st dk_size =
     (case lib_buf_init (env_lib V) dk_size of
        None \<Rightarrow> Inl (AWS_ERROR_OOM, st)
      | Some b \<Rightarrow>
          (case aws_cryptosdk_genrandom (env_rand V) (ks_draws st) (buf_mem b) of
             (Some e, _) \<Rightarrow> Inl (e, st\<lparr>ks_draws := Suc (ks_draws st)\<rparr>)
           | (None, bs) \<Rightarrow>
               Inr (st\<lparr>ks_key := Some \<lparr>kb_addr = ks_draws st, kb_buf = b\<lparr>buf_mem := bs, buf_len := buf_capacity b\<rparr>\<rparr>,
                       ks_draws := Suc (ks_draws st)\<rparr>)))"

definition raw_aes_keyring_on_encrypt :: "env \<Rightarrow> raw_aes_keyring \<Rightarrow> on_encrypt_fn" where
  "raw_aes_keyring_on_encrypt V self st enc_ctx alg =
     (let L = env_lib V;
          data_key_len = data_key_len (the (aws_cryptosdk_alg_props alg))
      in case aws_cryptosdk_genrandom (env_rand V) (ks_draws st) (replicate RAW_AES_KR_IV_LEN 0) of
           (Some e, _) \<Rightarrow> (AWS_OP_ERR e, st\<lparr>ks_draws := Suc (ks_draws st)\<rparr>)
         | (None, iv) \<Rightarrow>
     (let st = st\<lparr>ks_draws := Suc (ks_draws st)\<rparr>;
          generate = (ks_key st = None)
      in case (if generate then generate_data_key V st data_key_len else Inr st) of
           Inl (e, st) \<Rightarrow> (AWS_OP_ERR e, st)
         | Inr st \<Rightarrow>
             (case aws_cryptosdk_raw_aes_keyring_encrypt_data_key_with_iv L (env_ssl V) self (ks_key st) (ks_edks st) enc_ctx alg iv of
                (Some e, edks) \<Rightarrow> (AWS_OP_ERR e, if generate then st\<lparr>ks_key := None\<rparr> else st)
              | (None, edks) \<Rightarrow>
                  let flags = (if generate then AWS_CRYPTOSDK_WRAPPING_KEY_GENERATED_DATA_KEY else 0) OR
                              (AWS_CRYPTOSDK_WRAPPING_KEY_ENCRYPTED_DATA_KEY OR AWS_CRYPTOSDK_WRAPPING_KEY_SIGNED_ENC_CTX)
                  in case aws_cryptosdk_keyring_trace_add_record L (ks_trace st) (ra_key_namespace self) (ra_key_name self) flags of
                       (_, trace) \<Rightarrow> (AWS_OP_SUCCESS, st\<lparr>ks_edks := edks, ks_trace := trace\<rparr>))))"

text \<open>The loop over the encrypted data keys: the buffer of the data key and whether one of them could be decrypted.\<close>

fun try_edks :: "aws_lib \<Rightarrow> openssl \<Rightarrow> raw_aes_keyring \<Rightarrow> bytes \<Rightarrow> nat \<Rightarrow> byte_buf \<Rightarrow> edk list \<Rightarrow> bool \<times> byte_buf" where
  "try_edks L S self aad dk_size key [] = (False, key)"
| "try_edks L S self aad dk_size key (edk # edks) =
     (if buf_len (provider_id edk) = 0 \<or> buf_len (provider_info edk) = 0 \<or> buf_len (ciphertext edk) = 0
      then try_edks L S self aad dk_size key edks
      else if ra_key_namespace self \<noteq> buf_contents (provider_id edk) then try_edks L S self aad dk_size key edks
      else case aws_cryptosdk_parse_provider_info L self (provider_info edk) of
             None \<Rightarrow> try_edks L S self aad dk_size key edks
           | Some iv \<Rightarrow>
               if dk_size + RAW_AES_KR_TAG_LEN \<noteq> buf_len (ciphertext edk)
               then try_edks L S self aad dk_size key edks
               else (case aws_cryptosdk_aes_gcm_decrypt L S key (take dk_size (buf_mem (ciphertext edk)))
                            (take RAW_AES_KR_TAG_LEN (drop dk_size (buf_mem (ciphertext edk)))) iv aad (ra_raw_key self) of
                       (Some _, key) \<Rightarrow> try_edks L S self aad dk_size key edks
                     | (None, key) \<Rightarrow> (True, key)))"

definition raw_aes_keyring_on_decrypt :: "env \<Rightarrow> raw_aes_keyring \<Rightarrow> on_decrypt_fn" where
  "raw_aes_keyring_on_decrypt V self key trace edks enc_ctx alg =
     (let L = env_lib V;
          data_key_len = data_key_len (the (aws_cryptosdk_alg_props alg))
      in case serialize_aad_init L enc_ctx of
           Inl e \<Rightarrow> (AWS_OP_ERR e, key, trace)
         | Inr aad \<Rightarrow>
             (case lib_buf_init L data_key_len of
                None \<Rightarrow> (AWS_OP_ERR AWS_ERROR_OOM, key, trace)
              | Some b \<Rightarrow>
                  (case try_edks L (env_ssl V) self (buf_contents aad) data_key_len b edks of
                     (False, _) \<Rightarrow> (AWS_OP_SUCCESS, None, trace)
                   | (True, b) \<Rightarrow>
                       (case aws_cryptosdk_keyring_trace_add_record L trace (ra_key_namespace self) (ra_key_name self)
                               (AWS_CRYPTOSDK_WRAPPING_KEY_DECRYPTED_DATA_KEY OR AWS_CRYPTOSDK_WRAPPING_KEY_VERIFIED_ENC_CTX) of
                          (_, trace) \<Rightarrow> (AWS_OP_SUCCESS, Some \<lparr>kb_addr = 0, kb_buf = b\<rparr>, trace)))))"

definition raw_aes_keyring_vt :: "env \<Rightarrow> raw_aes_keyring \<Rightarrow> keyring" where
  "raw_aes_keyring_vt V self =
     \<lparr>kr_on_encrypt = Some (raw_aes_keyring_on_encrypt V self), kr_on_decrypt = Some (raw_aes_keyring_on_decrypt V self)\<rparr>"

abbreviation SIZEOF_raw_aes_keyring :: nat where
  "SIZEOF_raw_aes_keyring \<equiv> 48"

definition disallowed :: bytes where
  "disallowed = c_bytes ''aws-kms''"

definition aws_cryptosdk_raw_aes_keyring_new ::
  "aws_lib \<Rightarrow> bytes \<Rightarrow> bytes \<Rightarrow> bytes \<Rightarrow> nat \<Rightarrow> raw_aes_keyring result" where
  "aws_cryptosdk_raw_aes_keyring_new L key_namespace key_name raw_key_bytes key_len =
     (if disallowed = key_namespace then Inl AWS_CRYPTOSDK_ERR_RESERVED_NAME
      else if \<not> lib_acquire L SIZEOF_raw_aes_keyring then Inl AWS_ERROR_OOM
      else bindE (orE (aws_cryptosdk_string_dup L key_name) AWS_ERROR_OOM) (\<lambda>name.
           bindE (orE (aws_cryptosdk_string_dup L key_namespace) AWS_ERROR_OOM) (\<lambda>ns.
           bindE (orE (aws_string_new_from_array L (take key_len raw_key_bytes)) AWS_ERROR_OOM) (\<lambda>raw_key.
           Inr \<lparr>ra_key_namespace = ns, ra_key_name = name, ra_raw_key = raw_key\<rparr>))))"

section \<open>Lemmas\<close>

lemma enc_ctx_bytes_cong:
  assumes "hash_valid t" "hash_valid t'" "map_of t = map_of t'"
  shows "enc_ctx_bytes t = enc_ctx_bytes t'"
proof -
  have s: "set t = set t'"
    using assms map_of_inject_set [of t t'] by (simp add: hash_valid_def)
  then have m: "mset t = mset t'"
    using assms by (auto simp: hash_valid_def distinct_map set_eq_iff_mset_eq_distinct [symmetric])
  have "sort_key fst t = sort_key fst t'"
    using assms(1) m by (intro sort_key_inj_key_eq) (auto simp: hash_valid_def distinct_map s)
  then show ?thesis using m by (auto simp: enc_ctx_bytes_def dest: mset_eq_length)
qed

text \<open>The provider information of an encrypted data key.\<close>

definition raw_aes_info :: "bytes \<Rightarrow> bytes \<Rightarrow> bytes" where
  "raw_aes_info key_name iv = key_name @ be_bytes 4 (128 :: 32 word) @ be_bytes 4 (12 :: 32 word) @ iv"

text \<open>
  What it means for an encrypted data key to hold a data key: the AES-GCM ciphertext and tag under the key of the keyring,
  with the serialized encryption context as associated data.
\<close>

definition raw_aes_holds ::
  "(gcm_id \<Rightarrow> nat \<Rightarrow> byte) \<Rightarrow> (gcm_id \<Rightarrow> bytes \<Rightarrow> bytes \<Rightarrow> bytes) \<Rightarrow> raw_aes_keyring \<Rightarrow> bytes \<Rightarrow> bytes \<Rightarrow> bytes \<Rightarrow> edk \<Rightarrow> bool" where
  "raw_aes_holds ks tg self aad iv key e \<longleftrightarrow>
     (let g = raw_gcm (ra_raw_key self) iv; ct = ctr_xor (ks g) 0 key
      in buf_contents (provider_id e) = ra_key_namespace self \<and>
         buf_contents (provider_info e) = raw_aes_info (ra_key_name self) iv \<and>
         buf_contents (ciphertext e) = ct @ tg g aad ct \<and> aws_cryptosdk_edk_is_valid e)"

lemma length_contents': "buf_valid b \<Longrightarrow> length (buf_contents b) = buf_len b"
  by (simp add: buf_contents_def buf_valid_def)

lemma raw_aes_holds_lengths:
  assumes "raw_aes_holds ks tg self aad iv key e" "length iv = 12" "\<And>g a c. length (tg g a c) = 16"
  shows "buf_len (provider_id e) = length (ra_key_namespace self)"
    "buf_len (provider_info e) = length (ra_key_name self) + 20" "buf_len (ciphertext e) = length key + 16"
  using assms length_contents' [of "provider_id e"] length_contents' [of "provider_info e"] length_contents' [of "ciphertext e"]
  by (simp_all add: raw_aes_holds_def Let_def aws_cryptosdk_edk_is_valid_def raw_aes_info_def)

lemma raw_aes_holds_cong:
  assumes "raw_aes_holds ks tg self aad iv key e" "aws_cryptosdk_edk_eq e e'" "aws_cryptosdk_edk_is_valid e'"
  shows "raw_aes_holds ks tg self aad iv key e'"
  using assms by (simp add: raw_aes_holds_def aws_cryptosdk_edk_eq_def Let_def)

context aws_c_common_mem
begin

lemma buf_init_ok: "\<exists>b. lib_buf_init L n = Some b \<and> buf_capacity b = n \<and> buf_len b = 0 \<and> buf_owned b"
  using buf_init_SomeE [of n] acquire_ok by metis

lemma serialize_aad_init_eq:
  assumes "hash_valid t" "enc_ctx_fits t"
  shows "\<exists>aad. serialize_aad_init L t = Inr aad \<and> buf_contents aad = enc_ctx_bytes t"
proof -
  obtain b where b: "lib_buf_init L (length (enc_ctx_bytes t)) = Some b" "buf_capacity b = length (enc_ctx_bytes t)" "buf_len b = 0"
    using buf_init_ok by blast
  then have "fits b (length (enc_ctx_bytes t))" "buf_valid b" "buf_contents b = []"
    by (simp_all add: fits_def buf_valid_def buf_contents_def)
  then show ?thesis
    using b enc_ctx_serialize_eq [OF assms(1) _ assms(2), of b] assms(2) enc_ctx_size_Inr [of t "length (enc_ctx_bytes t)"]
    by (simp add: serialize_aad_init_def orE_def)
qed

lemma provider_info_eq:
  assumes "length iv = RAW_AES_KR_IV_LEN"
  shows "\<exists>b. aws_cryptosdk_serialize_provider_info_init L key_name iv = Inr b \<and> buf_valid b \<and>
    buf_contents b = raw_aes_info key_name iv"
proof -
  obtain b where b: "lib_buf_init L (20 + length key_name) = Some b" "buf_capacity b = 20 + length key_name" "buf_len b = 0"
    using buf_init_ok by blast
  have f: "fits b n" if "n \<le> length key_name + 20" for n using b that by (simp add: fits_def)
  have v: "buf_valid b" "buf_contents b = []" using b by (simp_all add: buf_valid_def buf_contents_def)
  show ?thesis
    using assms f v
    by (simp add: aws_cryptosdk_serialize_provider_info_init_def b(1) orE_def buf_write write_be32 written_written
        raw_aes_info_def word_of_nat_eq_0_iff)
qed

end

context aws_c_common
begin

lemma parse_provider_info_eq:
  assumes "buf_contents b = raw_aes_info (ra_key_name self) iv" "length iv = RAW_AES_KR_IV_LEN" "buf_valid b"
  shows "aws_cryptosdk_parse_provider_info L self b = Some iv"
proof -
  let ?c = "cursor_of (buf_contents b)" and ?n = "length (ra_key_name self)"
  have len: "buf_len b = ?n + 20" using assms length_contents' [of b] by (simp add: raw_aes_info_def)
  have 1: "lib_advance L ?c ?n = Some (\<lparr>cur_ptr = 0, cur_data = ra_key_name self\<rparr>, advanced ?c ?n)"
    using advance_append [of ?c "ra_key_name self"] assms(1) by (simp add: cursor_of_def raw_aes_info_def)
  have 2: "lib_read_be32 L (advanced ?c ?n) = Some (128, advanced ?c (?n + 4))"
    using read_be32_append [of "advanced ?c ?n" 128] assms(1) by (simp add: cursor_of_def raw_aes_info_def)
  have 3: "lib_read_be32 L (advanced ?c (?n + 4)) = Some (12, advanced ?c (?n + 4 + 4))"
    using read_be32_append [of "advanced ?c (?n + 4)" 12] assms(1) by (simp add: cursor_of_def raw_aes_info_def)
  have 4: "cur_data (advanced ?c (?n + 4 + 4)) = iv" using assms(1) by (simp add: cursor_of_def raw_aes_info_def)
  show ?thesis using 4 by (simp add: aws_cryptosdk_parse_provider_info_def len 1 2 3)
qed

end

text \<open>Wrapping and unwrapping, with a working library.\<close>

context aws_c_common_mem
begin

lemma encrypt_data_key_with_iv_spec:
  assumes S: "gcm_spec S ks tg" "gcm_ok S" and key: "length (ra_raw_key self) \<in> {16, 24, 32}" and iv: "length iv = 12"
    and p: "aws_cryptosdk_alg_props alg = Some p" "length (dk_contents k) = data_key_len p"
    and t: "hash_valid t" "enc_ctx_fits t"
  shows "\<exists>e. aws_cryptosdk_raw_aes_keyring_encrypt_data_key_with_iv L S self k edks t alg iv = (None, edks @ [e]) \<and>
    raw_aes_holds ks tg self (enc_ctx_bytes t) iv (dk_contents k) e"
proof -
  let ?n = "data_key_len p" and ?g = "raw_gcm (ra_raw_key self) iv" and ?aad = "enc_ctx_bytes t"
  let ?ct = "ctr_xor (ks ?g) 0 (dk_contents k)"
  have n: "?n \<le> INT_MAX" using alg_props_fields(5) [OF p(1)] by auto
  have a: "length ?aad \<le> INT_MAX" using t(2) by (simp add: enc_ctx_fits_def)
  have tl: "length (tg ?g ?aad ?ct) = 16" by (rule gcm_tag_length [OF S(1)])
  obtain aad where aad: "serialize_aad_init L t = Inr aad" "buf_contents aad = ?aad" using serialize_aad_init_eq [OF t] by blast
  obtain c where c: "lib_buf_init L (?n + 16) = Some c" "buf_capacity c = ?n + 16" using buf_init_ok by blast
  obtain info where info: "aws_cryptosdk_serialize_provider_info_init L (ra_key_name self) iv = Inr info" "buf_valid info"
      "buf_contents info = raw_aes_info (ra_key_name self) iv"
    using provider_info_eq [OF iv] by blast
  obtain b where b: "lib_buf_init L (length (ra_key_namespace self)) = Some b" "buf_capacity b = length (ra_key_namespace self)"
      "buf_len b = 0" using buf_init_ok by blast
  let ?b = "written b (ra_key_namespace self)"
  have f: "fits b (length (ra_key_namespace self))" "buf_valid b" "buf_contents b = []"
    using b by (simp_all add: fits_def buf_valid_def buf_contents_def)
  let ?e = "buf_from_array (take ?n (buf_mem c))" and ?t = "buf_from_array (drop ?n (buf_mem c))"
  have "aws_cryptosdk_aes_gcm_encrypt L S ?e ?t (dk_contents k) iv ?aad (ra_raw_key self) =
      (None, ?e\<lparr>buf_mem := ?ct, buf_len := ?n\<rparr>, ?t\<lparr>buf_mem := tg ?g ?aad ?ct, buf_len := 16\<rparr>)"
    using aes_gcm_encrypt_spec [OF S key iv _ _ _ a, of "dk_contents k" ?e ?t] p(2) n c(2) tl
    by (simp add: buf_from_array_def splice_def)
  then have "aws_cryptosdk_raw_aes_keyring_encrypt_data_key_with_iv L S self k edks t alg iv = (None, edks @
      [\<lparr>provider_id = ?b, provider_info = info, ciphertext = c\<lparr>buf_mem := ?ct @ tg ?g ?aad ?ct, buf_len := ?n + 16\<rparr>\<rparr>])"
    using f by (simp add: aws_cryptosdk_raw_aes_keyring_encrypt_data_key_with_iv_def p(1) aad c info b(1) buf_write push_back_ok)
  then show ?thesis
    using info f p(2) tl
    by (simp add: raw_aes_holds_def Let_def aws_cryptosdk_edk_is_valid_def) (simp add: buf_contents_def buf_valid_def)
qed

end

context aws_c_common
begin

lemma try_edks_hit:
  assumes S: "gcm_spec S ks tg" "gcm_ok S" and key: "length (ra_raw_key self) \<in> {16, 24, 32}" "ra_key_namespace self \<noteq> []"
    and e: "raw_aes_holds ks tg self aad iv k e" "length iv = 12"
    and b: "buf_capacity b = length k" and len: "length k \<le> INT_MAX" "length aad \<le> INT_MAX"
  shows "try_edks L S self aad (length k) b (e # es) = (True, b\<lparr>buf_mem := k, buf_len := length k\<rparr>)"
proof -
  let ?g = "raw_gcm (ra_raw_key self) iv"
  let ?ct = "ctr_xor (ks ?g) 0 k"
  have tl: "length (tg ?g aad ?ct) = 16" by (rule gcm_tag_length [OF S(1)])
  note l = raw_aes_holds_lengths [OF e gcm_tag_length [OF S(1)]]
  have h: "buf_contents (provider_id e) = ra_key_namespace self" "buf_contents (provider_info e) = raw_aes_info (ra_key_name self) iv"
      "buf_contents (ciphertext e) = ?ct @ tg ?g aad ?ct" "buf_valid (provider_info e)"
    using e(1) by (simp_all add: raw_aes_holds_def Let_def aws_cryptosdk_edk_is_valid_def)
  have c: "take (length k + 16) (buf_mem (ciphertext e)) = ?ct @ tg ?g aad ?ct" using h(3) l(3) by (simp add: buf_contents_def)
  have "take (length k) (buf_mem (ciphertext e)) = take (length k) (take (length k + 16) (buf_mem (ciphertext e)))" by simp
  then have c1: "take (length k) (buf_mem (ciphertext e)) = ?ct" unfolding c by simp
  have "take 16 (drop (length k) (buf_mem (ciphertext e))) = drop (length k) (take (length k + 16) (buf_mem (ciphertext e)))"
    by (simp add: drop_take)
  then have c2: "take 16 (drop (length k) (buf_mem (ciphertext e))) = tg ?g aad ?ct" unfolding c by simp
  have "aws_cryptosdk_aes_gcm_decrypt L S b ?ct (tg ?g aad ?ct) iv aad (ra_raw_key self) =
      (None, b\<lparr>buf_mem := k, buf_len := length k\<rparr>)"
    using aes_gcm_decrypt_spec [OF S key(1) e(2) tl, of ?ct b aad] b len by (simp add: splice_def)
  then show ?thesis
    using key(2) l parse_provider_info_eq [OF h(2) e(2) h(4)] by (simp add: h(1) c1 c2)
qed

end

context aws_c_common
begin

lemma parse_provider_info_Some:
  assumes "aws_cryptosdk_parse_provider_info L self b = Some iv" "buf_valid b"
  shows "buf_contents b = raw_aes_info (ra_key_name self) iv \<and> length iv = 12"
proof -
  let ?n = "length (ra_key_name self)" and ?c = "buf_contents b"
  have l: "length ?c = ?n + 20" "take ?n ?c = ra_key_name self" "be_val (take 4 (drop ?n ?c)) = (128 :: 32 word)"
      "be_val (take 4 (drop (?n + 4) ?c)) = (12 :: 32 word)" "iv = drop (?n + 8) ?c"
    using assms length_contents' [OF assms(2)]
    by (auto simp: aws_cryptosdk_parse_provider_info_def Let_def cursor_of_def advance read_be32 add.commute
        split: if_splits option.splits)
  have "drop ?n ?c = take 4 (drop ?n ?c) @ drop (?n + 4) ?c" "drop (?n + 4) ?c = take 4 (drop (?n + 4) ?c) @ drop (?n + 8) ?c"
    using append_take_drop_id [of 4 "drop ?n ?c"] append_take_drop_id [of 4 "drop (?n + 4) ?c"] by (simp_all add: add.commute)
  then have "?c = take ?n ?c @ take 4 (drop ?n ?c) @ take 4 (drop (?n + 4) ?c) @ drop (?n + 8) ?c"
    using append_take_drop_id [of ?n ?c] by (simp only:)
  moreover have "take 4 (drop ?n ?c) = be_bytes 4 (128 :: 32 word)" "take 4 (drop (?n + 4) ?c) = be_bytes 4 (12 :: 32 word)"
    using be_bytes_32_val [of "take 4 (drop ?n ?c)"] be_bytes_32_val [of "take 4 (drop (?n + 4) ?c)"] l by simp_all
  ultimately show ?thesis using l by (simp add: raw_aes_info_def)
qed

lemma holds_of_tag:
  assumes "aws_cryptosdk_parse_provider_info L self (provider_info e) = Some iv" "aws_cryptosdk_edk_is_valid e"
    and "ra_key_namespace self = buf_contents (provider_id e)" "n + 16 = buf_len (ciphertext e)"
    and t: "take 16 (drop n (buf_mem (ciphertext e))) = tg (raw_gcm (ra_raw_key self) iv) aad (take n (buf_mem (ciphertext e)))"
  shows "raw_aes_holds ks tg self aad iv (ctr_xor (ks (raw_gcm (ra_raw_key self) iv)) 0 (take n (buf_mem (ciphertext e)))) e"
proof -
  have "buf_contents (ciphertext e) = take n (buf_mem (ciphertext e)) @ take 16 (drop n (buf_mem (ciphertext e)))"
    using assms(4) by (simp add: buf_contents_def take_add flip: assms(4))
  then show ?thesis
    using assms parse_provider_info_Some [OF assms(1)] by (simp add: raw_aes_holds_def Let_def aws_cryptosdk_edk_is_valid_def)
qed

text \<open>One step of the loop: the first encrypted data key holds a data key, which is the result, or the loop goes on.\<close>

lemma try_edks_step:
  assumes S: "gcm_spec S ks tg" "gcm_ok S" and key: "length (ra_raw_key self) \<in> {16, 24, 32}"
    and b: "buf_capacity b = n" "n \<le> INT_MAX" "length aad \<le> INT_MAX" and e: "aws_cryptosdk_edk_is_valid e"
  shows "(\<exists>iv k. raw_aes_holds ks tg self aad iv k e \<and> length k = n \<and>
            (\<forall>es. try_edks L S self aad n b (e # es) = (True, b\<lparr>buf_mem := k, buf_len := n\<rparr>))) \<or>
         (\<exists>b1. buf_capacity b1 = n \<and> (\<forall>es. try_edks L S self aad n b (e # es) = try_edks L S self aad n b1 es))"
proof (cases "\<exists>iv. buf_len (provider_id e) \<noteq> 0 \<and> buf_len (provider_info e) \<noteq> 0 \<and> buf_len (ciphertext e) \<noteq> 0 \<and>
      ra_key_namespace self = buf_contents (provider_id e) \<and>
      aws_cryptosdk_parse_provider_info L self (provider_info e) = Some iv \<and> n + 16 = buf_len (ciphertext e)")
  case True
  let ?ct = "take n (buf_mem (ciphertext e))" and ?t = "take 16 (drop n (buf_mem (ciphertext e)))"
  from True obtain iv where c: "ra_key_namespace self = buf_contents (provider_id e)" "buf_len (ciphertext e) \<noteq> 0"
      "buf_len (provider_id e) \<noteq> 0" "buf_len (provider_info e) \<noteq> 0"
      "aws_cryptosdk_parse_provider_info L self (provider_info e) = Some iv" "n + 16 = buf_len (ciphertext e)" by blast
  have v: "buf_valid (provider_info e)" "n + 16 \<le> buf_capacity (ciphertext e)"
    using e c(6) by (simp_all add: aws_cryptosdk_edk_is_valid_def buf_valid_def)
  have iv: "length iv = 12" using parse_provider_info_Some [OF c(5) v(1)] by simp
  have l: "length ?ct = n" "length ?t = 16" using v(2) by simp_all
  have m: "length ?ct \<le> buf_capacity b" "length ?ct \<le> INT_MAX" using l b by simp_all
  let ?g = "raw_gcm (ra_raw_key self) iv"
  have sp: "splice (buf_mem b) 0 (ctr_xor (ks ?g) 0 ?ct) = ctr_xor (ks ?g) 0 ?ct" using l b by (simp add: splice_def)
  have d: "aws_cryptosdk_aes_gcm_decrypt L S b ?ct ?t iv aad (ra_raw_key self) =
      (if ?t = tg ?g aad ?ct then (None, b\<lparr>buf_mem := ctr_xor (ks ?g) 0 ?ct, buf_len := n\<rparr>)
       else (Some AWS_CRYPTOSDK_ERR_BAD_CIPHERTEXT, zeroed b))"
    using aes_gcm_decrypt_spec [OF S key iv l(2) m b(3)] by (simp only: l sp)
  show ?thesis
  proof (cases "?t = tg ?g aad ?ct")
    case True
    then have "aws_cryptosdk_aes_gcm_decrypt L S b ?ct ?t iv aad (ra_raw_key self) =
        (None, b\<lparr>buf_mem := ctr_xor (ks ?g) 0 ?ct, buf_len := n\<rparr>)" using d by (simp only: if_True simp_thms)
    then have "try_edks L S self aad n b (e # es) = (True, b\<lparr>buf_mem := ctr_xor (ks ?g) 0 ?ct, buf_len := n\<rparr>)" for es using c by simp
    then show ?thesis
      using holds_of_tag [where tg = tg and aad = aad and ks = ks, OF c(5) e c(1,6) True] l(1)
      by (intro disjI1 exI [of _ iv] exI [of _ "ctr_xor (ks ?g) 0 ?ct"]) simp
  next
    case False
    then have "try_edks L S self aad n b (e # es) = try_edks L S self aad n (zeroed b) es" for es using c by (simp add: d)
    moreover have "buf_capacity (zeroed b) = n" using b(1) by (simp add: zeroed_def)
    ultimately show ?thesis by blast
  qed
next
  case False
  then have "try_edks L S self aad n b (e # es) = try_edks L S self aad n b es" for es by (auto split: option.splits)
  then show ?thesis using b(1) by blast
qed

lemma try_edks_True:
  assumes S: "gcm_spec S ks tg" "gcm_ok S" and key: "length (ra_raw_key self) \<in> {16, 24, 32}"
    and b: "buf_capacity b = n" "n \<le> INT_MAX" "length aad \<le> INT_MAX"
    and es: "list_all aws_cryptosdk_edk_is_valid es"
    and r: "try_edks L S self aad n b es = (True, b')"
  shows "\<exists>e \<in> set es. \<exists>iv. raw_aes_holds ks tg self aad iv (buf_contents b') e \<and> buf_len b' = n \<and> length (buf_contents b') = n"
  using b(1) es r
proof (induction es arbitrary: b)
  case (Cons e es)
  have e: "aws_cryptosdk_edk_is_valid e" using Cons.prems(2) by simp
  from try_edks_step [OF S key Cons.prems(1) b(2,3) e] show ?case
  proof (elim disjE exE conjE)
    fix iv k
    assume k: "raw_aes_holds ks tg self aad iv k e" "length k = n"
      "\<forall>es. try_edks L S self aad n b (e # es) = (True, b\<lparr>buf_mem := k, buf_len := n\<rparr>)"
    then have "b' = b\<lparr>buf_mem := k, buf_len := n\<rparr>" using Cons.prems(3) by (simp del: try_edks.simps)
    then show ?case using k by (auto simp: buf_contents_def)
  next
    fix b1
    assume "buf_capacity b1 = n" "\<forall>es. try_edks L S self aad n b (e # es) = try_edks L S self aad n b1 es"
    then show ?case using Cons.IH [of b1] Cons.prems by (auto simp del: try_edks.simps)
  qed
qed simp

lemma try_edks_first:
  assumes S: "gcm_spec S ks tg" "gcm_ok S" and key: "length (ra_raw_key self) \<in> {16, 24, 32}" "ra_key_namespace self \<noteq> []"
    and b: "buf_capacity b = n" "n \<le> INT_MAX" "length aad \<le> INT_MAX"
    and e: "raw_aes_holds ks tg self aad iv k e" "length iv = 12" "length k = n"
    and pre: "list_all aws_cryptosdk_edk_is_valid pre"
      "\<forall>x \<in> set pre. \<forall>iv k'. raw_aes_holds ks tg self aad iv k' x \<and> length k' = n \<longrightarrow> k' = k"
  shows "\<exists>b'. try_edks L S self aad n b (pre @ e # es) = (True, b') \<and> buf_contents b' = k \<and> buf_len b' = length k"
  using b(1) pre
proof (induction pre arbitrary: b)
  case Nil
  have "length k \<le> INT_MAX" using e(3) b(2) by simp
  from try_edks_hit [OF S key e(1,2) _ this b(3), of b es] Nil(1) e(3) show ?case
    by (auto simp: buf_contents_def simp del: try_edks.simps)
next
  case (Cons x xs)
  have x: "aws_cryptosdk_edk_is_valid x" using Cons.prems(2) by simp
  from try_edks_step [OF S key(1) Cons.prems(1) b(2,3) x] show ?case
  proof (elim disjE exE conjE)
    fix iv k'
    assume h: "raw_aes_holds ks tg self aad iv k' x" "length k' = n"
      "\<forall>es. try_edks L S self aad n b (x # es) = (True, b\<lparr>buf_mem := k', buf_len := n\<rparr>)"
    then have "k' = k" using Cons.prems(3) by simp
    then show ?case using h by (simp add: buf_contents_def del: try_edks.simps)
  next
    fix b1
    assume "buf_capacity b1 = n" "\<forall>es. try_edks L S self aad n b (x # es) = try_edks L S self aad n b1 es"
    moreover have "list_all aws_cryptosdk_edk_is_valid xs" using Cons.prems(2) by simp
    ultimately show ?case using Cons.IH [of b1] Cons.prems(3) by (simp del: try_edks.simps)
  qed
qed

end

text \<open>A raw AES keyring on working libraries, with a wrapping key of one of the lengths of AES.\<close>

locale raw_aes_env = aws_c_common_mem "env_lib V" for V :: env +
  fixes ks :: "gcm_id \<Rightarrow> nat \<Rightarrow> byte" and tg :: "gcm_id \<Rightarrow> bytes \<Rightarrow> bytes \<Rightarrow> bytes" and self :: raw_aes_keyring
  assumes gcm: "gcm_spec (env_ssl V) ks tg" "gcm_ok (env_ssl V)"
    and rand: "rand_spec (env_rand V)"
    and raw_key: "length (ra_raw_key self) \<in> {16, 24, 32}"
begin

lemma add_record_ok:
  "aws_cryptosdk_keyring_trace_add_record (env_lib V) tr ns n fl =
     (None, tr @ [\<lparr>wrapping_key_namespace = ns, wrapping_key_name = n, trace_flags = fl\<rparr>])"
  by (simp add: aws_cryptosdk_keyring_trace_add_record_def record_init_from_strings_def record_init_check_def
      aws_cryptosdk_string_dup_def string_new_ok push_record_onto_trace_def push_back_ok)

text \<open>Encryption: a new data key, if there is none, and one more encrypted data key that holds it.\<close>

lemma on_encrypt_result:
  assumes p: "aws_cryptosdk_alg_props alg = Some p" and t: "hash_valid t" "enc_ctx_fits t"
    and k: "ks_key st = None \<or> length (dk_contents (ks_key st)) = data_key_len p"
    and r: "raw_aes_keyring_on_encrypt V self st t alg = (None, st')"
  shows "\<exists>e iv. ks_edks st' = ks_edks st @ [e] \<and> length iv = 12 \<and>
      raw_aes_holds ks tg self (enc_ctx_bytes t) iv (dk_contents (ks_key st')) e \<and>
      ks_key st' \<noteq> None \<and> length (dk_contents (ks_key st')) = data_key_len p \<and>
      (ks_key st = None \<longrightarrow> dk_len (ks_key st') = data_key_len p) \<and> (ks_key st \<noteq> None \<longrightarrow> ks_key st' = ks_key st) \<and>
      ks_trace st' = ks_trace st @ [\<lparr>wrapping_key_namespace = ra_key_namespace self, wrapping_key_name = ra_key_name self,
        trace_flags = (if ks_key st = None then 11 else 10)\<rparr>]"
proof -
  obtain iv where iv: "aws_cryptosdk_genrandom (env_rand V) (ks_draws st) (replicate 12 0) = (None, iv)"
    using r by (auto simp: raw_aes_keyring_on_encrypt_def Let_def split: prod.splits option.splits)
  have livi: "length iv = 12" using genrandom_result [OF rand iv] by simp
  let ?st = "st\<lparr>ks_draws := Suc (ks_draws st)\<rparr>"
  obtain st1 where st1: "(if ks_key st = None then generate_data_key V ?st (data_key_len p) else Inr ?st) = Inr st1"
    using r by (cases "if ks_key st = None then generate_data_key V ?st (data_key_len p) else Inr ?st")
      (auto simp: raw_aes_keyring_on_encrypt_def iv p Let_def)
  have s1: "ks_key st1 \<noteq> None" "length (dk_contents (ks_key st1)) = data_key_len p" "ks_edks st1 = ks_edks st" "ks_trace st1 = ks_trace st"
      "ks_key st \<noteq> None \<Longrightarrow> ks_key st1 = ks_key st" "ks_key st = None \<Longrightarrow> dk_len (ks_key st1) = data_key_len p"
    using st1 k buf_init genrandom_result [OF rand]
    by (auto simp: generate_data_key_def dk_contents_def dk_len_def buf_contents_def split: if_splits option.splits prod.splits)
  from encrypt_data_key_with_iv_spec [OF gcm raw_key livi p s1(2) t, of "ks_edks st"] obtain e where
    e: "aws_cryptosdk_raw_aes_keyring_encrypt_data_key_with_iv (env_lib V) (env_ssl V) self (ks_key st1) (ks_edks st) t alg iv =
          (None, ks_edks st @ [e])" "raw_aes_holds ks tg self (enc_ctx_bytes t) iv (dk_contents (ks_key st1)) e" by blast
  have "ks_edks st' = ks_edks st @ [e] \<and> ks_key st' = ks_key st1 \<and>
      ks_trace st' = ks_trace st @ [\<lparr>wrapping_key_namespace = ra_key_namespace self, wrapping_key_name = ra_key_name self,
        trace_flags = (if ks_key st = None then 11 else 10)\<rparr>]"
    using r st1 e(1) s1 by (auto simp: raw_aes_keyring_on_encrypt_def iv p add_record_ok Let_def)
  then show ?thesis using e s1 livi by auto
qed

text \<open>With a working source of random numbers, wrapping succeeds.\<close>

lemma on_encrypt_succeeds:
  assumes R: "\<And>i n. env_rand V i n \<noteq> None" and p: "aws_cryptosdk_alg_props alg = Some p"
    and t: "hash_valid t" "enc_ctx_fits t" and k: "ks_key st = None \<or> length (dk_contents (ks_key st)) = data_key_len p"
  shows "\<exists>st'. raw_aes_keyring_on_encrypt V self st t alg = (None, st')"
proof -
  let ?st = "st\<lparr>ks_draws := Suc (ks_draws st)\<rparr>"
  have r: "\<exists>bs. aws_cryptosdk_genrandom (env_rand V) i buf = (None, bs)" for i buf
    using R [of i "length buf"] by (auto simp: aws_cryptosdk_genrandom_def)
  obtain iv where iv: "aws_cryptosdk_genrandom (env_rand V) (ks_draws st) (replicate 12 0) = (None, iv)" using r by blast
  have liv: "length iv = 12" using genrandom_result [OF rand iv] by simp
  obtain b where b: "lib_buf_init (env_lib V) (data_key_len p) = Some b" "buf_capacity b = data_key_len p" using buf_init_ok by blast
  obtain bs where bs: "aws_cryptosdk_genrandom (env_rand V) (Suc (ks_draws st)) (buf_mem b) = (None, bs)" using r by blast
  obtain st1 where st1: "(if ks_key st = None then generate_data_key V ?st (data_key_len p) else Inr ?st) = Inr st1"
      "length (dk_contents (ks_key st1)) = data_key_len p"
    using genrandom_result [OF rand bs] b(2) k
    by (cases "ks_key st = None") (auto simp: generate_data_key_def b(1) bs dk_contents_def buf_contents_def)
  from encrypt_data_key_with_iv_spec [OF gcm raw_key liv p st1(2) t, of "ks_edks st1"] show ?thesis
    using st1(1) by (auto simp: raw_aes_keyring_on_encrypt_def iv p add_record_ok)
qed

end

text \<open>
  The same with a namespace that is not empty. The constructor accepts an empty one, but decryption skips every encrypted data key without a provider id, so
  that such a keyring wraps keys that it never unwraps (\<open>raw_aes_empty_namespace\<close> below).
\<close>

locale named_aes_env = raw_aes_env +
  assumes namespace: "ra_key_namespace self \<noteq> []"
begin

text \<open>Decryption finds the data key if an encrypted data key of the list holds it, and no earlier one holds another.\<close>

lemma on_decrypt_result:
  assumes p: "aws_cryptosdk_alg_props alg = Some p" and t: "hash_valid t" "enc_ctx_fits t"
    and e: "raw_aes_holds ks tg self (enc_ctx_bytes t) iv k e" "length iv = 12" "length k = data_key_len p"
    and pre: "list_all aws_cryptosdk_edk_is_valid pre"
      "\<forall>x \<in> set pre. \<forall>iv k'. raw_aes_holds ks tg self (enc_ctx_bytes t) iv k' x \<and> length k' = data_key_len p \<longrightarrow> k' = k"
  shows "\<exists>b. raw_aes_keyring_on_decrypt V self None tr (pre @ e # es) t alg = (None, Some b,
      tr @ [\<lparr>wrapping_key_namespace = ra_key_namespace self, wrapping_key_name = ra_key_name self, trace_flags = 20\<rparr>]) \<and>
    dk_contents (Some b) = k \<and> dk_len (Some b) = length k"
proof -
  obtain aad where aad: "serialize_aad_init (env_lib V) t = Inr aad" "buf_contents aad = enc_ctx_bytes t"
    using serialize_aad_init_eq [OF t] by blast
  obtain b where b: "lib_buf_init (env_lib V) (data_key_len p) = Some b" "buf_capacity b = data_key_len p" using buf_init_ok by blast
  have len: "data_key_len p \<le> INT_MAX" "length (enc_ctx_bytes t) \<le> INT_MAX"
    using alg_props_fields(5) [OF p] t(2) by (auto simp: enc_ctx_fits_def)
  obtain b' where "try_edks (env_lib V) (env_ssl V) self (enc_ctx_bytes t) (data_key_len p) b (pre @ e # es) = (True, b')"
      "buf_contents b' = k" "buf_len b' = length k"
    using try_edks_first [OF gcm raw_key namespace b(2) len e pre, of es] by blast
  then show ?thesis
    by (simp add: raw_aes_keyring_on_decrypt_def aad b p add_record_ok dk_contents_def dk_len_def del: try_edks.simps)
qed

end

lemma fits_cong: "hash_valid t \<Longrightarrow> hash_valid t' \<Longrightarrow> map_of t = map_of t' \<Longrightarrow> enc_ctx_fits t \<Longrightarrow> enc_ctx_fits t'"
  using enc_ctx_bytes_cong [of t t'] by (simp add: enc_ctx_fits_def)

lemma raw_aes_vt_simps:
  "kr_on_encrypt (raw_aes_keyring_vt V self) = Some (raw_aes_keyring_on_encrypt V self)"
  "kr_on_decrypt (raw_aes_keyring_vt V self) = Some (raw_aes_keyring_on_decrypt V self)"
  by (simp_all add: raw_aes_keyring_vt_def)

text \<open>A call through the dispatch that succeeds is a call of the keyring that succeeds.\<close>

lemma on_encrypt_dispatch:
  "aws_cryptosdk_keyring_on_encrypt kr st ctx alg = (None, st') \<Longrightarrow>
     \<exists>f. kr_on_encrypt kr = Some f \<and> f st ctx alg = (None, st')"
  by (auto simp: aws_cryptosdk_keyring_on_encrypt_def Let_def split: option.splits if_splits prod.splits)

sublocale raw_aes_env \<subseteq> child: child_contract "raw_aes_keyring_vt V self"
proof
  fix alg p ctx st st'
  assume a: "aws_cryptosdk_alg_props alg = Some p" "hash_valid ctx" "enc_ctx_fits ctx" "ks_key st \<noteq> None"
    "length (dk_contents (ks_key st)) = data_key_len p"
    "aws_cryptosdk_keyring_on_encrypt (raw_aes_keyring_vt V self) st ctx alg = (None, st')"
  have "raw_aes_keyring_on_encrypt V self st ctx alg = (None, st')"
    using on_encrypt_dispatch [OF a(6)] by (simp add: raw_aes_vt_simps)
  from on_encrypt_result [OF a(1-3) disjI2 [OF a(5)] this] a(4) obtain e iv where e: "ks_edks st' = ks_edks st @ [e]"
      "raw_aes_holds ks tg self (enc_ctx_bytes ctx) iv (dk_contents (ks_key st')) e" "ks_key st' = ks_key st" by blast
  then show "dk_contents (ks_key st') = dk_contents (ks_key st) \<and>
      (\<exists>new. ks_edks st' = ks_edks st @ new \<and> list_all aws_cryptosdk_edk_is_valid new)"
    by (simp add: raw_aes_holds_def Let_def)
qed

sublocale named_aes_env \<subseteq> wraps: keyring_contract "raw_aes_keyring_vt V self"
proof
  fix alg p ctx tr d st
  assume a: "aws_cryptosdk_alg_props alg = Some p" "hash_valid ctx" "enc_ctx_fits ctx"
    "aws_cryptosdk_keyring_on_encrypt (raw_aes_keyring_vt V self) \<lparr>ks_key = None, ks_trace = tr, ks_edks = [], ks_draws = d\<rparr> ctx alg = (None, st)"
  then have "raw_aes_keyring_on_encrypt V self \<lparr>ks_key = None, ks_trace = tr, ks_edks = [], ks_draws = d\<rparr> ctx alg = (None, st)"
    using on_encrypt_dispatch [OF a(4)] by (simp add: raw_aes_vt_simps)
  from on_encrypt_result [OF a(1-3) _ this] obtain e iv where e: "ks_edks st = [e]" "length iv = 12"
      "raw_aes_holds ks tg self (enc_ctx_bytes ctx) iv (dk_contents (ks_key st)) e"
      "ks_key st \<noteq> None" "length (dk_contents (ks_key st)) = data_key_len p" by auto
  then show "ks_key st \<noteq> None \<and> length (dk_contents (ks_key st)) = data_key_len p \<and>
      ks_edks st \<noteq> [] \<and> list_all aws_cryptosdk_edk_is_valid (ks_edks st)"
    by (simp add: raw_aes_holds_def Let_def)
  fix edks others ctx' tr'
  assume b: "list_all2 aws_cryptosdk_edk_eq (ks_edks st) edks" "list_all aws_cryptosdk_edk_is_valid (edks @ others)"
    "hash_valid ctx'" "map_of ctx' = map_of ctx"
  obtain e' where e': "edks = [e']" "aws_cryptosdk_edk_eq e e'" "aws_cryptosdk_edk_is_valid e'"
    using b(1,2) e(1) by (auto simp: list_all2_Cons1)
  have c: "enc_ctx_bytes ctx' = enc_ctx_bytes ctx" by (rule enc_ctx_bytes_cong [OF b(3) a(2) b(4)])
  have "raw_aes_holds ks tg self (enc_ctx_bytes ctx') iv (dk_contents (ks_key st)) e'"
    unfolding c by (rule raw_aes_holds_cong [OF e(3) e'(2,3)])
  from on_decrypt_result [OF a(1) b(3) fits_cong [OF a(2) b(3) b(4) [symmetric] a(3)] this e(2,5), of "[]" tr' others]
  show "\<exists>k tr''. aws_cryptosdk_keyring_on_decrypt (raw_aes_keyring_vt V self) None tr' (edks @ others) ctx' alg = (None, Some k, tr'') \<and>
      dk_contents (Some k) = dk_contents (ks_key st)"
    using e(5) a(1) by (auto simp: e'(1) aws_cryptosdk_keyring_on_decrypt_def raw_aes_vt_simps wrong_key_len_def)
qed

context raw_aes_env
begin

lemma on_decrypt_authentic:
  assumes p: "aws_cryptosdk_alg_props alg = Some p" and ctx: "hash_valid ctx" and e: "list_all aws_cryptosdk_edk_is_valid edks"
    and d: "raw_aes_keyring_on_decrypt V self None tr edks ctx alg = (st, Some k, tr')"
  shows "st = None \<and> length (dk_contents (Some k)) = data_key_len p \<and>
    (\<exists>e \<in> set edks. \<exists>iv. raw_aes_holds ks tg self (enc_ctx_bytes ctx) iv (dk_contents (Some k)) e)"
proof -
  obtain aad where "serialize_aad_init (env_lib V) ctx = Inr aad"
    using d by (cases "serialize_aad_init (env_lib V) ctx") (auto simp: raw_aes_keyring_on_decrypt_def)
  moreover from this have fits: "enc_ctx_fits ctx" using enc_ctx_size_Inr [of ctx]
    by (cases "aws_cryptosdk_enc_ctx_size (env_lib V) ctx") (auto simp: serialize_aad_init_def)
  ultimately have aad: "serialize_aad_init (env_lib V) ctx = Inr aad" "buf_contents aad = enc_ctx_bytes ctx"
    using serialize_aad_init_eq [OF ctx fits] by auto
  obtain b where b: "lib_buf_init (env_lib V) (data_key_len p) = Some b" "buf_capacity b = data_key_len p" using buf_init_ok by blast
  obtain b' where b': "try_edks (env_lib V) (env_ssl V) self (enc_ctx_bytes ctx) (data_key_len p) b edks = (True, b')"
      "st = None" "k = \<lparr>kb_addr = 0, kb_buf = b'\<rparr>"
    using d by (auto simp: raw_aes_keyring_on_decrypt_def aad b p add_record_ok Let_def split: prod.splits bool.splits)
  have len: "data_key_len p \<le> INT_MAX" "length (enc_ctx_bytes ctx) \<le> INT_MAX"
    using alg_props_fields(5) [OF p] fits by (auto simp: enc_ctx_fits_def)
  from try_edks_True [OF gcm raw_key b(2) len e b'(1)] show ?thesis by (auto simp: b' dk_contents_def)
qed

end

section \<open>Properties\<close>

interpretation raw_ref: named_aes_env env_ref ref_ks ref_tag "\<lparr>ra_key_namespace = [1], ra_key_name = [2, 3], ra_raw_key = replicate 32 5\<rparr>"
  by (intro named_aes_env.intro named_aes_env_axioms.intro raw_aes_env.intro raw_aes_env_axioms.intro)
    (simp_all add: ref.aws_c_common_mem_axioms hkdf_ref_gcm rand_ref_spec)

text \<open>
  An empty namespace is accepted by the constructor, but a keyring with one decrypts nothing, not even the encrypted data keys it made.
\<close>

lemma raw_aes_empty_namespace:
  assumes "aws_c_common_mem (env_lib V)"
  shows "(\<exists>self. aws_cryptosdk_raw_aes_keyring_new (env_lib V) [] key_name raw_key n = Inr self \<and> ra_key_namespace self = []) \<and>
    (ra_key_namespace self = [] \<longrightarrow> list_all aws_cryptosdk_edk_is_valid edks \<longrightarrow>
       fst (snd (raw_aes_keyring_on_decrypt V self None tr edks ctx alg)) = None)"
proof -
  have 1: "try_edks L S self aad m b edks = (False, b)" if "ra_key_namespace self = []" "list_all aws_cryptosdk_edk_is_valid edks" for L S aad m b
    using that(2)
  proof (induction edks)
    case (Cons e es)
    then have "buf_len (provider_id e) = 0 \<or> buf_contents (provider_id e) \<noteq> []"
      by (auto simp: aws_cryptosdk_edk_is_valid_def buf_valid_def buf_contents_def)
    then show ?case using Cons that(1) by auto
  qed simp
  have 2: "\<exists>self. aws_cryptosdk_raw_aes_keyring_new (env_lib V) [] key_name raw_key n = Inr self \<and> ra_key_namespace self = []"
    using aws_c_common_mem.acquire_ok [OF assms] aws_c_common_mem.string_new_ok [OF assms]
    by (simp add: aws_cryptosdk_raw_aes_keyring_new_def disallowed_def c_bytes_def aws_cryptosdk_string_dup_def)
  show ?thesis using 1 2 by (auto simp: raw_aes_keyring_on_decrypt_def Let_def split: sum.splits option.splits)
qed

text \<open>
  C35: A raw AES keyring whose namespace is not empty unwraps what it wrapped. Whether it makes a new data key or is given one of the length of the suite, with encrypted data keys of
  other keyrings, a call that succeeds leaves a given key as it is, appends one encrypted data key and one trace record, and from every list of well formed
  encrypted data keys that contains a copy of that one the keyring decrypts the data key under an equal encryption context, unless an earlier one on
  the list holds another data key under the same wrapping key. The namespace matters: with an empty one, which the constructor accepts, the keyring decrypts nothing.
\<close>

theorem raw_aes_wrap_unwrap:
  assumes V: "raw_aes_env V ks tg self" and ns: "ra_key_namespace self \<noteq> []"
    and p: "aws_cryptosdk_alg_props alg = Some p" and ctx: "hash_valid ctx" "enc_ctx_fits ctx"
    and k: "ks_key st = None \<or> length (dk_contents (ks_key st)) = data_key_len p"
    and r: "aws_cryptosdk_keyring_on_encrypt (raw_aes_keyring_vt V self) st ctx alg = (None, st')"
    and c: "hash_valid ctx'" "map_of ctx' = map_of ctx"
  shows "(ks_key st \<noteq> None \<longrightarrow> ks_key st' = ks_key st) \<and>
    ks_key st' \<noteq> None \<and> length (dk_contents (ks_key st')) = data_key_len p \<and>
    ks_trace st' = ks_trace st @ [\<lparr>wrapping_key_namespace = ra_key_namespace self, wrapping_key_name = ra_key_name self,
      trace_flags = (if ks_key st = None then 11 else 10)\<rparr>] \<and>
    (\<exists>e. ks_edks st' = ks_edks st @ [e] \<and>
       (\<forall>pre e' post tr. aws_cryptosdk_edk_eq e e' \<and> list_all aws_cryptosdk_edk_is_valid (pre @ e' # post) \<and>
          (\<forall>x \<in> set pre. \<forall>iv k. raw_aes_holds ks tg self (enc_ctx_bytes ctx) iv k x \<and> length k = data_key_len p \<longrightarrow>
             k = dk_contents (ks_key st')) \<longrightarrow>
          (\<exists>k. aws_cryptosdk_keyring_on_decrypt (raw_aes_keyring_vt V self) None tr (pre @ e' # post) ctx' alg = (None, Some k,
               tr @ [\<lparr>wrapping_key_namespace = ra_key_namespace self, wrapping_key_name = ra_key_name self, trace_flags = 20\<rparr>]) \<and>
             dk_contents (Some k) = dk_contents (ks_key st'))))"
proof -
  have N: "named_aes_env V ks tg self" using V ns by (simp add: named_aes_env_def named_aes_env_axioms_def)
  have "raw_aes_keyring_on_encrypt V self st ctx alg = (None, st')" using on_encrypt_dispatch [OF r] by (simp add: raw_aes_vt_simps)
  from raw_aes_env.on_encrypt_result [OF V p ctx k this] obtain e iv where e: "ks_edks st' = ks_edks st @ [e]" "length iv = 12"
      "raw_aes_holds ks tg self (enc_ctx_bytes ctx) iv (dk_contents (ks_key st')) e" "length (dk_contents (ks_key st')) = data_key_len p"
    and s: "ks_key st' \<noteq> None" "ks_key st \<noteq> None \<longrightarrow> ks_key st' = ks_key st"
      "ks_trace st' = ks_trace st @ [\<lparr>wrapping_key_namespace = ra_key_namespace self, wrapping_key_name = ra_key_name self,
        trace_flags = (if ks_key st = None then 11 else 10)\<rparr>]" by blast
  have c': "enc_ctx_bytes ctx' = enc_ctx_bytes ctx" by (rule enc_ctx_bytes_cong [OF c(1) ctx(1) c(2)])
  have f: "enc_ctx_fits ctx'" by (rule fits_cong [OF ctx(1) c(1) c(2) [symmetric] ctx(2)])
  have "\<exists>k. aws_cryptosdk_keyring_on_decrypt (raw_aes_keyring_vt V self) None tr (pre @ e' # post) ctx' alg = (None, Some k,
        tr @ [\<lparr>wrapping_key_namespace = ra_key_namespace self, wrapping_key_name = ra_key_name self, trace_flags = 20\<rparr>]) \<and>
      dk_contents (Some k) = dk_contents (ks_key st')"
    if h: "aws_cryptosdk_edk_eq e e'" "list_all aws_cryptosdk_edk_is_valid (pre @ e' # post)"
      "\<forall>x \<in> set pre. \<forall>iv k. raw_aes_holds ks tg self (enc_ctx_bytes ctx) iv k x \<and> length k = data_key_len p \<longrightarrow>
         k = dk_contents (ks_key st')" for pre e' post tr
  proof -
    have v: "list_all aws_cryptosdk_edk_is_valid pre" "aws_cryptosdk_edk_is_valid e'" using h(2) by simp_all
    have "raw_aes_holds ks tg self (enc_ctx_bytes ctx') iv (dk_contents (ks_key st')) e'"
      unfolding c' by (rule raw_aes_holds_cong [OF e(3) h(1) v(2)])
    from named_aes_env.on_decrypt_result [OF N p c(1) f this e(2,4) v(1) h(3) [folded c'], of tr post] show ?thesis
      using e(4) p by (auto simp: aws_cryptosdk_keyring_on_decrypt_def raw_aes_vt_simps wrong_key_len_def)
  qed
  then show ?thesis using e s by blast
qed

lemma raw_ref_wraps:
  "\<exists>st. aws_cryptosdk_keyring_on_encrypt (raw_aes_keyring_vt env_ref
      \<lparr>ra_key_namespace = [1], ra_key_name = [2, 3], ra_raw_key = replicate 32 5\<rparr>)
    \<lparr>ks_key = None, ks_trace = [], ks_edks = [], ks_draws = 0\<rparr> [([7], [8])] 0x0178 = (None, st)"
proof -
  let ?st = "\<lparr>ks_key = None, ks_trace = [], ks_edks = [], ks_draws = 0\<rparr> :: kr_state" and ?t = "[([7], [8])] :: hash_table"
  obtain p where p: "aws_cryptosdk_alg_props 0x0178 = Some p" by (simp add: alg_table)
  have c: "hash_valid ?t" "enc_ctx_fits ?t" by (simp_all add: hash_valid_def enc_ctx_fits_def length_enc_ctx_bytes)
  obtain st where st: "raw_aes_keyring_on_encrypt env_ref
      \<lparr>ra_key_namespace = [1], ra_key_name = [2, 3], ra_raw_key = replicate 32 5\<rparr> ?st ?t 0x0178 = (None, st)"
    using raw_ref.on_encrypt_succeeds [OF _ p c, of ?st] by (auto simp: rand_ref_def)
  have "dk_len (ks_key st) = data_key_len p"
    using raw_ref.on_encrypt_result [OF p c _ st] by auto
  then show ?thesis
    using st p by (auto simp: aws_cryptosdk_keyring_on_encrypt_def raw_aes_vt_simps wrong_key_len_def)
qed

text \<open>A given data key is wrapped next to an encrypted data key of another keyring, and unwrapped from both.\<close>

theorem raw_aes_wrap_unwrap_witness:
  "let kr = raw_aes_keyring_vt env_ref \<lparr>ra_key_namespace = [1], ra_key_name = [2, 3], ra_raw_key = replicate 32 5\<rparr>;
       st = \<lparr>ks_key = Some \<lparr>kb_addr = 4, kb_buf = buf_from_array (replicate 32 9)\<rparr>, ks_trace = [], ks_edks = [edk_zero], ks_draws = 0\<rparr>
   in \<exists>st' k tr. aws_cryptosdk_keyring_on_encrypt kr st [([7], [8])] 0x0178 = (None, st') \<and> length (ks_edks st') = 2 \<and>
        aws_cryptosdk_keyring_on_decrypt kr None [] (ks_edks st') [([7], [8])] 0x0178 = (None, Some k, tr) \<and>
        dk_contents (Some k) = replicate 32 9"
proof -
  let ?self = "\<lparr>ra_key_namespace = [1], ra_key_name = [2, 3], ra_raw_key = replicate 32 5\<rparr> :: raw_aes_keyring"
  let ?st = "\<lparr>ks_key = Some \<lparr>kb_addr = 4, kb_buf = buf_from_array (replicate 32 9)\<rparr>, ks_trace = [], ks_edks = [edk_zero], ks_draws = 0\<rparr> :: kr_state"
  let ?t = "[([7], [8])] :: hash_table"
  obtain p where p: "aws_cryptosdk_alg_props 0x0178 = Some p" "data_key_len p = 32" by (simp add: alg_table)
  have c: "hash_valid ?t" "enc_ctx_fits ?t" by (simp_all add: hash_valid_def enc_ctx_fits_def length_enc_ctx_bytes)
  have d: "dk_contents (ks_key ?st) = replicate 32 9" by (simp add: dk_contents_def buf_contents_def buf_from_array_def)
  have k: "ks_key ?st = None \<or> length (dk_contents (ks_key ?st)) = data_key_len p" unfolding d p(2) by simp
  obtain st' where r: "raw_aes_keyring_on_encrypt env_ref ?self ?st ?t 0x0178 = (None, st')"
    using raw_ref.on_encrypt_succeeds [OF _ p(1) c k] by (auto simp: rand_ref_def)
  from raw_ref.on_encrypt_result [OF p(1) c k r] obtain e iv where e: "ks_edks st' = [edk_zero, e]" "ks_key st' = ks_key ?st"
      "raw_aes_holds ref_ks ref_tag ?self (enc_ctx_bytes ?t) iv (dk_contents (ks_key st')) e" by auto
  have r': "aws_cryptosdk_keyring_on_encrypt (raw_aes_keyring_vt env_ref ?self) ?st ?t 0x0178 = (None, st')"
    using r e(2) by (simp add: aws_cryptosdk_keyring_on_encrypt_def raw_aes_vt_simps same_buf_def)
  have v: "list_all aws_cryptosdk_edk_is_valid ([edk_zero] @ e # [])" "aws_cryptosdk_edk_eq e e"
    using e(3) by (simp_all add: raw_aes_holds_def Let_def aws_cryptosdk_edk_is_valid_def edk_zero_def buf_zero_def buf_valid_def aws_cryptosdk_edk_eq_def)
  have z: "\<forall>x \<in> set [edk_zero]. \<forall>iv k. raw_aes_holds ref_ks ref_tag ?self (enc_ctx_bytes ?t) iv k x \<and> length k = data_key_len p \<longrightarrow>
      k = dk_contents (ks_key st')"
    by (simp add: raw_aes_holds_def Let_def edk_zero_def buf_zero_def buf_contents_def)
  have "\<exists>k tr. aws_cryptosdk_keyring_on_decrypt (raw_aes_keyring_vt env_ref ?self) None [] ([edk_zero] @ e # []) ?t 0x0178 = (None, Some k, tr) \<and>
      dk_contents (Some k) = dk_contents (ks_key st')"
    using raw_aes_wrap_unwrap [OF raw_ref.raw_aes_env_axioms raw_ref.namespace p(1) c k r' c(1) refl]
  proof (elim conjE exE, goal_cases)
    case (1 e')
    have "e' = e" using 1(5) e(1) by simp
    with 1(6) [rule_format, of e "[edk_zero]" "[]" "[]"] v z show ?case by blast
  qed
  then obtain k tr where
    "aws_cryptosdk_keyring_on_decrypt (raw_aes_keyring_vt env_ref ?self) None [] (ks_edks st') ?t 0x0178 = (None, Some k, tr)"
    "dk_contents (Some k) = dk_contents (ks_key ?st)" unfolding e(1,2) append.simps by blast
  moreover have "length (ks_edks st') = 2" by (simp add: e(1))
  ultimately show ?thesis using r' unfolding d Let_def by blast
qed

text \<open>
  C36: A raw AES keyring gives a data key only if one of the encrypted data keys holds exactly that key: it names this keyring, and
  the AES-GCM tag over the wrapped key and the serialized encryption context is valid under the wrapping key.
\<close>

theorem raw_aes_decrypt_authentic:
  assumes V: "raw_aes_env V ks tg self" and p: "aws_cryptosdk_alg_props alg = Some p" and ctx: "hash_valid ctx"
    and e: "list_all aws_cryptosdk_edk_is_valid edks"
    and d: "raw_aes_keyring_on_decrypt V self None tr edks ctx alg = (st, Some k, tr')"
  shows "st = None \<and> length (dk_contents (Some k)) = data_key_len p \<and>
    (\<exists>e \<in> set edks. \<exists>iv. raw_aes_holds ks tg self (enc_ctx_bytes ctx) iv (dk_contents (Some k)) e)"
  by (rule raw_aes_env.on_decrypt_authentic [OF assms])

theorem raw_aes_decrypt_authentic_witness:
  "\<exists>edks st k tr'. raw_aes_keyring_on_decrypt env_ref \<lparr>ra_key_namespace = [1], ra_key_name = [2, 3], ra_raw_key = replicate 32 5\<rparr>
      None [] edks [([7], [8])] 0x0178 = (st, Some k, tr') \<and> length (dk_contents (Some k)) = 32"
proof -
  let ?self = "\<lparr>ra_key_namespace = [1], ra_key_name = [2, 3], ra_raw_key = replicate 32 5\<rparr> :: raw_aes_keyring"
  let ?st = "\<lparr>ks_key = None, ks_trace = [], ks_edks = [], ks_draws = 0\<rparr> :: kr_state" and ?t = "[([7], [8])] :: hash_table"
  obtain p where p: "aws_cryptosdk_alg_props 0x0178 = Some p" "data_key_len p = 32" by (simp add: alg_table)
  have c: "hash_valid ?t" "enc_ctx_fits ?t" by (simp_all add: hash_valid_def enc_ctx_fits_def length_enc_ctx_bytes)
  obtain st where st: "aws_cryptosdk_keyring_on_encrypt (raw_aes_keyring_vt env_ref ?self) ?st ?t 0x0178 = (None, st)"
    using raw_ref_wraps by blast
  have e: "list_all2 aws_cryptosdk_edk_eq (ks_edks st) (ks_edks st)" by (simp add: list_all2_same aws_cryptosdk_edk_eq_def)
  have v: "list_all aws_cryptosdk_edk_is_valid (ks_edks st)" using raw_ref.wraps.wrap [OF p(1) c st] by simp
  have v': "list_all aws_cryptosdk_edk_is_valid (ks_edks st @ [])" using v by simp
  obtain k tr where "aws_cryptosdk_keyring_on_decrypt (raw_aes_keyring_vt env_ref ?self) None [] (ks_edks st) ?t 0x0178 = (None, Some k, tr)"
    using raw_ref.wraps.unwrap [OF p(1) c st e v' c(1) refl, of "[]"] unfolding append_Nil2 by blast
  then have d: "raw_aes_keyring_on_decrypt env_ref ?self None [] (ks_edks st) ?t 0x0178 = (None, Some k, tr)"
    by (auto simp: aws_cryptosdk_keyring_on_decrypt_def raw_aes_vt_simps split: prod.splits if_splits)
  then show ?thesis
    using raw_aes_decrypt_authentic [OF raw_ref.raw_aes_env_axioms p(1) c(1) v d] p(2) by auto
qed

end
