(* ===== verification/MultiKeyring.thy ===== *)
theory MultiKeyring
  imports RawAes
begin

text \<open>
  The multi-keyring, \<^verbatim>\<open>source/multi_keyring.c\<close>: a generator and children, each called through the dispatch of
  keyrings. The lemmas describe a call of the multi-keyring by the calls of its parts, in their order and with the states that pass between them; a multi-keyring whose generator and children keep
  their contracts keeps that of a keyring itself.
\<close>

section \<open>Definitions\<close>

record multi_keyring =
  mk_generator :: "keyring option"
  mk_children :: "keyring list"

fun call_on_encrypt_on_list :: "keyring list \<Rightarrow> on_encrypt_fn" where
  "call_on_encrypt_on_list [] st enc_ctx alg = (AWS_OP_SUCCESS, st)"
| "call_on_encrypt_on_list (child # keyrings) st enc_ctx alg =
     (case aws_cryptosdk_keyring_on_encrypt child st enc_ctx alg of
        (Some e, st') \<Rightarrow> (AWS_OP_ERR e, st')
      | (None, st') \<Rightarrow> call_on_encrypt_on_list keyrings st' enc_ctx alg)"

text \<open>
  Generator and children work on lists of their own, which are transferred to those of the request at the end. The outcome of
  the second transfer is ignored.
\<close>

definition multi_keyring_on_encrypt :: "aws_lib \<Rightarrow> multi_keyring \<Rightarrow> on_encrypt_fn" where
  "multi_keyring_on_encrypt L self st enc_ctx alg =
     (case aws_cryptosdk_edk_list_init L of
        Inl e \<Rightarrow> (AWS_OP_ERR e, st)
      | Inr my_edks \<Rightarrow>
     (case aws_cryptosdk_keyring_trace_init L of
        Inl e \<Rightarrow> (AWS_OP_ERR e, st)
      | Inr my_trace \<Rightarrow>
     (let my = st\<lparr>ks_trace := my_trace, ks_edks := my_edks\<rparr>;
          out = (\<lambda>my. st\<lparr>ks_key := ks_key my, ks_draws := ks_draws my\<rparr>)
      in case (case mk_generator self of
                 None \<Rightarrow> (AWS_OP_SUCCESS, my)
               | Some generator \<Rightarrow> aws_cryptosdk_keyring_on_encrypt generator my enc_ctx alg) of
           (Some e, my) \<Rightarrow> (AWS_OP_ERR e, out my)
         | (None, my) \<Rightarrow>
             if ks_key my = None then (AWS_OP_ERR AWS_CRYPTOSDK_ERR_BAD_STATE, out my)
             else (case call_on_encrypt_on_list (mk_children self) my enc_ctx alg of
               (Some e, my) \<Rightarrow> (AWS_OP_ERR e, out my)
             | (None, my) \<Rightarrow>
                 (case aws_cryptosdk_transfer_list L (ks_edks st) (ks_edks my) of
                    (Some e, edks, _) \<Rightarrow> (AWS_OP_ERR e, (out my)\<lparr>ks_edks := edks\<rparr>)
                  | (None, edks, _) \<Rightarrow>
                      (case aws_cryptosdk_transfer_list L (ks_trace st) (ks_trace my) of
                         (_, trace, _) \<Rightarrow> (AWS_OP_SUCCESS, (out my)\<lparr>ks_edks := edks, ks_trace := trace\<rparr>)))))))"

text \<open>
  The children are tried until the data key is there. The failure that is reported when none has it is the
  last one that a child reported.
\<close>

fun decrypt_with_children :: "status \<Rightarrow> keyring list \<Rightarrow> on_decrypt_fn" where
  "decrypt_with_children ret_if_no_decrypt [] key trace edks enc_ctx alg = (ret_if_no_decrypt, key, trace)"
| "decrypt_with_children ret_if_no_decrypt (child # children) key trace edks enc_ctx alg =
     (case aws_cryptosdk_keyring_on_decrypt child key trace edks enc_ctx alg of (decrypt_err, key', trace') \<Rightarrow>
        if key' \<noteq> None then (AWS_OP_SUCCESS, key', trace')
        else decrypt_with_children (if decrypt_err \<noteq> None then decrypt_err else ret_if_no_decrypt)
               children key' trace' edks enc_ctx alg)"

definition multi_keyring_on_decrypt :: "multi_keyring \<Rightarrow> on_decrypt_fn" where
  "multi_keyring_on_decrypt self key trace edks enc_ctx alg =
     (case mk_generator self of
        None \<Rightarrow> decrypt_with_children AWS_OP_SUCCESS (mk_children self) key trace edks enc_ctx alg
      | Some generator \<Rightarrow>
          (case aws_cryptosdk_keyring_on_decrypt generator key trace edks enc_ctx alg of (decrypt_err, key', trace') \<Rightarrow>
             if key' \<noteq> None then (AWS_OP_SUCCESS, key', trace')
             else decrypt_with_children decrypt_err (mk_children self) key' trace' edks enc_ctx alg))"

definition multi_keyring_vt :: "aws_lib \<Rightarrow> multi_keyring \<Rightarrow> keyring" where
  "multi_keyring_vt L self =
     \<lparr>kr_on_encrypt = Some (multi_keyring_on_encrypt L self), kr_on_decrypt = Some (multi_keyring_on_decrypt self)\<rparr>"

abbreviation SIZEOF_multi_keyring :: nat where
  "SIZEOF_multi_keyring \<equiv> 72"

definition aws_cryptosdk_multi_keyring_new :: "aws_lib \<Rightarrow> keyring option \<Rightarrow> multi_keyring option" where
  "aws_cryptosdk_multi_keyring_new L generator =
     (if \<not> lib_acquire L SIZEOF_multi_keyring then None
      else if \<not> lib_list_init L 4 then None
      else Some \<lparr>mk_generator = generator, mk_children = []\<rparr>)"

definition aws_cryptosdk_multi_keyring_add_child :: "aws_lib \<Rightarrow> multi_keyring \<Rightarrow> keyring \<Rightarrow> status \<times> multi_keyring" where
  "aws_cryptosdk_multi_keyring_add_child L self child =
     (if lib_push_back L (length (mk_children self))
      then (AWS_OP_SUCCESS, self\<lparr>mk_children := mk_children self @ [child]\<rparr>)
      else (AWS_OP_ERR AWS_ERROR_OOM, self))"

section \<open>Lemmas\<close>

text \<open>The keyrings of a multi-keyring, in the order in which they are called: the generator, if there is one, and the children.\<close>

definition generators :: "multi_keyring \<Rightarrow> keyring list" where
  "generators self = (case mk_generator self of None \<Rightarrow> [] | Some g \<Rightarrow> [g])"


lemma generators_simps [simp]:
  "mk_generator self = None \<Longrightarrow> generators self = []" "mk_generator self = Some g \<Longrightarrow> generators self = [g]"
  by (simp_all add: generators_def)

text \<open>All keyrings of a list succeed in encrypting, each on the state that the one before left.\<close>

inductive all_wrap :: "hash_table \<Rightarrow> alg_id \<Rightarrow> keyring list \<Rightarrow> kr_state \<Rightarrow> kr_state \<Rightarrow> bool" for ctx alg where
  all_wrap_Nil: "all_wrap ctx alg [] st st"
| all_wrap_Cons: "aws_cryptosdk_keyring_on_encrypt kr st ctx alg = (None, st1) \<Longrightarrow> all_wrap ctx alg krs st1 st2 \<Longrightarrow>
    all_wrap ctx alg (kr # krs) st st2"

inductive_simps all_wrap_simps [simp]: "all_wrap ctx alg [] st st'" "all_wrap ctx alg (kr # krs) st st'"

lemma call_on_list_None: "call_on_encrypt_on_list krs st ctx alg = (None, st') \<longleftrightarrow> all_wrap ctx alg krs st st'"
  by (induction krs arbitrary: st) (auto split: prod.splits option.splits)

lemma call_on_list_Some:
  assumes "call_on_encrypt_on_list krs st ctx alg = (Some e, st')"
  shows "\<exists>pre kr post st1. krs = pre @ kr # post \<and> all_wrap ctx alg pre st st1 \<and>
    aws_cryptosdk_keyring_on_encrypt kr st1 ctx alg = (Some e, st')"
  using assms
proof (induction krs arbitrary: st)
  case (Cons kr krs)
  obtain r st1 where o: "aws_cryptosdk_keyring_on_encrypt kr st ctx alg = (r, st1)"
    by (cases "aws_cryptosdk_keyring_on_encrypt kr st ctx alg")
  show ?case
  proof (cases r)
    case None
    then have "call_on_encrypt_on_list krs st1 ctx alg = (Some e, st')" using Cons.prems o by simp
    from Cons.IH [OF this] obtain pre k post st2 where "krs = pre @ k # post" "all_wrap ctx alg pre st1 st2"
        "aws_cryptosdk_keyring_on_encrypt k st2 ctx alg = (Some e, st')" by blast
    then show ?thesis using o None by (intro exI [of _ "kr # pre"]) auto
  next
    case (Some x)
    then show ?thesis using Cons.prems o by (intro exI [of _ "[]"]) auto
  qed
qed simp

text \<open>Once there is a data key, it stays in its buffer.\<close>

lemma same_buf_trans: "same_buf b (Some c) \<Longrightarrow> same_buf c k \<Longrightarrow> same_buf b k"
  by (auto simp: same_buf_def split: option.splits)

lemma same_buf_refl: "same_buf b (Some b)"
  by (simp add: same_buf_def)

lemma on_encrypt_same_buf:
  assumes "aws_cryptosdk_keyring_on_encrypt kr st ctx alg = (None, st')" "ks_key st = Some b"
  obtains c where "ks_key st' = Some c" "same_buf b (Some c)"
  using assms
  by (cases "ks_key st'")
    (auto simp: aws_cryptosdk_keyring_on_encrypt_def same_buf_def Let_def split: option.splits prod.splits if_splits)

lemma all_wrap_same_buf: "all_wrap ctx alg krs st st' \<Longrightarrow> ks_key st = Some b \<Longrightarrow> same_buf b (ks_key st')"
proof (induction arbitrary: b rule: all_wrap.induct)
  case (all_wrap_Cons kr st st1 krs st2)
  then show ?case using same_buf_trans by (metis on_encrypt_same_buf)
qed (simp add: same_buf_refl)

text \<open>The number of items that a transfer moves: those for which the destination can grow.\<close>

definition moved :: "aws_lib \<Rightarrow> nat \<Rightarrow> nat \<Rightarrow> nat" where
  "moved L n m = length (takeWhile (\<lambda>i. lib_push_back L (n + i)) [0..<m])"

lemma moved_0 [simp]: "moved L n 0 = 0"
  by (simp add: moved_def)

lemma moved_Suc [simp]: "moved L n (Suc m) = (if lib_push_back L n then Suc (moved L (Suc n) m) else 0)"
  by (simp add: moved_def upt_conv_Cons takeWhile_map comp_def del: upt_Suc flip: map_Suc_upt)

lemma moved_all: "(\<And>n. lib_push_back L n) \<Longrightarrow> moved L n m = m"
  by (induction m arbitrary: n) auto

lemma moved_le: "moved L n m \<le> m"
  by (induction m arbitrary: n) auto

lemma transfer_list_eq:
  "aws_cryptosdk_transfer_list L dest src =
     (if moved L (length dest) (length src) = length src then (None, dest @ src, [])
      else (Some AWS_ERROR_OOM, dest @ take (moved L (length dest) (length src)) src, src))"
proof -
  have "transfer_loop L dest src =
     (if moved L (length dest) (length src) = length src then None else Some AWS_ERROR_OOM,
      dest @ take (moved L (length dest) (length src)) src)"
    by (induction src arbitrary: dest) auto
  then show ?thesis by (simp add: aws_cryptosdk_transfer_list_def)
qed

text \<open>
  Encryption by generator and children on lists of their own, as one function: an error with the state to report, or the state after
  the last child.
\<close>

definition encrypt_parts :: "multi_keyring \<Rightarrow> on_encrypt_fn" where
  "encrypt_parts self my ctx alg =
     (case (case mk_generator self of None \<Rightarrow> (None, my) | Some g \<Rightarrow> aws_cryptosdk_keyring_on_encrypt g my ctx alg) of
        (Some e, my) \<Rightarrow> (Some e, my)
      | (None, my) \<Rightarrow>
          if ks_key my = None then (Some AWS_CRYPTOSDK_ERR_BAD_STATE, my)
          else call_on_encrypt_on_list (mk_children self) my ctx alg)"

lemma encrypt_parts_None:
  assumes "encrypt_parts self my ctx alg = (None, my')"
  obtains my1 b where "all_wrap ctx alg (generators self) my my1" "ks_key my1 = Some b" "all_wrap ctx alg (mk_children self) my1 my'"
  using assms
  by (cases "mk_generator self") (auto simp: encrypt_parts_def call_on_list_None split: prod.splits option.splits if_splits)

lemma encrypt_parts_Some:
  assumes "encrypt_parts self my ctx alg = (Some e, my')"
  shows "(\<exists>g. mk_generator self = Some g \<and> aws_cryptosdk_keyring_on_encrypt g my ctx alg = (Some e, my')) \<or>
    (all_wrap ctx alg (generators self) my my' \<and> ks_key my' = None \<and> e = AWS_CRYPTOSDK_ERR_BAD_STATE) \<or>
    (\<exists>my1 b. all_wrap ctx alg (generators self) my my1 \<and> ks_key my1 = Some b \<and>
       call_on_encrypt_on_list (mk_children self) my1 ctx alg = (Some e, my'))"
  using assms
  by (cases "mk_generator self") (auto simp: encrypt_parts_def split: prod.splits option.splits if_splits)

lemma multi_keyring_on_encrypt_alt:
  "multi_keyring_on_encrypt L self st ctx alg =
     (if \<not> lib_list_init L 4 \<or> \<not> lib_list_init L 10 then (Some AWS_ERROR_OOM, st)
      else case encrypt_parts self (st\<lparr>ks_trace := [], ks_edks := []\<rparr>) ctx alg of
        (Some e, my) \<Rightarrow> (Some e, st\<lparr>ks_key := ks_key my, ks_draws := ks_draws my\<rparr>)
      | (None, my) \<Rightarrow>
          (let n = moved L (length (ks_edks st)) (length (ks_edks my));
               m = moved L (length (ks_trace st)) (length (ks_trace my))
           in if n < length (ks_edks my)
              then (Some AWS_ERROR_OOM, st\<lparr>ks_key := ks_key my, ks_draws := ks_draws my, ks_edks := ks_edks st @ take n (ks_edks my)\<rparr>)
              else (None, st\<lparr>ks_key := ks_key my, ks_draws := ks_draws my, ks_edks := ks_edks st @ ks_edks my,
                             ks_trace := ks_trace st @ take m (ks_trace my)\<rparr>)))"
proof -
  have "multi_keyring_on_encrypt L self st ctx alg =
     (if \<not> lib_list_init L 4 \<or> \<not> lib_list_init L 10 then (Some AWS_ERROR_OOM, st)
      else case encrypt_parts self (st\<lparr>ks_trace := [], ks_edks := []\<rparr>) ctx alg of
        (Some e, my) \<Rightarrow> (Some e, st\<lparr>ks_key := ks_key my, ks_draws := ks_draws my\<rparr>)
      | (None, my) \<Rightarrow>
          (case aws_cryptosdk_transfer_list L (ks_edks st) (ks_edks my) of
             (Some e, edks, _) \<Rightarrow> (Some e, st\<lparr>ks_key := ks_key my, ks_draws := ks_draws my, ks_edks := edks\<rparr>)
           | (None, edks, _) \<Rightarrow>
               (case aws_cryptosdk_transfer_list L (ks_trace st) (ks_trace my) of
                  (_, trace, _) \<Rightarrow>
                    (None, st\<lparr>ks_key := ks_key my, ks_draws := ks_draws my, ks_edks := edks, ks_trace := trace\<rparr>))))"
    by (auto simp: multi_keyring_on_encrypt_def encrypt_parts_def aws_cryptosdk_edk_list_init_def
        aws_cryptosdk_keyring_trace_init_def Let_def split: option.splits prod.splits)
  moreover have "moved L n (length xs) < length xs \<longleftrightarrow> moved L n (length xs) \<noteq> length xs" for n and xs :: "edk list"
    using moved_le [of L n "length xs"] by linarith
  ultimately show ?thesis
    by (auto simp: transfer_list_eq Let_def split: option.splits prod.splits)
qed

text \<open>
  The keyrings of a list are tried in their order, each with the trace that the one before left, and none gives a data key; the statuses they return.
\<close>

inductive all_miss ::
  "edk list \<Rightarrow> hash_table \<Rightarrow> alg_id \<Rightarrow> keyring list \<Rightarrow> keyring_trace \<Rightarrow> status list \<Rightarrow> keyring_trace \<Rightarrow> bool" for edks ctx alg where
  all_miss_Nil: "all_miss edks ctx alg [] tr [] tr"
| all_miss_Cons: "aws_cryptosdk_keyring_on_decrypt kr None tr edks ctx alg = (r, None, tr1) \<Longrightarrow>
    all_miss edks ctx alg krs tr1 rs tr2 \<Longrightarrow> all_miss edks ctx alg (kr # krs) tr (r # rs) tr2"

inductive_simps all_miss_simps [simp]: "all_miss edks ctx alg [] tr rs tr'" "all_miss edks ctx alg (kr # krs) tr rs tr'"






section \<open>Contracts\<close>

text \<open>A multi-keyring over a generator that keeps the contract of generating keyrings, and children that keep theirs.\<close>

locale multi_contract = keyring_contract g for g :: keyring +
  fixes L :: aws_lib and self :: multi_keyring
  assumes generator: "mk_generator self = Some g" and children: "\<forall>c \<in> set (mk_children self). child_contract c"
begin

lemma children_add:
  assumes "all_wrap ctx alg krs st st'" "\<forall>c \<in> set krs. child_contract c"
    and "aws_cryptosdk_alg_props alg = Some p" "hash_valid ctx" "enc_ctx_fits ctx"
    and "ks_key st \<noteq> None" "length (dk_contents (ks_key st)) = data_key_len p"
  shows "ks_key st' \<noteq> None \<and> dk_contents (ks_key st') = dk_contents (ks_key st) \<and>
    (\<exists>new. ks_edks st' = ks_edks st @ new \<and> list_all aws_cryptosdk_edk_is_valid new)"
  using assms
proof (induction rule: all_wrap.induct)
  case (all_wrap_Cons kr st st1 krs st2)
  have c: "child_contract kr" using all_wrap_Cons.prems(1) by simp
  note a = child_contract.adds [OF c all_wrap_Cons.prems(2-6) all_wrap_Cons.hyps(1)]
  have k: "ks_key st1 \<noteq> None" using on_encrypt_same_buf [OF all_wrap_Cons.hyps(1)] all_wrap_Cons.prems(5) by blast
  have l: "length (dk_contents (ks_key st1)) = data_key_len p" using a all_wrap_Cons.prems(6) by simp
  have "\<forall>c \<in> set krs. child_contract c" using all_wrap_Cons.prems(1) by simp
  from all_wrap_Cons.IH [OF this all_wrap_Cons.prems(2-4) k l] a show ?case by fastforce
qed simp

lemma encrypted:
  assumes p: "aws_cryptosdk_alg_props alg = Some p" "hash_valid ctx" "enc_ctx_fits ctx"
    and r: "aws_cryptosdk_keyring_on_encrypt (multi_keyring_vt L self) \<lparr>ks_key = None, ks_trace = tr, ks_edks = [], ks_draws = d\<rparr> ctx alg = (None, st)"
  obtains my new where
    "aws_cryptosdk_keyring_on_encrypt g \<lparr>ks_key = None, ks_trace = [], ks_edks = [], ks_draws = d\<rparr> ctx alg = (None, my)"
    "ks_key st \<noteq> None" "dk_contents (ks_key st) = dk_contents (ks_key my)" "ks_edks st = ks_edks my @ new"
    "list_all aws_cryptosdk_edk_is_valid new"
proof -
  let ?st = "\<lparr>ks_key = None, ks_trace = tr, ks_edks = [], ks_draws = d\<rparr> :: kr_state"
  have "multi_keyring_on_encrypt L self ?st ctx alg = (None, st)"
    using on_encrypt_dispatch [OF r] by (simp add: multi_keyring_vt_def)
  then obtain my2 where my2: "encrypt_parts self (?st\<lparr>ks_trace := [], ks_edks := []\<rparr>) ctx alg = (None, my2)"
      "ks_key st = ks_key my2" "ks_edks st = ks_edks my2"
    by (auto simp: multi_keyring_on_encrypt_alt Let_def split: prod.splits option.splits if_splits)
  from encrypt_parts_None [OF my2(1)] obtain my b where a: "all_wrap ctx alg (generators self) (?st\<lparr>ks_trace := [], ks_edks := []\<rparr>) my"
    and my: "ks_key my = Some b" "all_wrap ctx alg (mk_children self) my my2" .
  have g: "aws_cryptosdk_keyring_on_encrypt g \<lparr>ks_key = None, ks_trace = [], ks_edks = [], ks_draws = d\<rparr> ctx alg = (None, my)"
    using a by (simp add: generator)
  have "length (dk_contents (ks_key my)) = data_key_len p" using wrap [OF p g] by blast
  from children_add [OF my(2) children p _ this] my(1) obtain new where
    "ks_key my2 \<noteq> None" "dk_contents (ks_key my2) = dk_contents (ks_key my)" "ks_edks my2 = ks_edks my @ new"
    "list_all aws_cryptosdk_edk_is_valid new" by auto
  then show thesis using that g my2 by simp
qed

end

sublocale multi_contract \<subseteq> multi: keyring_contract "multi_keyring_vt L self"
proof
  fix alg p ctx tr d st
  assume p: "aws_cryptosdk_alg_props alg = Some p" "hash_valid ctx" "enc_ctx_fits ctx" and
    r: "aws_cryptosdk_keyring_on_encrypt (multi_keyring_vt L self) \<lparr>ks_key = None, ks_trace = tr, ks_edks = [], ks_draws = d\<rparr> ctx alg = (None, st)"
  from encrypted [OF p r] obtain my new where
    g: "aws_cryptosdk_keyring_on_encrypt g \<lparr>ks_key = None, ks_trace = [], ks_edks = [], ks_draws = d\<rparr> ctx alg = (None, my)"
    and st: "ks_key st \<noteq> None" "dk_contents (ks_key st) = dk_contents (ks_key my)" "ks_edks st = ks_edks my @ new"
    "list_all aws_cryptosdk_edk_is_valid new" .
  show "ks_key st \<noteq> None \<and> length (dk_contents (ks_key st)) = data_key_len p \<and>
      ks_edks st \<noteq> [] \<and> list_all aws_cryptosdk_edk_is_valid (ks_edks st)"
    using wrap [OF p g] st by simp
  fix edks others ctx' tr'
  assume e: "list_all2 aws_cryptosdk_edk_eq (ks_edks st) edks" "list_all aws_cryptosdk_edk_is_valid (edks @ others)"
    and c: "hash_valid ctx'" "map_of ctx' = map_of ctx"
  obtain e1 e2 where e12: "edks = e1 @ e2" "list_all2 aws_cryptosdk_edk_eq (ks_edks my) e1"
    using e(1) unfolding st(3) by (auto simp: list_all2_append1)
  have v: "list_all aws_cryptosdk_edk_is_valid (e1 @ e2 @ others)" using e(2) by (simp add: e12(1))
  from unwrap [OF p g e12(2) v c, of tr'] obtain k tr'' where
    k: "aws_cryptosdk_keyring_on_decrypt g None tr' (edks @ others) ctx' alg = (None, Some k, tr'')"
      "dk_contents (Some k) = dk_contents (ks_key st)" by (auto simp: e12(1) st(2))
  have "multi_keyring_on_decrypt self None tr' (edks @ others) ctx' alg = (None, Some k, tr'')"
    by (simp add: multi_keyring_on_decrypt_def generator k(1))
  then show "\<exists>k tr''. aws_cryptosdk_keyring_on_decrypt (multi_keyring_vt L self) None tr' (edks @ others) ctx' alg = (None, Some k, tr'') \<and>
      dk_contents (Some k) = dk_contents (ks_key st)"
    using k on_decrypt_key_len [OF k(1) p(1)] p(1)
    by (auto simp: aws_cryptosdk_keyring_on_decrypt_def multi_keyring_vt_def wrong_key_len_def)
qed

text \<open>A multi-keyring over raw AES keyrings: the generator and one child with another name and key.\<close>

interpretation raw_ref2: named_aes_env env_ref ref_ks ref_tag "\<lparr>ra_key_namespace = [1], ra_key_name = [4], ra_raw_key = replicate 16 6\<rparr>"
  by (intro named_aes_env.intro named_aes_env_axioms.intro raw_aes_env.intro raw_aes_env_axioms.intro)
    (simp_all add: ref.aws_c_common_mem_axioms hkdf_ref_gcm rand_ref_spec)

interpretation multi_ref: multi_contract
  "raw_aes_keyring_vt env_ref \<lparr>ra_key_namespace = [1], ra_key_name = [2, 3], ra_raw_key = replicate 32 5\<rparr>" aws_ref
  "\<lparr>mk_generator = Some (raw_aes_keyring_vt env_ref \<lparr>ra_key_namespace = [1], ra_key_name = [2, 3], ra_raw_key = replicate 32 5\<rparr>),
    mk_children = [raw_aes_keyring_vt env_ref \<lparr>ra_key_namespace = [1], ra_key_name = [4], ra_raw_key = replicate 16 6\<rparr>]\<rparr>"
  by (intro multi_contract.intro multi_contract_axioms.intro)
    (simp_all add: raw_ref.wraps.keyring_contract_axioms raw_ref2.child.child_contract_axioms)

section \<open>Properties\<close>

text \<open>
  C38: Encryption by a multi-keyring, by the calls of its parts. They work on lists of their own, which start empty. If it succeeds, the generator (if there is one) and then all children were
  called in their order, each on the state the one before left, and all succeeded; after the generator there was a data key, and it is still in the same buffer
  at the end (address, length, capacity and owner; the bytes are not compared). The request gets that data key, and all the encrypted data keys that were made are appended to its own, and the trace
  records, all of them unless the trace of the request cannot grow further. If it fails, the trace of the request is unchanged, its encrypted data keys are unchanged unless memory ran out, and
  one of these happened: the lists could not be made, and nothing changed; the generator failed; there was no data key after the generator; a child failed, after the children before it
  succeeded on the same data key buffer, and the data key of the request is what the failing call left; or all succeeded and the encrypted data keys of the request could not grow, and
  those that were moved before stay.
\<close>

theorem multi_keyring_on_encrypt_correct:
  "let my0 = st\<lparr>ks_trace := [], ks_edks := []\<rparr>; back = (\<lambda>my. st\<lparr>ks_key := ks_key my, ks_draws := ks_draws my\<rparr>)
   in case multi_keyring_on_encrypt L self st ctx alg of
     (None, st') \<Rightarrow>
       (\<exists>my1 b my. all_wrap ctx alg (generators self) my0 my1 \<and> ks_key my1 = Some b \<and>
          all_wrap ctx alg (mk_children self) my1 my \<and> same_buf b (ks_key my) \<and>
          st' = (back my)\<lparr>ks_edks := ks_edks st @ ks_edks my,
            ks_trace := ks_trace st @ take (moved L (length (ks_trace st)) (length (ks_trace my))) (ks_trace my)\<rparr> \<and>
          ((\<forall>n. lib_push_back L n) \<longrightarrow> ks_trace st' = ks_trace st @ ks_trace my))
   | (Some e, st') \<Rightarrow>
       ks_trace st' = ks_trace st \<and> ((\<forall>n. lib_push_back L n) \<longrightarrow> ks_edks st' = ks_edks st) \<and>
       ((\<not> lib_list_init L 4 \<or> \<not> lib_list_init L 10) \<and> e = AWS_ERROR_OOM \<and> st' = st \<or>
        (\<exists>g my. mk_generator self = Some g \<and> aws_cryptosdk_keyring_on_encrypt g my0 ctx alg = (Some e, my) \<and> st' = back my) \<or>
        (\<exists>my. all_wrap ctx alg (generators self) my0 my \<and> ks_key my = None \<and> e = AWS_CRYPTOSDK_ERR_BAD_STATE \<and> st' = back my) \<or>
        (\<exists>my1 b pre kr post my2 my. all_wrap ctx alg (generators self) my0 my1 \<and> ks_key my1 = Some b \<and>
           mk_children self = pre @ kr # post \<and> all_wrap ctx alg pre my1 my2 \<and> same_buf b (ks_key my2) \<and>
           aws_cryptosdk_keyring_on_encrypt kr my2 ctx alg = (Some e, my) \<and> st' = back my) \<or>
        (\<exists>my1 b my. all_wrap ctx alg (generators self) my0 my1 \<and> ks_key my1 = Some b \<and>
           all_wrap ctx alg (mk_children self) my1 my \<and> same_buf b (ks_key my) \<and>
           moved L (length (ks_edks st)) (length (ks_edks my)) < length (ks_edks my) \<and> e = AWS_ERROR_OOM \<and>
           st' = (back my)\<lparr>ks_edks := ks_edks st @ take (moved L (length (ks_edks st)) (length (ks_edks my))) (ks_edks my)\<rparr>))"
proof (cases "lib_list_init L 4 \<and> lib_list_init L 10")
  case False
  then have m: "multi_keyring_on_encrypt L self st ctx alg = (Some AWS_ERROR_OOM, st)" by (auto simp: multi_keyring_on_encrypt_alt)
  show ?thesis unfolding m Let_def prod.case option.case using False by blast
next
  case init: True
  let ?my0 = "st\<lparr>ks_trace := [], ks_edks := []\<rparr>"
  obtain r my where q: "encrypt_parts self ?my0 ctx alg = (r, my)" by (cases "encrypt_parts self ?my0 ctx alg")
  show ?thesis
  proof (cases r)
    case (Some e)
    have m: "multi_keyring_on_encrypt L self st ctx alg = (Some e, st\<lparr>ks_key := ks_key my, ks_draws := ks_draws my\<rparr>)"
      using init q Some by (simp add: multi_keyring_on_encrypt_alt)
    from encrypt_parts_Some [OF q [unfolded Some]] show ?thesis
      unfolding m Let_def prod.case option.case
    proof (elim disjE exE conjE, goal_cases)
      case (1 g)
      then show ?case by (intro conjI impI disjI2 [OF disjI1] exI) (assumption | rule refl | simp; fail)+
    next
      case 2
      then show ?case by (intro conjI impI disjI2 [OF disjI2 [OF disjI1]] exI) (assumption | rule refl | simp; fail)+
    next
      case (3 my1 b)
      from call_on_list_Some [OF 3(3)] obtain pre kr post my2 where c: "mk_children self = pre @ kr # post"
        "all_wrap ctx alg pre my1 my2" "aws_cryptosdk_keyring_on_encrypt kr my2 ctx alg = (Some e, my)" by blast
      note s = all_wrap_same_buf [OF c(2) 3(2)]
      from 3(1,2) c s show ?case
        by (intro conjI impI disjI2 [OF disjI2 [OF disjI2 [OF disjI1]]] exI) (assumption | rule refl | simp; fail)+
    qed
  next
    case None
    from encrypt_parts_None [OF q [unfolded None]] obtain my1 b where
      a: "all_wrap ctx alg (generators self) ?my0 my1" "ks_key my1 = Some b" "all_wrap ctx alg (mk_children self) my1 my" .
    note s = all_wrap_same_buf [OF a(3,2)]
    let ?n = "moved L (length (ks_edks st)) (length (ks_edks my))" and ?m = "moved L (length (ks_trace st)) (length (ks_trace my))"
    show ?thesis
    proof (cases "?n < length (ks_edks my)")
      case True
      have m: "multi_keyring_on_encrypt L self st ctx alg =
          (Some AWS_ERROR_OOM, st\<lparr>ks_key := ks_key my, ks_draws := ks_draws my, ks_edks := ks_edks st @ take ?n (ks_edks my)\<rparr>)"
        using init q None True by (simp add: multi_keyring_on_encrypt_alt)
      have f: "\<not> (\<forall>n. lib_push_back L n)" using True moved_all [of L] by force
      show ?thesis unfolding m Let_def prod.case option.case using a s True
        by (intro conjI impI disjI2 [OF disjI2 [OF disjI2 [OF disjI2]]] exI) (assumption | rule refl | simp add: f; fail)+
    next
      case False
      have m: "multi_keyring_on_encrypt L self st ctx alg =
          (None, st\<lparr>ks_key := ks_key my, ks_draws := ks_draws my, ks_edks := ks_edks st @ ks_edks my,
             ks_trace := ks_trace st @ take ?m (ks_trace my)\<rparr>)"
        using init q None False by (simp add: multi_keyring_on_encrypt_alt)
      have t: "(\<forall>n. lib_push_back L n) \<Longrightarrow> take ?m (ks_trace my) = ks_trace my" by (simp add: moved_all)
      show ?thesis unfolding m Let_def prod.case option.case using a s
        by (intro conjI impI exI) (assumption | rule refl | simp add: t; fail)+
    qed
  qed
qed

text \<open>A keyring that always has the same data key, and one that fails to decrypt.\<close>

definition sample_key :: key_buf where
  "sample_key = \<lparr>kb_addr = 1, kb_buf = buf_from_array (replicate 32 7)\<rparr>"

definition sample_record :: trace_record where
  "sample_record = \<lparr>wrapping_key_namespace = [1], wrapping_key_name = [2], trace_flags = 2\<rparr>"

definition sample_keyring :: keyring where
  "sample_keyring =
     \<lparr>kr_on_encrypt = Some (\<lambda>st ctx alg. (None, st\<lparr>ks_key := Some sample_key, ks_edks := ks_edks st @ [edk_zero],
                                                  ks_trace := ks_trace st @ [sample_record]\<rparr>)),
      kr_on_decrypt = Some (\<lambda>k tr edks ctx alg. (None, Some sample_key, tr @ [sample_record]))\<rparr>"


lemma sample_key_len: "\<not> wrong_key_len (Some sample_key) 0x0578"
  by (simp add: sample_key_def wrong_key_len_def dk_len_def buf_from_array_def alg_table)

lemma sample_on_encrypt:
  "ks_key st = None \<and> ks_edks st = [] \<or> ks_key st = Some sample_key \<Longrightarrow>
   aws_cryptosdk_keyring_on_encrypt sample_keyring st ctx 0x0578 = (None, st\<lparr>ks_key := Some sample_key,
     ks_edks := ks_edks st @ [edk_zero], ks_trace := ks_trace st @ [sample_record]\<rparr>)"
  by (auto simp: aws_cryptosdk_keyring_on_encrypt_def sample_keyring_def sample_key_len same_buf_refl)


theorem multi_keyring_on_encrypt_witness:
  "let self = \<lparr>mk_generator = Some sample_keyring, mk_children = [sample_keyring]\<rparr>;
       st = \<lparr>ks_key = None, ks_trace = [], ks_edks = [], ks_draws = 0\<rparr>
   in \<exists>st'. multi_keyring_on_encrypt aws_ref self st [] 0x0578 = (None, st') \<and> ks_key st' = Some sample_key \<and>
        ks_edks st' = [edk_zero, edk_zero] \<and> ks_trace st' = [sample_record, sample_record]"
proof -
  let ?self = "\<lparr>mk_generator = Some sample_keyring, mk_children = [sample_keyring]\<rparr>"
  let ?st = "\<lparr>ks_key = None, ks_trace = [], ks_edks = [], ks_draws = 0\<rparr> :: kr_state"
  have p: "lib_push_back aws_ref n" for n by (simp add: aws_ref_simps)
  obtain st' where m: "multi_keyring_on_encrypt aws_ref ?self ?st [] 0x0578 = (None, st')"
    by (auto simp: multi_keyring_on_encrypt_alt encrypt_parts_def sample_on_encrypt aws_ref_simps moved_all [of aws_ref] p)
  show ?thesis
    using multi_keyring_on_encrypt_correct [where L = aws_ref and self = ?self and st = ?st and ctx = "[]" and alg = "0x0578"] m p
    by (auto simp: sample_on_encrypt)
qed



end
