(* ===== verification/DefaultCmm.thy ===== *)
theory DefaultCmm
  imports RawAes
begin

text \<open>
  The default crypto materials manager, \<^verbatim>\<open>source/default_cmm.c\<close>: it chooses the algorithm suite, makes or checks the public key
  of the trailing signature, and has one keyring wrap or unwrap the data key.
\<close>

section \<open>Definitions\<close>

abbreviation DEFAULT_ALG_UNSET :: alg_id where
  "DEFAULT_ALG_UNSET \<equiv> 0xFFFF"

abbreviation DEFAULT_ALG_NON_KEY_COMMITTING :: alg_id where
  "DEFAULT_ALG_NON_KEY_COMMITTING \<equiv> ALG_AES256_GCM_IV12_TAG16_HKDF_SHA384_ECDSA_P384"

abbreviation DEFAULT_ALG_KEY_COMMITTING :: alg_id where
  "DEFAULT_ALG_KEY_COMMITTING \<equiv> ALG_AES256_GCM_HKDF_SHA512_COMMIT_KEY_ECDSA_P384"

definition EC_PUBLIC_KEY_FIELD :: bytes where
  "EC_PUBLIC_KEY_FIELD = c_bytes ''aws-crypto-public-key''"

record default_cmm =
  dc_kr :: keyring
  dc_default_alg :: alg_id

definition choose_alg :: "default_cmm \<Rightarrow> enc_request \<Rightarrow> alg_id" where
  "choose_alg self request =
     (if er_requested_alg request = 0 then
        if dc_default_alg self = DEFAULT_ALG_UNSET then
          if aws_cryptosdk_commitment_policy_encrypt_must_include_commitment (er_commitment_policy request)
          then DEFAULT_ALG_KEY_COMMITTING
          else DEFAULT_ALG_NON_KEY_COMMITTING
        else dc_default_alg self
      else er_requested_alg request)"

text \<open>
  The part that starts a signature: the signature context, the encryption context with the public key in it, and the
  number of draws.
\<close>

definition start_signature ::
  "env \<Rightarrow> alg_properties \<Rightarrow> hash_table \<Rightarrow> nat \<Rightarrow> sig_ctx option result \<times> hash_table \<times> nat" where
  "start_signature V props enc_ctx draws =
     (if signature_len props \<noteq> 0 then
        (case aws_cryptosdk_sig_sign_start_keygen (env_lib V) (env_ec V) draws props of
           Inl e \<Rightarrow> (Inl e, enc_ctx, Suc draws)
         | Inr (signctx, pubkey) \<Rightarrow>
             (case lib_hash_put (env_lib V) enc_ctx EC_PUBLIC_KEY_FIELD (the pubkey) of
                None \<Rightarrow> (Inl AWS_ERROR_OOM, enc_ctx, Suc draws)
              | Some (enc_ctx, _) \<Rightarrow> (Inr signctx, enc_ctx, Suc draws)))
      else (Inr None, enc_ctx, draws))"

definition default_cmm_generate_enc_materials :: "env \<Rightarrow> default_cmm \<Rightarrow> generate_fn" where
  "default_cmm_generate_enc_materials V self request draws =
     (let enc_ctx = er_enc_ctx request
      in if hash_find enc_ctx EC_PUBLIC_KEY_FIELD \<noteq> None then (Inl AWS_CRYPTOSDK_ERR_RESERVED_NAME, enc_ctx, draws)
         else let alg = choose_alg self request
         in case aws_cryptosdk_alg_props alg of
              None \<Rightarrow> (Inl LAST_ERROR_UNCHANGED, enc_ctx, draws)
            | Some props \<Rightarrow>
                (case aws_cryptosdk_enc_materials_new (env_lib V) alg of
                   Inl e \<Rightarrow> (Inl e, enc_ctx, draws)
                 | Inr enc_mat \<Rightarrow>
                     (case start_signature V props enc_ctx draws of
                        (Inl e, enc_ctx, draws) \<Rightarrow> (Inl e, enc_ctx, draws)
                      | (Inr signctx, enc_ctx, draws) \<Rightarrow>
                          (case aws_cryptosdk_keyring_on_encrypt (dc_kr self)
                                  \<lparr>ks_key = em_unencrypted_data_key enc_mat, ks_trace = em_keyring_trace enc_mat,
                                   ks_edks = em_encrypted_data_keys enc_mat, ks_draws = draws\<rparr> enc_ctx alg of
                             (Some e, st) \<Rightarrow> (Inl e, enc_ctx, ks_draws st)
                           | (None, st) \<Rightarrow>
                               (Inr (enc_mat\<lparr>em_unencrypted_data_key := ks_key st, em_keyring_trace := ks_trace st,
                                             em_encrypted_data_keys := ks_edks st, em_signctx := signctx\<rparr>),
                                enc_ctx, ks_draws st)))))"

definition default_cmm_decrypt_materials :: "env \<Rightarrow> default_cmm \<Rightarrow> decrypt_fn" where
  "default_cmm_decrypt_materials V self request =
     bindE (aws_cryptosdk_dec_materials_new (env_lib V) (dr_alg request)) (\<lambda>dec_mat.
       case aws_cryptosdk_keyring_on_decrypt (dc_kr self) (dm_unencrypted_data_key dec_mat) (dm_keyring_trace dec_mat)
              (dr_encrypted_data_keys request) (dr_enc_ctx request) (dr_alg request) of
         (Some e, _, _) \<Rightarrow> Inl e
       | (None, key, trace) \<Rightarrow>
           if key = None then Inl AWS_CRYPTOSDK_ERR_CANNOT_DECRYPT
           else
             let props = the (aws_cryptosdk_alg_props (dr_alg request));
                 element = hash_find (dr_enc_ctx request) EC_PUBLIC_KEY_FIELD;
                 dec_mat = dec_mat\<lparr>dm_unencrypted_data_key := key, dm_keyring_trace := trace\<rparr>
             in if signature_len props \<noteq> 0 then
                  (case element of
                     None \<Rightarrow> Inl AWS_CRYPTOSDK_ERR_BAD_CIPHERTEXT
                   | Some pubkey \<Rightarrow>
                       bindE (aws_cryptosdk_sig_verify_start (env_lib V) (env_ec V) pubkey props) (\<lambda>signctx.
                       Inr (dec_mat\<lparr>dm_signctx := signctx\<rparr>)))
                else if element \<noteq> None then Inl AWS_CRYPTOSDK_ERR_BAD_CIPHERTEXT
                else Inr dec_mat)"

definition default_cmm_vt :: "env \<Rightarrow> default_cmm \<Rightarrow> cmm" where
  "default_cmm_vt V self =
     \<lparr>cmm_generate_enc_materials = Some (default_cmm_generate_enc_materials V self),
      cmm_decrypt_materials = Some (default_cmm_decrypt_materials V self)\<rparr>"

abbreviation SIZEOF_default_cmm :: nat where
  "SIZEOF_default_cmm \<equiv> 40"

definition aws_cryptosdk_default_cmm_new :: "aws_lib \<Rightarrow> keyring \<Rightarrow> default_cmm option" where
  "aws_cryptosdk_default_cmm_new L kr =
     (if \<not> lib_acquire L SIZEOF_default_cmm then None
      else Some \<lparr>dc_kr = kr, dc_default_alg = DEFAULT_ALG_UNSET\<rparr>)"

definition aws_cryptosdk_default_cmm_set_alg_id :: "default_cmm \<Rightarrow> alg_id \<Rightarrow> status \<times> default_cmm" where
  "aws_cryptosdk_default_cmm_set_alg_id self alg =
     (if \<not> aws_cryptosdk_algorithm_is_known alg then (AWS_OP_ERR AWS_CRYPTOSDK_ERR_UNSUPPORTED_FORMAT, self)
      else (AWS_OP_SUCCESS, self\<lparr>dc_default_alg := alg\<rparr>))"

section \<open>The manager keeps its contract\<close>

text \<open>A default manager on working libraries, with a keyring that keeps its contract.\<close>

locale default_cmm_env = keyring_contract kr + aws_c_common_mem "env_lib V" for kr :: keyring and V :: env +
  fixes alg0 :: alg_id and enc :: "bytes \<Rightarrow> bytes" and dig :: "evp_md \<Rightarrow> bytes \<Rightarrow> bytes" and kp :: "nat \<Rightarrow> nat \<Rightarrow> nat \<Rightarrow> bool"
  assumes b64: "b64_spec (env_ec V) enc" and ec: "ec_ok (env_ec V)" "ec_spec (env_ec V) dig kp"
begin

lemmas mem = aws_c_common_mem_axioms

lemma start_signature_result:
  assumes p: "aws_cryptosdk_alg_props i = Some p" and t: "hash_valid t" "hash_find t EC_PUBLIC_KEY_FIELD = None"
    and r: "start_signature V p t d = (Inr sc, t', d')"
  shows "hash_valid t' \<and>
    (if signature_len p = 0 then sc = None \<and> t' = t
     else \<exists>c pk v. sc = Some c \<and> sc_data c = [] \<and> sc_props c = p \<and> hash_find t' EC_PUBLIC_KEY_FIELD = Some pk \<and>
       aws_cryptosdk_sig_verify_start (env_lib V) (env_ec V) pk p = Inr (Some v) \<and> sig_pair kp c v)"
proof (cases "signature_len p = 0")
  case True
  then show ?thesis using r t by (simp add: start_signature_def)
next
  case False
  then obtain c pk created where k: "aws_cryptosdk_sig_sign_start_keygen (env_lib V) (env_ec V) d p = Inr (c, pk)"
      "lib_hash_put (env_lib V) t EC_PUBLIC_KEY_FIELD (the pk) = Some (t', created)" "sc = c"
    using r by (auto simp: start_signature_def split: sum.splits option.splits)
  from keygen_result [OF mem b64 ec p False k(1)] obtain g pub priv bs where
    g: "group_for_props (env_ec V) p = Some g" "kp g pub priv" "ec_o2i (env_ec V) g bs = Some (pub, length bs)" "length bs \<le> 49"
      "c = Some \<lparr>sc_props = p, sc_keypair = \<lparr>ek_group = g, ek_pub = pub, ek_priv = Some priv\<rparr>, sc_md = sig_md p, sc_data = [], sc_is_sign = True\<rparr>"
      "pk = Some (enc bs)" by blast
  have "hash_valid t'" "map_of t' = (map_of t)(EC_PUBLIC_KEY_FIELD \<mapsto> enc bs)"
    using hash_put_valid [OF t(1) k(2)] hash_put_map [OF t(1) k(2)] g(6) by simp_all
  then show ?thesis
    using False k(3) g verify_start_ok [OF mem b64 ec(1) p False g(1,3,4)] by (auto simp: sig_pair_def hash_find_def)
qed

abbreviation self :: default_cmm where
  "self \<equiv> \<lparr>dc_kr = kr, dc_default_alg = alg0\<rparr>"

lemma enc_materials_new_ok:
  "aws_cryptosdk_enc_materials_new (env_lib V) a = Inr \<lparr>em_unencrypted_data_key = None, em_keyring_trace = [],
      em_encrypted_data_keys = [], em_signctx = None, em_alg = a\<rparr>"
  by (simp add: aws_cryptosdk_enc_materials_new_def aws_cryptosdk_edk_list_init_def aws_cryptosdk_keyring_trace_init_def
      acquire_ok list_init_ok)

lemma generate_result:
  assumes "aws_cryptosdk_cmm_generate_enc_materials (default_cmm_vt V self) rq d = (Inr m, ctx, d')"
  obtains p sc d1 st where "hash_find (er_enc_ctx rq) EC_PUBLIC_KEY_FIELD = None"
    "aws_cryptosdk_alg_props (choose_alg self rq) = Some p" "start_signature V p (er_enc_ctx rq) d = (Inr sc, ctx, d1)"
    "aws_cryptosdk_keyring_on_encrypt kr \<lparr>ks_key = None, ks_trace = [], ks_edks = [], ks_draws = d1\<rparr> ctx (choose_alg self rq) = (None, st)"
    "m = \<lparr>em_unencrypted_data_key = ks_key st, em_keyring_trace = ks_trace st, em_encrypted_data_keys = ks_edks st,
      em_signctx = sc, em_alg = choose_alg self rq\<rparr>" "d' = ks_draws st"
proof -
  have g: "default_cmm_generate_enc_materials V self rq d = (Inr m, ctx, d')"
    using assms by (simp add: aws_cryptosdk_cmm_generate_enc_materials_def default_cmm_vt_def)
  show thesis
    using g that
    by (auto simp: default_cmm_generate_enc_materials_def enc_materials_new_ok Let_def split: if_splits option.splits prod.splits sum.splits)
qed

lemma decrypt_result:
  assumes p: "aws_cryptosdk_alg_props (dr_alg r) = Some p"
    and k: "aws_cryptosdk_keyring_on_decrypt kr None [] (dr_encrypted_data_keys r) (dr_enc_ctx r) (dr_alg r) = (None, Some k, tr)"
    and e: "if signature_len p = 0 then sc = None \<and> hash_find (dr_enc_ctx r) EC_PUBLIC_KEY_FIELD = None
      else \<exists>pk v. sc = Some v \<and> hash_find (dr_enc_ctx r) EC_PUBLIC_KEY_FIELD = Some pk \<and>
        aws_cryptosdk_sig_verify_start (env_lib V) (env_ec V) pk p = Inr (Some v)"
  shows "aws_cryptosdk_cmm_decrypt_materials (default_cmm_vt V self) r =
    Inr \<lparr>dm_unencrypted_data_key = Some k, dm_keyring_trace = tr, dm_signctx = sc, dm_alg = dr_alg r\<rparr>"
  using p k e
  by (auto simp: aws_cryptosdk_cmm_decrypt_materials_def default_cmm_vt_def default_cmm_decrypt_materials_def
      aws_cryptosdk_dec_materials_new_def aws_cryptosdk_keyring_trace_init_def acquire_ok list_init_ok Let_def split: if_splits)

lemma generated_rule:
  assumes v: "hash_valid (er_enc_ctx rq)" and f: "enc_ctx_fits ctx"
    and g: "aws_cryptosdk_cmm_generate_enc_materials (default_cmm_vt V self) rq d = (Inr m, ctx, d')"
  shows "hash_valid ctx \<and> em_encrypted_data_keys m \<noteq> [] \<and> list_all aws_cryptosdk_edk_is_valid (em_encrypted_data_keys m) \<and>
      (\<exists>p. aws_cryptosdk_alg_props (em_alg m) = Some p \<and> length (dk_contents (em_unencrypted_data_key m)) = data_key_len p \<and>
         dk_len (em_unencrypted_data_key m) = data_key_len p \<and> (em_signctx m = None \<longleftrightarrow> signature_len p = 0) \<and>
         (\<forall>sc. em_signctx m = Some sc \<longrightarrow> sc_data sc = [] \<and> sc_props sc = p))"
proof -
  obtain p sc d1 st where c: "hash_find (er_enc_ctx rq) EC_PUBLIC_KEY_FIELD = None"
      "aws_cryptosdk_alg_props (choose_alg self rq) = Some p" "start_signature V p (er_enc_ctx rq) d = (Inr sc, ctx, d1)"
      "aws_cryptosdk_keyring_on_encrypt kr \<lparr>ks_key = None, ks_trace = [], ks_edks = [], ks_draws = d1\<rparr> ctx (choose_alg self rq) = (None, st)"
      "m = \<lparr>em_unencrypted_data_key = ks_key st, em_keyring_trace = ks_trace st, em_encrypted_data_keys = ks_edks st,
        em_signctx = sc, em_alg = choose_alg self rq\<rparr>"
    using generate_result [OF g] .
  note s = start_signature_result [OF c(2) v c(1,3)]
  have "ks_key st \<noteq> None" "length (dk_contents (ks_key st)) = data_key_len p" "ks_edks st \<noteq> []"
      "list_all aws_cryptosdk_edk_is_valid (ks_edks st)"
    using wrap [OF c(2) _ f c(4)] s by simp_all
  then show ?thesis
    using s c(2) on_encrypt_key_len [OF c(4,2)] by (auto simp: c(5) split: if_splits)
qed

lemma decrypted_rule:
  assumes v: "hash_valid (er_enc_ctx rq)" and f: "enc_ctx_fits ctx"
    and g: "aws_cryptosdk_cmm_generate_enc_materials (default_cmm_vt V self) rq d = (Inr m, ctx, d')"
    and e: "list_all2 aws_cryptosdk_edk_eq (em_encrypted_data_keys m) (dr_encrypted_data_keys r)"
      "list_all aws_cryptosdk_edk_is_valid (dr_encrypted_data_keys r)"
    and t: "hash_valid (dr_enc_ctx r)" "map_of (dr_enc_ctx r) = map_of ctx" and a: "dr_alg r = em_alg m"
  shows "\<exists>dm. aws_cryptosdk_cmm_decrypt_materials (default_cmm_vt V self) r = Inr dm \<and> dm_alg dm = em_alg m \<and>
        dk_contents (dm_unencrypted_data_key dm) = dk_contents (em_unencrypted_data_key m) \<and>
        dk_len (dm_unencrypted_data_key dm) = dk_len (em_unencrypted_data_key m) \<and>
        (em_signctx m = None \<longrightarrow> dm_signctx dm = None) \<and>
        (\<forall>sc. em_signctx m = Some sc \<longrightarrow> (\<exists>vc. dm_signctx dm = Some vc \<and> sig_pair kp sc vc))"
proof -
  obtain p sc d1 st where c: "hash_find (er_enc_ctx rq) EC_PUBLIC_KEY_FIELD = None"
      "aws_cryptosdk_alg_props (choose_alg self rq) = Some p" "start_signature V p (er_enc_ctx rq) d = (Inr sc, ctx, d1)"
      "aws_cryptosdk_keyring_on_encrypt kr \<lparr>ks_key = None, ks_trace = [], ks_edks = [], ks_draws = d1\<rparr> ctx (choose_alg self rq) = (None, st)"
      "m = \<lparr>em_unencrypted_data_key = ks_key st, em_keyring_trace = ks_trace st, em_encrypted_data_keys = ks_edks st,
        em_signctx = sc, em_alg = choose_alg self rq\<rparr>"
    using generate_result [OF g] .
  have a': "dr_alg r = choose_alg self rq" using a by (simp add: c(5))
  note s = start_signature_result [OF c(2) v c(1,3)]
  have key: "ks_key st \<noteq> None" using wrap [OF c(2) _ f c(4)] s by simp
  have "list_all2 aws_cryptosdk_edk_eq (ks_edks st) (dr_encrypted_data_keys r)" using e(1) by (simp add: c(5))
  with unwrap [where others = "[]" and tr' = "[]", OF c(2) _ f c(4) _ _ t] e(2) s obtain k tr where
    k: "aws_cryptosdk_keyring_on_decrypt kr None [] (dr_encrypted_data_keys r) (dr_enc_ctx r) (dr_alg r) = (None, Some k, tr)"
      "dk_contents (Some k) = dk_contents (ks_key st)" unfolding a' append_Nil2 by blast
  have len: "dk_len (Some k) = dk_len (ks_key st)"
    using on_decrypt_key_len [OF k(1)] on_encrypt_key_len [OF c(4,2)] key c(2) by (simp add: a')
  have find: "hash_find (dr_enc_ctx r) x = hash_find ctx x" for x using t by (simp add: hash_find_def)
  obtain vc where vc: "if signature_len p = 0 then vc = None \<and> hash_find (dr_enc_ctx r) EC_PUBLIC_KEY_FIELD = None
      else \<exists>pk v. vc = Some v \<and> hash_find (dr_enc_ctx r) EC_PUBLIC_KEY_FIELD = Some pk \<and>
        aws_cryptosdk_sig_verify_start (env_lib V) (env_ec V) pk p = Inr (Some v)"
      "sc = None \<longrightarrow> vc = None" "\<forall>x. sc = Some x \<longrightarrow> (\<exists>v. vc = Some v \<and> sig_pair kp x v)"
    using s c(1) unfolding find by (cases "signature_len p = 0") auto
  show ?thesis
    using decrypt_result [OF _ k(1) vc(1)] vc(2,3) k(2) len c(2) a' by (auto simp: c(5))
qed

end

sublocale default_cmm_env \<subseteq> manages: cmm_contract "default_cmm_vt V \<lparr>dc_kr = kr, dc_default_alg = alg0\<rparr>" kp
  by unfold_locales (rule generated_rule decrypted_rule, assumption+)+


section \<open>The manager over a raw AES keyring\<close>

abbreviation ref_keyring :: keyring where
  "ref_keyring \<equiv> raw_aes_keyring_vt env_ref \<lparr>ra_key_namespace = [1], ra_key_name = [2, 3], ra_raw_key = replicate 32 5\<rparr>"

interpretation default_ref: default_cmm_env ref_keyring env_ref DEFAULT_ALG_UNSET ref_b64 ref_dig ref_kp
  by (intro default_cmm_env.intro default_cmm_env_axioms.intro)
    (simp_all add: raw_ref.wraps.keyring_contract_axioms ref.aws_c_common_mem_axioms siglib_ref_b64 siglib_ref_ok siglib_ref_spec)

lemma ref_keyring_wraps:
  assumes p: "aws_cryptosdk_alg_props alg = Some p" and c: "hash_valid t" "enc_ctx_fits t"
  shows "\<exists>st. aws_cryptosdk_keyring_on_encrypt ref_keyring \<lparr>ks_key = None, ks_trace = [], ks_edks = [], ks_draws = d\<rparr> t alg = (None, st)"
proof -
  let ?st = "\<lparr>ks_key = None, ks_trace = [], ks_edks = [], ks_draws = d\<rparr> :: kr_state"
  obtain st where st: "raw_aes_keyring_on_encrypt env_ref
      \<lparr>ra_key_namespace = [1], ra_key_name = [2, 3], ra_raw_key = replicate 32 5\<rparr> ?st t alg = (None, st)"
    using raw_ref.on_encrypt_succeeds [OF _ p c, of ?st] by (auto simp: rand_ref_def)
  have "dk_len (ks_key st) = data_key_len p" using raw_ref.on_encrypt_result [OF p c _ st] by auto
  then show ?thesis
    using st p by (auto simp: aws_cryptosdk_keyring_on_encrypt_def raw_aes_vt_simps wrong_key_len_def)
qed

lemma EC_PUBLIC_KEY_FIELD_length: "length EC_PUBLIC_KEY_FIELD = 21"
  by (simp add: EC_PUBLIC_KEY_FIELD_def c_bytes_def)

lemma ref_start_signature:
  assumes p: "aws_cryptosdk_alg_props alg = Some p"
  obtains sc ctx d' where "start_signature env_ref p [] d = (Inr sc, ctx, d')" "hash_valid ctx" "enc_ctx_fits ctx"
proof (cases "signature_len p = 0")
  case True
  then show thesis using that [of None "[]" d] by (simp add: start_signature_def hash_valid_def enc_ctx_fits_def length_enc_ctx_bytes)
next
  case False
  from keygen_ok [OF ref.aws_c_common_mem_axioms siglib_ref_b64 siglib_ref_ok siglib_ref_spec p False siglib_ref_keygen, of d]
  obtain c bs where k: "aws_cryptosdk_sig_sign_start_keygen aws_ref siglib_ref d p = Inr (Some c, Some (ref_b64 bs))" "length bs \<le> 49"
    by blast
  let ?t = "[(EC_PUBLIC_KEY_FIELD, ref_b64 bs)]"
  have h: "lib_hash_put aws_ref [] EC_PUBLIC_KEY_FIELD (ref_b64 bs) = Some (?t, True)" by (simp add: ref_put_def aws_ref_simps)
  have "length (ref_b64 bs) \<le> 68" using ref_b64_length [of bs] k(2) by linarith
  then have "hash_valid ?t" "enc_ctx_fits ?t"
    using EC_PUBLIC_KEY_FIELD_length by (simp_all add: hash_valid_def enc_ctx_fits_def length_enc_ctx_bytes)
  then show thesis using that [of "Some c" ?t "Suc d"] False k(1) h by (simp add: start_signature_def)
qed

text \<open>On the reference libraries the manager gives materials for every known suite.\<close>

lemma ref_generates:
  assumes p: "aws_cryptosdk_alg_props (choose_alg \<lparr>dc_kr = ref_keyring, dc_default_alg = alg0\<rparr> rq) = Some p" and e: "er_enc_ctx rq = []"
  shows "\<exists>m ctx d'. aws_cryptosdk_cmm_generate_enc_materials (default_cmm_vt env_ref \<lparr>dc_kr = ref_keyring, dc_default_alg = alg0\<rparr>) rq d
    = (Inr m, ctx, d') \<and> hash_valid ctx \<and> enc_ctx_fits ctx"
proof -
  obtain sc ctx d1 where s: "start_signature env_ref p [] d = (Inr sc, ctx, d1)" "hash_valid ctx" "enc_ctx_fits ctx"
    by (rule ref_start_signature [OF p])
  obtain st where "aws_cryptosdk_keyring_on_encrypt ref_keyring \<lparr>ks_key = None, ks_trace = [], ks_edks = [], ks_draws = d1\<rparr> ctx
      (choose_alg \<lparr>dc_kr = ref_keyring, dc_default_alg = alg0\<rparr> rq) = (None, st)"
    using ref_keyring_wraps [OF p s(2,3)] by blast
  then show ?thesis
    using p e s default_ref.enc_materials_new_ok
    by (auto simp: hash_find_def aws_cryptosdk_cmm_generate_enc_materials_def default_cmm_vt_def default_cmm_generate_enc_materials_def Let_def)
qed

section \<open>Properties\<close>

text \<open>
  C37: The default manager is a correct key manager on top of every keyring that keeps its contract. Materials it generates are for the suite
  that was asked for, or else the configured one, or else the default of the commitment policy; they have a data key of the length of that suite and a signing context exactly if the suite
  signs. A request whose encryption context uses the reserved public key field gets no materials. From the encrypted data keys and
  the completed context, however they were copied, the manager gives materials for decryption with the same suite and data key and with the matching
  verification context.
\<close>

theorem default_cmm_materials:
  assumes V: "default_cmm_env kr V enc dig kp" and t: "hash_valid (er_enc_ctx rq)" "enc_ctx_fits ctx"
    and g: "aws_cryptosdk_cmm_generate_enc_materials (default_cmm_vt V \<lparr>dc_kr = kr, dc_default_alg = alg0\<rparr>) rq d = (Inr m, ctx, d')"
  shows "hash_find (er_enc_ctx rq) EC_PUBLIC_KEY_FIELD = None \<and>
    em_alg m = choose_alg \<lparr>dc_kr = kr, dc_default_alg = alg0\<rparr> rq \<and>
    (\<exists>p. aws_cryptosdk_alg_props (em_alg m) = Some p \<and> length (dk_contents (em_unencrypted_data_key m)) = data_key_len p \<and>
       (em_signctx m = None \<longleftrightarrow> signature_len p = 0)) \<and>
    (\<forall>r. list_all2 aws_cryptosdk_edk_eq (em_encrypted_data_keys m) (dr_encrypted_data_keys r) \<longrightarrow>
       list_all aws_cryptosdk_edk_is_valid (dr_encrypted_data_keys r) \<longrightarrow>
       hash_valid (dr_enc_ctx r) \<longrightarrow> map_of (dr_enc_ctx r) = map_of ctx \<longrightarrow> dr_alg r = em_alg m \<longrightarrow>
       (\<exists>dm. aws_cryptosdk_cmm_decrypt_materials (default_cmm_vt V \<lparr>dc_kr = kr, dc_default_alg = alg0\<rparr>) r = Inr dm \<and>
          dm_alg dm = em_alg m \<and> dk_contents (dm_unencrypted_data_key dm) = dk_contents (em_unencrypted_data_key m) \<and>
          (\<forall>sc. em_signctx m = Some sc \<longrightarrow> (\<exists>vc. dm_signctx dm = Some vc \<and> sig_pair kp sc vc))))"
proof (intro conjI allI impI)
  show "hash_find (er_enc_ctx rq) EC_PUBLIC_KEY_FIELD = None" "em_alg m = choose_alg \<lparr>dc_kr = kr, dc_default_alg = alg0\<rparr> rq"
    by (rule default_cmm_env.generate_result [OF V g]; simp)+
next
  show "\<exists>p. aws_cryptosdk_alg_props (em_alg m) = Some p \<and> length (dk_contents (em_unencrypted_data_key m)) = data_key_len p \<and>
      (em_signctx m = None \<longleftrightarrow> signature_len p = 0)"
    using default_cmm_env.generated_rule [OF V t g] by (elim conjE exE) (intro exI conjI)
next
  fix r :: dec_request
  assume "list_all2 aws_cryptosdk_edk_eq (em_encrypted_data_keys m) (dr_encrypted_data_keys r)"
    "list_all aws_cryptosdk_edk_is_valid (dr_encrypted_data_keys r)" "hash_valid (dr_enc_ctx r)" "map_of (dr_enc_ctx r) = map_of ctx"
    "dr_alg r = em_alg m"
  from default_cmm_env.decrypted_rule [OF V t g this] show "\<exists>dm.
      aws_cryptosdk_cmm_decrypt_materials (default_cmm_vt V \<lparr>dc_kr = kr, dc_default_alg = alg0\<rparr>) r = Inr dm \<and>
      dm_alg dm = em_alg m \<and> dk_contents (dm_unencrypted_data_key dm) = dk_contents (em_unencrypted_data_key m) \<and>
      (\<forall>sc. em_signctx m = Some sc \<longrightarrow> (\<exists>vc. dm_signctx dm = Some vc \<and> sig_pair kp sc vc))"
    by (elim conjE exE) (intro exI conjI)
qed

theorem default_cmm_materials_witness:
  "\<exists>m ctx d'. aws_cryptosdk_cmm_generate_enc_materials
      (default_cmm_vt env_ref \<lparr>dc_kr = ref_keyring, dc_default_alg = DEFAULT_ALG_UNSET\<rparr>)
      \<lparr>er_enc_ctx = [], er_requested_alg = 0, er_plaintext_size = 5, er_commitment_policy = COMMITMENT_POLICY_REQUIRE_ENCRYPT_REQUIRE_DECRYPT\<rparr> 0
      = (Inr m, ctx, d') \<and> em_alg m = DEFAULT_ALG_KEY_COMMITTING \<and> em_signctx m \<noteq> None"
proof -
  let ?rq = "\<lparr>er_enc_ctx = [], er_requested_alg = 0, er_plaintext_size = 5,
    er_commitment_policy = COMMITMENT_POLICY_REQUIRE_ENCRYPT_REQUIRE_DECRYPT\<rparr> :: enc_request"
  have a: "choose_alg \<lparr>dc_kr = ref_keyring, dc_default_alg = DEFAULT_ALG_UNSET\<rparr> ?rq = DEFAULT_ALG_KEY_COMMITTING"
    by (simp add: choose_alg_def aws_cryptosdk_commitment_policy_encrypt_must_include_commitment_def)
  obtain p where p: "aws_cryptosdk_alg_props DEFAULT_ALG_KEY_COMMITTING = Some p" "signature_len p \<noteq> 0" by (simp add: alg_table)
  obtain m ctx d' where g: "aws_cryptosdk_cmm_generate_enc_materials
      (default_cmm_vt env_ref \<lparr>dc_kr = ref_keyring, dc_default_alg = DEFAULT_ALG_UNSET\<rparr>) ?rq 0 = (Inr m, ctx, d')"
      and f: "enc_ctx_fits ctx"
    using ref_generates [of DEFAULT_ALG_UNSET ?rq p 0, unfolded a, OF p(1)] by (simp only: enc_request.simps simp_thms) blast
  have "hash_valid (er_enc_ctx ?rq)" by (simp add: hash_valid_def)
  from default_cmm_materials [OF default_ref.default_cmm_env_axioms this f g] show ?thesis
    using g p unfolding a by (metis option.inject)
qed

end
