(* ===== verification/Header.thy ===== *)
theory Header
  imports AlgProps ListUtils
begin

text \<open>
  The message header (\<^verbatim>\<open>source/header.c\<close>): its structure, the parser with one function per field,
  the size computation and the writer.
\<close>

record hdr =
  hdr_alloc :: bool
  hdr_alg_id :: "16 word"
  hdr_frame_len :: "32 word"
  hdr_iv :: byte_buf
  hdr_auth_tag :: byte_buf
  hdr_message_id :: byte_buf
  hdr_alg_suite_data :: byte_buf
  hdr_enc_ctx :: hash_table
  hdr_edk_list :: "edk list"
  hdr_auth_len :: nat

abbreviation AWS_CRYPTOSDK_HEADER_TYPE_CUSTOMER_AED :: byte where
  "AWS_CRYPTOSDK_HEADER_TYPE_CUSTOMER_AED \<equiv> 0x80"

text \<open>The all-zero header.\<close>

definition hdr_zero :: hdr where
  "hdr_zero = \<lparr>hdr_alloc = False, hdr_alg_id = 0, hdr_frame_len = 0, hdr_iv = buf_zero,
     hdr_auth_tag = buf_zero, hdr_message_id = buf_zero, hdr_alg_suite_data = buf_zero,
     hdr_enc_ctx = [], hdr_edk_list = [], hdr_auth_len = 0\<rparr>"

section \<open>Life cycle\<close>

definition aws_cryptosdk_hdr_init :: "aws_lib \<Rightarrow> hdr result" where
  "aws_cryptosdk_hdr_init L =
     bindE (aws_cryptosdk_enc_ctx_init L) (\<lambda>ctx.
     bindE (aws_cryptosdk_edk_list_init L) (\<lambda>edks.
     Inr (hdr_zero\<lparr>hdr_enc_ctx := ctx, hdr_edk_list := edks, hdr_alloc := True\<rparr>)))"

definition aws_cryptosdk_hdr_clear :: "hdr \<Rightarrow> hdr" where
  "aws_cryptosdk_hdr_clear h =
     h\<lparr>hdr_alg_id := 0, hdr_frame_len := 0, hdr_iv := buf_zero, hdr_auth_tag := buf_zero,
       hdr_message_id := buf_zero, hdr_alg_suite_data := buf_zero,
       hdr_edk_list := aws_cryptosdk_edk_list_clear (hdr_edk_list h),
       hdr_enc_ctx := aws_cryptosdk_enc_ctx_clear (hdr_enc_ctx h), hdr_auth_len := 0\<rparr>"

definition aws_cryptosdk_hdr_clean_up :: "hdr \<Rightarrow> hdr" where
  "aws_cryptosdk_hdr_clean_up h = (if \<not> hdr_alloc h then h else hdr_zero)"

definition aws_cryptosdk_hdr_is_valid :: "hdr \<Rightarrow> bool" where
  "aws_cryptosdk_hdr_is_valid h \<longleftrightarrow>
     hdr_alloc h \<and> aws_cryptosdk_edk_list_elements_are_valid (hdr_edk_list h) \<and>
     buf_valid (hdr_iv h) \<and> buf_valid (hdr_auth_tag h) \<and> buf_valid (hdr_message_id h) \<and>
     buf_valid (hdr_alg_suite_data h) \<and> hash_valid (hdr_enc_ctx h)"

section \<open>Parsing\<close>

text \<open>
  A field parser returns either the error raised together with the header it has cleared, or its
  value, the new header and the advanced cursor.
\<close>

type_synonym 'a hdr_parser_result = "error \<times> hdr + 'a"

definition aws_cryptosdk_priv_hdr_parse_err_short_buf :: "hdr \<Rightarrow> error \<times> hdr" where
  "aws_cryptosdk_priv_hdr_parse_err_short_buf h = (AWS_ERROR_SHORT_BUFFER, aws_cryptosdk_hdr_clear h)"

definition aws_cryptosdk_priv_hdr_parse_err_generic :: "hdr \<Rightarrow> error \<times> hdr" where
  "aws_cryptosdk_priv_hdr_parse_err_generic h =
     (AWS_CRYPTOSDK_ERR_BAD_CIPHERTEXT, aws_cryptosdk_hdr_clear h)"

definition aws_cryptosdk_priv_hdr_parse_err_mem :: "hdr \<Rightarrow> error \<times> hdr" where
  "aws_cryptosdk_priv_hdr_parse_err_mem h = (AWS_ERROR_OOM, aws_cryptosdk_hdr_clear h)"

definition aws_cryptosdk_priv_hdr_parse_err_rethrow :: "error \<Rightarrow> hdr \<Rightarrow> error \<times> hdr" where
  "aws_cryptosdk_priv_hdr_parse_err_rethrow e h = (e, aws_cryptosdk_hdr_clear h)"

text \<open>One length-prefixed field of an encrypted data key: length, allocation, contents.\<close>

definition parse_edk_field :: "aws_lib \<Rightarrow> byte_cursor \<Rightarrow> (byte_buf \<times> byte_cursor) result" where
  "parse_edk_field L cur =
     bindE (orE (lib_read_be16 L cur) AWS_ERROR_SHORT_BUFFER) (\<lambda>(field_len, cur).
     bindE (orE (lib_buf_init L (unat field_len)) AWS_ERROR_OOM) (\<lambda>buf.
     orE (lib_read_and_fill L cur buf) AWS_ERROR_SHORT_BUFFER))"

definition parse_edk :: "aws_lib \<Rightarrow> byte_cursor \<Rightarrow> (edk \<times> byte_cursor) result" where
  "parse_edk L cur =
     bindE (parse_edk_field L cur) (\<lambda>(id_buf, cur).
     bindE (parse_edk_field L cur) (\<lambda>(info_buf, cur).
     bindE (parse_edk_field L cur) (\<lambda>(ct_buf, cur).
     Inr (\<lparr>provider_id = id_buf, provider_info = info_buf, ciphertext = ct_buf\<rparr>, cur))))"

definition aws_cryptosdk_priv_hdr_parse_header_version ::
  "aws_lib \<Rightarrow> hdr \<Rightarrow> byte_cursor \<Rightarrow> (8 word \<times> byte_cursor) hdr_parser_result" where
  "aws_cryptosdk_priv_hdr_parse_header_version L h cur =
     bindE (orE (lib_read_u8 L cur) (aws_cryptosdk_priv_hdr_parse_err_short_buf h)) (\<lambda>(v, cur).
     bindE (guardE (aws_cryptosdk_header_version_is_known v)
       (aws_cryptosdk_priv_hdr_parse_err_generic h)) (\<lambda>_.
     Inr (v, cur)))"

definition aws_cryptosdk_priv_hdr_parse_message_type ::
  "aws_lib \<Rightarrow> hdr \<Rightarrow> byte_cursor \<Rightarrow> byte_cursor hdr_parser_result" where
  "aws_cryptosdk_priv_hdr_parse_message_type L h cur =
     bindE (orE (lib_read_u8 L cur) (aws_cryptosdk_priv_hdr_parse_err_short_buf h)) (\<lambda>(t, cur).
     bindE (guardE (t = AWS_CRYPTOSDK_HEADER_TYPE_CUSTOMER_AED)
       (aws_cryptosdk_priv_hdr_parse_err_generic h)) (\<lambda>_.
     Inr cur))"

text \<open>\<^verbatim>\<open>aws_cryptosdk_alg_props\<close> is never \<^verbatim>\<open>NULL\<close> after the check that the algorithm is known.\<close>

definition aws_cryptosdk_priv_hdr_parse_alg_id ::
  "aws_lib \<Rightarrow> hdr \<Rightarrow> 8 word \<Rightarrow> byte_cursor \<Rightarrow>
   (alg_properties \<times> hdr \<times> byte_cursor) hdr_parser_result" where
  "aws_cryptosdk_priv_hdr_parse_alg_id L h header_version cur =
     bindE (orE (lib_read_be16 L cur) (aws_cryptosdk_priv_hdr_parse_err_short_buf h)) (\<lambda>(aid, cur).
     bindE (guardE (aws_cryptosdk_algorithm_is_known aid)
       (aws_cryptosdk_priv_hdr_parse_err_generic h)) (\<lambda>_.
     let alg_props = the (aws_cryptosdk_alg_props aid) in
     bindE (guardE (msg_format_version alg_props = header_version)
       (aws_cryptosdk_priv_hdr_parse_err_generic h)) (\<lambda>_.
     Inr (alg_props, h\<lparr>hdr_alg_id := aid\<rparr>, cur))))"

definition aws_cryptosdk_priv_hdr_parse_message_id ::
  "aws_lib \<Rightarrow> hdr \<Rightarrow> alg_properties \<Rightarrow> byte_cursor \<Rightarrow> (hdr \<times> byte_cursor) hdr_parser_result" where
  "aws_cryptosdk_priv_hdr_parse_message_id L h alg_props cur =
     bindE (orE (lib_buf_init L (aws_cryptosdk_private_algorithm_message_id_len alg_props))
       (aws_cryptosdk_priv_hdr_parse_err_mem h)) (\<lambda>buf.
     bindE (orE (lib_read_and_fill L cur buf) (aws_cryptosdk_priv_hdr_parse_err_short_buf h))
       (\<lambda>(buf, cur).
     Inr (h\<lparr>hdr_message_id := buf\<rparr>, cur)))"

definition aws_cryptosdk_priv_hdr_parse_aad ::
  "aws_lib \<Rightarrow> hdr \<Rightarrow> byte_cursor \<Rightarrow> (hdr \<times> byte_cursor) hdr_parser_result" where
  "aws_cryptosdk_priv_hdr_parse_aad L h cur =
     bindE (orE (lib_read_be16 L cur) (aws_cryptosdk_priv_hdr_parse_err_short_buf h)) (\<lambda>(aad_len, cur).
     if aad_len = 0 then Inr (h, cur)
     else bindE (orE (lib_advance L cur (unat aad_len)) (aws_cryptosdk_priv_hdr_parse_err_short_buf h))
       (\<lambda>(aad, cur).
     case aws_cryptosdk_enc_ctx_deserialize L (hdr_enc_ctx h) aad of
       (Some e, ctx, aad) \<Rightarrow>
         Inl (aws_cryptosdk_priv_hdr_parse_err_generic (h\<lparr>hdr_enc_ctx := ctx\<rparr>))
     | (None, ctx, aad) \<Rightarrow>
         bindE (guardE (cur_len aad = 0)
           (aws_cryptosdk_priv_hdr_parse_err_generic (h\<lparr>hdr_enc_ctx := ctx\<rparr>))) (\<lambda>_.
         Inr (h\<lparr>hdr_enc_ctx := ctx\<rparr>, cur))))"

text \<open>The result of \<^verbatim>\<open>aws_array_list_push_back\<close> is ignored: a key that cannot be stored is dropped.\<close>

fun parse_edks_loop ::
  "aws_lib \<Rightarrow> nat \<Rightarrow> hdr \<Rightarrow> byte_cursor \<Rightarrow> (hdr \<times> byte_cursor) hdr_parser_result" where
  "parse_edks_loop L 0 h cur = Inr (h, cur)"
| "parse_edks_loop L (Suc n) h cur =
     (case parse_edk L cur of
        Inl e \<Rightarrow> Inl (aws_cryptosdk_priv_hdr_parse_err_rethrow e h)
      | Inr (e, cur') \<Rightarrow>
          parse_edks_loop L n
            (h\<lparr>hdr_edk_list :=
                 (if lib_push_back L (length (hdr_edk_list h)) then hdr_edk_list h @ [e]
                  else hdr_edk_list h)\<rparr>) cur')"

definition aws_cryptosdk_priv_hdr_parse_edks ::
  "aws_lib \<Rightarrow> hdr \<Rightarrow> byte_cursor \<Rightarrow> nat \<Rightarrow> (hdr \<times> byte_cursor) hdr_parser_result" where
  "aws_cryptosdk_priv_hdr_parse_edks L h cur max_encrypted_data_keys =
     bindE (orE (lib_read_be16 L cur) (aws_cryptosdk_priv_hdr_parse_err_short_buf h)) (\<lambda>(edk_count, cur).
     bindE (guardE (edk_count \<noteq> 0) (aws_cryptosdk_priv_hdr_parse_err_generic h)) (\<lambda>_.
     bindE (guardE (\<not> (max_encrypted_data_keys \<noteq> 0 \<and> unat edk_count > max_encrypted_data_keys))
       (aws_cryptosdk_priv_hdr_parse_err_rethrow AWS_CRYPTOSDK_ERR_LIMIT_EXCEEDED h)) (\<lambda>_.
     parse_edks_loop L (unat edk_count) h cur)))"

definition aws_cryptosdk_priv_hdr_parse_content_type ::
  "aws_lib \<Rightarrow> hdr \<Rightarrow> byte_cursor \<Rightarrow> (8 word \<times> byte_cursor) hdr_parser_result" where
  "aws_cryptosdk_priv_hdr_parse_content_type L h cur =
     bindE (orE (lib_read_u8 L cur) (aws_cryptosdk_priv_hdr_parse_err_short_buf h)) (\<lambda>(t, cur).
     bindE (guardE (is_known_type t) (aws_cryptosdk_priv_hdr_parse_err_generic h)) (\<lambda>_.
     Inr (t, cur)))"

definition aws_cryptosdk_priv_hdr_parse_reserved ::
  "aws_lib \<Rightarrow> hdr \<Rightarrow> byte_cursor \<Rightarrow> byte_cursor hdr_parser_result" where
  "aws_cryptosdk_priv_hdr_parse_reserved L h cur =
     bindE (orE (lib_read_be32 L cur) (aws_cryptosdk_priv_hdr_parse_err_short_buf h)) (\<lambda>(reserved, cur).
     bindE (guardE (reserved = 0) (aws_cryptosdk_priv_hdr_parse_err_generic h)) (\<lambda>_.
     Inr cur))"

definition aws_cryptosdk_priv_hdr_parse_iv_len ::
  "aws_lib \<Rightarrow> hdr \<Rightarrow> byte_cursor \<Rightarrow> (8 word \<times> byte_cursor) hdr_parser_result" where
  "aws_cryptosdk_priv_hdr_parse_iv_len L h cur =
     bindE (orE (lib_read_u8 L cur) (aws_cryptosdk_priv_hdr_parse_err_short_buf h)) (\<lambda>(n, cur).
     bindE (guardE (uint n = aws_cryptosdk_private_algorithm_ivlen (hdr_alg_id h))
       (aws_cryptosdk_priv_hdr_parse_err_generic h)) (\<lambda>_.
     Inr (n, cur)))"

definition aws_cryptosdk_priv_hdr_parse_frame_len ::
  "aws_lib \<Rightarrow> hdr \<Rightarrow> 8 word \<Rightarrow> byte_cursor \<Rightarrow> (hdr \<times> byte_cursor) hdr_parser_result" where
  "aws_cryptosdk_priv_hdr_parse_frame_len L h content_type cur =
     bindE (orE (lib_read_be32 L cur) (aws_cryptosdk_priv_hdr_parse_err_short_buf h)) (\<lambda>(frame_len, cur).
     bindE (guardE (\<not> ((content_type = AWS_CRYPTOSDK_HEADER_CTYPE_NONFRAMED \<and> frame_len \<noteq> 0) \<or>
                        (content_type = AWS_CRYPTOSDK_HEADER_CTYPE_FRAMED \<and> frame_len = 0)))
       (aws_cryptosdk_priv_hdr_parse_err_generic h)) (\<lambda>_.
     Inr (h\<lparr>hdr_frame_len := frame_len\<rparr>, cur)))"

definition aws_cryptosdk_priv_hdr_parse_alg_suite_data ::
  "aws_lib \<Rightarrow> hdr \<Rightarrow> alg_properties \<Rightarrow> byte_cursor \<Rightarrow> (hdr \<times> byte_cursor) hdr_parser_result" where
  "aws_cryptosdk_priv_hdr_parse_alg_suite_data L h alg_props cur =
     (if alg_suite_data_len alg_props = 0 then Inr (h, cur)
      else bindE (orE (lib_buf_init L (alg_suite_data_len alg_props))
          (aws_cryptosdk_priv_hdr_parse_err_mem h)) (\<lambda>buf.
        bindE (orE (lib_read_and_fill L cur buf) (aws_cryptosdk_priv_hdr_parse_err_short_buf h))
          (\<lambda>(buf, cur).
        Inr (h\<lparr>hdr_alg_suite_data := buf\<rparr>, cur))))"

definition aws_cryptosdk_priv_hdr_parse_iv ::
  "aws_lib \<Rightarrow> hdr \<Rightarrow> 8 word \<Rightarrow> byte_cursor \<Rightarrow> (hdr \<times> byte_cursor) hdr_parser_result" where
  "aws_cryptosdk_priv_hdr_parse_iv L h n cur =
     bindE (orE (lib_buf_init L (unat n)) (aws_cryptosdk_priv_hdr_parse_err_mem h)) (\<lambda>buf.
     bindE (orE (lib_read_and_fill L cur buf) (aws_cryptosdk_priv_hdr_parse_err_short_buf h))
       (\<lambda>(buf, cur).
     Inr (h\<lparr>hdr_iv := buf\<rparr>, cur)))"

definition aws_cryptosdk_priv_hdr_parse_auth_tag ::
  "aws_lib \<Rightarrow> hdr \<Rightarrow> byte_cursor \<Rightarrow> (hdr \<times> byte_cursor) hdr_parser_result" where
  "aws_cryptosdk_priv_hdr_parse_auth_tag L h cur =
     bindE (orE (lib_buf_init L (nat (aws_cryptosdk_private_algorithm_taglen (hdr_alg_id h))))
       (aws_cryptosdk_priv_hdr_parse_err_mem h)) (\<lambda>buf.
     bindE (orE (lib_read_and_fill L cur buf) (aws_cryptosdk_priv_hdr_parse_err_short_buf h))
       (\<lambda>(buf, cur).
     Inr (h\<lparr>hdr_auth_tag := buf\<rparr>, cur)))"

text \<open>
  The sequence of field parsers that \<^verbatim>\<open>aws_cryptosdk_hdr_parse\<close> runs on the cleared header: up to the
  encrypted data keys, and from the content type to the authentication tag.
\<close>

definition hdr_parse_head ::
  "aws_lib \<Rightarrow> hdr \<Rightarrow> byte_cursor \<Rightarrow> nat \<Rightarrow>
   (8 word \<times> alg_properties \<times> hdr \<times> byte_cursor) hdr_parser_result" where
  "hdr_parse_head L h cur max_encrypted_data_keys =
     bindE (aws_cryptosdk_priv_hdr_parse_header_version L h cur) (\<lambda>(header_version, cur).
     bindE (if header_version = AWS_CRYPTOSDK_HEADER_VERSION_1_0
            then aws_cryptosdk_priv_hdr_parse_message_type L h cur else Inr cur) (\<lambda>cur.
     bindE (aws_cryptosdk_priv_hdr_parse_alg_id L h header_version cur) (\<lambda>(alg_props, h, cur).
     bindE (aws_cryptosdk_priv_hdr_parse_message_id L h alg_props cur) (\<lambda>(h, cur).
     bindE (aws_cryptosdk_priv_hdr_parse_aad L h cur) (\<lambda>(h, cur).
     bindE (aws_cryptosdk_priv_hdr_parse_edks L h cur max_encrypted_data_keys) (\<lambda>(h, cur).
     Inr (header_version, alg_props, h, cur)))))))"

definition hdr_parse_tail ::
  "aws_lib \<Rightarrow> byte_cursor \<Rightarrow> 8 word \<Rightarrow> alg_properties \<Rightarrow> hdr \<Rightarrow> byte_cursor \<Rightarrow>
   (hdr \<times> byte_cursor) hdr_parser_result" where
  "hdr_parse_tail L pcursor header_version alg_props h cur =
     bindE (aws_cryptosdk_priv_hdr_parse_content_type L h cur) (\<lambda>(content_type, cur).
     bindE (if header_version = AWS_CRYPTOSDK_HEADER_VERSION_1_0
            then bindE (aws_cryptosdk_priv_hdr_parse_reserved L h cur)
                   (\<lambda>cur. aws_cryptosdk_priv_hdr_parse_iv_len L h cur)
            else Inr (0, cur)) (\<lambda>(ivl, cur).
     bindE (aws_cryptosdk_priv_hdr_parse_frame_len L h content_type cur) (\<lambda>(h, cur).
     bindE (if header_version = AWS_CRYPTOSDK_HEADER_VERSION_2_0
            then aws_cryptosdk_priv_hdr_parse_alg_suite_data L h alg_props cur
            else Inr (h, cur)) (\<lambda>(h, cur).
     let h = h\<lparr>hdr_auth_len := cur_ptr cur - cur_ptr pcursor\<rparr> in
     bindE (if header_version = AWS_CRYPTOSDK_HEADER_VERSION_1_0
            then aws_cryptosdk_priv_hdr_parse_iv L h ivl cur else Inr (h, cur)) (\<lambda>(h, cur).
     aws_cryptosdk_priv_hdr_parse_auth_tag L h cur)))))"

definition hdr_parse_fields ::
  "aws_lib \<Rightarrow> hdr \<Rightarrow> byte_cursor \<Rightarrow> nat \<Rightarrow> (hdr \<times> byte_cursor) hdr_parser_result" where
  "hdr_parse_fields L h pcursor max_encrypted_data_keys =
     bindE (hdr_parse_head L h pcursor max_encrypted_data_keys)
       (\<lambda>(header_version, alg_props, h, cur). hdr_parse_tail L pcursor header_version alg_props h cur)"

definition aws_cryptosdk_hdr_parse ::
  "aws_lib \<Rightarrow> hdr \<Rightarrow> byte_cursor \<Rightarrow> nat \<Rightarrow> status \<times> hdr \<times> byte_cursor" where
  "aws_cryptosdk_hdr_parse L h pcursor max_encrypted_data_keys =
     (case hdr_parse_fields L (aws_cryptosdk_hdr_clear h) pcursor max_encrypted_data_keys of
        Inl (e, h') \<Rightarrow> (AWS_OP_ERR e, h', pcursor)
      | Inr (h', cur) \<Rightarrow> (AWS_OP_SUCCESS, h', cur))"

section \<open>Size\<close>

type_synonym size_t = "64 word"

abbreviation SIZE_MAX :: size_t where
  "SIZE_MAX \<equiv> - 1"

definition saturating_add :: "size_t \<Rightarrow> size_t \<Rightarrow> size_t" where
  "saturating_add a b = (let c = a + b in if c < a then SIZE_MAX else c)"

fun hdr_size_edks :: "size_t \<Rightarrow> edk list \<Rightarrow> size_t" where
  "hdr_size_edks bytes [] = bytes"
| "hdr_size_edks bytes (e # edks) =
     hdr_size_edks
       (saturating_add
          (saturating_add
             (saturating_add (saturating_add bytes 6) (word_of_nat (buf_len (provider_id e))))
             (word_of_nat (buf_len (provider_info e))))
          (word_of_nat (buf_len (ciphertext e)))) edks"

text \<open>The result has type \<^verbatim>\<open>int\<close>: the low 32 bits of the \<^verbatim>\<open>size_t\<close>, read as a signed number.\<close>

definition aws_cryptosdk_hdr_size :: "aws_lib \<Rightarrow> hdr \<Rightarrow> int" where
  "aws_cryptosdk_hdr_size L h =
     (if h = hdr_zero then 0
      else case aws_cryptosdk_alg_props (hdr_alg_id h) of
        None \<Rightarrow> 0
      | Some alg_props \<Rightarrow>
          (let static_fields_len =
             aws_cryptosdk_header_version_static_fields_len (msg_format_version alg_props) in
           if static_fields_len = - 1 then 0
           else
             let dynamic_fields_len =
                   word_of_nat (buf_len (hdr_message_id h)) + word_of_nat (buf_len (hdr_alg_suite_data h));
                 authtag_len = word_of_nat (aws_cryptosdk_private_authtag_len alg_props);
                 bytes = word_of_int static_fields_len + dynamic_fields_len + authtag_len
             in case aws_cryptosdk_enc_ctx_size L (hdr_enc_ctx h) of
                  Inl e \<Rightarrow> 0
                | Inr aad_len \<Rightarrow>
                    let bytes = hdr_size_edks (bytes + word_of_nat aad_len) (hdr_edk_list h) in
                    if bytes = SIZE_MAX then 0 else sint (ucast bytes :: 32 word)))"

section \<open>Writing\<close>

text \<open>
  The two bytes reserved for the length of the encryption context are a buffer of their own that
  shares memory with the output; \<open>write_aad_len\<close> writes through it at offset \<open>off\<close>.
\<close>

definition write_aad_len :: "aws_lib \<Rightarrow> nat \<Rightarrow> byte_buf \<Rightarrow> 16 word \<Rightarrow> byte_buf option" where
  "write_aad_len L off output n =
     (case lib_write_be16 L (buf_from_empty_array (range_of (buf_mem output) off 2)) n of
        None \<Rightarrow> None
      | Some field \<Rightarrow> Some (output\<lparr>buf_mem := splice (buf_mem output) off (buf_mem field)\<rparr>))"

definition write_buf :: "aws_lib \<Rightarrow> byte_buf \<Rightarrow> byte_buf \<Rightarrow> byte_buf option" where
  "write_buf L output b = lib_write L output (buf_contents b)"

definition write_edk_field :: "aws_lib \<Rightarrow> byte_buf \<Rightarrow> byte_buf \<Rightarrow> byte_buf option" where
  "write_edk_field L b output =
     (case lib_write_be16 L output (word_of_nat (buf_len b)) of
        None \<Rightarrow> None | Some output \<Rightarrow> write_buf L output b)"

fun write_edks :: "aws_lib \<Rightarrow> edk list \<Rightarrow> byte_buf \<Rightarrow> byte_buf option" where
  "write_edks L [] output = Some output"
| "write_edks L (e # edks) output =
     (case write_edk_field L (provider_id e) output of
        None \<Rightarrow> None
      | Some output \<Rightarrow>
     (case write_edk_field L (provider_info e) output of
        None \<Rightarrow> None
      | Some output \<Rightarrow>
     (case write_edk_field L (ciphertext e) output of
        None \<Rightarrow> None
      | Some output \<Rightarrow> write_edks L edks output)))"

text \<open>
  The writer up to and including the message id, the encryption context with its length, and the
  rest of the header; \<^const>\<open>None\<close> is the jump to \<^verbatim>\<open>WRITE_ERR\<close>.
\<close>

definition hdr_write_start :: "aws_lib \<Rightarrow> hdr \<Rightarrow> 8 word \<Rightarrow> byte_buf \<Rightarrow> byte_buf option" where
  "hdr_write_start L h header_version output =
     (case lib_write_u8 L output header_version of
        None \<Rightarrow> None
      | Some output \<Rightarrow>
     (case (if header_version = AWS_CRYPTOSDK_HEADER_VERSION_1_0
            then lib_write_u8 L output AWS_CRYPTOSDK_HEADER_TYPE_CUSTOMER_AED
            else Some output) of
        None \<Rightarrow> None
      | Some output \<Rightarrow>
     (case lib_write_be16 L output (hdr_alg_id h) of
        None \<Rightarrow> None
      | Some output \<Rightarrow> write_buf L output (hdr_message_id h))))"

definition hdr_write_aad :: "aws_lib \<Rightarrow> hdr \<Rightarrow> byte_buf \<Rightarrow> byte_buf option" where
  "hdr_write_aad L h output =
     (let aad_off = buf_len output in
      case lib_buf_advance L output 2 of
        None \<Rightarrow> None
      | Some output \<Rightarrow>
          (let old_len = buf_len output in
           case aws_cryptosdk_enc_ctx_serialize L output (hdr_enc_ctx h) of
             (Some e, _) \<Rightarrow> None
           | (None, output) \<Rightarrow>
               write_aad_len L aad_off output (word_of_nat (buf_len output - old_len))))"

definition hdr_write_rest :: "aws_lib \<Rightarrow> hdr \<Rightarrow> 8 word \<Rightarrow> byte_buf \<Rightarrow> byte_buf option" where
  "hdr_write_rest L h header_version output =
     (case lib_write_be16 L output (word_of_nat (length (hdr_edk_list h))) of
        None \<Rightarrow> None
      | Some output \<Rightarrow>
     (case write_edks L (hdr_edk_list h) output of
        None \<Rightarrow> None
      | Some output \<Rightarrow>
     (case lib_write_u8 L output
         (if hdr_frame_len h \<noteq> 0 then AWS_CRYPTOSDK_HEADER_CTYPE_FRAMED
          else AWS_CRYPTOSDK_HEADER_CTYPE_NONFRAMED) of
        None \<Rightarrow> None
      | Some output \<Rightarrow>
     (case (if header_version = AWS_CRYPTOSDK_HEADER_VERSION_1_0
            then (case lib_write L output [0, 0, 0, 0] of
                    None \<Rightarrow> None
                  | Some output \<Rightarrow> lib_write_u8 L output (word_of_nat (buf_len (hdr_iv h))))
            else Some output) of
        None \<Rightarrow> None
      | Some output \<Rightarrow>
     (case lib_write_be32 L output (hdr_frame_len h) of
        None \<Rightarrow> None
      | Some output \<Rightarrow>
     (case write_buf L output (hdr_alg_suite_data h) of
        None \<Rightarrow> None
      | Some output \<Rightarrow>
     (case (if header_version = AWS_CRYPTOSDK_HEADER_VERSION_1_0
            then write_buf L output (hdr_iv h) else Some output) of
        None \<Rightarrow> None
      | Some output \<Rightarrow> write_buf L output (hdr_auth_tag h))))))))"

definition aws_cryptosdk_hdr_write :: "aws_lib \<Rightarrow> hdr \<Rightarrow> bytes \<Rightarrow> status \<times> nat \<times> bytes" where
  "aws_cryptosdk_hdr_write L h outbuf =
     (let output = buf_from_empty_array outbuf; zeroed = replicate (length outbuf) 0 in
      case aws_cryptosdk_alg_props (hdr_alg_id h) of
        None \<Rightarrow> (AWS_OP_ERR AWS_CRYPTOSDK_ERR_BAD_STATE, 0, zeroed)
      | Some alg_props \<Rightarrow>
          (let header_version = msg_format_version alg_props in
           case (case hdr_write_start L h header_version output of
                   None \<Rightarrow> None
                 | Some output \<Rightarrow>
                     (case hdr_write_aad L h output of
                        None \<Rightarrow> None
                      | Some output \<Rightarrow> hdr_write_rest L h header_version output)) of
             None \<Rightarrow> (AWS_OP_ERR AWS_ERROR_SHORT_BUFFER, 0, zeroed)
           | Some output \<Rightarrow> (AWS_OP_SUCCESS, buf_len output, buf_mem output)))"

end
