(* ===== verification/HeaderWrite.thy ===== *)
theory HeaderWrite
  imports Header
begin

text \<open>
  Correctness of the header writer and of the size computation: \<open>hdr_bytes\<close> is the wire format of
  a header, the writer produces exactly it or fails and wipes the output, and the size computed
  beforehand is its length.
\<close>

section \<open>The wire format\<close>

definition edk_field_bytes :: "byte_buf \<Rightarrow> bytes" where
  "edk_field_bytes b = be_bytes 2 (word_of_nat (buf_len b) :: 16 word) @ buf_contents b"

definition edk_bytes :: "edk \<Rightarrow> bytes" where
  "edk_bytes e = edk_field_bytes (provider_id e) @ edk_field_bytes (provider_info e) @
                 edk_field_bytes (ciphertext e)"

definition hdr_version :: "hdr \<Rightarrow> 8 word" where
  "hdr_version h = (if aws_cryptosdk_algorithm_is_committing (hdr_alg_id h)
     then AWS_CRYPTOSDK_HEADER_VERSION_2_0 else AWS_CRYPTOSDK_HEADER_VERSION_1_0)"

definition hdr_start_bytes :: "hdr \<Rightarrow> bytes" where
  "hdr_start_bytes h =
     [hdr_version h] @
     (if hdr_version h = AWS_CRYPTOSDK_HEADER_VERSION_1_0
      then [AWS_CRYPTOSDK_HEADER_TYPE_CUSTOMER_AED] else []) @
     be_bytes 2 (hdr_alg_id h) @ buf_contents (hdr_message_id h)"

definition hdr_aad_bytes :: "hdr \<Rightarrow> bytes" where
  "hdr_aad_bytes h =
     be_bytes 2 (word_of_nat (length (enc_ctx_bytes (hdr_enc_ctx h))) :: 16 word) @
     enc_ctx_bytes (hdr_enc_ctx h)"

definition hdr_edks_bytes :: "hdr \<Rightarrow> bytes" where
  "hdr_edks_bytes h =
     be_bytes 2 (word_of_nat (length (hdr_edk_list h)) :: 16 word) @
     concat (map edk_bytes (hdr_edk_list h))"

definition hdr_frame_bytes :: "hdr \<Rightarrow> bytes" where
  "hdr_frame_bytes h =
     [if hdr_frame_len h \<noteq> 0 then AWS_CRYPTOSDK_HEADER_CTYPE_FRAMED
      else AWS_CRYPTOSDK_HEADER_CTYPE_NONFRAMED] @
     (if hdr_version h = AWS_CRYPTOSDK_HEADER_VERSION_1_0
      then [0, 0, 0, 0] @ [word_of_nat (buf_len (hdr_iv h))] else []) @
     be_bytes 4 (hdr_frame_len h) @ buf_contents (hdr_alg_suite_data h)"

definition hdr_auth_bytes :: "hdr \<Rightarrow> bytes" where
  "hdr_auth_bytes h =
     (if hdr_version h = AWS_CRYPTOSDK_HEADER_VERSION_1_0 then buf_contents (hdr_iv h) else []) @
     buf_contents (hdr_auth_tag h)"

text \<open>The authenticated part, and the whole header.\<close>

definition hdr_body_bytes :: "hdr \<Rightarrow> bytes" where
  "hdr_body_bytes h =
     hdr_start_bytes h @ hdr_aad_bytes h @ hdr_edks_bytes h @ hdr_frame_bytes h"

definition hdr_bytes :: "hdr \<Rightarrow> bytes" where
  "hdr_bytes h = hdr_body_bytes h @ hdr_auth_bytes h"

section \<open>The writer\<close>

lemma writes_if:
  "(b \<Longrightarrow> writes f bs) \<Longrightarrow> (\<not> b \<Longrightarrow> writes g cs) \<Longrightarrow>
     writes (\<lambda>x. if b then f x else g x) (if b then bs else cs)"
  by simp

lemma writes_fails: "writes f bs \<Longrightarrow> buf_valid b \<Longrightarrow> \<not> fits b (length bs) \<Longrightarrow> f b = None"
  by (simp add: writes_def)

lemma written_reserved:
  assumes "fits b (length bs + length cs)"
  defines "b' \<equiv> written (b\<lparr>buf_len := buf_len b + length bs\<rparr>) cs"
  shows "b'\<lparr>buf_mem := splice (buf_mem b') (buf_len b) bs\<rparr> = written b (bs @ cs)"
  using assms by (simp add: written_def splice_def fits_def min_def ac_simps)

context aws_c_common
begin

lemma writes_write_buf: "writes (\<lambda>out. write_buf L out b) (buf_contents b)"
  unfolding write_buf_def by (rule writes_lib)

lemma writes_edk_field: "writes (write_edk_field L b) (edk_field_bytes b)"
  unfolding write_edk_field_def edk_field_bytes_def
  by (intro writes_seq writes_lib writes_write_buf)

lemma writes_edks: "writes (write_edks L edks) (concat (map edk_bytes edks))"
proof (induction edks)
  case (Cons e edks)
  then show ?case
    unfolding write_edks.simps list.map concat.simps edk_bytes_def append_assoc
    by (intro writes_seq writes_edk_field)
qed (simp add: writes_done)

lemma writes_hdr_start: "writes (hdr_write_start L h (hdr_version h)) (hdr_start_bytes h)"
  unfolding hdr_write_start_def hdr_start_bytes_def
  by (intro writes_seq writes_lib writes_write_buf writes_if writes_done)

lemma writes_hdr_rest:
  "writes (hdr_write_rest L h (hdr_version h)) (hdr_edks_bytes h @ hdr_frame_bytes h @ hdr_auth_bytes h)"
  unfolding hdr_write_rest_def hdr_edks_bytes_def hdr_frame_bytes_def hdr_auth_bytes_def append_assoc
  by (intro writes_seq writes_lib writes_write_buf writes_edks writes_if writes_done)

end

context aws_c_common_mem
begin

lemma write_aad_len_eq:
  assumes "fits b (2 + length cs)"
  defines "b' \<equiv> written (b\<lparr>buf_len := buf_len b + 2\<rparr>) cs"
  shows "write_aad_len L (buf_len b) b' n = Some (written b (be_bytes 2 n @ cs))"
proof -
  have cap: "buf_capacity b' = buf_capacity b"
    using assms(1) unfolding b'_def by (simp add: written_def fits_def)
  let ?f = "buf_from_empty_array (range_of (buf_mem b') (buf_len b) 2)"
  have "length (range_of (buf_mem b') (buf_len b) 2) = 2"
    using assms(1) cap by (simp add: fits_def)
  then have "lib_write_be16 L ?f n = Some (written ?f (be_bytes 2 n))" "buf_mem (written ?f (be_bytes 2 n)) = be_bytes 2 n"
    by (simp_all add: write_be16 buf_from_empty_array_def buf_valid_def fits_def written_def splice_def)
  then show ?thesis
    using written_reserved [of b "be_bytes 2 n" cs] assms(1) by (simp add: write_aad_len_def b'_def)
qed

lemma writes_hdr_aad:
  assumes "hash_valid (hdr_enc_ctx h)" "enc_ctx_fits (hdr_enc_ctx h)"
  shows "writes (hdr_write_aad L h) (hdr_aad_bytes h)"
  unfolding writes_def
proof (intro allI impI)
  fix b assume v: "buf_valid b"
  let ?cs = "enc_ctx_bytes (hdr_enc_ctx h)" and ?b = "b\<lparr>buf_len := buf_len b + 2\<rparr>"
  show "hdr_write_aad L h b =
      (if fits b (length (hdr_aad_bytes h)) then Some (written b (hdr_aad_bytes h)) else None)"
  proof (cases "fits b 2")
    case True
    then have v': "buf_valid ?b" and f: "fits ?b (length ?cs) \<longleftrightarrow> fits b (length (hdr_aad_bytes h))"
      by (simp_all add: buf_valid_def fits_def hdr_aad_bytes_def add.assoc)
    show ?thesis
    proof (cases "fits b (length (hdr_aad_bytes h))")
      case fit: True
      then have "aws_cryptosdk_enc_ctx_serialize L ?b (hdr_enc_ctx h) = (None, written ?b ?cs)"
        using enc_ctx_serialize_eq [OF assms(1) v' assms(2)] f by simp
      then show ?thesis
        using True fit write_aad_len_eq [of b ?cs]
        by (simp add: hdr_write_aad_def buf_advance v hdr_aad_bytes_def)
    next
      case False
      then have "fst (aws_cryptosdk_enc_ctx_serialize L ?b (hdr_enc_ctx h)) \<noteq> None"
        using writes_fails [OF writes_enc_ctx_serialize [OF assms] v'] f
        by (auto split: prod.splits option.splits)
      then show ?thesis
        using True False by (auto simp: hdr_write_aad_def buf_advance v split: prod.splits option.splits)
    qed
  next
    case False
    moreover have "\<not> fits b (length (hdr_aad_bytes h))"
      using False fits_le [of b "length (hdr_aad_bytes h)" 2] by (auto simp: hdr_aad_bytes_def)
    ultimately show ?thesis by (simp add: hdr_write_aad_def buf_advance v)
  qed
qed

lemma hdr_write_eq:
  assumes "aws_cryptosdk_algorithm_is_known (hdr_alg_id h)"
    and "hash_valid (hdr_enc_ctx h)" "enc_ctx_fits (hdr_enc_ctx h)"
  shows "aws_cryptosdk_hdr_write L h outbuf =
    (if length (hdr_bytes h) \<le> length outbuf
     then (AWS_OP_SUCCESS, length (hdr_bytes h), hdr_bytes h @ drop (length (hdr_bytes h)) outbuf)
     else (AWS_OP_ERR AWS_ERROR_SHORT_BUFFER, 0, replicate (length outbuf) 0))"
proof -
  obtain p where p: "aws_cryptosdk_alg_props (hdr_alg_id h) = Some p"
    using assms(1) alg_props_known by blast
  then have v: "msg_format_version p = hdr_version h"
    by (simp add: hdr_version_def alg_props_fields)
  let ?w = "\<lambda>out. case hdr_write_start L h (hdr_version h) out of None \<Rightarrow> None
      | Some out \<Rightarrow> (case hdr_write_aad L h out of None \<Rightarrow> None
      | Some out \<Rightarrow> hdr_write_rest L h (hdr_version h) out)"
  have "writes ?w (hdr_start_bytes h @ hdr_aad_bytes h @ hdr_edks_bytes h @ hdr_frame_bytes h @ hdr_auth_bytes h)"
    by (intro writes_seq writes_hdr_start writes_hdr_aad writes_hdr_rest assms)
  then have "writes ?w (hdr_bytes h)"
    by (simp add: hdr_bytes_def hdr_body_bytes_def)
  moreover have "buf_valid (buf_from_empty_array outbuf)"
    by (simp add: buf_from_empty_array_def buf_valid_def)
  ultimately show ?thesis
    using writesD [of ?w "hdr_bytes h" "buf_from_empty_array outbuf"]
    by (simp add: aws_cryptosdk_hdr_write_def p v buf_from_empty_array_def fits_def written_def
        splice_def)
qed

end

section \<open>The size\<close>

lemma length_contents: "buf_valid b \<Longrightarrow> length (buf_contents b) = buf_len b"
  by (simp add: buf_valid_def buf_contents_def)

definition edk_len :: "edk \<Rightarrow> nat" where
  "edk_len e = 6 + buf_len (provider_id e) + buf_len (provider_info e) + buf_len (ciphertext e)"

lemma length_edk_bytes: "aws_cryptosdk_edk_is_valid e \<Longrightarrow> length (edk_bytes e) = edk_len e"
  by (simp add: aws_cryptosdk_edk_is_valid_def edk_bytes_def edk_field_bytes_def edk_len_def
      length_contents)

lemma edks_valid_iff:
  "aws_cryptosdk_edk_list_elements_are_valid edks \<longleftrightarrow> list_all aws_cryptosdk_edk_is_valid edks"
  by (induction edks) simp_all

lemma length_edks_bytes:
  "list_all aws_cryptosdk_edk_is_valid edks \<Longrightarrow>
     length (concat (map edk_bytes edks)) = sum_list (map edk_len edks)"
  by (induction edks) (simp_all add: length_edk_bytes)

lemma unat_saturating_add:
  assumes "unat a + unat b < 2 ^ 63"
  shows "unat (saturating_add a b) = unat a + unat b"
proof -
  have "unat (a + b) = unat a + unat b"
    using assms by (simp add: unat_word_ariths)
  then show ?thesis
    by (simp add: saturating_add_def Let_def word_less_nat_alt)
qed

lemma unat_of_small: "n < 2 ^ 63 \<Longrightarrow> unat (word_of_nat n :: size_t) = n"
  by (simp add: unat_of_nat)

lemma unat_hdr_size_edks:
  "unat bytes + sum_list (map edk_len edks) < 2 ^ 63 \<Longrightarrow>
     unat (hdr_size_edks bytes edks) = unat bytes + sum_list (map edk_len edks)"
proof (induction edks arbitrary: bytes)
  case (Cons e edks)
  let ?i = "buf_len (provider_id e)" and ?f = "buf_len (provider_info e)" and ?c = "buf_len (ciphertext e)"
  have lt: "unat bytes + 6 + ?i + ?f + ?c < 2 ^ 63"
    using Cons.prems by (simp add: edk_len_def)
  then have u: "unat (word_of_nat ?i :: size_t) = ?i" "unat (word_of_nat ?f :: size_t) = ?f"
      "unat (word_of_nat ?c :: size_t) = ?c" "unat (6 :: size_t) = 6"
    by (simp_all add: unat_of_small del: power_numeral)
  have "unat (saturating_add (saturating_add (saturating_add (saturating_add bytes 6)
      (word_of_nat ?i)) (word_of_nat ?f)) (word_of_nat ?c)) = unat bytes + edk_len e"
    using lt by (simp add: unat_saturating_add u edk_len_def del: power_numeral)
  then show ?case using Cons.IH Cons.prems by (simp add: add.assoc del: power_numeral)
qed simp

lemma length_hdr_bytes:
  assumes "aws_cryptosdk_hdr_is_valid h" "aws_cryptosdk_alg_props (hdr_alg_id h) = Some p"
    and "hdr_version h = AWS_CRYPTOSDK_HEADER_VERSION_1_0 \<Longrightarrow> buf_len (hdr_iv h) = iv_len p"
    and "buf_len (hdr_auth_tag h) = tag_len p"
  shows "length (hdr_bytes h) =
    nat (aws_cryptosdk_header_version_static_fields_len (msg_format_version p)) +
    (buf_len (hdr_message_id h) + buf_len (hdr_alg_suite_data h)) + aws_cryptosdk_private_authtag_len p +
    length (enc_ctx_bytes (hdr_enc_ctx h)) + sum_list (map edk_len (hdr_edk_list h))"
proof -
  have "msg_format_version p = hdr_version h"
    using assms(2) by (simp add: hdr_version_def alg_props_fields)
  moreover have "hdr_version h = 1 \<or> hdr_version h = 2" by (simp add: hdr_version_def)
  ultimately show ?thesis
    using assms length_edks_bytes [of "hdr_edk_list h"]
    by (auto simp: hdr_bytes_def hdr_body_bytes_def hdr_start_bytes_def hdr_aad_bytes_def
        hdr_edks_bytes_def hdr_frame_bytes_def hdr_auth_bytes_def length_contents
        aws_cryptosdk_hdr_is_valid_def edks_valid_iff aws_cryptosdk_private_authtag_len_def
        aws_cryptosdk_header_version_static_fields_len_def)
qed

lemma sint_ucast_small:
  assumes "unat (x :: size_t) < 2 ^ 31"
  shows "sint (ucast x :: 32 word) = int (unat x)"
proof -
  have "int (unat x) < int (2 ^ 31)" using assms by (simp only: of_nat_less_iff)
  then have lt: "uint x < 2 ^ 31"
    by (simp only: int_nat_eq unat_eq_nat_uint uint_ge_0 of_nat_power of_nat_numeral if_True)
  have u: "uint (ucast x :: 32 word) = uint x"
    unfolding unsigned_ucast_eq by (rule take_bit_int_eq_self) (use lt in simp_all)
  have "- 2147483648 \<le> uint x" by (rule order_trans [OF _ uint_ge_0]) simp
  then have "sint (ucast x :: 32 word) = uint x"
    unfolding sint_uint u by (intro signed_take_bit_int_eq_self) (use lt in simp_all)
  then show ?thesis by (simp only: unat_eq_nat_uint int_nat_eq uint_ge_0 if_True)
qed

section \<open>Properties\<close>

text \<open>A header to which the properties apply.\<close>

definition hdr_example :: hdr where
  "hdr_example = \<lparr>hdr_alloc = True, hdr_alg_id = ALG_AES256_GCM_HKDF_SHA512_COMMIT_KEY, hdr_frame_len = 16,
     hdr_iv = buf_zero, hdr_auth_tag = buf_from_array (replicate 16 1),
     hdr_message_id = buf_from_array (replicate 32 2), hdr_alg_suite_data = buf_from_array (replicate 32 3),
     hdr_enc_ctx = [([65], [66, 67])],
     hdr_edk_list = [\<lparr>provider_id = buf_from_array [80], provider_info = buf_zero, ciphertext = buf_from_array [5, 6]\<rparr>],
     hdr_auth_len = 0\<rparr>"

lemma length_hdr_example: "length (hdr_bytes hdr_example) = 110"
 by (simp add: hdr_bytes_def hdr_body_bytes_def hdr_start_bytes_def hdr_aad_bytes_def hdr_edks_bytes_def
   hdr_frame_bytes_def hdr_auth_bytes_def hdr_example_def hdr_version_def edk_bytes_def edk_field_bytes_def enc_ctx_bytes_def
   elem_bytes_def buf_contents_def buf_from_array_def buf_zero_def aws_cryptosdk_algorithm_is_committing_def)

lemma hdr_example_ctx: "hash_valid (hdr_enc_ctx hdr_example)" "enc_ctx_fits (hdr_enc_ctx hdr_example)"
  by (simp_all add: hdr_example_def hash_valid_def enc_ctx_fits_def enc_ctx_bytes_def elem_bytes_def)

lemma hdr_example_known: "aws_cryptosdk_algorithm_is_known (hdr_alg_id hdr_example)"
  by (simp add: hdr_example_def aws_cryptosdk_algorithm_is_known_def)

lemma hdr_example_valid: "aws_cryptosdk_hdr_is_valid hdr_example"
  by (simp add: aws_cryptosdk_hdr_is_valid_def hdr_example_def buf_from_array_def buf_valid_def hash_valid_def aws_cryptosdk_edk_is_valid_def)

text \<open>
  C12: The header writer succeeds exactly when the serialized header fits into the output; it then
  writes precisely the wire format and reports its length. Otherwise it fails with a short-buffer
  error, reports zero bytes and leaves the whole output zeroed.
\<close>

theorem hdr_write_correct:
  assumes "aws_c_common_mem L" "aws_cryptosdk_algorithm_is_known (hdr_alg_id h)"
    and "hash_valid (hdr_enc_ctx h)" "enc_ctx_fits (hdr_enc_ctx h)"
  shows "aws_cryptosdk_hdr_write L h outbuf =
    (if length (hdr_bytes h) \<le> length outbuf
     then (AWS_OP_SUCCESS, length (hdr_bytes h), hdr_bytes h @ drop (length (hdr_bytes h)) outbuf)
     else (AWS_OP_ERR AWS_ERROR_SHORT_BUFFER, 0, replicate (length outbuf) 0))"
  by (rule aws_c_common_mem.hdr_write_eq [OF assms])

theorem hdr_write_witness:
  "aws_cryptosdk_hdr_write aws_ref hdr_example (replicate 200 0) =
     (AWS_OP_SUCCESS, 110, hdr_bytes hdr_example @ replicate 90 0)"
  using hdr_write_correct [OF ref.aws_c_common_mem_axioms hdr_example_known hdr_example_ctx, of "replicate 200 0"]
  by (simp add: length_hdr_example)

lemma hdr_size_eq:
  assumes "aws_c_common L" "aws_cryptosdk_hdr_is_valid h"
    and "aws_cryptosdk_alg_props (hdr_alg_id h) = Some p"
    and "hdr_version h = AWS_CRYPTOSDK_HEADER_VERSION_1_0 \<Longrightarrow> buf_len (hdr_iv h) = iv_len p"
    and "buf_len (hdr_auth_tag h) = tag_len p" "enc_ctx_fits (hdr_enc_ctx h)"
    and "length (hdr_bytes h) < 2 ^ 31"
  shows "aws_cryptosdk_hdr_size L h = int (length (hdr_bytes h))"
proof -
  let ?s = "aws_cryptosdk_header_version_static_fields_len (msg_format_version p)"
  let ?a = "length (enc_ctx_bytes (hdr_enc_ctx h))" and ?t = "aws_cryptosdk_private_authtag_len p"
  let ?m = "buf_len (hdr_message_id h)" and ?d = "buf_len (hdr_alg_suite_data h)"
  let ?b = "word_of_int ?s + (word_of_nat ?m + word_of_nat ?d) + word_of_nat ?t + word_of_nat ?a :: size_t"
  have len: "length (hdr_bytes h) =
      nat ?s + (?m + ?d) + ?t + ?a + sum_list (map edk_len (hdr_edk_list h))"
    using length_hdr_bytes [OF assms(2-5)] .
  have s: "?s \<ge> 0" using assms(3)
    by (simp add: aws_cryptosdk_header_version_static_fields_len_def alg_props_fields)
  let ?n = "nat ?s + (?m + ?d) + ?t + ?a"
  have "?n < 2 ^ 63" using len assms(7) by simp
  moreover have "?b = word_of_nat ?n" using s by simp
  ultimately have b: "unat ?b = ?n" by (simp only: unat_of_small)
  then have edks: "unat (hdr_size_edks ?b (hdr_edk_list h)) = length (hdr_bytes h)"
    using len assms(7) by (subst unat_hdr_size_edks) simp_all
  then have "hdr_size_edks ?b (hdr_edk_list h) \<noteq> SIZE_MAX"
    using assms(7) by (auto simp: unsigned_minus_1_eq_mask mask_eq_exp_minus_1)
  moreover have "aws_cryptosdk_enc_ctx_size L (hdr_enc_ctx h) = Inr ?a"
    using aws_c_common.enc_ctx_size_Inr [OF assms(1)] assms(6) by simp
  moreover have "h \<noteq> hdr_zero"
    using assms(2) by (auto simp: aws_cryptosdk_hdr_is_valid_def hdr_zero_def)
  ultimately show ?thesis
    using s sint_ucast_small [of "hdr_size_edks ?b (hdr_edk_list h)"] edks assms(3, 7)
    by (simp add: aws_cryptosdk_hdr_size_def Let_def)
qed

text \<open>
  C13: The size computed for a header is the length of its serialization, for every header with
  an initialization vector and tag of the lengths of its algorithm suite whose serialization
  has fewer than 2^31 bytes (the result type is \<^verbatim>\<open>int\<close>).
\<close>

theorem hdr_size_correct:
  assumes "aws_c_common L" "aws_cryptosdk_hdr_is_valid h"
    and "aws_cryptosdk_alg_props (hdr_alg_id h) = Some p"
    and "hdr_version h = AWS_CRYPTOSDK_HEADER_VERSION_1_0 \<Longrightarrow> buf_len (hdr_iv h) = iv_len p"
    and "buf_len (hdr_auth_tag h) = tag_len p" "enc_ctx_fits (hdr_enc_ctx h)"
    and "length (hdr_bytes h) < 2 ^ 31"
  shows "aws_cryptosdk_hdr_size L h = int (length (hdr_bytes h))"
  by (rule hdr_size_eq [OF assms])

theorem hdr_size_witness: "aws_cryptosdk_hdr_size aws_ref hdr_example = 110"
proof -
  obtain p where p: "aws_cryptosdk_alg_props (hdr_alg_id hdr_example) = Some p"
    using hdr_example_known alg_props_known by auto
  show ?thesis
    using hdr_size_correct [OF ref.aws_c_common_axioms hdr_example_valid p _ _ hdr_example_ctx(2)]
    by (simp add: length_hdr_example hdr_version_def alg_props_fields(3) [OF p])
       (simp add: hdr_example_def buf_from_array_def aws_cryptosdk_algorithm_is_committing_def)
qed

end
