(* ===== verification/HeaderParse.thy ===== *)
theory HeaderParse
  imports HeaderWrite
begin

text \<open>
  Correctness of the header parser: what a parsed header satisfies, that a failed parse clears the
  header and leaves the cursor alone, that reading a written header gives it back, and that a
  truncated header is reported as a short buffer and nothing else.
\<close>

section \<open>Outcomes of a field parser\<close>

text \<open>
  \<open>parses a P r\<close>: either an error with the header cleared, \<open>a\<close> being its allocator flag, or a value
  that satisfies \<open>P\<close>.
\<close>

definition parses :: "bool \<Rightarrow> ('a \<Rightarrow> bool) \<Rightarrow> 'a hdr_parser_result \<Rightarrow> bool" where
  "parses a P r = (case r of Inl (e, h) \<Rightarrow> h = hdr_zero\<lparr>hdr_alloc := a\<rparr> | Inr x \<Rightarrow> P x)"

lemma parses_simps [simp]:
  "parses a P (Inl (e, h)) \<longleftrightarrow> h = hdr_zero\<lparr>hdr_alloc := a\<rparr>" "parses a P (Inr x) \<longleftrightarrow> P x"
  by (simp_all add: parses_def)

lemma parses_bind:
  assumes "parses a P r" "\<And>x. P x \<Longrightarrow> parses a Q (f x)"
  shows "parses a Q (bindE r f)"
  using assms by (cases r) (auto simp: parses_def)

lemma parses_mono: "parses a P r \<Longrightarrow> (\<And>x. P x \<Longrightarrow> Q x) \<Longrightarrow> parses a Q r"
  by (auto simp: parses_def split: sum.splits)

lemma hdr_clear_eq: "aws_cryptosdk_hdr_clear h = hdr_zero\<lparr>hdr_alloc := hdr_alloc h\<rparr>"
  by (simp add: aws_cryptosdk_hdr_clear_def hdr_zero_def aws_cryptosdk_edk_list_clear_def
      aws_cryptosdk_enc_ctx_clear_def)

lemmas parse_errs = aws_cryptosdk_priv_hdr_parse_err_short_buf_def
  aws_cryptosdk_priv_hdr_parse_err_generic_def aws_cryptosdk_priv_hdr_parse_err_mem_def
  aws_cryptosdk_priv_hdr_parse_err_rethrow_def hdr_clear_eq

section \<open>Each field\<close>

text \<open>A cursor that stems from \<open>c\<close> by reading \<open>n\<close> bytes.\<close>

definition read_from :: "byte_cursor \<Rightarrow> nat \<Rightarrow> byte_cursor \<Rightarrow> bool" where
  "read_from c n c' \<longleftrightarrow> c' = advanced c n \<and> n \<le> cur_len c"

lemma read_from_trans: "read_from c m c' \<Longrightarrow> read_from c' n c'' \<Longrightarrow> read_from c (m + n) c''"
  by (auto simp: read_from_def)

text \<open>What a successful parse establishes.\<close>

definition hdr_wf :: "hdr \<Rightarrow> bool" where
  "hdr_wf h = (case aws_cryptosdk_alg_props (hdr_alg_id h) of
     None \<Rightarrow> False
   | Some p \<Rightarrow> aws_cryptosdk_hdr_is_valid h \<and>
       buf_len (hdr_message_id h) = aws_cryptosdk_private_algorithm_message_id_len p \<and>
       buf_len (hdr_alg_suite_data h) = alg_suite_data_len p \<and>
       buf_len (hdr_iv h) = (if msg_format_version p = AWS_CRYPTOSDK_HEADER_VERSION_1_0 then iv_len p else 0) \<and>
       buf_len (hdr_auth_tag h) = tag_len p)"

context aws_c_common
begin

lemma filled_buf:
  assumes "lib_buf_init L n = Some b" "lib_read_and_fill L c b = Some (b', c')"
  shows "buf_len b' = n" "buf_mem b' = take n (cur_data c)" "buf_owned b'" "read_from c n c'"
    "buf_valid b'" "buf_capacity b' = n"
  using buf_init [OF assms(1)] assms(2)
  by (auto simp: read_and_fill read_from_def buf_valid_def split: if_splits)

lemmas parse_unfolds = parses_def bindE_def orE_def guardE_def parse_errs read_from_def
lemmas parse_splits = option.splits if_splits sum.splits prod.splits

lemma parse_header_version:
  "a = hdr_alloc h \<Longrightarrow> parses a (\<lambda>(v, c'). aws_cryptosdk_header_version_is_known v \<and> read_from c 1 c')
     (aws_cryptosdk_priv_hdr_parse_header_version L h c)"
  by (auto simp: aws_cryptosdk_priv_hdr_parse_header_version_def read_u8 parse_unfolds
      split: parse_splits)

lemma parse_message_type:
  "a = hdr_alloc h \<Longrightarrow> parses a (\<lambda>c'. read_from c 1 c') (aws_cryptosdk_priv_hdr_parse_message_type L h c)"
  by (auto simp: aws_cryptosdk_priv_hdr_parse_message_type_def read_u8 parse_unfolds split: parse_splits)

lemma parse_alg_id:
  "a = hdr_alloc h \<Longrightarrow> parses a (\<lambda>(p, h', c'). aws_cryptosdk_alg_props (hdr_alg_id h') = Some p \<and>
       msg_format_version p = v \<and> (\<exists>i. h' = h\<lparr>hdr_alg_id := i\<rparr>) \<and> read_from c 2 c')
     (aws_cryptosdk_priv_hdr_parse_alg_id L h v c)"
  by (auto simp: aws_cryptosdk_priv_hdr_parse_alg_id_def read_be16 alg_props_known [symmetric]
      Let_def parse_unfolds split: parse_splits)

lemma parse_message_id:
  "a = hdr_alloc h \<Longrightarrow> parses a (\<lambda>(h', c'). (\<exists>b. h' = h\<lparr>hdr_message_id := b\<rparr> \<and> buf_valid b \<and>
       buf_len b = aws_cryptosdk_private_algorithm_message_id_len p) \<and>
       read_from c (aws_cryptosdk_private_algorithm_message_id_len p) c')
     (aws_cryptosdk_priv_hdr_parse_message_id L h p c)"
  by (auto simp: aws_cryptosdk_priv_hdr_parse_message_id_def parses_def bindE_def orE_def parse_errs
      dest: filled_buf split: parse_splits)

lemma parse_aad:
  assumes "a = hdr_alloc h" "hash_valid (hdr_enc_ctx h)"
  shows "parses a (\<lambda>(h', c'). (\<exists>t. h' = h\<lparr>hdr_enc_ctx := t\<rparr> \<and> hash_valid t) \<and>
      (\<exists>n. read_from c n c')) (aws_cryptosdk_priv_hdr_parse_aad L h c)"
proof -
  have refl: "\<exists>t. h = h\<lparr>hdr_enc_ctx := t\<rparr> \<and> hash_valid t"
    using assms by (intro exI [of _ "hdr_enc_ctx h"]) simp
  show ?thesis
    using refl assms(1) enc_ctx_deserialize_valid(1) [OF aws_c_common_axioms]
    by (auto simp: aws_cryptosdk_priv_hdr_parse_aad_def read_be16 advance parse_unfolds
        split: parse_splits) 
qed

lemma parse_edk_field:
  assumes "parse_edk_field L c = Inr (b, c')"
  shows "buf_valid b" "\<exists>n. read_from c n c'"
proof -
  obtain w c1 b0 where r: "lib_read_be16 L c = Some (w, c1)" and b: "lib_buf_init L (unat w) = Some b0"
      "lib_read_and_fill L c1 b0 = Some (b, c')"
    using assms by (auto simp: parse_edk_field_def bindE_eq_Inr orE_eq_Inr)
  show "buf_valid b" using filled_buf [OF b] by simp
  have "read_from c 2 c1" using r by (auto simp: read_be16 read_from_def split: if_splits)
  then show "\<exists>n. read_from c n c'" using filled_buf(4) [OF b] read_from_trans by blast
qed

lemma parse_edk_valid:
  assumes "parse_edk L c = Inr (e, c')"
  shows "aws_cryptosdk_edk_is_valid e" "\<exists>n. read_from c n c'"
proof -
  obtain b1 c1 b2 c2 b3 where b: "parse_edk_field L c = Inr (b1, c1)"
      "parse_edk_field L c1 = Inr (b2, c2)" "parse_edk_field L c2 = Inr (b3, c')"
      "e = \<lparr>provider_id = b1, provider_info = b2, ciphertext = b3\<rparr>"
    using assms by (auto simp: parse_edk_def bindE_eq_Inr)
  note f = b(1-3) [THEN parse_edk_field(1)]
  show "aws_cryptosdk_edk_is_valid e" using f by (simp add: aws_cryptosdk_edk_is_valid_def b(4))
  show "\<exists>n. read_from c n c'"
    using b(1-3) [THEN parse_edk_field(2)] read_from_trans by blast
qed

lemma read_from_0: "read_from c 0 c"
  by (simp add: read_from_def)

lemma parse_edks_loop:
  assumes "a = hdr_alloc h" "list_all aws_cryptosdk_edk_is_valid (hdr_edk_list h)"
  shows "parses a (\<lambda>(h', c'). (\<exists>es. h' = h\<lparr>hdr_edk_list := hdr_edk_list h @ es\<rparr> \<and> length es \<le> n \<and>
      list_all aws_cryptosdk_edk_is_valid es) \<and> (\<exists>n. read_from c n c')) (parse_edks_loop L n h c)"
  using assms
proof (induction n arbitrary: h c)
  case 0
  then show ?case using read_from_0 by (auto intro!: exI [of _ "[]"])
next
  case (Suc n)
  show ?case
  proof (cases "parse_edk L c")
    case (Inl e)
    then show ?thesis using Suc.prems by (simp add: parse_errs)
  next
    case (Inr r)
    obtain e c1 where r: "r = (e, c1)" by (cases r)
    note e = parse_edk_valid [OF Inr [unfolded r]]
    let ?es = "if lib_push_back L (length (hdr_edk_list h)) then [e] else []"
    let ?h = "h\<lparr>hdr_edk_list := hdr_edk_list h @ ?es\<rparr>"
    have step: "parse_edks_loop L (Suc n) h c = parse_edks_loop L n ?h c1"
      by (simp add: Inr r)
    have "parses a (\<lambda>(h', c'). (\<exists>es. h' = ?h\<lparr>hdr_edk_list := hdr_edk_list ?h @ es\<rparr> \<and> length es \<le> n \<and>
        list_all aws_cryptosdk_edk_is_valid es) \<and> (\<exists>n. read_from c1 n c')) (parse_edks_loop L n ?h c1)"
      using Suc.prems e(1) by (intro Suc.IH) simp_all
    then show ?thesis
      unfolding step
    proof (rule parses_mono, clarify, intro conjI, goal_cases)
      case (1 _ c' es)
      then show ?case using e(1) by (intro exI [of _ "?es @ es"]) simp
    next
      case (2 _ c')
      then show ?case using e(2) read_from_trans by blast
    qed
  qed
qed

lemma parse_edks:
  assumes "a = hdr_alloc h" "hdr_edk_list h = []"
  shows "parses a (\<lambda>(h', c'). (\<exists>es. h' = h\<lparr>hdr_edk_list := es\<rparr> \<and> (m \<noteq> 0 \<longrightarrow> length es \<le> m) \<and>
      list_all aws_cryptosdk_edk_is_valid es) \<and> (\<exists>n. read_from c n c'))
    (aws_cryptosdk_priv_hdr_parse_edks L h c m)"
proof (cases "2 \<le> cur_len c \<and> be_val (take 2 (cur_data c)) \<noteq> (0 :: 16 word) \<and>
    \<not> (m \<noteq> 0 \<and> unat (be_val (take 2 (cur_data c)) :: 16 word) > m)")
  case True
  let ?n = "unat (be_val (take 2 (cur_data c)) :: 16 word)"
  have eq: "aws_cryptosdk_priv_hdr_parse_edks L h c m = parse_edks_loop L ?n h (advanced c 2)"
    using True by (simp add: aws_cryptosdk_priv_hdr_parse_edks_def read_be16)
  have r: "\<exists>n. read_from c n c'" if "read_from (advanced c 2) n c'" for n c'
    using True that read_from_trans [of c 2 "advanced c 2"] by (auto simp: read_from_def)
  show ?thesis
    unfolding eq
    by (rule parses_mono [OF parse_edks_loop])
      (use assms True in \<open>auto simp: not_less intro: order_trans r\<close>)
next
  case False
  then show ?thesis
    using assms by (auto simp: aws_cryptosdk_priv_hdr_parse_edks_def read_be16 parse_errs guardE_def)
qed

lemma parse_content_type:
  "a = hdr_alloc h \<Longrightarrow> parses a (\<lambda>(t, c'). is_known_type t \<and> read_from c 1 c')
     (aws_cryptosdk_priv_hdr_parse_content_type L h c)"
  by (auto simp: aws_cryptosdk_priv_hdr_parse_content_type_def read_u8 parse_unfolds split: parse_splits)

lemma parse_reserved:
  "a = hdr_alloc h \<Longrightarrow> parses a (\<lambda>c'. read_from c 4 c') (aws_cryptosdk_priv_hdr_parse_reserved L h c)"
  by (auto simp: aws_cryptosdk_priv_hdr_parse_reserved_def read_be32 parse_unfolds split: parse_splits)

lemma parse_iv_len:
  assumes "a = hdr_alloc h" "aws_cryptosdk_algorithm_is_known (hdr_alg_id h)"
  shows "parses a (\<lambda>(n, c'). unat n = 12 \<and> read_from c 1 c') (aws_cryptosdk_priv_hdr_parse_iv_len L h c)"
proof -
  have "unat n = 12" if "uint n = 12" for n :: "8 word"
    using that by (simp only: unat_eq_nat_uint)
  then show ?thesis
    using assms by (auto simp: aws_cryptosdk_priv_hdr_parse_iv_len_def read_u8 parse_unfolds
        aws_cryptosdk_private_algorithm_ivlen_def split: parse_splits)
qed

lemma parse_frame_len:
  "a = hdr_alloc h \<Longrightarrow> parses a (\<lambda>(h', c'). (\<exists>f. h' = h\<lparr>hdr_frame_len := f\<rparr> \<and>
       (t = AWS_CRYPTOSDK_HEADER_CTYPE_NONFRAMED \<longrightarrow> f = 0) \<and>
       (t = AWS_CRYPTOSDK_HEADER_CTYPE_FRAMED \<longrightarrow> f \<noteq> 0)) \<and> read_from c 4 c')
     (aws_cryptosdk_priv_hdr_parse_frame_len L h t c)"
  by (auto simp: aws_cryptosdk_priv_hdr_parse_frame_len_def read_be32 parse_unfolds split: parse_splits)

lemma parse_alg_suite_data:
  assumes "a = hdr_alloc h" "hdr_alg_suite_data h = buf_zero"
  shows "parses a (\<lambda>(h', c'). (\<exists>b. h' = h\<lparr>hdr_alg_suite_data := b\<rparr> \<and> buf_valid b \<and>
      buf_len b = alg_suite_data_len p) \<and> read_from c (alg_suite_data_len p) c')
    (aws_cryptosdk_priv_hdr_parse_alg_suite_data L h p c)"
proof (cases "alg_suite_data_len p = 0")
  case True
  have "h = h\<lparr>hdr_alg_suite_data := buf_zero\<rparr>" using assms(2) by simp
  then show ?thesis
    using True read_from_0
    by (auto simp: aws_cryptosdk_priv_hdr_parse_alg_suite_data_def buf_valid_def intro!: exI [of _ buf_zero])
next
  case False
  then show ?thesis using assms
    by (auto simp: aws_cryptosdk_priv_hdr_parse_alg_suite_data_def parses_def bindE_def orE_def parse_errs
        dest: filled_buf split: parse_splits)
qed

lemma parse_iv:
  "a = hdr_alloc h \<Longrightarrow> parses a (\<lambda>(h', c'). (\<exists>b. h' = h\<lparr>hdr_iv := b\<rparr> \<and> buf_valid b \<and>
       buf_len b = unat n) \<and> read_from c (unat n) c') (aws_cryptosdk_priv_hdr_parse_iv L h n c)"
  by (auto simp: aws_cryptosdk_priv_hdr_parse_iv_def parses_def bindE_def orE_def parse_errs
      dest: filled_buf split: parse_splits)

lemma parse_auth_tag:
  "a = hdr_alloc h \<Longrightarrow> aws_cryptosdk_algorithm_is_known (hdr_alg_id h) \<Longrightarrow>
     parses a (\<lambda>(h', c'). (\<exists>b. h' = h\<lparr>hdr_auth_tag := b\<rparr> \<and> buf_valid b \<and> buf_len b = 16) \<and>
       read_from c 16 c') (aws_cryptosdk_priv_hdr_parse_auth_tag L h c)"
  by (auto simp: aws_cryptosdk_priv_hdr_parse_auth_tag_def parses_def bindE_def orE_def parse_errs
      aws_cryptosdk_private_algorithm_taglen_def dest: filled_buf split: parse_splits)

lemma parse_message_type_opt:
  assumes "a = hdr_alloc h"
  shows "parses a (\<lambda>c'. \<exists>n. read_from c n c')
    (if b then aws_cryptosdk_priv_hdr_parse_message_type L h c else Inr c)"
  using parse_message_type [OF assms, of c] read_from_0 by (auto elim: parses_mono)

lemma parse_iv_len_opt:
  assumes "a = hdr_alloc h" "aws_cryptosdk_algorithm_is_known (hdr_alg_id h)"
  shows "parses a (\<lambda>(n, c'). (b \<longrightarrow> unat n = 12) \<and> (\<exists>k. read_from c k c'))
    (if b then bindE (aws_cryptosdk_priv_hdr_parse_reserved L h c)
       (\<lambda>c. aws_cryptosdk_priv_hdr_parse_iv_len L h c) else Inr (0, c))"
  using read_from_0 read_from_trans
  by (auto intro!: parses_bind [OF parse_reserved [OF assms(1)]] parses_mono [OF parse_iv_len [OF assms]])
    blast

lemma parse_suite_opt:
  assumes "a = hdr_alloc h" "hdr_alg_suite_data h = buf_zero"
  shows "parses a (\<lambda>(h', c'). (\<exists>d. h' = h\<lparr>hdr_alg_suite_data := d\<rparr> \<and> buf_valid d \<and>
      buf_len d = (if b then alg_suite_data_len p else 0)) \<and> (\<exists>k. read_from c k c'))
    (if b then aws_cryptosdk_priv_hdr_parse_alg_suite_data L h p c else Inr (h, c))"
proof (cases b)
  case True
  then show ?thesis using parse_alg_suite_data [OF assms, of p c] by (auto elim!: parses_mono)
next
  case False
  have "h = h\<lparr>hdr_alg_suite_data := buf_zero\<rparr>" using assms(2) by simp
  then show ?thesis
    using False read_from_0 by (auto simp: buf_valid_def intro!: exI [of _ buf_zero])
qed

lemma parse_iv_opt:
  assumes "a = hdr_alloc h" "hdr_iv h = buf_zero"
  shows "parses a (\<lambda>(h', c'). (\<exists>d. h' = h\<lparr>hdr_iv := d\<rparr> \<and> buf_valid d \<and>
      buf_len d = (if b then unat n else 0)) \<and> read_from c (if b then unat n else 0) c')
    (if b then aws_cryptosdk_priv_hdr_parse_iv L h n c else Inr (h, c))"
proof (cases b)
  case True
  then show ?thesis using parse_iv [OF assms(1), of n c] by (auto elim!: parses_mono)
next
  case False
  have "h = h\<lparr>hdr_iv := buf_zero\<rparr>" using assms(2) by simp
  then show ?thesis
    using False read_from_0 by (auto simp: buf_valid_def intro!: exI [of _ buf_zero])
qed

lemma read_from_auth_len:
  "read_from c n c1 \<Longrightarrow> read_from c1 k c' \<Longrightarrow> read_from c (cur_ptr c1 - cur_ptr c + k) c'"
  by (auto simp: read_from_def)

lemma hdr_parse_head_parses:
  assumes h: "h = hdr_zero\<lparr>hdr_alloc := True\<rparr>"
  shows "parses True (\<lambda>(v, p, h', c'). \<exists>i b t es.
      h' = h\<lparr>hdr_alg_id := i, hdr_message_id := b, hdr_enc_ctx := t, hdr_edk_list := es\<rparr> \<and>
      aws_cryptosdk_alg_props i = Some p \<and> msg_format_version p = v \<and>
      buf_valid b \<and> buf_len b = aws_cryptosdk_private_algorithm_message_id_len p \<and> hash_valid t \<and>
      (m \<noteq> 0 \<longrightarrow> length es \<le> m) \<and> list_all aws_cryptosdk_edk_is_valid es \<and> (\<exists>n. read_from c n c'))
    (hdr_parse_head L h c m)"
  unfolding hdr_parse_head_def
  apply (rule parses_bind, rule parse_header_version, simp add: h, clarify)
  apply (rule parses_bind, rule parse_message_type_opt, simp add: h, clarify)
  apply (rule parses_bind, rule parse_alg_id, simp add: h, clarify)
  apply (rule parses_bind, rule parse_message_id, simp add: h, clarify)
  apply (rule parses_bind, rule parse_aad, simp add: h, simp add: h hdr_zero_def hash_valid_def, clarify)
  apply (rule parses_bind, rule parse_edks, simp add: h, simp add: h hdr_zero_def, clarify)
  apply (drule (1) read_from_trans)+
  apply fastforce
  done

lemma hdr_parse_tail_parses:
  assumes "hdr_alloc h" "aws_cryptosdk_alg_props (hdr_alg_id h) = Some p" "msg_format_version p = v"
    and "buf_valid (hdr_message_id h)" "hash_valid (hdr_enc_ctx h)" "list_all aws_cryptosdk_edk_is_valid (hdr_edk_list h)"
    and "buf_len (hdr_message_id h) = aws_cryptosdk_private_algorithm_message_id_len p"
    and "hdr_alg_suite_data h = buf_zero" "hdr_iv h = buf_zero" "read_from pc k c"
  shows "parses True (\<lambda>(h', c'). hdr_wf h' \<and> hdr_edk_list h' = hdr_edk_list h \<and>
      read_from pc (hdr_auth_len h' + buf_len (hdr_iv h') + buf_len (hdr_auth_tag h')) c')
    (hdr_parse_tail L pc v p h c)"
proof -
  note a = assms(1) and p = assms(2)
  have known: "aws_cryptosdk_algorithm_is_known (hdr_alg_id h)"
    using p by (simp add: alg_props_known [symmetric])
  have v: "v = (if aws_cryptosdk_algorithm_is_committing (hdr_alg_id h)
      then AWS_CRYPTOSDK_HEADER_VERSION_2_0 else AWS_CRYPTOSDK_HEADER_VERSION_1_0)"
    using assms(3) alg_props_fields(8) [OF p] by simp
  show ?thesis
    unfolding hdr_parse_tail_def Let_def
    apply (rule parses_bind, rule parse_content_type, simp add: a, clarify)
    apply (rule parses_bind, rule parse_iv_len_opt, simp add: a, rule known, clarify)
    apply (rule parses_bind, rule parse_frame_len, simp add: a, clarify)
    apply (rule parses_bind, rule parse_suite_opt, simp add: a, simp add: assms, clarify)
    apply (insert assms(10))
    apply (drule (1) read_from_trans)+
    apply (rule parses_bind, rule parse_iv_opt, simp add: a, simp add: assms, clarify)
    apply (rule parses_mono, rule parse_auth_tag, simp add: a, simp add: known, clarify)
    apply (simp add: hdr_wf_def alg_props_fields [OF p] aws_cryptosdk_hdr_is_valid_def edks_valid_iff
        assms read_from_auth_len add.assoc read_from_trans)
    apply (simp add: v)
    done
qed

lemma hdr_parse_fields_parses:
  assumes "h = hdr_zero\<lparr>hdr_alloc := True\<rparr>"
  shows "parses True (\<lambda>(h', c'). hdr_wf h' \<and> (m \<noteq> 0 \<longrightarrow> length (hdr_edk_list h') \<le> m) \<and>
      read_from c (hdr_auth_len h' + buf_len (hdr_iv h') + buf_len (hdr_auth_tag h')) c')
    (hdr_parse_fields L h c m)"
  unfolding hdr_parse_fields_def
proof (rule parses_bind [OF hdr_parse_head_parses [OF assms]], clarify, goal_cases)
  case (1 v p h' c1 i b t es n)
  show ?case
    by (rule parses_mono [OF hdr_parse_tail_parses]) (use 1 assms in \<open>auto simp: hdr_zero_def\<close>)
qed

end

section \<open>Reading back a written header\<close>

lemma be_bytes_4_zero: "be_bytes 4 (0 :: 32 word) = [0, 0, 0, 0]"
  by (simp add: be_bytes_def)

definition edk_fits :: "edk \<Rightarrow> bool" where
  "edk_fits e \<longleftrightarrow> buf_len (provider_id e) \<le> UINT16_MAX \<and> buf_len (provider_info e) \<le> UINT16_MAX \<and>
                 buf_len (ciphertext e) \<le> UINT16_MAX"

text \<open>The headers the wire format can represent.\<close>

definition hdr_writable :: "hdr \<Rightarrow> bool" where
  "hdr_writable h \<longleftrightarrow> hdr_wf h \<and> enc_ctx_fits (hdr_enc_ctx h) \<and> hdr_edk_list h \<noteq> [] \<and>
     length (hdr_edk_list h) \<le> UINT16_MAX \<and> list_all edk_fits (hdr_edk_list h)"

definition hdr_same :: "hdr \<Rightarrow> hdr \<Rightarrow> bool" where
  "hdr_same h h' \<longleftrightarrow>
     hdr_alg_id h' = hdr_alg_id h \<and> hdr_frame_len h' = hdr_frame_len h \<and>
     buf_contents (hdr_iv h') = buf_contents (hdr_iv h) \<and>
     buf_contents (hdr_auth_tag h') = buf_contents (hdr_auth_tag h) \<and>
     buf_contents (hdr_message_id h') = buf_contents (hdr_message_id h) \<and>
     buf_contents (hdr_alg_suite_data h') = buf_contents (hdr_alg_suite_data h) \<and>
     map_of (hdr_enc_ctx h') = map_of (hdr_enc_ctx h) \<and>
     list_all2 aws_cryptosdk_edk_eq (hdr_edk_list h) (hdr_edk_list h')"

context aws_c_common_mem
begin

lemma fill_back:
  assumes "cur_data c = bs @ rest" "n = length bs"
  obtains b b' where "lib_buf_init L n = Some b" "lib_read_and_fill L c b = Some (b', advanced c n)"
    "buf_contents b' = bs"
proof -
  obtain b where b: "lib_buf_init L n = Some b" "buf_capacity b = n"
    using buf_init_SomeE [OF acquire_ok] by metis
  show ?thesis
    using b assms
    by (intro that [of b "b\<lparr>buf_mem := bs, buf_len := length bs\<rparr>"])
      (simp_all add: read_and_fill_append buf_contents_def)
qed

lemma fill_back_ex:
  assumes "cur_data c = bs @ rest" "n = length bs"
  shows "\<exists>b b'. lib_buf_init L n = Some b \<and> lib_read_and_fill L c b = Some (b', advanced c n) \<and>
    buf_contents b' = bs"
  using fill_back [OF assms] by blast

lemma parse_edk_field_back:
  assumes "cur_data c = edk_field_bytes b @ rest" "buf_valid b" "buf_len b \<le> UINT16_MAX"
  obtains b' where "parse_edk_field L c = Inr (b', advanced c (length (edk_field_bytes b)))"
    "buf_contents b' = buf_contents b"
proof -
  have n: "unat (word_of_nat (buf_len b) :: 16 word) = buf_len b"
    using assms(3) by (rule unat_of_length_16)
  have "cur_data (advanced c 2) = buf_contents b @ rest" "buf_len b = length (buf_contents b)"
    using assms(1, 2) by (simp_all add: edk_field_bytes_def length_contents)
  then obtain b0 b' where "lib_buf_init L (buf_len b) = Some b0"
      "lib_read_and_fill L (advanced c 2) b0 = Some (b', advanced (advanced c 2) (buf_len b))"
      "buf_contents b' = buf_contents b"
    by (rule fill_back)
  then show ?thesis
    using assms(1, 2)
    by (intro that [of b'])
      (simp_all add: parse_edk_field_def edk_field_bytes_def read_be16_append n length_contents)
qed

lemma parse_edk_back:
  assumes "cur_data c = edk_bytes e @ rest" "aws_cryptosdk_edk_is_valid e" "edk_fits e"
  obtains e' where "parse_edk L c = Inr (e', advanced c (length (edk_bytes e)))" "aws_cryptosdk_edk_eq e e'"
proof -
  let ?f = edk_field_bytes
  let ?n1 = "length (?f (provider_id e))" and ?n2 = "length (?f (provider_info e))"
  have v: "buf_valid (provider_id e)" "buf_valid (provider_info e)" "buf_valid (ciphertext e)"
    "buf_len (provider_id e) \<le> UINT16_MAX" "buf_len (provider_info e) \<le> UINT16_MAX"
    "buf_len (ciphertext e) \<le> UINT16_MAX"
    using assms(2, 3) by (simp_all add: aws_cryptosdk_edk_is_valid_def edk_fits_def)
  have d: "cur_data c = ?f (provider_id e) @ ?f (provider_info e) @ ?f (ciphertext e) @ rest"
    "cur_data (advanced c ?n1) = ?f (provider_info e) @ ?f (ciphertext e) @ rest"
    "cur_data (advanced (advanced c ?n1) ?n2) = ?f (ciphertext e) @ rest"
    using assms(1) by (simp_all add: edk_bytes_def)
  obtain b1 where "parse_edk_field L c = Inr (b1, advanced c ?n1)"
      "buf_contents b1 = buf_contents (provider_id e)"
    using parse_edk_field_back [OF d(1) v(1) v(4)] by blast
  moreover obtain b2 where "parse_edk_field L (advanced c ?n1) = Inr (b2, advanced (advanced c ?n1) ?n2)"
      "buf_contents b2 = buf_contents (provider_info e)"
    using parse_edk_field_back [OF d(2) v(2) v(5)] by blast
  moreover obtain b3 where "parse_edk_field L (advanced (advanced c ?n1) ?n2) =
        Inr (b3, advanced (advanced (advanced c ?n1) ?n2) (length (?f (ciphertext e))))"
      "buf_contents b3 = buf_contents (ciphertext e)"
    using parse_edk_field_back [OF d(3) v(3) v(6)] by blast
  ultimately show ?thesis
    by (intro that [of "\<lparr>provider_id = b1, provider_info = b2, ciphertext = b3\<rparr>"])
      (simp_all add: parse_edk_def edk_bytes_def aws_cryptosdk_edk_eq_def add.assoc)
qed

lemma parse_edks_loop_back:
  assumes "cur_data c = concat (map edk_bytes es) @ rest"
    and "list_all aws_cryptosdk_edk_is_valid es" "list_all edk_fits es"
  shows "\<exists>es'. parse_edks_loop L (length es) h c =
      Inr (h\<lparr>hdr_edk_list := hdr_edk_list h @ es'\<rparr>, advanced c (length (concat (map edk_bytes es)))) \<and>
      list_all2 aws_cryptosdk_edk_eq es es'"
  using assms
proof (induction es arbitrary: c h)
  case (Cons e es)
  obtain e' where e': "parse_edk L c = Inr (e', advanced c (length (edk_bytes e)))"
      "aws_cryptosdk_edk_eq e e'"
    using Cons.prems parse_edk_back [of c e] by auto
  let ?h = "h\<lparr>hdr_edk_list := hdr_edk_list h @ [e']\<rparr>" and ?c = "advanced c (length (edk_bytes e))"
  obtain es' where "parse_edks_loop L (length es) ?h ?c =
      Inr (?h\<lparr>hdr_edk_list := hdr_edk_list ?h @ es'\<rparr>, advanced ?c (length (concat (map edk_bytes es))))"
      "list_all2 aws_cryptosdk_edk_eq es es'"
    using Cons.IH [of ?c ?h] Cons.prems by auto
  then show ?case using e' by (intro exI [of _ "e' # es'"]) (simp add: push_back_ok)
qed simp

lemma parse_aad_back:
  assumes "cur_data c = hdr_aad_bytes g @ rest" "hash_valid (hdr_enc_ctx g)" "enc_ctx_fits (hdr_enc_ctx g)"
    and "hdr_enc_ctx h = []"
  shows "\<exists>t. aws_cryptosdk_priv_hdr_parse_aad L h c =
      Inr (h\<lparr>hdr_enc_ctx := t\<rparr>, advanced c (length (hdr_aad_bytes g))) \<and>
      map_of t = map_of (hdr_enc_ctx g)"
proof -
  let ?t = "hdr_enc_ctx g"
  let ?n = "length (enc_ctx_bytes ?t)"
  let ?a = "\<lparr>cur_ptr = cur_ptr (advanced c 2), cur_data = enc_ctx_bytes ?t\<rparr>"
  have n: "unat (word_of_nat ?n :: 16 word) = ?n"
    using assms(3) by (intro unat_of_length_16) (simp add: enc_ctx_fits_def)
  have rd: "lib_read_be16 L c = Some (word_of_nat ?n, advanced c 2)"
    using assms(1) by (simp add: hdr_aad_bytes_def read_be16_append)
  have adv: "lib_advance L (advanced c 2) ?n = Some (?a, advanced c (length (hdr_aad_bytes g)))"
    using assms(1) by (subst advance_append [of _ "enc_ctx_bytes ?t" rest])
      (simp_all add: hdr_aad_bytes_def)
  obtain t' where t': "aws_cryptosdk_enc_ctx_deserialize L [] ?a =
      (AWS_OP_SUCCESS, t', advanced ?a ?n)" "map_of t' = map_of ?t"
    using enc_ctx_deserialize_eq [of ?a ?t "[]" "[]"] assms(2, 3) by auto
  show ?thesis
  proof (cases "?n = 0")
    case True
    then have "?t = []" by (simp add: length_enc_ctx_bytes split: if_splits)
    moreover have "h\<lparr>hdr_enc_ctx := []\<rparr> = h" using assms(4) by simp
    ultimately show ?thesis
      using True rd
      by (intro exI [of _ "[]"]) (simp add: aws_cryptosdk_priv_hdr_parse_aad_def hdr_aad_bytes_def)
  next
    case False
    then have "(word_of_nat ?n :: 16 word) \<noteq> 0" using n by (metis unat_0)
    then show ?thesis
      using rd adv t' n assms(4)
      by (intro exI [of _ t']) (simp add: aws_cryptosdk_priv_hdr_parse_aad_def)
  qed
qed

lemma parse_edks_back:
  assumes "cur_data c = hdr_edks_bytes g @ rest" "hdr_edk_list g \<noteq> []" "length (hdr_edk_list g) \<le> UINT16_MAX"
    and "list_all aws_cryptosdk_edk_is_valid (hdr_edk_list g)" "list_all edk_fits (hdr_edk_list g)"
    and "m = 0 \<or> length (hdr_edk_list g) \<le> m" "hdr_edk_list h = []"
  shows "\<exists>es. aws_cryptosdk_priv_hdr_parse_edks L h c m =
      Inr (h\<lparr>hdr_edk_list := es\<rparr>, advanced c (length (hdr_edks_bytes g))) \<and>
      list_all2 aws_cryptosdk_edk_eq (hdr_edk_list g) es"
proof -
  let ?es = "hdr_edk_list g" and ?k = "word_of_nat (length (hdr_edk_list g)) :: 16 word"
  have k: "unat ?k = length ?es" "?k \<noteq> 0"
    using unat_of_length_16 [OF assms(3)] assms(2) by (auto simp: unat_eq_0 [symmetric])
  obtain es' where "parse_edks_loop L (length ?es) h (advanced c 2) =
      Inr (h\<lparr>hdr_edk_list := hdr_edk_list h @ es'\<rparr>,
           advanced (advanced c 2) (length (concat (map edk_bytes ?es))))"
      "list_all2 aws_cryptosdk_edk_eq ?es es'"
    using parse_edks_loop_back [of "advanced c 2" ?es rest h] assms(1, 4, 5)
    by (auto simp: hdr_edks_bytes_def)
  then show ?thesis
    using assms k by (intro exI [of _ es'])
      (auto simp: aws_cryptosdk_priv_hdr_parse_edks_def hdr_edks_bytes_def read_be16_append)
qed

lemma parse_version_back:
  assumes "cur_data c = v # rest" "aws_cryptosdk_header_version_is_known v"
  shows "aws_cryptosdk_priv_hdr_parse_header_version L h c = Inr (v, advanced c 1)"
  using assms by (simp add: aws_cryptosdk_priv_hdr_parse_header_version_def read_u8_Cons)

lemma parse_type_back:
  assumes "cur_data c = (if b then [AWS_CRYPTOSDK_HEADER_TYPE_CUSTOMER_AED] else []) @ rest"
  shows "(if b then aws_cryptosdk_priv_hdr_parse_message_type L h c else Inr c) =
    Inr (advanced c (if b then 1 else 0))"
  using assms by (simp add: aws_cryptosdk_priv_hdr_parse_message_type_def read_u8_Cons)

lemma parse_alg_id_back:
  assumes "cur_data c = be_bytes 2 i @ rest" "aws_cryptosdk_alg_props i = Some p" "msg_format_version p = v"
  shows "aws_cryptosdk_priv_hdr_parse_alg_id L h v c = Inr (p, h\<lparr>hdr_alg_id := i\<rparr>, advanced c 2)"
  using assms alg_props_known [of i]
  by (simp add: aws_cryptosdk_priv_hdr_parse_alg_id_def read_be16_append)

lemma parse_message_id_back:
  assumes "cur_data c = bs @ rest" "length bs = aws_cryptosdk_private_algorithm_message_id_len p"
  shows "\<exists>b. aws_cryptosdk_priv_hdr_parse_message_id L h p c =
      Inr (h\<lparr>hdr_message_id := b\<rparr>, advanced c (length bs)) \<and> buf_contents b = bs"
  using fill_back_ex [OF assms(1) assms(2) [symmetric]]
  by (auto simp: aws_cryptosdk_priv_hdr_parse_message_id_def assms(2))

lemma parse_content_type_back:
  assumes "cur_data c = t # rest" "is_known_type t"
  shows "aws_cryptosdk_priv_hdr_parse_content_type L h c = Inr (t, advanced c 1)"
  using assms by (simp add: aws_cryptosdk_priv_hdr_parse_content_type_def read_u8_Cons)

lemma parse_iv_len_back:
  assumes "cur_data c = (if b then [0, 0, 0, 0] @ [word_of_nat 12] else []) @ rest"
    and "aws_cryptosdk_algorithm_is_known (hdr_alg_id h)"
  shows "\<exists>n. (if b then bindE (aws_cryptosdk_priv_hdr_parse_reserved L h c)
       (\<lambda>c. aws_cryptosdk_priv_hdr_parse_iv_len L h c) else Inr (0, c)) =
    Inr (n, advanced c (if b then 5 else 0)) \<and> (b \<longrightarrow> n = 12)"
proof (cases b)
  case True
  have z: "cur_data c = be_bytes 4 (0 :: 32 word) @ 12 # rest"
    using assms(1) True by (simp add: be_bytes_4_zero)
  have "cur_data (advanced c 4) = 12 # rest" by (simp add: z)
  then have "lib_read_u8 L (advanced c 4) = Some (12, advanced (advanced c 4) 1)"
    by (rule read_u8_Cons)
  then show ?thesis
    using True assms(2)
    by (simp add: aws_cryptosdk_priv_hdr_parse_reserved_def aws_cryptosdk_priv_hdr_parse_iv_len_def
        read_be32_append [OF z] aws_cryptosdk_private_algorithm_ivlen_def)
qed simp

lemma parse_frame_len_back:
  assumes "cur_data c = be_bytes 4 f @ rest"
    and "t = (if f \<noteq> 0 then AWS_CRYPTOSDK_HEADER_CTYPE_FRAMED else AWS_CRYPTOSDK_HEADER_CTYPE_NONFRAMED)"
  shows "aws_cryptosdk_priv_hdr_parse_frame_len L h t c = Inr (h\<lparr>hdr_frame_len := f\<rparr>, advanced c 4)"
  using assms by (simp add: aws_cryptosdk_priv_hdr_parse_frame_len_def read_be32_append)

lemma parse_suite_back:
  assumes "cur_data c = bs @ rest" "length bs = (if b then alg_suite_data_len p else 0)"
    and "hdr_alg_suite_data h = buf_zero"
  shows "\<exists>d. (if b then aws_cryptosdk_priv_hdr_parse_alg_suite_data L h p c else Inr (h, c)) =
      Inr (h\<lparr>hdr_alg_suite_data := d\<rparr>, advanced c (length bs)) \<and> buf_contents d = bs"
proof (cases "b \<and> alg_suite_data_len p \<noteq> 0")
  case True
  then show ?thesis
    using fill_back_ex [OF assms(1), of "alg_suite_data_len p"] assms(2)
    by (auto simp: aws_cryptosdk_priv_hdr_parse_alg_suite_data_def)
next
  case False
  then have "bs = []" using assms(2) by (auto split: if_splits)
  moreover have "h\<lparr>hdr_alg_suite_data := buf_zero\<rparr> = h" using assms(3) by simp
  ultimately show ?thesis
    using False by (intro exI [of _ buf_zero])
      (auto simp: aws_cryptosdk_priv_hdr_parse_alg_suite_data_def buf_contents_def)
qed

lemma parse_iv_back:
  assumes "cur_data c = bs @ rest" "length bs = (if b then unat n else 0)" "hdr_iv h = buf_zero"
  shows "\<exists>d. (if b then aws_cryptosdk_priv_hdr_parse_iv L h n c else Inr (h, c)) =
      Inr (h\<lparr>hdr_iv := d\<rparr>, advanced c (length bs)) \<and> buf_contents d = bs"
proof (cases b)
  case True
  then show ?thesis
    using fill_back_ex [OF assms(1), of "unat n"] assms(2)
    by (auto simp: aws_cryptosdk_priv_hdr_parse_iv_def)
next
  case False
  moreover have "h\<lparr>hdr_iv := buf_zero\<rparr> = h" using assms(3) by simp
  ultimately show ?thesis
    using assms(2) by (intro exI [of _ buf_zero]) (auto simp: buf_contents_def)
qed

lemma parse_auth_tag_back:
  assumes "cur_data c = bs @ rest" "length bs = 16" "aws_cryptosdk_algorithm_is_known (hdr_alg_id h)"
  shows "\<exists>d. aws_cryptosdk_priv_hdr_parse_auth_tag L h c =
      Inr (h\<lparr>hdr_auth_tag := d\<rparr>, advanced c 16) \<and> buf_contents d = bs"
  using fill_back_ex [OF assms(1), of 16] assms(2, 3)
  by (auto simp: aws_cryptosdk_priv_hdr_parse_auth_tag_def aws_cryptosdk_private_algorithm_taglen_def)

lemma hdr_parse_head_back:
  assumes c: "cur_data c = hdr_start_bytes g @ hdr_aad_bytes g @ hdr_edks_bytes g @ rest"
    and g: "hdr_writable g" and p: "aws_cryptosdk_alg_props (hdr_alg_id g) = Some p"
    and m: "m = 0 \<or> length (hdr_edk_list g) \<le> m" and h: "h = hdr_zero\<lparr>hdr_alloc := True\<rparr>"
  shows "\<exists>b t es. hdr_parse_head L h c m = Inr (hdr_version g, p,
      h\<lparr>hdr_alg_id := hdr_alg_id g, hdr_message_id := b, hdr_enc_ctx := t, hdr_edk_list := es\<rparr>,
      advanced c (length (hdr_start_bytes g @ hdr_aad_bytes g @ hdr_edks_bytes g))) \<and>
    buf_contents b = buf_contents (hdr_message_id g) \<and> map_of t = map_of (hdr_enc_ctx g) \<and>
    list_all2 aws_cryptosdk_edk_eq (hdr_edk_list g) es"
proof -
  let ?v = "hdr_version g" and ?mid = "buf_contents (hdr_message_id g)"
  let ?v1 = "?v = AWS_CRYPTOSDK_HEADER_VERSION_1_0"
  let ?tb = "if ?v1 then [AWS_CRYPTOSDK_HEADER_TYPE_CUSTOMER_AED] else []"
  let ?n2 = "1 + (if ?v1 then 1 else 0)"
  let ?h1 = "h\<lparr>hdr_alg_id := hdr_alg_id g\<rparr>"
  have v: "msg_format_version p = ?v" "aws_cryptosdk_header_version_is_known ?v"
    using p by (simp_all add: hdr_version_def alg_props_fields aws_cryptosdk_header_version_is_known_def)
  have mid: "length ?mid = aws_cryptosdk_private_algorithm_message_id_len p"
    and wf: "hash_valid (hdr_enc_ctx g)" "enc_ctx_fits (hdr_enc_ctx g)" "hdr_edk_list g \<noteq> []"
      "length (hdr_edk_list g) \<le> UINT16_MAX" "list_all aws_cryptosdk_edk_is_valid (hdr_edk_list g)"
      "list_all edk_fits (hdr_edk_list g)"
    using g p by (simp_all add: hdr_writable_def hdr_wf_def aws_cryptosdk_hdr_is_valid_def
        length_contents edks_valid_iff)
  have d: "cur_data c = ?v # ?tb @ be_bytes 2 (hdr_alg_id g) @ ?mid @ hdr_aad_bytes g @ hdr_edks_bytes g @ rest"
    using c by (simp add: hdr_start_bytes_def)
  define c1 where "c1 = advanced c 1"
  define c2 where "c2 = advanced c1 (if ?v1 then 1 else 0)"
  define c3 where "c3 = advanced c2 2"
  define c4 where "c4 = advanced c3 (length ?mid)"
  define c5 where "c5 = advanced c4 (length (hdr_aad_bytes g))"
  define c6 where "c6 = advanced c5 (length (hdr_edks_bytes g))"
  note cs = c1_def c2_def c3_def c4_def c5_def c6_def
  have e1: "aws_cryptosdk_priv_hdr_parse_header_version L h c = Inr (?v, c1)"
    unfolding cs by (rule parse_version_back [OF d v(2)])
  have e2: "(if ?v1 then aws_cryptosdk_priv_hdr_parse_message_type L h c1 else Inr c1) = Inr c2"
    unfolding c2_def by (rule parse_type_back) (simp add: d cs)
  have e3: "aws_cryptosdk_priv_hdr_parse_alg_id L h ?v c2 = Inr (p, ?h1, c3)"
    unfolding c3_def by (rule parse_alg_id_back [OF _ p v(1)]) (simp add: d cs)
  obtain b where e4: "aws_cryptosdk_priv_hdr_parse_message_id L ?h1 p c3 =
      Inr (?h1\<lparr>hdr_message_id := b\<rparr>, c4)" "buf_contents b = ?mid"
    using parse_message_id_back [of c3 ?mid _ p ?h1, OF _ mid] unfolding c4_def by (auto simp: d cs)
  let ?h2 = "?h1\<lparr>hdr_message_id := b\<rparr>"
  obtain t where e5: "aws_cryptosdk_priv_hdr_parse_aad L ?h2 c4 = Inr (?h2\<lparr>hdr_enc_ctx := t\<rparr>, c5)"
      "map_of t = map_of (hdr_enc_ctx g)"
    using parse_aad_back [of c4 g "hdr_edks_bytes g @ rest" ?h2] wf h unfolding c5_def
    by (auto simp: d cs hdr_zero_def)
  let ?h3 = "?h2\<lparr>hdr_enc_ctx := t\<rparr>"
  obtain es where e6: "aws_cryptosdk_priv_hdr_parse_edks L ?h3 c5 m = Inr (?h3\<lparr>hdr_edk_list := es\<rparr>, c6)"
      "list_all2 aws_cryptosdk_edk_eq (hdr_edk_list g) es"
    using parse_edks_back [of c5 g rest m ?h3] wf m h unfolding c6_def by (auto simp: d cs hdr_zero_def)
  have "c6 = advanced c (length (hdr_start_bytes g @ hdr_aad_bytes g @ hdr_edks_bytes g))"
    by (simp add: cs hdr_start_bytes_def add.assoc)
  moreover have "hdr_parse_head L h c m = Inr (?v, p, ?h3\<lparr>hdr_edk_list := es\<rparr>, c6)"
    unfolding hdr_parse_head_def by (simp add: e1 e2 e3 e4(1) e5(1) e6(1))
  ultimately show ?thesis using e4(2) e5(2) e6(2) by blast
qed

lemma hdr_parse_tail_back:
  assumes c: "cur_data c = hdr_frame_bytes g @ hdr_auth_bytes g @ rest" "cur_ptr pc \<le> cur_ptr c"
    and g: "hdr_wf g" and p: "aws_cryptosdk_alg_props (hdr_alg_id g) = Some p"
    and h: "hdr_alg_id h = hdr_alg_id g" "hdr_alg_suite_data h = buf_zero" "hdr_iv h = buf_zero"
  shows "\<exists>d i t. hdr_parse_tail L pc (hdr_version g) p h c = Inr (
      h\<lparr>hdr_frame_len := hdr_frame_len g, hdr_alg_suite_data := d,
        hdr_auth_len := cur_ptr c - cur_ptr pc + length (hdr_frame_bytes g), hdr_iv := i, hdr_auth_tag := t\<rparr>,
      advanced c (length (hdr_frame_bytes g @ hdr_auth_bytes g))) \<and>
    buf_contents d = buf_contents (hdr_alg_suite_data g) \<and> buf_contents i = buf_contents (hdr_iv g) \<and>
    buf_contents t = buf_contents (hdr_auth_tag g)"
proof -
  let ?v1 = "hdr_version g = AWS_CRYPTOSDK_HEADER_VERSION_1_0"
  let ?v2 = "hdr_version g = AWS_CRYPTOSDK_HEADER_VERSION_2_0" and ?f = "hdr_frame_len g"
  let ?t = "if ?f \<noteq> 0 then AWS_CRYPTOSDK_HEADER_CTYPE_FRAMED else AWS_CRYPTOSDK_HEADER_CTYPE_NONFRAMED"
  let ?d = "buf_contents (hdr_alg_suite_data g)" and ?i = "buf_contents (hdr_iv g)"
  have v: "msg_format_version p = hdr_version g" "?v1 \<or> ?v2"
    using p by (simp_all add: hdr_version_def alg_props_fields)
  have known: "aws_cryptosdk_algorithm_is_known (hdr_alg_id h)" "is_known_type ?t"
    using p by (simp_all add: alg_props_known [symmetric] h is_known_type_def)
  have wf: "buf_len (hdr_iv g) = (if ?v1 then 12 else 0)" "length (buf_contents (hdr_auth_tag g)) = 16"
    "length ?d = (if ?v2 then alg_suite_data_len p else 0)" "length ?i = (if ?v1 then 12 else 0)"
    using g p v by (auto simp: hdr_wf_def alg_props_fields hdr_version_def aws_cryptosdk_hdr_is_valid_def
        length_contents)
  define c1 where "c1 = advanced c 1"
  define c2 where "c2 = advanced c1 (if ?v1 then 5 else 0)"
  define c3 where "c3 = advanced c2 4"
  define c4 where "c4 = advanced c3 (length ?d)"
  define c5 where "c5 = advanced c4 (length ?i)"
  define c6 where "c6 = advanced c5 16"
  note cs = c1_def c2_def c3_def c4_def c5_def c6_def
  have d: "cur_data c = ?t # (if ?v1 then [0, 0, 0, 0] @ [word_of_nat 12] else []) @ be_bytes 4 ?f @
      ?d @ ?i @ buf_contents (hdr_auth_tag g) @ rest"
    using c wf by (auto simp: hdr_frame_bytes_def hdr_auth_bytes_def)
  let ?tag = "buf_contents (hdr_auth_tag g)"
  have d2: "cur_data c2 = be_bytes 4 ?f @ ?d @ ?i @ ?tag @ rest" by (simp add: d cs)
  have d3: "cur_data c3 = ?d @ ?i @ ?tag @ rest" by (simp add: d2 c3_def)
  have d4: "cur_data c4 = ?i @ ?tag @ rest" by (simp add: d3 c4_def)
  have d5: "cur_data c5 = ?tag @ rest" by (simp add: d4 c5_def)
  have e1: "aws_cryptosdk_priv_hdr_parse_content_type L h c = Inr (?t, c1)"
    unfolding cs by (rule parse_content_type_back [OF d known(2)])
  obtain n where e2: "(if ?v1 then bindE (aws_cryptosdk_priv_hdr_parse_reserved L h c1)
      (\<lambda>cur. aws_cryptosdk_priv_hdr_parse_iv_len L h cur) else Inr (0, c1)) = Inr (n, c2)" "?v1 \<longrightarrow> n = 12"
    using parse_iv_len_back [of c1 ?v1, OF _ known(1)] unfolding c2_def by (auto simp: d cs)
  have e3: "aws_cryptosdk_priv_hdr_parse_frame_len L h ?t c2 = Inr (h\<lparr>hdr_frame_len := ?f\<rparr>, c3)"
    unfolding c3_def by (rule parse_frame_len_back [OF d2]) simp
  let ?h1 = "h\<lparr>hdr_frame_len := ?f\<rparr>"
  obtain b where e4: "(if ?v2 then aws_cryptosdk_priv_hdr_parse_alg_suite_data L ?h1 p c3 else Inr (?h1, c3)) =
      Inr (?h1\<lparr>hdr_alg_suite_data := b\<rparr>, c4)" "buf_contents b = ?d"
    using parse_suite_back [OF d3 wf(3), of ?h1] h unfolding c4_def by auto
  let ?h2 = "?h1\<lparr>hdr_alg_suite_data := b, hdr_auth_len := cur_ptr c4 - cur_ptr pc\<rparr>"
  have n12: "length ?i = (if ?v1 then unat n else 0)" using wf(4) e2(2) by simp
  obtain i where e5: "(if ?v1 then aws_cryptosdk_priv_hdr_parse_iv L ?h2 n c4 else Inr (?h2, c4)) =
      Inr (?h2\<lparr>hdr_iv := i\<rparr>, c5)" "buf_contents i = ?i"
    using parse_iv_back [OF d4 n12, of ?h2] h unfolding c5_def by auto
  obtain t where e6: "aws_cryptosdk_priv_hdr_parse_auth_tag L (?h2\<lparr>hdr_iv := i\<rparr>) c5 =
      Inr (?h2\<lparr>hdr_iv := i, hdr_auth_tag := t\<rparr>, c6)" "buf_contents t = buf_contents (hdr_auth_tag g)"
    using parse_auth_tag_back [OF d5 wf(2), of "?h2\<lparr>hdr_iv := i\<rparr>"] known unfolding c6_def by auto
  have "c6 = advanced c (length (hdr_frame_bytes g @ hdr_auth_bytes g))"
    "cur_ptr c4 - cur_ptr pc = cur_ptr c - cur_ptr pc + length (hdr_frame_bytes g)"
    using wf c(2) by (auto simp: cs hdr_frame_bytes_def hdr_auth_bytes_def)
  moreover have "hdr_parse_tail L pc (hdr_version g) p h c = Inr (?h2\<lparr>hdr_iv := i, hdr_auth_tag := t\<rparr>, c6)"
    unfolding hdr_parse_tail_def Let_def by (simp add: e1 e2(1) e3 e4(1) e5(1) e6(1))
  ultimately show ?thesis using e4(2) e5(2) e6(2) by auto
qed

end

end
