(* ===== verification/HeaderProps.thy ===== *)
theory HeaderProps
  imports HeaderParse
begin

text \<open>
  The properties of the header component: failed parses, successful parses, the round trip through
  the wire format, and the behaviour of the parser on a header that has not arrived completely.
\<close>

section \<open>Incomplete input\<close>

text \<open>
  \<open>extends g r r'\<close>: the outcome \<open>r'\<close> on an input that continues further is the outcome \<open>r\<close> on the
  shorter input, \<open>g\<close> adding the continuation to the rest that was not consumed, unless \<open>r\<close> reports that the
  input was too short.
\<close>

definition extends_by :: "('e \<Rightarrow> bool) \<Rightarrow> ('a \<Rightarrow> 'a) \<Rightarrow> 'e + 'a \<Rightarrow> 'e + 'a \<Rightarrow> bool" where
  "extends_by short g r r' = (case r of
     Inl e \<Rightarrow> short e \<or> r' = Inl e
   | Inr x \<Rightarrow> r' = Inr (g x))"

abbreviation extends :: "('a \<Rightarrow> 'a) \<Rightarrow> 'a hdr_parser_result \<Rightarrow> 'a hdr_parser_result \<Rightarrow> bool" where
  "extends \<equiv> extends_by (\<lambda>e. fst e = AWS_ERROR_SHORT_BUFFER)"

definition longer :: "bytes \<Rightarrow> byte_cursor \<Rightarrow> byte_cursor" where
  "longer e c = \<lparr>cur_ptr = cur_ptr c, cur_data = cur_data c @ e\<rparr>"

lemma longer_simps [simp]: "cur_ptr (longer e c) = cur_ptr c" "cur_data (longer e c) = cur_data c @ e"
  by (simp_all add: longer_def)

lemma longer_advanced: "n \<le> cur_len c \<Longrightarrow> advanced (longer e c) n = longer e (advanced c n)"
  by (simp add: longer_def advanced_def)

lemma extends_Inr [simp]: "extends_by short g (Inr x) r' \<longleftrightarrow> r' = Inr (g x)"
  by (simp add: extends_by_def)

lemma extends_bind:
  assumes "extends_by short g r r'" "\<And>x. extends_by short g' (f x) (f' (g x))"
  shows "extends_by short g' (bindE r f) (bindE r' f')"
  using assms by (cases r) (auto simp: extends_by_def)

lemma extends_guard:
  "(b \<Longrightarrow> extends_by short g (f ()) (f' ())) \<Longrightarrow>
     extends_by short g (bindE (guardE b e) f) (bindE (guardE b e) f')"
  by (cases b) (simp_all add: extends_by_def)

lemma extends_alloc:
  "(\<And>x. extends_by short g (f x) (f' x)) \<Longrightarrow>
     extends_by short g (bindE (orE m e) f) (bindE (orE m e) f')"
  by (cases m) (simp_all add: extends_by_def)

lemma extends_if:
  "(b \<Longrightarrow> extends_by short g r r') \<Longrightarrow> (\<not> b \<Longrightarrow> extends_by short g q q') \<Longrightarrow>
     extends_by short g (if b then r else q) (if b then r' else q')"
  by simp

abbreviation (input) on_cur :: "bytes \<Rightarrow> 'a \<times> byte_cursor \<Rightarrow> 'a \<times> byte_cursor" where
  "on_cur e \<equiv> apsnd (longer e)"

context aws_c_common
begin

lemma read_more:
  "lib_read_u8 L c = Some (u, c') \<Longrightarrow> lib_read_u8 L (longer e c) = Some (u, longer e c')"
  "lib_read_be16 L c = Some (h, c') \<Longrightarrow> lib_read_be16 L (longer e c) = Some (h, longer e c')"
  "lib_read_be32 L c = Some (w, c') \<Longrightarrow> lib_read_be32 L (longer e c) = Some (w, longer e c')"
  "lib_advance L c n = Some (a, c') \<Longrightarrow> lib_advance L (longer e c) n = Some (a, longer e c')"
  "lib_read_and_fill L c b = Some (b', c') \<Longrightarrow> lib_read_and_fill L (longer e c) b = Some (b', longer e c')"
  by (auto simp: read_u8 read_be16 read_be32 advance read_and_fill longer_advanced prefix_cur_def
      split: if_splits)

lemma extends_orE:
  assumes "\<And>x c'. m = Some (x, c') \<Longrightarrow> m' = Some (x, longer e c')" "short err"
  shows "extends_by short (on_cur e) (orE m err) (orE m' err)"
proof (cases m)
  case (Some p)
  then show ?thesis using assms by (cases p) simp
qed (simp add: extends_by_def assms)

lemma extends_reads:
  assumes "short err"
  shows "extends_by short (on_cur e) (orE (lib_read_u8 L c) err) (orE (lib_read_u8 L (longer e c)) err)"
    "extends_by short (on_cur e) (orE (lib_read_be16 L c) err) (orE (lib_read_be16 L (longer e c)) err)"
    "extends_by short (on_cur e) (orE (lib_read_be32 L c) err) (orE (lib_read_be32 L (longer e c)) err)"
    "extends_by short (on_cur e) (orE (lib_advance L c n) err) (orE (lib_advance L (longer e c) n) err)"
    "extends_by short (on_cur e) (orE (lib_read_and_fill L c b) err) (orE (lib_read_and_fill L (longer e c) b) err)"
  by (rule extends_orE, erule read_more, rule assms)+

lemma short_err: "(\<lambda>e. fst e = AWS_ERROR_SHORT_BUFFER) (aws_cryptosdk_priv_hdr_parse_err_short_buf h)"
  by (simp add: aws_cryptosdk_priv_hdr_parse_err_short_buf_def)

lemmas extends_hdr_reads =
  extends_reads [where short = "\<lambda>e. fst e = AWS_ERROR_SHORT_BUFFER" and
    err = "aws_cryptosdk_priv_hdr_parse_err_short_buf h" for h, OF short_err]

lemmas extends_steps = extends_hdr_reads [THEN extends_bind] extends_guard extends_alloc

lemma extends_header_version:
  "extends (on_cur e) (aws_cryptosdk_priv_hdr_parse_header_version L h c)
     (aws_cryptosdk_priv_hdr_parse_header_version L h (longer e c))"
  unfolding aws_cryptosdk_priv_hdr_parse_header_version_def
  by (rule extends_steps, clarsimp, rule extends_steps, simp)

lemma extends_message_type:
  "extends (longer e) (aws_cryptosdk_priv_hdr_parse_message_type L h c)
     (aws_cryptosdk_priv_hdr_parse_message_type L h (longer e c))"
  unfolding aws_cryptosdk_priv_hdr_parse_message_type_def
  by (rule extends_steps, clarsimp, rule extends_steps, simp)

lemma extends_alg_id:
  "extends (apsnd (on_cur e)) (aws_cryptosdk_priv_hdr_parse_alg_id L h v c)
     (aws_cryptosdk_priv_hdr_parse_alg_id L h v (longer e c))"
  unfolding aws_cryptosdk_priv_hdr_parse_alg_id_def Let_def
  by (rule extends_steps, clarsimp, rule extends_steps, rule extends_steps, simp)

lemma extends_message_id:
  "extends (on_cur e) (aws_cryptosdk_priv_hdr_parse_message_id L h p c)
     (aws_cryptosdk_priv_hdr_parse_message_id L h p (longer e c))"
  unfolding aws_cryptosdk_priv_hdr_parse_message_id_def
  by (rule extends_alloc, rule extends_steps, clarsimp)

lemma extends_aad:
  "extends (on_cur e) (aws_cryptosdk_priv_hdr_parse_aad L h c)
     (aws_cryptosdk_priv_hdr_parse_aad L h (longer e c))"
  unfolding aws_cryptosdk_priv_hdr_parse_aad_def
  apply (rule extends_steps, clarsimp)
  apply (rule extends_steps, clarsimp)
  apply (simp split: prod.split option.split)
  apply (auto simp: extends_by_def aws_cryptosdk_priv_hdr_parse_err_generic_def guardE_def)
  done

lemma extends_content_type:
  "extends (on_cur e) (aws_cryptosdk_priv_hdr_parse_content_type L h c)
     (aws_cryptosdk_priv_hdr_parse_content_type L h (longer e c))"
  unfolding aws_cryptosdk_priv_hdr_parse_content_type_def
  by (rule extends_steps, clarsimp, rule extends_steps, simp)

lemma extends_reserved:
  "extends (longer e) (aws_cryptosdk_priv_hdr_parse_reserved L h c)
     (aws_cryptosdk_priv_hdr_parse_reserved L h (longer e c))"
  unfolding aws_cryptosdk_priv_hdr_parse_reserved_def
  by (rule extends_steps, clarsimp, rule extends_steps, simp)

lemma extends_iv_len:
  "extends (on_cur e) (aws_cryptosdk_priv_hdr_parse_iv_len L h c)
     (aws_cryptosdk_priv_hdr_parse_iv_len L h (longer e c))"
  unfolding aws_cryptosdk_priv_hdr_parse_iv_len_def
  by (rule extends_steps, clarsimp, rule extends_steps, simp)

lemma extends_frame_len:
  "extends (on_cur e) (aws_cryptosdk_priv_hdr_parse_frame_len L h t c)
     (aws_cryptosdk_priv_hdr_parse_frame_len L h t (longer e c))"
  unfolding aws_cryptosdk_priv_hdr_parse_frame_len_def
  by (rule extends_steps, clarsimp, rule extends_steps, simp)

lemma extends_alg_suite_data:
  "extends (on_cur e) (aws_cryptosdk_priv_hdr_parse_alg_suite_data L h p c)
     (aws_cryptosdk_priv_hdr_parse_alg_suite_data L h p (longer e c))"
  unfolding aws_cryptosdk_priv_hdr_parse_alg_suite_data_def
  by (rule extends_if, simp, rule extends_alloc, rule extends_steps, clarsimp)

lemma extends_iv:
  "extends (on_cur e) (aws_cryptosdk_priv_hdr_parse_iv L h n c)
     (aws_cryptosdk_priv_hdr_parse_iv L h n (longer e c))"
  unfolding aws_cryptosdk_priv_hdr_parse_iv_def
  by (rule extends_alloc, rule extends_steps, clarsimp)

lemma extends_auth_tag:
  "extends (on_cur e) (aws_cryptosdk_priv_hdr_parse_auth_tag L h c)
     (aws_cryptosdk_priv_hdr_parse_auth_tag L h (longer e c))"
  unfolding aws_cryptosdk_priv_hdr_parse_auth_tag_def
  by (rule extends_alloc, rule extends_steps, clarsimp)

lemma extends_edk_field:
  "extends_by (\<lambda>e. e = AWS_ERROR_SHORT_BUFFER) (on_cur e) (parse_edk_field L c) (parse_edk_field L (longer e c))"
  unfolding parse_edk_field_def
  by (rule extends_bind [OF extends_reads(2)], simp, clarsimp, rule extends_alloc, rule extends_reads, simp)

lemma extends_edk:
  "extends_by (\<lambda>e. e = AWS_ERROR_SHORT_BUFFER) (on_cur e) (parse_edk L c) (parse_edk L (longer e c))"
  unfolding parse_edk_def
  by (rule extends_bind [OF extends_edk_field], clarsimp)+

lemma extends_edks_loop:
  "extends (on_cur e) (parse_edks_loop L n h c) (parse_edks_loop L n h (longer e c))"
proof (induction n arbitrary: h c)
  case (Suc n)
  show ?case
  proof (cases "parse_edk L c")
    case (Inl err)
    then show ?thesis
      using extends_edk [of e c]
      by (auto simp: extends_by_def aws_cryptosdk_priv_hdr_parse_err_rethrow_def)
  next
    case (Inr r)
    obtain k c1 where r: "r = (k, c1)" by (cases r)
    then have "parse_edk L (longer e c) = Inr (k, longer e c1)"
      using extends_edk [of e c] Inr by simp
    then show ?thesis using Inr r Suc.IH by simp
  qed
qed simp

lemma extends_edks:
  "extends (on_cur e) (aws_cryptosdk_priv_hdr_parse_edks L h c m)
     (aws_cryptosdk_priv_hdr_parse_edks L h (longer e c) m)"
  unfolding aws_cryptosdk_priv_hdr_parse_edks_def
  by (rule extends_steps, clarsimp, rule extends_steps, rule extends_steps, rule extends_edks_loop)

lemma extends_head:
  "extends (apsnd (apsnd (on_cur e))) (hdr_parse_head L h c m) (hdr_parse_head L h (longer e c) m)"
  unfolding hdr_parse_head_def
  apply (rule extends_bind [OF extends_header_version], clarsimp split del: if_split)
  apply (rule extends_bind [OF extends_if [OF extends_message_type]], simp)
  apply (rule extends_bind [OF extends_alg_id], clarsimp split del: if_split)
  apply (rule extends_bind [OF extends_message_id], clarsimp split del: if_split)
  apply (rule extends_bind [OF extends_aad], clarsimp split del: if_split)
  apply (rule extends_bind [OF extends_edks], clarsimp split del: if_split)
  done

lemma extends_reserved_iv_len:
  "extends (on_cur e)
     (bindE (aws_cryptosdk_priv_hdr_parse_reserved L h c) (\<lambda>c. aws_cryptosdk_priv_hdr_parse_iv_len L h c))
     (bindE (aws_cryptosdk_priv_hdr_parse_reserved L h (longer e c))
        (\<lambda>c. aws_cryptosdk_priv_hdr_parse_iv_len L h c))"
  by (rule extends_bind, rule extends_reserved, rule extends_iv_len)

lemma extends_tail:
  "extends (on_cur e) (hdr_parse_tail L pc v p h c) (hdr_parse_tail L (longer e pc) v p h (longer e c))"
  unfolding hdr_parse_tail_def Let_def
  apply (rule extends_bind [OF extends_content_type], clarsimp split del: if_split)
  apply (rule extends_bind [OF extends_if [OF extends_reserved_iv_len]], simp, clarsimp split del: if_split)
  apply (rule extends_bind [OF extends_frame_len], clarsimp split del: if_split)
  apply (rule extends_bind [OF extends_if [OF extends_alg_suite_data]], simp, clarsimp split del: if_split)
  apply (simp only: longer_simps)
  apply (rule extends_bind [OF extends_if [OF extends_iv]], simp, clarsimp split del: if_split)
  apply (rule extends_auth_tag)
  done

lemma extends_fields:
  "extends (on_cur e) (hdr_parse_fields L h c m) (hdr_parse_fields L h (longer e c) m)"
  unfolding hdr_parse_fields_def
  by (rule extends_bind [OF extends_head], clarsimp, rule extends_tail)

end

section \<open>Properties\<close>

lemma hdr_parse_unfold:
  assumes "hdr_alloc h"
  shows "aws_cryptosdk_hdr_parse L h c m =
    (case hdr_parse_fields L (hdr_zero\<lparr>hdr_alloc := True\<rparr>) c m of
       Inl (e, h') \<Rightarrow> (AWS_OP_ERR e, h', c) | Inr (h', c') \<Rightarrow> (AWS_OP_SUCCESS, h', c'))"
  using assms by (simp add: aws_cryptosdk_hdr_parse_def hdr_clear_eq)

lemma hdr_example_writable: "hdr_writable hdr_example"
  using hdr_example_ctx hdr_example_valid
  by (simp add: hdr_writable_def hdr_wf_def) (simp add: hdr_example_def aws_cryptosdk_alg_props_def STATIC_ALG_PROPS_def buf_from_array_def
   aws_cryptosdk_private_algorithm_message_id_len_def edk_fits_def)

lemma hdr_example_alloc: "hdr_alloc hdr_example" by (simp add: hdr_example_def)

lemma hdr_example_edks: "length (hdr_edk_list hdr_example) \<le> 1" by (simp add: hdr_example_def)

text \<open>
  C11: A parse that fails, for whatever reason, leaves the header cleared (only its allocator is
  kept) and the cursor where it was.
\<close>

theorem hdr_parse_failure:
  assumes "aws_c_common L" "hdr_alloc h" "aws_cryptosdk_hdr_parse L h c m = (AWS_OP_ERR e, h', c')"
  shows "h' = aws_cryptosdk_hdr_clear h \<and> c' = c"
  using aws_c_common.hdr_parse_fields_parses [OF assms(1) refl, of m c] assms(2, 3)
  by (auto simp: hdr_parse_unfold hdr_clear_eq parses_def split: sum.splits prod.splits)

theorem hdr_parse_failure_witness:
  "\<exists>e. aws_cryptosdk_hdr_parse aws_ref hdr_example (cursor_of []) 0 =
     (AWS_OP_ERR e, aws_cryptosdk_hdr_clear hdr_example, cursor_of [])"
proof -
  have r: "lib_read_u8 aws_ref (cursor_of []) = None" by (simp add: aws_ref_def ref_read_def cursor_of_def)
  have "\<exists>e h' c'. aws_cryptosdk_hdr_parse aws_ref hdr_example (cursor_of []) 0 = (AWS_OP_ERR e, h', c')"
    by (simp add: hdr_parse_unfold hdr_example_alloc hdr_parse_fields_def hdr_parse_head_def
        aws_cryptosdk_priv_hdr_parse_header_version_def r split: prod.split)
  then show ?thesis
    using hdr_parse_failure [OF ref.aws_c_common_axioms, of hdr_example "cursor_of []" 0] by (auto simp: hdr_example_def)
qed

text \<open>
  C10: A parse that succeeds yields a header that is valid and well formed: the algorithm suite is
  known, message id, suite data, initialization vector and tag have the lengths the suite
  prescribes, the number of encrypted data keys respects a nonzero limit, and the bytes consumed
  are the authenticated part, the initialization vector and the tag.
\<close>

theorem hdr_parse_success:
  assumes "aws_c_common L" "hdr_alloc h" "aws_cryptosdk_hdr_parse L h c m = (AWS_OP_SUCCESS, h', c')"
  shows "hdr_wf h' \<and> (m \<noteq> 0 \<longrightarrow> length (hdr_edk_list h') \<le> m) \<and>
    (\<exists>n. n = hdr_auth_len h' + buf_len (hdr_iv h') + buf_len (hdr_auth_tag h') \<and>
         n \<le> cur_len c \<and> c' = advanced c n)"
  using aws_c_common.hdr_parse_fields_parses [OF assms(1) refl, of m c] assms(2, 3)
  by (auto simp: hdr_parse_unfold read_from_def split: sum.splits prod.splits)

lemma hdr_parse_bytes:
  assumes "aws_c_common_mem L" "hdr_writable g" "hdr_alloc h"
    and "m = 0 \<or> length (hdr_edk_list g) \<le> m"
  shows "\<exists>h'. aws_cryptosdk_hdr_parse L h \<lparr>cur_ptr = p, cur_data = hdr_bytes g @ rest\<rparr> m =
      (AWS_OP_SUCCESS, h', \<lparr>cur_ptr = p + length (hdr_bytes g), cur_data = rest\<rparr>) \<and>
    hdr_same g h' \<and> hdr_auth_len h' = length (hdr_body_bytes g)"
proof -
  obtain q where q: "aws_cryptosdk_alg_props (hdr_alg_id g) = Some q" and wf: "hdr_wf g"
    using assms(2) by (auto simp: hdr_writable_def hdr_wf_def split: option.splits)
  let ?h = "hdr_zero\<lparr>hdr_alloc := True\<rparr>" and ?c = "\<lparr>cur_ptr = p, cur_data = hdr_bytes g @ rest\<rparr>"
  let ?start = "hdr_start_bytes g @ hdr_aad_bytes g @ hdr_edks_bytes g"
  have d: "cur_data ?c = hdr_start_bytes g @ hdr_aad_bytes g @ hdr_edks_bytes g @
      hdr_frame_bytes g @ hdr_auth_bytes g @ rest"
    by (simp add: hdr_bytes_def hdr_body_bytes_def)
  from aws_c_common_mem.hdr_parse_head_back [OF assms(1) d assms(2) q assms(4) refl]
  obtain b t es where head: "hdr_parse_head L ?h ?c m = Inr (hdr_version g, q,
      ?h\<lparr>hdr_alg_id := hdr_alg_id g, hdr_message_id := b, hdr_enc_ctx := t, hdr_edk_list := es\<rparr>,
      advanced ?c (length ?start))"
    "buf_contents b = buf_contents (hdr_message_id g)" "map_of t = map_of (hdr_enc_ctx g)"
    "list_all2 aws_cryptosdk_edk_eq (hdr_edk_list g) es" by blast
  let ?h1 = "?h\<lparr>hdr_alg_id := hdr_alg_id g, hdr_message_id := b, hdr_enc_ctx := t, hdr_edk_list := es\<rparr>"
  have "cur_data (advanced ?c (length ?start)) = hdr_frame_bytes g @ hdr_auth_bytes g @ rest"
    using d by simp
  from aws_c_common_mem.hdr_parse_tail_back [OF assms(1) this, of ?c, OF _ wf q, of ?h1]
  obtain s i a where tail: "hdr_parse_tail L ?c (hdr_version g) q ?h1 (advanced ?c (length ?start)) = Inr (
      ?h1\<lparr>hdr_frame_len := hdr_frame_len g, hdr_alg_suite_data := s,
        hdr_auth_len := length ?start + length (hdr_frame_bytes g), hdr_iv := i, hdr_auth_tag := a\<rparr>,
      advanced (advanced ?c (length ?start)) (length (hdr_frame_bytes g @ hdr_auth_bytes g)))"
    "buf_contents s = buf_contents (hdr_alg_suite_data g)" "buf_contents i = buf_contents (hdr_iv g)"
    "buf_contents a = buf_contents (hdr_auth_tag g)"
    by (auto simp: hdr_zero_def)
  have "advanced ?c (length (hdr_bytes g)) = \<lparr>cur_ptr = p + length (hdr_bytes g), cur_data = rest\<rparr>"
    by (simp add: advanced_def)
  then show ?thesis
    using head tail assms(3)
    by (auto simp: hdr_parse_unfold hdr_parse_fields_def hdr_same_def hdr_bytes_def hdr_body_bytes_def
        add.assoc)
qed

lemma hdr_example_parsed:
  "\<exists>h'. aws_cryptosdk_hdr_parse aws_ref hdr_example \<lparr>cur_ptr = 0, cur_data = hdr_bytes hdr_example\<rparr> 1 =
     (AWS_OP_SUCCESS, h', \<lparr>cur_ptr = 110, cur_data = []\<rparr>)"
  using hdr_parse_bytes [OF ref.aws_c_common_mem_axioms hdr_example_writable hdr_example_alloc disjI2 [OF hdr_example_edks], of 0 "[]"]
  by (auto simp: length_hdr_example)

text \<open>
  C8: Round trip: the header that the writer puts into a buffer is read back by the parser, up to
  the representation of buffers and tables, followed by whatever comes next in the message, and
  the authenticated length is that of everything before initialization vector and tag.
\<close>

theorem hdr_roundtrip:
  assumes "aws_c_common_mem L" "hdr_writable g" "hdr_alloc h"
    and "m = 0 \<or> length (hdr_edk_list g) \<le> m"
    and "aws_cryptosdk_hdr_write L g outbuf = (AWS_OP_SUCCESS, n, out)"
  shows "\<exists>h'. aws_cryptosdk_hdr_parse L h \<lparr>cur_ptr = p, cur_data = take n out @ rest\<rparr> m =
      (AWS_OP_SUCCESS, h', \<lparr>cur_ptr = p + n, cur_data = rest\<rparr>) \<and>
    hdr_same g h' \<and> hdr_auth_len h' = length (hdr_body_bytes g)"
proof -
  have wf: "aws_cryptosdk_algorithm_is_known (hdr_alg_id g)" "hash_valid (hdr_enc_ctx g)"
    "enc_ctx_fits (hdr_enc_ctx g)"
    using assms(2) alg_props_known
    by (auto simp: hdr_writable_def hdr_wf_def aws_cryptosdk_hdr_is_valid_def split: option.splits)
  have "n = length (hdr_bytes g)" "take n out = hdr_bytes g"
    using aws_c_common_mem.hdr_write_eq [OF assms(1) wf, of outbuf] assms(5) by (auto split: if_splits)
  then show ?thesis using hdr_parse_bytes [OF assms(1-4)] by simp
qed

theorem hdr_roundtrip_witness:
  "\<exists>h'. aws_cryptosdk_hdr_parse aws_ref hdr_example
       \<lparr>cur_ptr = 0, cur_data = take 110 (snd (snd (aws_cryptosdk_hdr_write aws_ref hdr_example (replicate 200 0)))) @ [9]\<rparr> 1 =
     (AWS_OP_SUCCESS, h', \<lparr>cur_ptr = 110, cur_data = [9]\<rparr>) \<and> hdr_same hdr_example h'"
proof -
  have w: "aws_cryptosdk_hdr_write aws_ref hdr_example (replicate 200 0) =
      (AWS_OP_SUCCESS, 110, hdr_bytes hdr_example @ replicate 90 0)"
    by (simp add: ref.hdr_write_eq hdr_example_known hdr_example_ctx length_hdr_example)
  show ?thesis
    using hdr_roundtrip [OF ref.aws_c_common_mem_axioms hdr_example_writable hdr_example_alloc disjI2 [OF hdr_example_edks] w, of 0 "[9]"]
    by (auto simp: w)
qed

text \<open>
  C9: Streaming: if a header parses, then every proper prefix of the bytes it consumes is answered
  with a short-buffer error and nothing else, and every longer input is parsed to the same header.
\<close>

theorem hdr_parse_streaming:
  assumes "aws_c_common L" "hdr_alloc h" "hdr_alloc h2"
    and "aws_cryptosdk_hdr_parse L h \<lparr>cur_ptr = p, cur_data = seen @ rest\<rparr> m = (AWS_OP_SUCCESS, h', c')"
  shows "(length (cur_data c') < length rest \<longrightarrow>
      aws_cryptosdk_hdr_parse L h2 \<lparr>cur_ptr = p, cur_data = seen\<rparr> m =
        (AWS_OP_ERR AWS_ERROR_SHORT_BUFFER, aws_cryptosdk_hdr_clear h2, \<lparr>cur_ptr = p, cur_data = seen\<rparr>)) \<and>
    aws_cryptosdk_hdr_parse L h2 \<lparr>cur_ptr = p, cur_data = seen @ rest @ extra\<rparr> m =
      (AWS_OP_SUCCESS, h', \<lparr>cur_ptr = cur_ptr c', cur_data = cur_data c' @ extra\<rparr>)"
proof (intro conjI impI)
  let ?h = "hdr_zero\<lparr>hdr_alloc := True\<rparr>" and ?s = "\<lparr>cur_ptr = p, cur_data = seen\<rparr>"
  let ?full = "\<lparr>cur_ptr = p, cur_data = seen @ rest\<rparr>"
  have full: "hdr_parse_fields L ?h ?full m = Inr (h', c')"
    using assms(2, 4) by (simp add: hdr_parse_unfold split: sum.splits prod.splits)
  note ext = aws_c_common.extends_fields [OF assms(1), of _ ?h _ m]
  show "aws_cryptosdk_hdr_parse L h2 \<lparr>cur_ptr = p, cur_data = seen @ rest @ extra\<rparr> m =
        (AWS_OP_SUCCESS, h', \<lparr>cur_ptr = cur_ptr c', cur_data = cur_data c' @ extra\<rparr>)"
    using ext [of extra ?full] full assms(3) by (simp add: hdr_parse_unfold longer_def)
  assume "length (cur_data c') < length rest"
  then show "aws_cryptosdk_hdr_parse L h2 ?s m =
      (AWS_OP_ERR AWS_ERROR_SHORT_BUFFER, aws_cryptosdk_hdr_clear h2, ?s)"
    using ext [of rest ?s] full assms(3) aws_c_common.hdr_parse_fields_parses [OF assms(1) refl, of m ?s]
    by (auto simp: hdr_parse_unfold extends_by_def parses_def longer_def hdr_clear_eq split: sum.splits)
qed

theorem hdr_parse_success_witness:
  "\<exists>h'. aws_cryptosdk_hdr_parse aws_ref hdr_example \<lparr>cur_ptr = 0, cur_data = hdr_bytes hdr_example\<rparr> 1 =
     (AWS_OP_SUCCESS, h', \<lparr>cur_ptr = 110, cur_data = []\<rparr>) \<and> hdr_wf h' \<and> length (hdr_edk_list h') \<le> 1"
  using hdr_example_parsed hdr_parse_success [OF ref.aws_c_common_axioms hdr_example_alloc, of _ 1] by fastforce

theorem hdr_parse_streaming_witness:
  "aws_cryptosdk_hdr_parse aws_ref hdr_example \<lparr>cur_ptr = 0, cur_data = take 50 (hdr_bytes hdr_example)\<rparr> 1 =
     (AWS_OP_ERR AWS_ERROR_SHORT_BUFFER, aws_cryptosdk_hdr_clear hdr_example,
      \<lparr>cur_ptr = 0, cur_data = take 50 (hdr_bytes hdr_example)\<rparr>)"
proof -
  let ?bs = "hdr_bytes hdr_example"
  obtain h' where "aws_cryptosdk_hdr_parse aws_ref hdr_example \<lparr>cur_ptr = 0, cur_data = take 50 ?bs @ drop 50 ?bs\<rparr> 1 =
     (AWS_OP_SUCCESS, h', \<lparr>cur_ptr = 110, cur_data = []\<rparr>)"
    using hdr_example_parsed by auto
  from hdr_parse_streaming [OF ref.aws_c_common_axioms hdr_example_alloc hdr_example_alloc this]
  show ?thesis by (simp add: length_hdr_example)
qed

end
