(* ===== verification/FrameProps.thy ===== *)
theory FrameProps
  imports FrameFmt
begin

text \<open>
  Properties of the frame format: \<open>frame_bytes\<close> is the wire format of a frame; the serializer lays
  out exactly it, the deserializer locates its parts, and the size reported for an incomplete
  frame always exceeds what is available.
\<close>

section \<open>The wire format\<close>

fun frame_bytes :: "frame_type \<Rightarrow> uint32 \<Rightarrow> bytes \<Rightarrow> bytes \<Rightarrow> bytes \<Rightarrow> bytes" where
  "frame_bytes FRAME_TYPE_SINGLE seqno iv ct tag =
     iv @ be_bytes 8 (word_of_nat (length ct) :: uint64) @ ct @ tag"
| "frame_bytes FRAME_TYPE_FRAME seqno iv ct tag = be_bytes 4 seqno @ iv @ ct @ tag"
| "frame_bytes FRAME_TYPE_FINAL seqno iv ct tag =
     be_bytes 4 LAST_FRAME_MARK @ be_bytes 4 seqno @ iv @
     be_bytes 4 (word_of_nat (length ct) :: uint32) @ ct @ tag"

text \<open>Where the parts lie, and how long the frame is, for a plaintext of \<open>n\<close> bytes.\<close>

fun iv_off :: "frame_type \<Rightarrow> nat" where
  "iv_off FRAME_TYPE_SINGLE = 0"
| "iv_off FRAME_TYPE_FRAME = 4"
| "iv_off FRAME_TYPE_FINAL = 8"

fun ct_off :: "frame_type \<Rightarrow> alg_properties \<Rightarrow> nat" where
  "ct_off FRAME_TYPE_SINGLE p = iv_len p + 8"
| "ct_off FRAME_TYPE_FRAME p = 4 + iv_len p"
| "ct_off FRAME_TYPE_FINAL p = 8 + iv_len p + 4"

definition frame_size :: "frame_type \<Rightarrow> alg_properties \<Rightarrow> nat \<Rightarrow> nat" where
  "frame_size ty p n = ct_off ty p + n + tag_len p"

lemma length_frame_bytes:
  "length iv = iv_len p \<Longrightarrow> length tag = tag_len p \<Longrightarrow>
     length (frame_bytes ty seqno iv ct tag) = frame_size ty p (length ct)"
  by (cases ty) (simp_all add: frame_size_def)

text \<open>The frames of a message whose header announces the frame size \<open>m\<close> (0: no framing).\<close>

fun frame_ok :: "frame_type \<Rightarrow> uint32 \<Rightarrow> uint64 \<Rightarrow> nat \<Rightarrow> bool" where
  "frame_ok FRAME_TYPE_SINGLE seqno m n \<longleftrightarrow> m = 0 \<and> seqno = 1 \<and> n < 0xFFFFFFFE0"
| "frame_ok FRAME_TYPE_FRAME seqno m n \<longleftrightarrow> m \<noteq> 0 \<and> seqno \<noteq> LAST_FRAME_MARK \<and> n = unat m"
| "frame_ok FRAME_TYPE_FINAL seqno m n \<longleftrightarrow> m \<noteq> 0 \<and> n \<le> unat m \<and> m \<le> MAX_FRAME_SIZE"

definition located :: "nat \<Rightarrow> nat \<Rightarrow> slice" where
  "located off n = \<lparr>sl_ptr = Some off, sl_len = n, sl_capacity = n\<rparr>"

lemma word_of_nat_eqI: "unat w = n \<Longrightarrow> w = word_of_nat n"
  by auto

lemma not_above_SIZE_MAX [simp]: "\<not> SIZE_MAX64 < w"
proof -
  have "unat SIZE_MAX64 = 2 ^ 64 - 1" by (simp add: unsigned_minus_1_eq_mask mask_eq_exp_minus_1)
  then show ?thesis using unsigned_less [of w, where 'a = nat] by (simp add: word_less_nat_alt)
qed

section \<open>Accounting of consumed and missing bytes\<close>

text \<open>
  While reading: either everything so far was there and the cursor is behind it, or more bytes are
  needed than the input has. \<open>B\<close> bounds the bytes still to be counted, so that the 64-bit counter
  does not wrap.
\<close>

definition counts :: "byte_cursor \<Rightarrow> nat \<Rightarrow> framestate \<Rightarrow> bool" where
  "counts c B st \<longleftrightarrow> \<not> fs_writing st \<and> unat (fs_ciphertext_size st) + B < 2 ^ 64 \<and>
     (if fs_too_small st then cur_len c < unat (fs_ciphertext_size st)
      else fs_cursor st = advanced c (unat (fs_ciphertext_size st)) \<and>
           unat (fs_ciphertext_size st) \<le> cur_len c)"

lemma unat_plus_small: "unat (x :: uint64) + unat y < 2 ^ 64 \<Longrightarrow> unat (x + y) = unat x + unat y"
  by (simp add: unat_word_ariths)

section \<open>Reading\<close>

context aws_c_common
begin

lemma read_field_be32:
  assumes "\<not> fs_writing st" "\<not> fs_too_small st" "cur_data (fs_cursor st) = be_bytes 4 v @ rest"
  shows "field_be32 L st w = (v, st\<lparr>fs_ciphertext_size := fs_ciphertext_size st + 4,
    fs_cursor := advanced (fs_cursor st) 4\<rparr>)"
  using assms by (simp add: field_be32_def read_be32_append)

lemma read_field_be64:
  assumes "\<not> fs_writing st" "\<not> fs_too_small st" "cur_data (fs_cursor st) = be_bytes 8 v @ rest"
  shows "field_be64 L st w = (v, st\<lparr>fs_ciphertext_size := fs_ciphertext_size st + 8,
    fs_cursor := advanced (fs_cursor st) 8\<rparr>)"
  using assms by (simp add: field_be64_def read_be64_append)

lemma read_field_sized:
  assumes "\<not> fs_writing st" "cur_data (fs_cursor st) = bs @ rest" "unat sz = length bs"
  shows "field_sized L st sz = (located (cur_ptr (fs_cursor st)) (length bs),
    st\<lparr>fs_ciphertext_size := fs_ciphertext_size st + sz,
       fs_cursor := advanced (fs_cursor st) (length bs)\<rparr>)"
  using assms by (simp add: field_sized_def advance_append [OF assms(2)] located_def)

lemma serde_framed_read:
  assumes "\<not> fs_writing st" "\<not> fs_too_small st"
    and "cur_data (fs_cursor st) = be_bytes 4 seqno @ iv @ ct @ tag @ rest" "seqno \<noteq> LAST_FRAME_MARK"
    and "unat (fs_max_frame_size st) = length ct"
    and "unat (word_of_nat (iv_len (fs_alg_props st)) :: uint64) = length iv"
    and "unat (word_of_nat (tag_len (fs_alg_props st)) :: uint64) = length tag"
  shows "serde_framed L st f = (None,
    st\<lparr>fs_ciphertext_size := fs_ciphertext_size st + word_of_nat (4 + length iv + length ct + length tag),
       fs_plaintext_size := fs_max_frame_size st,
       fs_cursor := advanced (fs_cursor st) (4 + length iv + length ct + length tag)\<rparr>,
    f\<lparr>sequence_number := seqno, frame_iv := located (cur_ptr (fs_cursor st) + 4) (length iv),
      frame_ciphertext := located (cur_ptr (fs_cursor st) + 4 + length iv) (length ct),
      frame_authtag := located (cur_ptr (fs_cursor st) + 4 + length iv + length ct) (length tag),
      frame_ty := FRAME_TYPE_FRAME\<rparr>)"
proof -
  have w: "fs_max_frame_size st = word_of_nat (length ct)"
    "(word_of_nat (iv_len (fs_alg_props st)) :: uint64) = word_of_nat (length iv)"
    "(word_of_nat (tag_len (fs_alg_props st)) :: uint64) = word_of_nat (length tag)"
    using assms(5-7) by (simp_all only: word_of_nat_eqI)
  show ?thesis
    using assms
    by (simp add: serde_framed_def read_field_be32 [where v = seqno] read_field_sized [where bs = iv]
        read_field_sized [where bs = ct] read_field_sized [where bs = tag] w ac_simps)
qed

lemma serde_nonframed_read:
  assumes "\<not> fs_writing st" "\<not> fs_too_small st"
    and "cur_data (fs_cursor st) = iv @ be_bytes 8 (word_of_nat (length ct) :: uint64) @ ct @ tag @ rest"
    and "length ct < 0xFFFFFFFE0"
    and "unat (word_of_nat (iv_len (fs_alg_props st)) :: uint64) = length iv"
    and "unat (word_of_nat (tag_len (fs_alg_props st)) :: uint64) = length tag"
  shows "serde_nonframed L st f = (None,
    st\<lparr>fs_ciphertext_size := fs_ciphertext_size st + word_of_nat (length iv + 8 + length ct + length tag),
       fs_plaintext_size := word_of_nat (length ct),
       fs_cursor := advanced (fs_cursor st) (length iv + 8 + length ct + length tag)\<rparr>,
    f\<lparr>sequence_number := 1, frame_iv := located (cur_ptr (fs_cursor st)) (length iv),
      frame_ciphertext := located (cur_ptr (fs_cursor st) + length iv + 8) (length ct),
      frame_authtag := located (cur_ptr (fs_cursor st) + length iv + 8 + length ct) (length tag),
      frame_ty := FRAME_TYPE_SINGLE\<rparr>)"
proof -
  have w: "(word_of_nat (iv_len (fs_alg_props st)) :: uint64) = word_of_nat (length iv)"
    "(word_of_nat (tag_len (fs_alg_props st)) :: uint64) = word_of_nat (length tag)"
    using assms(5, 6) by (auto intro: word_of_nat_eqI)
  have n: "unat (word_of_nat (length ct) :: uint64) = length ct"
    using assms(4) by (simp add: unat_of_nat)
  then have "\<not> MAX_UNFRAMED_PLAINTEXT_SIZE \<le> word_of_nat (length ct)"
    using assms(4) by (simp add: word_le_nat_alt)
  then show ?thesis
    using assms n
    by (simp add: serde_nonframed_def read_field_be64 [where v = "word_of_nat (length ct)"]
        read_field_sized [where bs = iv] read_field_sized [where bs = ct]
        read_field_sized [where bs = tag] w ac_simps)
qed

lemma serde_last_frame_read:
  assumes "\<not> fs_writing st" "\<not> fs_too_small st"
    and "cur_data (fs_cursor st) =
      be_bytes 4 seqno @ iv @ be_bytes 4 (word_of_nat (length ct) :: uint32) @ ct @ tag @ rest"
    and "length ct \<le> unat (fs_max_frame_size st)" "fs_max_frame_size st \<le> MAX_FRAME_SIZE"
    and "unat (word_of_nat (iv_len (fs_alg_props st)) :: uint64) = length iv"
    and "unat (word_of_nat (tag_len (fs_alg_props st)) :: uint64) = length tag"
  shows "serde_last_frame L st f = (None,
    st\<lparr>fs_ciphertext_size := fs_ciphertext_size st + word_of_nat (4 + length iv + 4 + length ct + length tag),
       fs_plaintext_size := word_of_nat (length ct),
       fs_cursor := advanced (fs_cursor st) (4 + length iv + 4 + length ct + length tag)\<rparr>,
    f\<lparr>sequence_number := seqno, frame_iv := located (cur_ptr (fs_cursor st) + 4) (length iv),
      frame_ciphertext := located (cur_ptr (fs_cursor st) + 4 + length iv + 4) (length ct),
      frame_authtag := located (cur_ptr (fs_cursor st) + 4 + length iv + 4 + length ct) (length tag),
      frame_ty := FRAME_TYPE_FINAL\<rparr>)"
proof -
  have w: "(word_of_nat (iv_len (fs_alg_props st)) :: uint64) = word_of_nat (length iv)"
    "(word_of_nat (tag_len (fs_alg_props st)) :: uint64) = word_of_nat (length tag)"
    using assms(6, 7) by (auto intro: word_of_nat_eqI)
  have le: "length ct \<le> 0xFFFFFFFF"
    using assms(4, 5) by (simp add: word_le_nat_alt)
  then have n: "unat (word_of_nat (length ct) :: uint64) = length ct"
    and n32: "ucast (word_of_nat (length ct) :: uint32) = (word_of_nat (length ct) :: uint64)"
    by (simp_all add: unat_of_nat word_unat_eq_iff unsigned_ucast_eq take_bit_nat_eq_self_iff)
  have "\<not> fs_max_frame_size st < word_of_nat (length ct)"
    using assms(4) n by (simp add: word_less_nat_alt)
  then show ?thesis
    using assms n
    by (simp add: serde_last_frame_def read_field_be32 [where v = seqno]
        read_field_be32 [where v = "word_of_nat (length ct)"] read_field_sized [where bs = iv]
        read_field_sized [where bs = ct] read_field_sized [where bs = tag] w n32 ac_simps)
qed

lemma deserialize_frame_eq:
  assumes "cur_data c = frame_bytes ty seqno iv ct tag @ rest" "frame_ok ty seqno m (length ct)"
    and "length iv = iv_len p" "length tag = tag_len p" "iv_len p < 2 ^ 64" "tag_len p < 2 ^ 64"
  shows "aws_cryptosdk_deserialize_frame L c p m =
    (AWS_OP_SUCCESS,
     \<lparr>frame_ty = ty, sequence_number = seqno, frame_iv = located (cur_ptr c + iv_off ty) (length iv),
      frame_ciphertext = located (cur_ptr c + ct_off ty p) (length ct),
      frame_authtag = located (cur_ptr c + ct_off ty p + length ct) (length tag)\<rparr>,
     word_of_nat (frame_size ty p (length ct)), word_of_nat (length ct),
     advanced c (frame_size ty p (length ct)))"
proof -
  have u: "unat (word_of_nat (iv_len p) :: uint64) = length iv"
    "unat (word_of_nat (tag_len p) :: uint64) = length tag"
    using assms(3-6) by (simp_all add: unat_of_nat)
  let ?st = "\<lparr>fs_max_frame_size = m, fs_plaintext_size = 0, fs_ciphertext_size = 0, fs_alg_props = p,
      fs_cursor = c, fs_buffer = buf_zero, fs_writing = False, fs_too_small = False\<rparr>"
  note defs = aws_cryptosdk_deserialize_frame_def frame_size_def frame_zero_def
  show ?thesis
  proof (cases ty)
    case FRAME_TYPE_SINGLE
    then show ?thesis
      using assms u serde_nonframed_read [of ?st iv ct tag rest frame_zero]
      by (simp add: defs ac_simps)
  next
    case FRAME_TYPE_FRAME
    then show ?thesis
      using assms u serde_framed_read [of ?st seqno iv ct tag rest frame_zero]
      by (simp add: defs ac_simps)
  next
    case FRAME_TYPE_FINAL
    let ?st' = "?st\<lparr>fs_ciphertext_size := 4, fs_cursor := advanced c 4\<rparr>"
    have "field_be32 L ?st 0 = (LAST_FRAME_MARK, ?st')"
      using assms(1) FRAME_TYPE_FINAL read_field_be32 [of ?st LAST_FRAME_MARK] by simp
    then have "serde_framed L ?st frame_zero = serde_last_frame L ?st' frame_zero"
      by (simp add: serde_framed_def frame_zero_def)
    then show ?thesis
      using FRAME_TYPE_FINAL assms u serde_last_frame_read [of ?st' seqno iv ct tag rest frame_zero]
      by (simp add: defs ac_simps)
  qed
qed

lemma counts_be32:
  assumes "counts c (4 + B) st" "field_be32 L st v = (w, st')"
  shows "counts c B st'" "fs_max_frame_size st' = fs_max_frame_size st"
    "fs_alg_props st' = fs_alg_props st" "fs_plaintext_size st' = fs_plaintext_size st"
proof -
  have u: "unat (fs_ciphertext_size st + 4) = unat (fs_ciphertext_size st) + 4"
    using assms(1) by (subst unat_plus_small) (auto simp: counts_def)
  show "counts c B st'"
    using assms u
    by (auto simp: counts_def field_be32_def Let_def read_be32 split: if_splits option.splits prod.splits)
  show "fs_max_frame_size st' = fs_max_frame_size st" "fs_alg_props st' = fs_alg_props st"
    "fs_plaintext_size st' = fs_plaintext_size st"
    using assms by (auto simp: counts_def field_be32_def Let_def split: if_splits option.splits)
qed

lemma counts_be64:
  assumes "counts c (8 + B) st" "field_be64 L st v = (w, st')"
  shows "counts c B st'" "fs_max_frame_size st' = fs_max_frame_size st" "fs_alg_props st' = fs_alg_props st"
proof -
  have u: "unat (fs_ciphertext_size st + 8) = unat (fs_ciphertext_size st) + 8"
    using assms(1) by (subst unat_plus_small) (auto simp: counts_def)
  show "counts c B st'"
    using assms u
    by (auto simp: counts_def field_be64_def Let_def read_be64 split: if_splits option.splits prod.splits)
  show "fs_max_frame_size st' = fs_max_frame_size st" "fs_alg_props st' = fs_alg_props st"
    using assms by (auto simp: counts_def field_be64_def Let_def split: if_splits option.splits)
qed

lemma counts_sized:
  assumes "counts c (unat sz + B) st" "field_sized L st sz = (sl, st')"
  shows "counts c B st'" "fs_max_frame_size st' = fs_max_frame_size st"
    "fs_alg_props st' = fs_alg_props st" "fs_plaintext_size st' = fs_plaintext_size st"
proof -
  have u: "unat (fs_ciphertext_size st + sz) = unat (fs_ciphertext_size st) + unat sz"
    using assms(1) by (intro unat_plus_small) (auto simp: counts_def)
  show "counts c B st'"
    using assms u
    by (auto simp: counts_def field_sized_def Let_def advance split: if_splits option.splits prod.splits)
  show "fs_max_frame_size st' = fs_max_frame_size st" "fs_alg_props st' = fs_alg_props st"
    "fs_plaintext_size st' = fs_plaintext_size st"
    using assms by (auto simp: counts_def field_sized_def Let_def split: if_splits option.splits)
qed

lemma counts_le: "counts c B st \<Longrightarrow> B' \<le> B \<Longrightarrow> counts c B' st"
  by (auto simp: counts_def)

lemma counts_plaintext_size [simp]: "counts c B (st\<lparr>fs_plaintext_size := n\<rparr>) = counts c B st"
  by (simp add: counts_def)

lemma counts_parts:
  assumes "counts c (unat n + 16) st" "tag_len (fs_alg_props st) = 16"
    and "field_sized L st n = (ct, st1)" "field_sized L st1 (word_of_nat (tag_len (fs_alg_props st1))) = (tag, st2)"
  shows "counts c 0 st2"
proof -
  note ct = counts_sized [OF assms(1, 3)]
  show ?thesis using counts_sized(1) [OF _ assms(4), of c 0] ct assms(2) by simp
qed

lemma serde_last_frame_counts:
  assumes st: "counts c 0x1FFFFFFFF st" "fs_max_frame_size st \<le> MAX_FRAME_SIZE"
    and p: "iv_len (fs_alg_props st) = 12" "tag_len (fs_alg_props st) = 16"
    and r: "serde_last_frame L st f = (r, st', f')"
  shows "counts c 0 st'"
proof -
  obtain v1 s1 where f1: "field_be32 L st (sequence_number f) = (v1, s1)" by fastforce
  note c1 = counts_be32 [OF counts_le [OF st(1)] f1, of "0x1FFFFFFFB"]
  obtain iv s2 where f2: "field_sized L s1 (word_of_nat (iv_len (fs_alg_props s1))) = (iv, s2)" by fastforce
  note c2 = counts_sized [OF counts_le [OF c1(1)] f2, of "0x1FFFFFFEF"]
  obtain v3 s3 where f3: "field_be32 L s2 (ucast (fs_plaintext_size s2)) = (v3, s3)" by fastforce
  note c3 = counts_be32 [OF counts_le [OF c2(1)] f3, of "0x1FFFFFFEB"]
  let ?s4 = "s3\<lparr>fs_plaintext_size := ucast v3\<rparr>"
  have c4: "counts c 0x1FFFFFFEB ?s4" using c1 c2 c3 p by simp
  obtain ct s5 where f5: "field_sized L ?s4 (fs_plaintext_size ?s4) = (ct, s5)" by fastforce
  obtain tag s6 where f6: "field_sized L s5 (word_of_nat (tag_len (fs_alg_props s5))) = (tag, s6)" by fastforce
  have nw: "\<not> fs_writing s3" using c4 by (simp add: counts_def)
  show ?thesis
  proof (cases "fs_plaintext_size ?s4 > fs_max_frame_size ?s4")
    case True
    then have "st' = ?s4" using r nw by (simp add: serde_last_frame_def f1 f2 f3)
    then show ?thesis using c4 counts_le by blast
  next
    case False
    then have "unat (fs_plaintext_size ?s4) \<le> 0xFFFFFFFF"
      using st(2) c1 c2 c3 p by (simp add: word_le_nat_alt not_less)
    then have "counts c 0 s6"
      using counts_parts [OF counts_le [OF c4] _ f5 f6] c1 c2 c3 p by simp
    moreover have "st' = s6" using r nw False f5 f6 by (simp add: serde_last_frame_def f1 f2 f3)
    ultimately show ?thesis by simp
  qed
qed

lemma serde_framed_counts:
  assumes st: "counts c 0x2FFFFFFFF st" "fs_max_frame_size st \<le> MAX_FRAME_SIZE"
    and p: "iv_len (fs_alg_props st) = 12" "tag_len (fs_alg_props st) = 16"
    and r: "serde_framed L st f = (r, st', f')"
  shows "counts c 0 st'"
proof -
  have nw: "\<not> fs_writing st" using st(1) by (simp add: counts_def)
  obtain v1 s1 where f1: "field_be32 L st (sequence_number f) = (v1, s1)" by fastforce
  note c1 = counts_be32 [OF counts_le [OF st(1)] f1, of "0x1FFFFFFFF"]
  show ?thesis
  proof (cases "v1 = LAST_FRAME_MARK")
    case True
    then have "serde_last_frame L s1 f = (r, st', f')"
      using r nw by (simp add: serde_framed_def f1)
    then show ?thesis using serde_last_frame_counts [of c s1 f r st' f'] c1 st(2) p by simp
  next
    case False
    let ?s1 = "s1\<lparr>fs_plaintext_size := fs_max_frame_size s1\<rparr>"
    obtain iv s2 where f2: "field_sized L ?s1 (word_of_nat (iv_len (fs_alg_props ?s1))) = (iv, s2)" by fastforce
    have c2: "counts c 0x1FFFFFFEF s2" "fs_max_frame_size s2 = fs_max_frame_size st"
      "fs_alg_props s2 = fs_alg_props st" "fs_plaintext_size s2 = fs_max_frame_size st"
      using counts_sized [OF _ f2, of c "0x1FFFFFFEF"] counts_le [of c _ ?s1] c1 p by simp_all
    obtain ct s3 where f3: "field_sized L s2 (fs_plaintext_size s2) = (ct, s3)" by fastforce
    obtain tag s4 where f4: "field_sized L s3 (word_of_nat (tag_len (fs_alg_props s3))) = (tag, s4)" by fastforce
    have "unat (fs_plaintext_size s2) \<le> 0xFFFFFFFF" using st(2) c2 by (simp add: word_le_nat_alt)
    then have "counts c 0 s4" using counts_parts [OF counts_le [OF c2(1)] _ f3 f4] c2 p by simp
    moreover have "st' = s4" using r nw False f2 f3 f4 by (simp add: serde_framed_def f1)
    ultimately show ?thesis by simp
  qed
qed

lemma serde_nonframed_counts:
  assumes st: "counts c 0x2FFFFFFFFF st"
    and p: "iv_len (fs_alg_props st) = 12" "tag_len (fs_alg_props st) = 16"
    and r: "serde_nonframed L st f = (r, st', f')"
  shows "counts c 0 st'"
proof -
  obtain iv s1 where f1: "field_sized L st (word_of_nat (iv_len (fs_alg_props st))) = (iv, s1)" by fastforce
  have c1: "counts c 0x2000000000 s1" "fs_alg_props s1 = fs_alg_props st"
    using counts_sized [OF _ f1, of c "0x2000000000"] counts_le [of c _ st] st p by simp_all
  obtain v s2 where f2: "field_be64 L s1 (fs_plaintext_size s1) = (v, s2)" by fastforce
  have c2: "counts c 0x1FFFFFFFF8 s2" "fs_alg_props s2 = fs_alg_props st"
    using counts_be64 [OF counts_le [OF c1(1)] f2, of "0x1FFFFFFFF8"] c1 by simp_all
  let ?s2 = "s2\<lparr>fs_plaintext_size := v\<rparr>"
  show ?thesis
  proof (cases "v \<ge> MAX_UNFRAMED_PLAINTEXT_SIZE")
    case True
    then have "st' = ?s2" using r by (simp add: serde_nonframed_def f1 f2)
    then show ?thesis using c2(1) counts_le by simp
  next
    case False
    obtain ct s3 where f3: "field_sized L ?s2 v = (ct, s3)" by fastforce
    obtain tag s4 where f4: "field_sized L s3 (word_of_nat (tag_len (fs_alg_props s3))) = (tag, s4)" by fastforce
    have "unat v < 0xFFFFFFFE0" using False by (simp add: word_le_nat_alt not_le)
    then have "counts c 0 s4"
      using counts_parts [of c v ?s2 ct s3 tag s4] counts_le [OF c2(1)] f3 f4 c2(2) p by simp
    moreover have "st' = s4" using r False f3 f4 by (simp add: serde_nonframed_def f1 f2)
    ultimately show ?thesis by simp
  qed
qed

lemma serde_errors:
  "serde_last_frame L st f = (r, st', f') \<Longrightarrow> r \<in> {None, Some AWS_CRYPTOSDK_ERR_BAD_CIPHERTEXT}"
  "serde_nonframed L st f = (r, st', f') \<Longrightarrow> r \<in> {None, Some AWS_CRYPTOSDK_ERR_BAD_CIPHERTEXT}"
  by (auto simp: serde_last_frame_def serde_nonframed_def Let_def split: prod.splits if_splits)

lemma serde_framed_errors:
  "\<not> fs_writing st \<Longrightarrow> serde_framed L st f = (r, st', f') \<Longrightarrow>
     r \<in> {None, Some AWS_CRYPTOSDK_ERR_BAD_CIPHERTEXT}"
  using serde_errors(1) by (auto simp: serde_framed_def Let_def split: prod.splits if_splits)

end

section \<open>Properties\<close>

text \<open>An algorithm suite and a final frame to which the properties apply.\<close>

definition suite_example :: alg_properties where
  "suite_example = the (aws_cryptosdk_alg_props ALG_AES256_GCM_HKDF_SHA512_COMMIT_KEY)"

lemma suite_example: "aws_cryptosdk_alg_props ALG_AES256_GCM_HKDF_SHA512_COMMIT_KEY = Some suite_example"
  using alg_props_known [of ALG_AES256_GCM_HKDF_SHA512_COMMIT_KEY]
  by (auto simp: aws_cryptosdk_algorithm_is_known_def suite_example_def)

lemmas suite_example_lens = alg_props_fields(2, 3) [OF suite_example]

abbreviation final_example :: bytes where
  "final_example \<equiv> frame_bytes FRAME_TYPE_FINAL 3 (replicate 12 1) [7, 8] (replicate 16 2)"

text \<open>
  C15: Reading a frame from an input that starts with the wire format of one succeeds: type and
  sequence number are recovered, initialization vector, ciphertext and tag are located exactly where
  they are, the reported sizes are exact, and the cursor is left behind the frame.
\<close>

theorem deserialize_frame_correct:
  assumes "aws_c_common L" "aws_cryptosdk_alg_props i = Some p"
    and "cur_data c = frame_bytes ty seqno iv ct tag @ rest" "frame_ok ty seqno m (length ct)"
    and "length iv = iv_len p" "length tag = tag_len p"
  shows "aws_cryptosdk_deserialize_frame L c p m =
    (AWS_OP_SUCCESS,
     \<lparr>frame_ty = ty, sequence_number = seqno, frame_iv = located (cur_ptr c + iv_off ty) (iv_len p),
      frame_ciphertext = located (cur_ptr c + ct_off ty p) (length ct),
      frame_authtag = located (cur_ptr c + ct_off ty p + length ct) (tag_len p)\<rparr>,
     word_of_nat (frame_size ty p (length ct)), word_of_nat (length ct),
     advanced c (frame_size ty p (length ct)))"
  using aws_c_common.deserialize_frame_eq [OF assms(1, 3-6)] alg_props_fields(2, 3) [OF assms(2)]
    assms(5, 6) by simp

theorem deserialize_frame_witness:
  "aws_cryptosdk_deserialize_frame aws_ref (cursor_of (final_example @ [9])) suite_example 16 =
    (AWS_OP_SUCCESS,
     \<lparr>frame_ty = FRAME_TYPE_FINAL, sequence_number = 3, frame_iv = located 8 12,
      frame_ciphertext = located 24 2, frame_authtag = located 26 16\<rparr>,
     42, 2, \<lparr>cur_ptr = 42, cur_data = [9]\<rparr>)"
  using deserialize_frame_correct [OF ref.aws_c_common_axioms suite_example,
      of "cursor_of (final_example @ [9])" FRAME_TYPE_FINAL 3 "replicate 12 1" "[7, 8]" "replicate 16 2" "[9]" 16]
  by (simp add: cursor_of_def suite_example_lens frame_size_def advanced_def located_def)

text \<open>
  C16: The reported frame size is honest: after success it is the number of bytes consumed; after a
  short-buffer error it is larger than the input, so that the caller learns that more is needed;
  the only other error is a malformed size field; and a failure returns an all-zero frame and leaves
  the cursor alone.
\<close>

theorem deserialize_frame_sizes:
  assumes "aws_c_common L" "aws_cryptosdk_alg_props i = Some p" "m \<le> MAX_FRAME_SIZE"
    and "aws_cryptosdk_deserialize_frame L c p m = (r, f, csize, psize, c')"
  shows "case r of
      None \<Rightarrow> c' = advanced c (unat csize) \<and> unat csize \<le> cur_len c
    | Some e \<Rightarrow> f = frame_zero \<and> c' = c \<and>
        (if e = AWS_ERROR_SHORT_BUFFER then cur_len c < unat csize
         else e = AWS_CRYPTOSDK_ERR_BAD_CIPHERTEXT)"
proof -
  let ?st = "\<lparr>fs_max_frame_size = m, fs_plaintext_size = 0, fs_ciphertext_size = 0, fs_alg_props = p,
      fs_cursor = c, fs_buffer = buf_zero, fs_writing = False, fs_too_small = False\<rparr>"
  let ?serde = "if m \<noteq> 0 then serde_framed L ?st frame_zero else serde_nonframed L ?st frame_zero"
  obtain q s g where q: "?serde = (q, s, g)" by (metis prod_cases3)
  have st: "counts c 0x2FFFFFFFFF ?st" "counts c 0x2FFFFFFFF ?st" by (simp_all add: counts_def)
  note p = alg_props_fields(2, 3) [OF assms(2)]
  have "counts c 0 s"
    using q assms(3) p aws_c_common.serde_framed_counts [OF assms(1) st(2)]
      aws_c_common.serde_nonframed_counts [OF assms(1) st(1)] by (simp split: if_splits)
  moreover have "q \<in> {None, Some AWS_CRYPTOSDK_ERR_BAD_CIPHERTEXT}"
    using q aws_c_common.serde_framed_errors [OF assms(1), of ?st] aws_c_common.serde_errors(2) [OF assms(1)]
    by (simp split: if_splits)
  moreover have "aws_cryptosdk_deserialize_frame L c p m =
      (case (if q = None \<and> fs_too_small s then Some AWS_ERROR_SHORT_BUFFER else q) of
         Some e \<Rightarrow> (AWS_OP_ERR e, frame_zero, fs_ciphertext_size s, fs_plaintext_size s, c)
       | None \<Rightarrow> (AWS_OP_SUCCESS, g, fs_ciphertext_size s, fs_plaintext_size s, fs_cursor s))"
    using q by (simp add: aws_cryptosdk_deserialize_frame_def)
  ultimately show ?thesis
    using assms(4) by (auto simp: counts_def split: if_splits)
qed

theorem deserialize_frame_sizes_witness:
  "case aws_cryptosdk_deserialize_frame aws_ref (cursor_of [0, 0]) suite_example 16 of
     (r, f, csize, psize, c') \<Rightarrow> r = AWS_OP_ERR AWS_ERROR_SHORT_BUFFER \<and> c' = cursor_of [0, 0] \<and> 2 < unat csize"
proof -
  let ?d = "aws_cryptosdk_deserialize_frame aws_ref (cursor_of [0, 0]) suite_example 16"
  obtain r f csize psize c' where d: "?d = (r, f, csize, psize, c')" by (metis prod_cases5)
  have r: "fst ?d = AWS_OP_ERR AWS_ERROR_SHORT_BUFFER"
    by (simp add: aws_cryptosdk_deserialize_frame_def serde_framed_def field_be32_def field_sized_def aws_ref_simps
        ref_read_def cursor_of_def suite_example_lens)
  show ?thesis
    using deserialize_frame_sizes [OF ref.aws_c_common_axioms suite_example _ d] r d
    by (simp add: cursor_of_def)
qed

end
