(* ===== verification/FrameWrite.thy ===== *)
theory FrameWrite
  imports FrameProps
begin

text \<open>
  The serializer of frames: it succeeds exactly when the frame fits into the output, and once the
  caller has filled in the three located parts the output holds the wire format of the frame.
\<close>

section \<open>Accounting while writing\<close>

definition wcounts :: "byte_buf \<Rightarrow> nat \<Rightarrow> framestate \<Rightarrow> bool" where
  "wcounts b B st \<longleftrightarrow> fs_writing st \<and> unat (fs_ciphertext_size st) + B < 2 ^ 64 \<and>
     buf_valid (fs_buffer st) \<and>
     (if fs_too_small st then \<not> fits b (unat (fs_ciphertext_size st))
      else fits b (unat (fs_ciphertext_size st)) \<and>
           buf_len (fs_buffer st) = buf_len b + unat (fs_ciphertext_size st) \<and>
           buf_capacity (fs_buffer st) = buf_capacity b)"

lemma wcounts_le: "wcounts b B st \<Longrightarrow> B' \<le> B \<Longrightarrow> wcounts b B' st"
  by (auto simp: wcounts_def)

lemma wcounts_plaintext_size [simp]: "wcounts b B (st\<lparr>fs_plaintext_size := n\<rparr>) = wcounts b B st"
  by (simp add: wcounts_def)

text \<open>The state in which the serializer starts.\<close>

definition wstart :: "byte_buf \<Rightarrow> alg_properties \<Rightarrow> uint64 \<Rightarrow> framestate" where
  "wstart b p n = \<lparr>fs_max_frame_size = n, fs_plaintext_size = n, fs_ciphertext_size = 0, fs_alg_props = p,
     fs_cursor = cursor_of [], fs_buffer = b, fs_writing = True, fs_too_small = False\<rparr>"

lemma wcounts_wstart: "buf_valid b \<Longrightarrow> B < 2 ^ 64 \<Longrightarrow> wcounts b B (wstart b p n)"
  by (simp add: wcounts_def wstart_def fits_def buf_valid_def)

lemma wstart_simps [simp]:
  "fs_max_frame_size (wstart b p n) = n" "fs_plaintext_size (wstart b p n) = n"
  "fs_ciphertext_size (wstart b p n) = 0" "fs_alg_props (wstart b p n) = p"
  "fs_buffer (wstart b p n) = b" "fs_writing (wstart b p n)" "\<not> fs_too_small (wstart b p n)"
  by (simp_all add: wstart_def)

context aws_c_common
begin

lemma wcounts_be32:
  assumes "wcounts b (4 + B) st" "field_be32 L st v = (w, st')"
  shows "wcounts b B st'" "fs_ciphertext_size st' = fs_ciphertext_size st + 4" "w = v"
    "fs_max_frame_size st' = fs_max_frame_size st" "fs_alg_props st' = fs_alg_props st"
    "fs_plaintext_size st' = fs_plaintext_size st"
proof -
  have u: "unat (fs_ciphertext_size st + 4) = unat (fs_ciphertext_size st) + 4"
    using assms(1) by (subst unat_plus_small) (auto simp: wcounts_def)
  show "wcounts b B st'"
    using assms u
    by (auto simp: wcounts_def field_be32_def Let_def write_be32 fits_def buf_valid_def written_def
        split: if_splits option.splits)
  show "w = v" "fs_ciphertext_size st' = fs_ciphertext_size st + 4"
    "fs_max_frame_size st' = fs_max_frame_size st" "fs_alg_props st' = fs_alg_props st"
    "fs_plaintext_size st' = fs_plaintext_size st"
    using assms by (auto simp: wcounts_def field_be32_def Let_def split: if_splits option.splits)
qed

lemma wcounts_be64:
  assumes "wcounts b (8 + B) st" "field_be64 L st v = (w, st')"
  shows "wcounts b B st'" "fs_ciphertext_size st' = fs_ciphertext_size st + 8" "w = v"
    "fs_max_frame_size st' = fs_max_frame_size st" "fs_alg_props st' = fs_alg_props st"
    "fs_plaintext_size st' = fs_plaintext_size st"
proof -
  have u: "unat (fs_ciphertext_size st + 8) = unat (fs_ciphertext_size st) + 8"
    using assms(1) by (subst unat_plus_small) (auto simp: wcounts_def)
  show "wcounts b B st'"
    using assms u
    by (auto simp: wcounts_def field_be64_def Let_def write_be64 fits_def buf_valid_def written_def
        split: if_splits option.splits)
  show "w = v" "fs_ciphertext_size st' = fs_ciphertext_size st + 8"
    "fs_max_frame_size st' = fs_max_frame_size st" "fs_alg_props st' = fs_alg_props st"
    "fs_plaintext_size st' = fs_plaintext_size st"
    using assms by (auto simp: wcounts_def field_be64_def Let_def split: if_splits option.splits)
qed

lemma wcounts_sized:
  assumes "wcounts b (unat sz + B) st" "field_sized L st sz = (sl, st')"
  shows "wcounts b B st'" "fs_ciphertext_size st' = fs_ciphertext_size st + sz"
    "fs_max_frame_size st' = fs_max_frame_size st" "fs_alg_props st' = fs_alg_props st"
    "fs_plaintext_size st' = fs_plaintext_size st"
proof -
  have u: "unat (fs_ciphertext_size st + sz) = unat (fs_ciphertext_size st) + unat sz"
    using assms(1) by (intro unat_plus_small) (auto simp: wcounts_def)
  show "wcounts b B st'"
    using assms u
    by (auto simp: wcounts_def field_sized_def Let_def fits_def buf_valid_def split: if_splits)
  show "fs_ciphertext_size st' = fs_ciphertext_size st + sz"
    "fs_max_frame_size st' = fs_max_frame_size st" "fs_alg_props st' = fs_alg_props st"
    "fs_plaintext_size st' = fs_plaintext_size st"
    using assms by (auto simp: wcounts_def field_sized_def Let_def split: if_splits)
qed

lemma wcounts_parts:
  assumes "wcounts b (unat n + 16) st" "tag_len (fs_alg_props st) = 16"
    and "field_sized L st n = (ct, st1)" "field_sized L st1 (word_of_nat (tag_len (fs_alg_props st1))) = (tag, st2)"
  shows "wcounts b 0 st2" "fs_ciphertext_size st2 = fs_ciphertext_size st + n + 16"
proof -
  note ct = wcounts_sized [OF assms(1, 3)]
  have tag: "wcounts b (unat (word_of_nat (tag_len (fs_alg_props st1)) :: uint64) + 0) st1"
    using ct assms(2) by simp
  note t = wcounts_sized [OF tag assms(4)]
  show "wcounts b 0 st2" using t(1) .
  show "fs_ciphertext_size st2 = fs_ciphertext_size st + n + 16" using t(2) ct assms(2) by simp
qed

lemma serde_nonframed_wcounts:
  assumes b: "buf_valid b" and p: "iv_len p = 12" "tag_len p = 16" and n: "n < MAX_UNFRAMED_PLAINTEXT_SIZE"
    and r: "serde_nonframed L (wstart b p n) f = (r, st', f')"
  shows "r = None" "wcounts b 0 st'" "fs_ciphertext_size st' = n + 36"
proof -
  have n': "unat n < 0xFFFFFFFE0" using n by (simp add: word_less_nat_alt)
  obtain iv s1 where f1: "field_sized L (wstart b p n) (word_of_nat (iv_len p)) = (iv, s1)" by fastforce
  have c0: "wcounts b (unat (word_of_nat (iv_len p) :: uint64) + (8 + (unat n + 16))) (wstart b p n)"
    using b p n' by (intro wcounts_wstart) simp_all
  note c1 = wcounts_sized [OF c0 f1]
  obtain v s2 where f2: "field_be64 L s1 (fs_plaintext_size s1) = (v, s2)" by fastforce
  note c2 = wcounts_be64 [OF c1(1) f2]
  let ?s2 = "s2\<lparr>fs_plaintext_size := v\<rparr>"
  obtain ct s3 where f3: "field_sized L ?s2 v = (ct, s3)" by fastforce
  obtain tag s4 where f4: "field_sized L s3 (word_of_nat (tag_len (fs_alg_props s3))) = (tag, s4)" by fastforce
  have v: "v = n" using c2(3) c1(5) by simp
  have c3: "wcounts b 0 s4" "fs_ciphertext_size s4 = fs_ciphertext_size s2 + n + 16"
    using wcounts_parts [of b v ?s2 ct s3 tag s4] c2 c1 f3 f4 p v by simp_all
  have eq: "r = None" "st' = s4" using r f2 f3 f4 n v by (auto simp: serde_nonframed_def f1 Let_def not_le [symmetric])
  show "r = None" "wcounts b 0 st'" "fs_ciphertext_size st' = n + 36"
    using eq c3 c2(2) c1(2) by (simp_all add: p)
qed

lemma serde_last_frame_wcounts:
  assumes st: "wcounts b (unat n + 0x100) st" "fs_plaintext_size st = n" "fs_max_frame_size st = n"
    and p: "iv_len (fs_alg_props st) = 12" "tag_len (fs_alg_props st) = 16"
    and r: "serde_last_frame L st f = (r, st', f')"
  shows "r = None" "wcounts b 0 st'" "fs_ciphertext_size st' = fs_ciphertext_size st + n + 36"
proof -
  obtain v1 s1 where f1: "field_be32 L st (sequence_number f) = (v1, s1)" by fastforce
  have "wcounts b (4 + (unat (word_of_nat (iv_len (fs_alg_props st)) :: uint64) + (4 + (unat n + 16)))) st"
    using wcounts_le [OF st(1)] p by simp
  note c1 = wcounts_be32 [OF this f1]
  obtain iv s2 where f2: "field_sized L s1 (word_of_nat (iv_len (fs_alg_props s1))) = (iv, s2)" by fastforce
  note c2 = wcounts_sized [OF c1(1) [folded c1(5)] f2]
  obtain v3 s3 where f3: "field_be32 L s2 (ucast (fs_plaintext_size s2)) = (v3, s3)" by fastforce
  note c3 = wcounts_be32 [OF c2(1) f3]
  obtain ct s4 where f4: "field_sized L s3 n = (ct, s4)" by fastforce
  obtain tag s5 where f5: "field_sized L s4 (word_of_nat (tag_len (fs_alg_props s4))) = (tag, s5)" by fastforce
  have c4: "wcounts b 0 s5" "fs_ciphertext_size s5 = fs_ciphertext_size s3 + n + 16"
    using wcounts_parts [OF c3(1) _ f4 f5] c1 c2 c3 p by simp_all
  have s3: "fs_writing s3" "fs_plaintext_size s3 = n" "fs_max_frame_size s3 = n"
    using c1 c2 c3 st by (simp_all add: wcounts_def)
  have eq: "r = None" "st' = s5"
    using r s3 f4 f5 by (simp_all add: serde_last_frame_def f1 f2 f3)
  show "r = None" "wcounts b 0 st'" "fs_ciphertext_size st' = fs_ciphertext_size st + n + 36"
    using eq c4 c1 c2 c3 p by simp_all
qed

lemma serde_framed_wcounts:
  assumes b: "buf_valid b" and p: "iv_len p = 12" "tag_len p = 16" and n: "n \<le> MAX_FRAME_SIZE"
    and f: "frame_ty f = ty" "ty \<noteq> FRAME_TYPE_SINGLE" "ty = FRAME_TYPE_FRAME \<Longrightarrow> sequence_number f \<noteq> LAST_FRAME_MARK"
    and r: "serde_framed L (wstart b p n) f = (r, st', f')"
  shows "r = None" "wcounts b 0 st'" "fs_ciphertext_size st' = n + (if ty = FRAME_TYPE_FINAL then 40 else 32)"
proof -
  have n': "unat n \<le> 0xFFFFFFFF" using n by (simp add: word_le_nat_alt)
  let ?m = "if ty = FRAME_TYPE_FINAL then LAST_FRAME_MARK else sequence_number f"
  have ty: "ty = FRAME_TYPE_FRAME \<or> ty = FRAME_TYPE_FINAL" using f(2) by (cases ty) auto
  obtain v1 s1 where f1: "field_be32 L (wstart b p n) ?m = (v1, s1)" by fastforce
  have c0: "wcounts b (4 + (unat n + 0x100)) (wstart b p n)" using b n' by (intro wcounts_wstart) simp_all
  note c1 = wcounts_be32 [OF c0 f1]
  have "r = None \<and> wcounts b 0 st' \<and> fs_ciphertext_size st' = n + (if ty = FRAME_TYPE_FINAL then 40 else 32)"
  proof (cases "ty = FRAME_TYPE_FINAL")
    case True
    then have "serde_last_frame L s1 f = (r, st', f')"
      using r f f1 c1(3) by (simp add: serde_framed_def)
    from serde_last_frame_wcounts [OF c1(1) _ _ _ _ this] show ?thesis using True c1 p by simp
  next
    case False
    then have tyf: "ty = FRAME_TYPE_FRAME" using ty by simp
    let ?s1 = "s1\<lparr>fs_plaintext_size := fs_max_frame_size s1\<rparr>"
    obtain iv s2 where f2: "field_sized L ?s1 (word_of_nat (iv_len (fs_alg_props ?s1))) = (iv, s2)" by fastforce
    have "wcounts b (unat (word_of_nat (iv_len (fs_alg_props ?s1)) :: uint64) + (unat n + 16)) ?s1"
      using wcounts_le [OF c1(1)] c1 p by simp
    note c2 = wcounts_sized [OF this f2]
    obtain ct s3 where f3: "field_sized L s2 n = (ct, s3)" by fastforce
    obtain tag s4 where f4: "field_sized L s3 (word_of_nat (tag_len (fs_alg_props s3))) = (tag, s4)" by fastforce
    have c3: "wcounts b 0 s4" "fs_ciphertext_size s4 = fs_ciphertext_size s2 + n + 16"
      using wcounts_parts [OF c2(1) _ f3 f4] c2 c1 p by simp_all
    have "r = None \<and> st' = s4"
      using r f f1 f2 f3 f4 tyf c1 c2 by (simp add: serde_framed_def)
    then show ?thesis using c3 c2 c1 p tyf by simp
  qed
  then show "r = None" "wcounts b 0 st'" "fs_ciphertext_size st' = n + (if ty = FRAME_TYPE_FINAL then 40 else 32)"
    by simp_all
qed

end

definition hole :: "nat \<Rightarrow> nat \<Rightarrow> slice" where
  "hole off n = \<lparr>sl_ptr = Some off, sl_len = 0, sl_capacity = n\<rparr>"

text \<open>The frame with its parts located from offset \<open>off\<close> on.\<close>

definition laid_out :: "frame \<Rightarrow> nat \<Rightarrow> alg_properties \<Rightarrow> nat \<Rightarrow> frame" where
  "laid_out f off p n =
     f\<lparr>sequence_number := (if frame_ty f = FRAME_TYPE_SINGLE then 1 else sequence_number f),
       frame_iv := hole (off + iv_off (frame_ty f)) (iv_len p),
       frame_ciphertext := hole (off + ct_off (frame_ty f) p) n,
       frame_authtag := hole (off + ct_off (frame_ty f) p + n) (tag_len p)\<rparr>"

text \<open>The caller's part: initialization vector, ciphertext and tag are put into the located ranges.\<close>

definition fill_frame :: "frame \<Rightarrow> bytes \<Rightarrow> bytes \<Rightarrow> bytes \<Rightarrow> bytes \<Rightarrow> bytes" where
  "fill_frame f mem iv ct tag =
     splice (splice (splice mem (the (sl_ptr (frame_iv f))) iv) (the (sl_ptr (frame_ciphertext f))) ct)
       (the (sl_ptr (frame_authtag f))) tag"

lemma splice_commute:
  assumes "off + length bs \<le> off'" "off' + length cs \<le> length mem"
  shows "splice (splice mem off' cs) off bs = splice (splice mem off bs) off' cs"
proof (rule nth_equalityI)
  fix i assume "i < length (splice (splice mem off' cs) off bs)"
  then show "splice (splice mem off' cs) off bs ! i = splice (splice mem off bs) off' cs ! i"
    using assms by (auto simp: splice_def nth_append)
qed (use assms in \<open>simp add: splice_def\<close>)

definition fill :: "(nat \<times> bytes) list \<Rightarrow> bytes \<Rightarrow> bytes" where
  "fill hs mem = fold (\<lambda>(off, bs) m. splice m off bs) hs mem"

text \<open>
  After the bytes \<open>acc\<close> have been accounted for, some written and some left as the holes \<open>hs\<close>: filling
  the holes completes them.
\<close>

definition lays :: "byte_buf \<Rightarrow> (nat \<times> bytes) list \<Rightarrow> bytes \<Rightarrow> framestate \<Rightarrow> bool" where
  "lays b hs acc st \<longleftrightarrow> fs_writing st \<and> \<not> fs_too_small st \<and>
     buf_len (fs_buffer st) = buf_len b + length acc \<and> buf_capacity (fs_buffer st) = buf_capacity b \<and>
     fits b (length acc) \<and> fill hs (buf_mem (fs_buffer st)) = splice (buf_mem b) (buf_len b) acc \<and>
     (\<forall>(off, bs) \<in> set hs. off + length bs \<le> buf_len b + length acc)"

lemma length_fill: "\<forall>(off, bs) \<in> set hs. off + length bs \<le> length mem \<Longrightarrow> length (fill hs mem) = length mem"
  unfolding fill_def by (induction hs arbitrary: mem) auto

lemma fill_splice:
  assumes "\<forall>(off, bs) \<in> set hs. off + length bs \<le> off'" "off' + length cs \<le> length mem"
  shows "fill hs (splice mem off' cs) = splice (fill hs mem) off' cs"
  using assms
proof (induction hs arbitrary: mem)
  case (Cons h hs)
  obtain off bs where h: "h = (off, bs)" by (cases h)
  have "fill (h # hs) (splice mem off' cs) = fill hs (splice (splice mem off bs) off' cs)"
    using Cons.prems by (simp add: h fill_def splice_commute [of off bs off' cs mem])
  also have "\<dots> = splice (fill hs (splice mem off bs)) off' cs"
    using Cons.prems by (intro Cons.IH) (auto simp: h)
  finally show ?case by (simp add: h fill_def)
qed (simp add: fill_def)

lemma lays_start: "buf_valid b \<Longrightarrow> lays b [] [] (wstart b p n)"
  by (simp add: lays_def fill_def fits_def buf_valid_def)

lemma lays_plaintext_size [simp]: "lays b hs acc (st\<lparr>fs_plaintext_size := n\<rparr>) = lays b hs acc st"
  by (simp add: lays_def)

lemma lays_written:
  assumes "lays b hs acc st" "fits b (length acc + length bs)"
  shows "fits (fs_buffer st) (length bs)"
    "lays b hs (acc @ bs) (st\<lparr>fs_ciphertext_size := k, fs_buffer := written (fs_buffer st) bs\<rparr>)"
proof -
  note st = assms(1) [unfolded lays_def]
  show f: "fits (fs_buffer st) (length bs)" using st assms(2) by (simp add: fits_def)
  have "fill hs (splice (buf_mem (fs_buffer st)) (buf_len b + length acc) bs) =
      splice (splice (buf_mem b) (buf_len b) acc) (buf_len b + length acc) bs"
    using st f fill_splice [of hs "buf_len b + length acc" bs "buf_mem (fs_buffer st)"] by (simp add: fits_def)
  also have "\<dots> = splice (buf_mem b) (buf_len b) (acc @ bs)"
    using assms(2) by (intro splice_adjacent) (simp add: fits_def)
  finally show "lays b hs (acc @ bs) (st\<lparr>fs_ciphertext_size := k, fs_buffer := written (fs_buffer st) bs\<rparr>)"
    using st f assms(2) by (auto simp: lays_def written_def fits_def)
qed

lemma lays_hole:
  assumes "lays b hs acc st" "fits b (length acc + length bs)"
  shows "lays b (hs @ [(buf_len b + length acc, bs)]) (acc @ bs)
    (st\<lparr>fs_ciphertext_size := k,
        fs_buffer := (fs_buffer st)\<lparr>buf_len := buf_len (fs_buffer st) + length bs\<rparr>\<rparr>)"
proof -
  note st = assms(1) [unfolded lays_def]
  have "fill (hs @ [(buf_len b + length acc, bs)]) (buf_mem (fs_buffer st)) =
      splice (splice (buf_mem b) (buf_len b) acc) (buf_len b + length acc) bs"
    using st by (simp add: fill_def)
  also have "\<dots> = splice (buf_mem b) (buf_len b) (acc @ bs)"
    using assms(2) by (intro splice_adjacent) (simp add: fits_def)
  finally show ?thesis using st assms(2) by (auto simp: lays_def)
qed

context aws_c_common
begin

lemma lays_be32:
  assumes "lays b hs acc st" "fits b (length acc + 4)"
  shows "\<exists>st'. field_be32 L st v = (v, st') \<and> lays b hs (acc @ be_bytes 4 v) st' \<and>
    fs_max_frame_size st' = fs_max_frame_size st \<and> fs_alg_props st' = fs_alg_props st \<and>
    fs_plaintext_size st' = fs_plaintext_size st"
proof -
  note w = lays_written [OF assms(1), of "be_bytes 4 v"]
  have "field_be32 L st v = (v, st\<lparr>fs_ciphertext_size := fs_ciphertext_size st + 4,
      fs_buffer := written (fs_buffer st) (be_bytes 4 v)\<rparr>)"
    using assms w(1) by (simp add: field_be32_def write_be32 lays_def fits_def buf_valid_def)
  then show ?thesis using w(2) assms(2) by simp
qed

lemma lays_be64:
  assumes "lays b hs acc st" "fits b (length acc + 8)"
  shows "\<exists>st'. field_be64 L st v = (v, st') \<and> lays b hs (acc @ be_bytes 8 v) st' \<and>
    fs_max_frame_size st' = fs_max_frame_size st \<and> fs_alg_props st' = fs_alg_props st \<and>
    fs_plaintext_size st' = fs_plaintext_size st"
proof -
  note w = lays_written [OF assms(1), of "be_bytes 8 v"]
  have "field_be64 L st v = (v, st\<lparr>fs_ciphertext_size := fs_ciphertext_size st + 8,
      fs_buffer := written (fs_buffer st) (be_bytes 8 v)\<rparr>)"
    using assms w(1) by (simp add: field_be64_def write_be64 lays_def fits_def buf_valid_def)
  then show ?thesis using w(2) assms(2) by simp
qed

lemma lays_sized:
  assumes "lays b hs acc st" "fits b (length acc + length bs)" "unat sz = length bs"
  shows "\<exists>st'. field_sized L st sz = (hole (buf_len b + length acc) (length bs), st') \<and>
    lays b (hs @ [(buf_len b + length acc, bs)]) (acc @ bs) st' \<and>
    fs_max_frame_size st' = fs_max_frame_size st \<and> fs_alg_props st' = fs_alg_props st \<and>
    fs_plaintext_size st' = fs_plaintext_size st"
proof -
  have "field_sized L st sz = (hole (buf_len b + length acc) (length bs),
      st\<lparr>fs_ciphertext_size := fs_ciphertext_size st + sz,
        fs_buffer := (fs_buffer st)\<lparr>buf_len := buf_len (fs_buffer st) + length bs\<rparr>\<rparr>)"
    using assms by (auto simp: field_sized_def lays_def fits_def hole_def Let_def)
  then show ?thesis using lays_hole [OF assms(1, 2)] by simp
qed

text \<open>Ciphertext and tag are the last two parts of every frame.\<close>

lemma lays_parts:
  assumes "lays b hs acc st" "fits b (length acc + length ct + length tag)"
    and "unat n = length ct" "tag_len (fs_alg_props st) = length tag" "length tag = 16"
  shows "\<exists>s1 s2. field_sized L st n = (hole (buf_len b + length acc) (length ct), s1) \<and>
    field_sized L s1 (word_of_nat (tag_len (fs_alg_props s1))) =
      (hole (buf_len b + length acc + length ct) (length tag), s2) \<and>
    lays b (hs @ [(buf_len b + length acc, ct), (buf_len b + length acc + length ct, tag)]) (acc @ ct @ tag) s2"
proof -
  have "fits b (length acc + length ct)" using assms(2) by (simp add: fits_def)
  from lays_sized [OF assms(1) this assms(3)] obtain s1
    where s1: "field_sized L st n = (hole (buf_len b + length acc) (length ct), s1)"
      "lays b (hs @ [(buf_len b + length acc, ct)]) (acc @ ct) s1" "fs_alg_props s1 = fs_alg_props st"
    by auto
  have "fits b (length (acc @ ct) + length tag)" using assms(2) by simp
  moreover have "unat (word_of_nat (tag_len (fs_alg_props s1)) :: uint64) = length tag"
    using s1(3) assms(4, 5) by simp
  ultimately obtain s2 where "field_sized L s1 (word_of_nat (tag_len (fs_alg_props s1))) =
      (hole (buf_len b + length (acc @ ct)) (length tag), s2)"
    "lays b ((hs @ [(buf_len b + length acc, ct)]) @ [(buf_len b + length (acc @ ct), tag)]) ((acc @ ct) @ tag) s2"
    using lays_sized [OF s1(2)] by blast
  with s1(1) show ?thesis by (simp add: add.assoc)
qed

lemma serde_nonframed_lays:
  assumes b: "buf_valid b" "fits b (frame_size FRAME_TYPE_SINGLE p (unat n))"
    and p: "iv_len p = 12" "tag_len p = 16" and n: "n < MAX_UNFRAMED_PLAINTEXT_SIZE"
    and l: "length iv = iv_len p" "length ct = unat n" "length tag = tag_len p"
    and f: "frame_ty f = FRAME_TYPE_SINGLE"
  shows "\<exists>st'. serde_nonframed L (wstart b p n) f = (None, st', laid_out f (buf_len b) p (unat n)) \<and>
    lays b [(buf_len b, iv), (buf_len b + 20, ct), (buf_len b + 20 + unat n, tag)]
      (frame_bytes FRAME_TYPE_SINGLE s iv ct tag) st'"
proof -
  have fit: "fits b k" if "k \<le> unat n + 36" for k
    using b(2) that by (simp add: frame_size_def fits_def p)
  have iv: "unat (word_of_nat (iv_len p) :: uint64) = length iv" using p l by simp
  obtain s1 where s1: "field_sized L (wstart b p n) (word_of_nat (iv_len p)) = (hole (buf_len b) 12, s1)"
    "lays b [(buf_len b, iv)] iv s1" "fs_alg_props s1 = p" "fs_plaintext_size s1 = n"
    using lays_sized [OF lays_start [OF b(1)] fit iv, of p n] l(1) p(1) by auto
  obtain s2 where s2: "field_be64 L s1 n = (n, s2)" "lays b [(buf_len b, iv)] (iv @ be_bytes 8 n) s2"
    "fs_alg_props s2 = p"
    using lays_be64 [OF s1(2) fit, of n] s1(3) l(1) p(1) by auto
  have small: "(MAX_UNFRAMED_PLAINTEXT_SIZE \<le> n) = False" using n by simp
  let ?s2 = "s2\<lparr>fs_plaintext_size := n\<rparr>"
  have s2': "lays b [(buf_len b, iv)] (iv @ be_bytes 8 n) ?s2" using s2(2) by simp
  obtain s3 s4 where s4: "field_sized L ?s2 n = (hole (buf_len b + 20) (unat n), s3)"
    "field_sized L s3 (word_of_nat (tag_len (fs_alg_props s3))) = (hole (buf_len b + 20 + unat n) 16, s4)"
    "lays b [(buf_len b, iv), (buf_len b + 20, ct), (buf_len b + 20 + unat n, tag)] (iv @ be_bytes 8 n @ ct @ tag) s4"
    using lays_parts [OF s2' fit l(2) [symmetric], of tag] s2(3) l p by (auto simp: add.assoc)
  have "serde_nonframed L (wstart b p n) f = (None, s4, laid_out f (buf_len b) p (unat n))"
    using s1 s2 s4 f p by (simp add: serde_nonframed_def Let_def small laid_out_def)
  then show ?thesis using s4(3) l by auto
qed

lemma serde_framed_lays:
  assumes b: "buf_valid b" "fits b (frame_size FRAME_TYPE_FRAME p (unat n))"
    and p: "iv_len p = 12" "tag_len p = 16"
    and l: "length iv = iv_len p" "length ct = unat n" "length tag = tag_len p"
    and f: "frame_ty f = FRAME_TYPE_FRAME" "sequence_number f \<noteq> LAST_FRAME_MARK"
  shows "\<exists>st'. serde_framed L (wstart b p n) f = (None, st', laid_out f (buf_len b) p (unat n)) \<and>
    lays b [(buf_len b + 4, iv), (buf_len b + 16, ct), (buf_len b + 16 + unat n, tag)]
      (frame_bytes FRAME_TYPE_FRAME (sequence_number f) iv ct tag) st'"
proof -
  let ?q = "be_bytes 4 (sequence_number f)"
  have fit: "fits b k" if "k \<le> unat n + 32" for k
    using b(2) that by (simp add: frame_size_def fits_def p)
  obtain s1 where s1: "field_be32 L (wstart b p n) (sequence_number f) = (sequence_number f, s1)"
    "lays b [] ?q s1" "fs_alg_props s1 = p" "fs_max_frame_size s1 = n"
    using lays_be32 [OF lays_start [OF b(1)] fit, of p n "sequence_number f"] by auto
  let ?s1 = "s1\<lparr>fs_plaintext_size := n\<rparr>"
  have s1': "lays b [] ?q ?s1" using s1(2) by simp
  have iv: "unat (word_of_nat (iv_len p) :: uint64) = length iv" using p l by simp
  obtain s2 where s2: "field_sized L ?s1 (word_of_nat (iv_len p)) = (hole (buf_len b + 4) 12, s2)"
    "lays b [(buf_len b + 4, iv)] (?q @ iv) s2" "fs_alg_props s2 = p" "fs_plaintext_size s2 = n"
    using lays_sized [OF s1' fit iv] s1(3) l(1) p(1) by auto
  obtain s3 s4 where s4: "field_sized L s2 n = (hole (buf_len b + 16) (unat n), s3)"
    "field_sized L s3 (word_of_nat (tag_len (fs_alg_props s3))) = (hole (buf_len b + 16 + unat n) 16, s4)"
    "lays b [(buf_len b + 4, iv), (buf_len b + 16, ct), (buf_len b + 16 + unat n, tag)] (?q @ iv @ ct @ tag) s4"
    using lays_parts [OF s2(2) fit l(2) [symmetric], of tag] s2(3) l p by (auto simp: add.assoc)
  have "serde_framed L (wstart b p n) f = (None, s4, laid_out f (buf_len b) p (unat n))"
    using s1 s2 s4 f p by (simp add: serde_framed_def laid_out_def)
  then show ?thesis using s4(3) l by auto
qed

lemma serde_final_lays:
  assumes b: "buf_valid b" "fits b (frame_size FRAME_TYPE_FINAL p (unat n))"
    and p: "iv_len p = 12" "tag_len p = 16"
    and l: "length iv = iv_len p" "length ct = unat n" "length tag = tag_len p"
    and f: "frame_ty f = FRAME_TYPE_FINAL"
  shows "\<exists>st'. serde_framed L (wstart b p n) f = (None, st', laid_out f (buf_len b) p (unat n)) \<and>
    lays b [(buf_len b + 8, iv), (buf_len b + 24, ct), (buf_len b + 24 + unat n, tag)]
      (frame_bytes FRAME_TYPE_FINAL (sequence_number f) iv ct tag) st'"
proof -
  let ?q = "be_bytes 4 LAST_FRAME_MARK @ be_bytes 4 (sequence_number f)"
  have fit: "fits b k" if "k \<le> unat n + 40" for k
    using b(2) that by (simp add: frame_size_def fits_def p)
  obtain s0 where s0: "field_be32 L (wstart b p n) LAST_FRAME_MARK = (LAST_FRAME_MARK, s0)"
    "lays b [] (be_bytes 4 LAST_FRAME_MARK) s0" "fs_alg_props s0 = p" "fs_max_frame_size s0 = n" "fs_plaintext_size s0 = n"
    using lays_be32 [OF lays_start [OF b(1)] fit, of p n LAST_FRAME_MARK] by auto
  obtain s1 where s1: "field_be32 L s0 (sequence_number f) = (sequence_number f, s1)"
    "lays b [] ?q s1" "fs_alg_props s1 = p" "fs_max_frame_size s1 = n" "fs_plaintext_size s1 = n"
    using lays_be32 [OF s0(2) fit, of "sequence_number f"] s0(3-) by auto
  have iv: "unat (word_of_nat (iv_len p) :: uint64) = length iv" using p l by simp
  obtain s2 where s2: "field_sized L s1 (word_of_nat (iv_len p)) = (hole (buf_len b + 8) 12, s2)"
    "lays b [(buf_len b + 8, iv)] (?q @ iv) s2" "fs_alg_props s2 = p" "fs_plaintext_size s2 = n" "fs_max_frame_size s2 = n"
    using lays_sized [OF s1(2) fit iv] s1(3-) l(1) p(1) by auto
  let ?r = "?q @ iv @ be_bytes 4 (ucast n :: uint32)"
  obtain s3 where s3: "field_be32 L s2 (ucast n) = (ucast n, s3)"
    "lays b [(buf_len b + 8, iv)] ?r s3" "fs_alg_props s3 = p" "fs_plaintext_size s3 = n" "fs_max_frame_size s3 = n"
    using lays_be32 [OF s2(2) fit, of "ucast n"] s2(3-) l(1) p(1) by auto
  obtain s4 s5 where s5: "field_sized L s3 n = (hole (buf_len b + 24) (unat n), s4)"
    "field_sized L s4 (word_of_nat (tag_len (fs_alg_props s4))) = (hole (buf_len b + 24 + unat n) 16, s5)"
    "lays b [(buf_len b + 8, iv), (buf_len b + 24, ct), (buf_len b + 24 + unat n, tag)] (?r @ ct @ tag) s5"
    using lays_parts [OF s3(2) fit l(2) [symmetric], of tag] s3(3) l p by (auto simp: add.assoc)
  have w3: "fs_writing s3" using s3(2) by (simp add: lays_def)
  have w: "(ucast n :: uint32) = word_of_nat (length ct)" using l by simp
  have "serde_framed L (wstart b p n) f = (None, s5, laid_out f (buf_len b) p (unat n))"
    using s0 s1 s2 s3 s5 f p w3 by (simp add: serde_framed_def serde_last_frame_def laid_out_def)
  then show ?thesis using s5(3) by (auto simp: w)
qed

end

text \<open>The frames that the serializer accepts, for a plaintext of \<open>n\<close> bytes.\<close>

definition frame_writable :: "frame \<Rightarrow> uint64 \<Rightarrow> bool" where
  "frame_writable f n \<longleftrightarrow> (case frame_ty f of
     FRAME_TYPE_SINGLE \<Rightarrow> n < MAX_UNFRAMED_PLAINTEXT_SIZE
   | FRAME_TYPE_FRAME \<Rightarrow> n \<le> MAX_FRAME_SIZE \<and> sequence_number f \<noteq> LAST_FRAME_MARK
   | FRAME_TYPE_FINAL \<Rightarrow> n \<le> MAX_FRAME_SIZE)"

definition serde :: "aws_lib \<Rightarrow> framestate \<Rightarrow> frame \<Rightarrow> error option \<times> framestate \<times> frame" where
  "serde L st f = (if frame_ty f = FRAME_TYPE_SINGLE then serde_nonframed L st f else serde_framed L st f)"

lemma serialize_frame_serde:
  assumes "frame_writable f n"
  shows "aws_cryptosdk_serialize_frame L f c0 n b p =
    (let (r, st, f') = serde L (wstart b p n) f;
         r = (if r = None \<and> fs_too_small st then Some AWS_ERROR_SHORT_BUFFER else r)
     in case r of Some e \<Rightarrow> (AWS_OP_ERR e, f', fs_ciphertext_size st, lib_secure_zero L b)
        | None \<Rightarrow> (AWS_OP_SUCCESS, f', fs_ciphertext_size st, fs_buffer st))"
proof -
  have "\<not> ((frame_ty f = FRAME_TYPE_SINGLE \<and> n > MAX_UNFRAMED_PLAINTEXT_SIZE) \<or>
    (frame_ty f \<noteq> FRAME_TYPE_SINGLE \<and> n > MAX_FRAME_SIZE))"
    using assms by (auto simp: frame_writable_def split: frame_type.splits)
  then show ?thesis
    unfolding aws_cryptosdk_serialize_frame_def serde_def wstart_def by (simp only: if_False Let_def)
qed

lemma fill_laid_out:
  "fill_frame (laid_out f off p n) mem iv ct tag =
     fill [(off + iv_off (frame_ty f), iv), (off + ct_off (frame_ty f) p, ct),
           (off + ct_off (frame_ty f) p + n, tag)] mem"
  by (simp add: fill_frame_def laid_out_def fill_def hole_def)

context aws_c_common
begin

lemma serde_wcounts:
  assumes "buf_valid b" "iv_len p = 12" "tag_len p = 16" "frame_writable f n"
    and "serde L (wstart b p n) f = (r, st', f')"
  shows "r = None" "wcounts b 0 st'" "unat (fs_ciphertext_size st') = frame_size (frame_ty f) p (unat n)"
proof -
  have *: "r = None \<and> wcounts b 0 st' \<and> fs_ciphertext_size st' = word_of_nat (frame_size (frame_ty f) p (unat n))"
  proof (cases "frame_ty f")
    case FRAME_TYPE_SINGLE
    then show ?thesis
      using serde_nonframed_wcounts [of b p n f r st' f'] assms
      by (simp add: frame_writable_def serde_def frame_size_def)
  next
    case FRAME_TYPE_FRAME
    then show ?thesis
      using serde_framed_wcounts [of b p n f FRAME_TYPE_FRAME r st' f'] assms
      by (simp add: frame_writable_def serde_def frame_size_def)
  next
    case FRAME_TYPE_FINAL
    then show ?thesis
      using serde_framed_wcounts [of b p n f FRAME_TYPE_FINAL r st' f'] assms
      by (simp add: frame_writable_def serde_def frame_size_def)
  qed
  then show "r = None" "wcounts b 0 st'" by simp_all
  have "unat n < 0xFFFFFFFE0"
    using assms(4) by (auto simp: frame_writable_def word_less_nat_alt word_le_nat_alt split: frame_type.splits)
  then have "frame_size (frame_ty f) p (unat n) < 2 ^ 64"
    using assms(2, 3) by (cases "frame_ty f") (simp_all add: frame_size_def)
  then show "unat (fs_ciphertext_size st') = frame_size (frame_ty f) p (unat n)"
    using * by (simp add: unat_of_nat)
qed

lemma serde_lays:
  assumes "buf_valid b" "iv_len p = 12" "tag_len p = 16" "frame_writable f n"
    and "fits b (frame_size (frame_ty f) p (unat n))"
    and "length iv = iv_len p" "length ct = unat n" "length tag = tag_len p"
  shows "\<exists>st'. serde L (wstart b p n) f = (None, st', laid_out f (buf_len b) p (unat n)) \<and>
    lays b [(buf_len b + iv_off (frame_ty f), iv), (buf_len b + ct_off (frame_ty f) p, ct),
      (buf_len b + ct_off (frame_ty f) p + unat n, tag)]
      (frame_bytes (frame_ty f) (sequence_number f) iv ct tag) st'"
proof (cases "frame_ty f")
  case FRAME_TYPE_SINGLE
  then show ?thesis
    using serde_nonframed_lays [of b p n iv ct tag f "sequence_number f"] assms
    by (simp add: frame_writable_def serde_def)
next
  case FRAME_TYPE_FRAME
  then show ?thesis
    using serde_framed_lays [of b p n iv ct tag f] assms by (simp add: frame_writable_def serde_def)
next
  case FRAME_TYPE_FINAL
  then show ?thesis
    using serde_final_lays [of b p n iv ct tag f] assms by (simp add: frame_writable_def serde_def)
qed

end

section \<open>The serializer\<close>

lemma serialize_frame_written:
  assumes L: "aws_c_common L" and b: "buf_valid b" and p: "aws_cryptosdk_alg_props aid = Some p"
    and f: "frame_writable f n"
    and r: "aws_cryptosdk_serialize_frame L f c0 n b p = (res, f', csize, b')"
  shows "unat csize = frame_size (frame_ty f) p (unat n) \<and>
    (if fits b (unat csize)
     then res = AWS_OP_SUCCESS \<and> buf_len b' = buf_len b + unat csize \<and> buf_capacity b' = buf_capacity b \<and> f' = laid_out f (buf_len b) p (unat n) \<and>
       (\<forall>iv ct tag. length iv = iv_len p \<and> length ct = unat n \<and> length tag = tag_len p \<longrightarrow>
          fill_frame f' (buf_mem b') iv ct tag =
          buf_mem (written b (frame_bytes (frame_ty f) (sequence_number f) iv ct tag)))
     else res = AWS_OP_ERR AWS_ERROR_SHORT_BUFFER \<and> b' = lib_secure_zero L b)"
proof -
  note lens = alg_props_fields(2, 3) [OF p]
  obtain r0 st g where e: "serde L (wstart b p n) f = (r0, st, g)" by (metis prod_cases3)
  note c = aws_c_common.serde_wcounts [OF L b lens f e]
  note s = r [unfolded serialize_frame_serde [OF f] e]
  have cs: "csize = fs_ciphertext_size st" using s by (auto split: if_splits option.splits)
  show ?thesis
  proof (cases "fits b (unat csize)")
    case True
    then have ns: "\<not> fs_too_small st" using c(2) by (simp add: wcounts_def cs split: if_splits)
    have fit: "fits b (frame_size (frame_ty f) p (unat n))" using True c(3) cs by simp
    have eq: "res = None" "b' = fs_buffer st" "f' = g" using s c(1) ns by auto
    have len: "buf_len b' = buf_len b + unat csize" using c(2) ns by (simp add: wcounts_def eq cs)
    have lay: "g = laid_out f (buf_len b) p (unat n) \<and> fill_frame g (buf_mem b') iv ct tag =
        buf_mem (written b (frame_bytes (frame_ty f) (sequence_number f) iv ct tag)) \<and> buf_capacity b' = buf_capacity b"
      if "length iv = iv_len p" "length ct = unat n" "length tag = tag_len p" for iv ct tag
      using aws_c_common.serde_lays [OF L b lens f fit that] e
      by (auto simp: lays_def fill_laid_out eq written_def)
    then have "g = laid_out f (buf_len b) p (unat n)" "buf_capacity b' = buf_capacity b"
      using Ex_list_of_length by metis+
    then show ?thesis using True c(3) cs len eq lay by auto
  next
    case False
    then have "fs_too_small st" using c(2) by (simp add: wcounts_def cs split: if_splits)
    then show ?thesis using False s c cs by auto
  qed
qed

text \<open>
  C14: Writing a frame. For every frame within the format's limits the size of its wire format is
  reported. If that many bytes are free in the output the call succeeds and consumes exactly them, and the
  returned frame locates the initialization vector, the ciphertext and the tag so that once the caller has filled
  these in the output is extended by the wire format of the frame, with nothing else changed. If not, the
  call fails with \<^const>\<open>AWS_ERROR_SHORT_BUFFER\<close> and the output is cleared.
\<close>

theorem serialize_frame_correct:
  assumes L: "aws_c_common L" and b: "buf_valid b" and p: "aws_cryptosdk_alg_props aid = Some p"
    and f: "frame_writable f n"
    and r: "aws_cryptosdk_serialize_frame L f c0 n b p = (res, f', csize, b')"
  shows "unat csize = frame_size (frame_ty f) p (unat n) \<and>
    (if fits b (unat csize)
     then res = AWS_OP_SUCCESS \<and> buf_len b' = buf_len b + unat csize \<and> buf_capacity b' = buf_capacity b \<and> f' = laid_out f (buf_len b) p (unat n) \<and>
       (\<forall>iv ct tag. length iv = iv_len p \<and> length ct = unat n \<and> length tag = tag_len p \<longrightarrow>
          fill_frame f' (buf_mem b') iv ct tag =
          buf_mem (written b (frame_bytes (frame_ty f) (sequence_number f) iv ct tag)))
     else res = AWS_OP_ERR AWS_ERROR_SHORT_BUFFER \<and> b' = lib_secure_zero L b)"
  by (rule serialize_frame_written [OF assms])

definition frame_example :: frame where
  "frame_example = frame_zero\<lparr>frame_ty := FRAME_TYPE_FINAL, sequence_number := 3\<rparr>"

theorem serialize_frame_witness:
  "case aws_cryptosdk_serialize_frame aws_ref frame_example 0 2 (buf_from_empty_array (replicate 50 0)) suite_example of
     (res, f', csize, b') \<Rightarrow> res = AWS_OP_SUCCESS \<and> unat csize = 42 \<and>
       take 42 (fill_frame f' (buf_mem b') (replicate 12 1) [7, 8] (replicate 16 2)) = final_example"
proof -
  let ?b = "buf_from_empty_array (replicate 50 0)"
  have b: "buf_valid ?b" "frame_writable frame_example 2"
    by (simp_all add: buf_valid_def buf_from_empty_array_def frame_writable_def frame_example_def)
  obtain res f' csize b' where d: "aws_cryptosdk_serialize_frame aws_ref frame_example 0 2 ?b suite_example =
      (res, f', csize, b')" by (metis prod_cases4)
  note c = serialize_frame_correct [OF ref.aws_c_common_axioms b(1) suite_example b(2) d]
  have ty: "frame_ty frame_example = FRAME_TYPE_FINAL" "sequence_number frame_example = 3"
    by (simp_all add: frame_example_def)
  have u: "unat csize = 42" using c by (simp add: suite_example_lens frame_size_def ty)
  moreover have "fits ?b 42" by (simp add: fits_def buf_from_empty_array_def)
  ultimately have "res = AWS_OP_SUCCESS" "fill_frame f' (buf_mem b') (replicate 12 1) [7, 8] (replicate 16 2) =
      buf_mem (written ?b final_example)"
    using c by (auto simp: suite_example_lens ty)
  then show ?thesis using u d by (simp add: buf_from_empty_array_def written_def splice_def)
qed

lemma field_sized_writing: "fs_writing st \<Longrightarrow>
    fs_writing (snd (field_sized L st sz)) \<and> fs_plaintext_size (snd (field_sized L st sz)) = fs_plaintext_size st"
  by (simp add: field_sized_def Let_def)

lemma field_be64_writing: "fs_writing st \<Longrightarrow> fst (field_be64 L st v) = v"
  by (simp add: field_be64_def Let_def split: option.split)

lemma serde_nonframed_max:
  "fst (serde_nonframed L (wstart b p MAX_UNFRAMED_PLAINTEXT_SIZE) f) = Some AWS_CRYPTOSDK_ERR_BAD_CIPHERTEXT"
proof -
  let ?s = "wstart b p MAX_UNFRAMED_PLAINTEXT_SIZE"
  obtain iv s1 where s1: "field_sized L ?s (word_of_nat (iv_len p)) = (iv, s1)" by fastforce
  have w: "fs_writing s1" "fs_plaintext_size s1 = MAX_UNFRAMED_PLAINTEXT_SIZE"
    using field_sized_writing [of ?s L "word_of_nat (iv_len p)"] s1 by simp_all
  obtain v s2 where s2: "field_be64 L s1 MAX_UNFRAMED_PLAINTEXT_SIZE = (v, s2)" by fastforce
  have "v = MAX_UNFRAMED_PLAINTEXT_SIZE"
    using field_be64_writing [OF w(1), of L MAX_UNFRAMED_PLAINTEXT_SIZE] s2 by simp
  then show ?thesis using s1 s2 w by (simp add: serde_nonframed_def Let_def)
qed

lemma serialize_frame_refused:
  assumes r: "aws_cryptosdk_serialize_frame L f c0 n b p = (res, f', csize, b')" and f: "\<not> frame_writable f n"
  shows "b' = lib_secure_zero L b \<and>
     res = AWS_OP_ERR (if frame_ty f = FRAME_TYPE_SINGLE \<and> n = MAX_UNFRAMED_PLAINTEXT_SIZE
                       then AWS_CRYPTOSDK_ERR_BAD_CIPHERTEXT else AWS_CRYPTOSDK_ERR_LIMIT_EXCEEDED)"
proof (cases "(frame_ty f = FRAME_TYPE_SINGLE \<and> n > MAX_UNFRAMED_PLAINTEXT_SIZE) \<or>
    (frame_ty f \<noteq> FRAME_TYPE_SINGLE \<and> n > MAX_FRAME_SIZE)")
  case True
  then show ?thesis using r by (auto simp: aws_cryptosdk_serialize_frame_def)
next
  case False
  note s = r [unfolded aws_cryptosdk_serialize_frame_def if_not_P [OF False], folded wstart_def]
  show ?thesis
  proof (cases "frame_ty f = FRAME_TYPE_SINGLE")
    case True
    then have "n = MAX_UNFRAMED_PLAINTEXT_SIZE" using f False by (simp add: frame_writable_def)
    then show ?thesis
      using s True serde_nonframed_max [of L b p f] by (auto simp: Let_def split: prod.splits)
  next
    case single: False
    then have "frame_ty f = FRAME_TYPE_FRAME \<and> sequence_number f = LAST_FRAME_MARK"
      using f False by (auto simp: frame_writable_def not_less split: frame_type.splits)
    then show ?thesis using s by (auto simp: Let_def serde_framed_def)
  qed
qed

text \<open>
  C17: Refused frames. Beyond the limits of the format the serializer writes nothing, clears the output and
  reports the limit: a frame or message body that is too long, and a regular frame whose number is the
  mark of the last frame. A single block of exactly the maximal size, which the first check lets
  pass, is reported as a bad ciphertext.
\<close>

theorem serialize_frame_limits:
  assumes r: "aws_cryptosdk_serialize_frame L f c0 n b p = (res, f', csize, b')" and f: "\<not> frame_writable f n"
  shows "b' = lib_secure_zero L b \<and>
     res = AWS_OP_ERR (if frame_ty f = FRAME_TYPE_SINGLE \<and> n = MAX_UNFRAMED_PLAINTEXT_SIZE
                       then AWS_CRYPTOSDK_ERR_BAD_CIPHERTEXT else AWS_CRYPTOSDK_ERR_LIMIT_EXCEEDED)"
  by (rule serialize_frame_refused [OF assms])

theorem serialize_frame_limits_witness:
  "fst (aws_cryptosdk_serialize_frame aws_ref frame_zero 0 0x1000000000 (buf_from_empty_array [1, 2]) suite_example) =
     AWS_OP_ERR AWS_CRYPTOSDK_ERR_LIMIT_EXCEEDED"
proof -
  obtain res f' csize b' where d: "aws_cryptosdk_serialize_frame aws_ref frame_zero 0 0x1000000000
      (buf_from_empty_array [1, 2]) suite_example = (res, f', csize, b')" by (metis prod_cases4)
  have "\<not> frame_writable frame_zero 0x1000000000"
    by (simp add: frame_writable_def split: frame_type.split)
  from serialize_frame_limits [OF d this] show ?thesis by (simp add: d)
qed

end
