(* ===== verification/Session.thy ===== *)
theory Session
  imports DefaultCmm HeaderProps FrameWrite
begin

text \<open>
  Sessions, \<^verbatim>\<open>source/session.c\<close>, \<^verbatim>\<open>source/session_decrypt.c\<close> and \<^verbatim>\<open>source/session_encrypt.c\<close>: the state machine that turns plaintext into a message
  and back, in as many calls as the caller needs. An operation gives its status and the new session, or nothing when it calls \<^verbatim>\<open>abort()\<close> or
  does not return.
\<close>

section \<open>Sessions\<close>

text \<open>The fourth mode stands for the numbers that are not a mode.\<close>

datatype aws_cryptosdk_mode =
    AWS_CRYPTOSDK_ENCRYPT | AWS_CRYPTOSDK_DECRYPT | AWS_CRYPTOSDK_DECRYPT_UNSIGNED | OTHER_MODE nat

datatype session_state =
    ST_CONFIG | ST_ERROR | ST_DONE
  | ST_READ_HEADER | ST_UNWRAP_KEY | ST_DECRYPT_BODY | ST_CHECK_TRAILER
  | ST_GEN_KEY | ST_WRITE_HEADER | ST_ENCRYPT_BODY | ST_WRITE_TRAILER

text \<open>
  The members of \<^verbatim>\<open>struct aws_cryptosdk_session\<close> but the allocator and the unused \<^verbatim>\<open>key_commitment\<close>, and the number of random draws so far. \<open>se_error\<close> is
  \<^const>\<open>None\<close> for \<^verbatim>\<open>0\<close>.
\<close>

record session =
  se_error :: "error option"
  se_mode :: aws_cryptosdk_mode
  se_state :: session_state
  se_policy :: commitment_policy
  se_cmm :: "cmm option"
  se_precise_size :: uint64
  se_size_bound :: uint64
  se_data_so_far :: uint64
  se_precise_size_known :: bool
  se_header_copy :: "bytes option"
  se_header_size :: nat
  se_header :: hdr
  se_frame_size :: uint64
  se_trace :: keyring_trace
  se_in_est :: size_t
  se_out_est :: size_t
  se_seqno :: uint64
  se_alg_props :: "alg_properties option"
  se_content_key :: content_key
  se_commitment_arr :: bytes
  se_signctx :: "sig_ctx option"
  se_cmm_success :: bool
  se_max_edks :: nat
  se_draws :: nat

abbreviation UINT64_MAX :: uint64 where
  "UINT64_MAX \<equiv> 0xFFFFFFFFFFFFFFFF"

abbreviation UINT32_MAX :: uint64 where
  "UINT32_MAX \<equiv> 0xFFFFFFFF"

abbreviation DEFAULT_FRAME_SIZE :: uint64 where
  "DEFAULT_FRAME_SIZE \<equiv> 262144"

type_synonym session_result = "(status \<times> session) run"

text \<open>Sequential composition: the second operation runs if the first succeeds.\<close>

definition and_then :: "(status \<times> 's) run \<Rightarrow> ('s \<Rightarrow> (status \<times> 's) run) \<Rightarrow> (status \<times> 's) run" where
  "and_then m f = (case m of None \<Rightarrow> None | Some (Some e, s) \<Rightarrow> Some (Some e, s) | Some (None, s) \<Rightarrow> f s)"

text \<open>The conversion of the \<^verbatim>\<open>int\<close> that \<^verbatim>\<open>aws_cryptosdk_hdr_size\<close> returns to \<^verbatim>\<open>size_t\<close>.\<close>

definition hdr_size_t :: "aws_lib \<Rightarrow> hdr \<Rightarrow> nat" where
  "hdr_size_t L h = unat (word_of_int (aws_cryptosdk_hdr_size L h) :: size_t)"

section \<open>Modes, states and configuration\<close>

definition aws_cryptosdk_priv_is_valid_mode :: "aws_cryptosdk_mode \<Rightarrow> bool" where
  "aws_cryptosdk_priv_is_valid_mode mode =
     (case mode of AWS_CRYPTOSDK_ENCRYPT \<Rightarrow> True | AWS_CRYPTOSDK_DECRYPT \<Rightarrow> True
      | AWS_CRYPTOSDK_DECRYPT_UNSIGNED \<Rightarrow> True | OTHER_MODE n \<Rightarrow> False)"

definition aws_cryptosdk_priv_is_decrypt_mode :: "aws_cryptosdk_mode \<Rightarrow> bool" where
  "aws_cryptosdk_priv_is_decrypt_mode mode =
     (case mode of AWS_CRYPTOSDK_DECRYPT \<Rightarrow> True | AWS_CRYPTOSDK_DECRYPT_UNSIGNED \<Rightarrow> True | _ \<Rightarrow> False)"

definition aws_cryptosdk_priv_algorithm_allowed_for_encrypt :: "alg_id \<Rightarrow> commitment_policy \<Rightarrow> bool" where
  "aws_cryptosdk_priv_algorithm_allowed_for_encrypt alg p =
     (let alg_committing = aws_cryptosdk_algorithm_is_committing alg
      in if p = COMMITMENT_POLICY_REQUIRE_ENCRYPT_REQUIRE_DECRYPT \<or>
            p = COMMITMENT_POLICY_REQUIRE_ENCRYPT_ALLOW_DECRYPT then alg_committing
         else if p = COMMITMENT_POLICY_FORBID_ENCRYPT_ALLOW_DECRYPT then \<not> alg_committing
         else False)"

definition aws_cryptosdk_priv_algorithm_allowed_for_decrypt :: "alg_id \<Rightarrow> commitment_policy \<Rightarrow> bool" where
  "aws_cryptosdk_priv_algorithm_allowed_for_decrypt alg p =
     (let alg_committing = aws_cryptosdk_algorithm_is_committing alg
      in if p = COMMITMENT_POLICY_REQUIRE_ENCRYPT_REQUIRE_DECRYPT then alg_committing
         else if p = COMMITMENT_POLICY_REQUIRE_ENCRYPT_ALLOW_DECRYPT \<or>
                 p = COMMITMENT_POLICY_FORBID_ENCRYPT_ALLOW_DECRYPT then True
         else False)"

text \<open>The checks of \<^verbatim>\<open>change_state\<close> on the transition to a new state; where they fail the process is aborted.\<close>

definition transition_ok :: "session \<Rightarrow> session_state \<Rightarrow> bool" where
  "transition_ok s new_state =
     (case new_state of
        ST_ERROR \<Rightarrow> True
      | ST_CONFIG \<Rightarrow> True
      | ST_READ_HEADER \<Rightarrow> se_state s = ST_CONFIG \<and> aws_cryptosdk_priv_is_decrypt_mode (se_mode s)
      | ST_UNWRAP_KEY \<Rightarrow> se_state s = ST_READ_HEADER \<and> aws_cryptosdk_priv_is_decrypt_mode (se_mode s) \<and>
          se_header_copy s \<noteq> None \<and> se_header_size s \<noteq> 0
      | ST_DECRYPT_BODY \<Rightarrow>
          if se_state s \<noteq> ST_UNWRAP_KEY then True else se_alg_props s \<noteq> None \<and> se_seqno s \<noteq> 0
      | ST_CHECK_TRAILER \<Rightarrow> se_state s = ST_DECRYPT_BODY
      | ST_GEN_KEY \<Rightarrow> se_state s = ST_CONFIG \<and> se_mode s = AWS_CRYPTOSDK_ENCRYPT
      | ST_WRITE_HEADER \<Rightarrow> se_mode s = AWS_CRYPTOSDK_ENCRYPT \<and> se_state s = ST_GEN_KEY \<and>
          se_header_copy s \<noteq> None \<and> se_header_size s \<noteq> 0
      | ST_ENCRYPT_BODY \<Rightarrow> se_state s = ST_WRITE_HEADER \<and> se_alg_props s \<noteq> None \<and> se_seqno s \<noteq> 0
      | ST_WRITE_TRAILER \<Rightarrow> se_state s = ST_ENCRYPT_BODY
      | ST_DONE \<Rightarrow> se_state s \<in> {ST_ENCRYPT_BODY, ST_DECRYPT_BODY, ST_CHECK_TRAILER, ST_WRITE_TRAILER})"

definition aws_cryptosdk_priv_session_change_state :: "session \<Rightarrow> session_state \<Rightarrow> session run" where
  "aws_cryptosdk_priv_session_change_state s new_state =
     (if se_state s = new_state then Some s
      else if se_state s = ST_ERROR \<and> new_state \<noteq> ST_CONFIG then None
      else if transition_ok s new_state then Some (s\<lparr>se_state := new_state\<rparr>)
      else None)"

definition aws_cryptosdk_priv_fail_session :: "session \<Rightarrow> error \<Rightarrow> session_result" where
  "aws_cryptosdk_priv_fail_session s error_code =
     (if se_state s \<noteq> ST_ERROR then do {
        s \<leftarrow> aws_cryptosdk_priv_session_change_state (s\<lparr>se_error := Some error_code\<rparr>) ST_ERROR;
        Some (AWS_OP_ERR error_code, s)
      } else Some (AWS_OP_ERR error_code, s))"

definition aws_cryptosdk_session_reset :: "session \<Rightarrow> aws_cryptosdk_mode \<Rightarrow> session_result" where
  "aws_cryptosdk_session_reset s mode =
     (let s = s\<lparr>se_error := None, se_mode := mode, se_state := ST_CONFIG, se_precise_size := 0,
                se_size_bound := UINT64_MAX, se_data_so_far := 0, se_precise_size_known := False,
                se_cmm_success := False, se_header_copy := None, se_header_size := 0,
                se_header := aws_cryptosdk_hdr_clear (se_header s),
                se_trace := aws_cryptosdk_keyring_trace_clear (se_trace s),
                se_in_est := 1, se_out_est := 1, se_seqno := 0, se_alg_props := None,
                se_content_key := zero_key, se_signctx := None\<rparr>
      in if \<not> aws_cryptosdk_priv_is_valid_mode mode then aws_cryptosdk_priv_fail_session s AWS_ERROR_UNIMPLEMENTED
         else Some (AWS_OP_SUCCESS, s))"

definition session_zero :: "hdr \<Rightarrow> keyring_trace \<Rightarrow> nat \<Rightarrow> session" where
  "session_zero header trace draws =
     \<lparr>se_error = None, se_mode = OTHER_MODE 0, se_state = ST_CONFIG, se_policy = 0, se_cmm = None,
      se_precise_size = 0, se_size_bound = 0, se_data_so_far = 0, se_precise_size_known = False,
      se_header_copy = None, se_header_size = 0, se_header = header, se_frame_size = DEFAULT_FRAME_SIZE,
      se_trace = trace, se_in_est = 0, se_out_est = 0, se_seqno = 0, se_alg_props = None,
      se_content_key = zero_key, se_commitment_arr = replicate 32 0, se_signctx = None,
      se_cmm_success = False, se_max_edks = 0, se_draws = draws\<rparr>"

abbreviation SIZEOF_session :: nat where
  "SIZEOF_session \<equiv> 480"

text \<open>The session, or \<^const>\<open>None\<close> for NULL; \<open>draws\<close> is the number of random draws made before.\<close>

definition aws_cryptosdk_session_new :: "aws_lib \<Rightarrow> nat \<Rightarrow> aws_cryptosdk_mode \<Rightarrow> session option run" where
  "aws_cryptosdk_session_new L draws mode =
     (if \<not> lib_acquire L SIZEOF_session then Some None
      else case aws_cryptosdk_hdr_init L of
        Inl e \<Rightarrow> Some None
      | Inr header \<Rightarrow>
          (case aws_cryptosdk_keyring_trace_init L of
             Inl e \<Rightarrow> Some None
           | Inr trace \<Rightarrow> do {
               r \<leftarrow> aws_cryptosdk_session_reset (session_zero header trace draws) mode;
               (case r of (Some e, s) \<Rightarrow> Some None | (None, s) \<Rightarrow> Some (Some s))
             }))"

definition aws_cryptosdk_session_set_commitment_policy :: "session \<Rightarrow> commitment_policy \<Rightarrow> session_result" where
  "aws_cryptosdk_session_set_commitment_policy s p =
     (let s = s\<lparr>se_policy := p\<rparr>
      in if \<not> aws_cryptosdk_commitment_policy_is_valid p then Some (AWS_OP_ERR AWS_ERROR_INVALID_ARGUMENT, s)
         else if se_state s \<noteq> ST_CONFIG then aws_cryptosdk_priv_fail_session s AWS_CRYPTOSDK_ERR_BAD_STATE
         else Some (AWS_OP_SUCCESS, s))"

definition aws_cryptosdk_session_new_from_cmm_2 :: "aws_lib \<Rightarrow> nat \<Rightarrow> aws_cryptosdk_mode \<Rightarrow> cmm \<Rightarrow> session option run" where
  "aws_cryptosdk_session_new_from_cmm_2 L draws mode c = do {
     r \<leftarrow> aws_cryptosdk_session_new L draws mode;
     (case r of
        None \<Rightarrow> Some None
      | Some s \<Rightarrow> do {
          (_, s) \<leftarrow> aws_cryptosdk_session_set_commitment_policy (s\<lparr>se_cmm := Some c\<rparr>)
                     COMMITMENT_POLICY_REQUIRE_ENCRYPT_REQUIRE_DECRYPT;
          Some (Some s)
        })
   }"

definition aws_cryptosdk_session_new_from_keyring_2 ::
  "env \<Rightarrow> nat \<Rightarrow> aws_cryptosdk_mode \<Rightarrow> keyring \<Rightarrow> session option run" where
  "aws_cryptosdk_session_new_from_keyring_2 V draws mode kr =
     (case aws_cryptosdk_default_cmm_new (env_lib V) kr of
        None \<Rightarrow> Some None
      | Some c \<Rightarrow> do {
          r \<leftarrow> aws_cryptosdk_session_new (env_lib V) draws mode;
          (case r of
             None \<Rightarrow> Some None
           | Some s \<Rightarrow> do {
               (_, s) \<leftarrow> aws_cryptosdk_session_set_commitment_policy (s\<lparr>se_cmm := Some (default_cmm_vt V c)\<rparr>)
                          COMMITMENT_POLICY_REQUIRE_ENCRYPT_REQUIRE_DECRYPT;
               Some (Some s)
             })
        })"

definition aws_cryptosdk_session_set_frame_size :: "session \<Rightarrow> uint32 \<Rightarrow> status \<times> session" where
  "aws_cryptosdk_session_set_frame_size s fsize =
     (if se_mode s \<noteq> AWS_CRYPTOSDK_ENCRYPT \<or> se_state s \<noteq> ST_CONFIG then (AWS_OP_ERR AWS_CRYPTOSDK_ERR_BAD_STATE, s)
      else (AWS_OP_SUCCESS, s\<lparr>se_frame_size := ucast fsize\<rparr>))"

definition aws_cryptosdk_session_set_message_bound :: "session \<Rightarrow> uint64 \<Rightarrow> session_result" where
  "aws_cryptosdk_session_set_message_bound s max_message_size =
     (if se_mode s \<noteq> AWS_CRYPTOSDK_ENCRYPT then Some (AWS_OP_ERR AWS_CRYPTOSDK_ERR_BAD_STATE, s)
      else if se_precise_size_known s \<and> se_precise_size s > max_message_size
      then aws_cryptosdk_priv_fail_session s AWS_CRYPTOSDK_ERR_LIMIT_EXCEEDED
      else Some (AWS_OP_SUCCESS, if se_size_bound s > max_message_size then s\<lparr>se_size_bound := max_message_size\<rparr> else s))"

definition aws_cryptosdk_session_set_max_encrypted_data_keys :: "session \<Rightarrow> nat \<Rightarrow> session_result" where
  "aws_cryptosdk_session_set_max_encrypted_data_keys s max_edks =
     (if se_state s \<noteq> ST_CONFIG then aws_cryptosdk_priv_fail_session s AWS_CRYPTOSDK_ERR_BAD_STATE
      else if max_edks = 0 then Some (AWS_OP_ERR AWS_ERROR_INVALID_ARGUMENT, s)
      else Some (AWS_OP_SUCCESS, s\<lparr>se_max_edks := max_edks\<rparr>))"

end
