(* ===== verification/SessionDecrypt.thy ===== *)
theory SessionDecrypt
  imports Session
begin

text \<open>
  The decryption path of sessions, \<^verbatim>\<open>source/session_decrypt.c\<close>: reading the header, unwrapping the data key, checking the header, decrypting frames
  and checking the trailing signature.
\<close>

section \<open>Unwrapping the data key\<close>

text \<open>The encrypted data keys of the header without their allocators.\<close>

fun fill_edks :: "aws_lib \<Rightarrow> edk list \<Rightarrow> edk list \<Rightarrow> edk list result" where
  "fill_edks L dest [] = Inr dest"
| "fill_edks L dest (e # es) =
     (if lib_push_back L (length dest)
      then fill_edks L (dest @ [\<lparr>provider_id = (provider_id e)\<lparr>buf_owned := False\<rparr>,
                                 provider_info = (provider_info e)\<lparr>buf_owned := False\<rparr>,
                                 ciphertext = (ciphertext e)\<lparr>buf_owned := False\<rparr>\<rparr>]) es
      else Inl AWS_CRYPTOSDK_ERR_CRYPTO_UNKNOWN)"

definition fill_request :: "aws_lib \<Rightarrow> session \<Rightarrow> dec_request result" where
  "fill_request L s =
     bindE (aws_cryptosdk_edk_list_init L) (\<lambda>dest.
     bindE (fill_edks L dest (hdr_edk_list (se_header s))) (\<lambda>edks.
     Inr \<lparr>dr_enc_ctx = hdr_enc_ctx (se_header s), dr_encrypted_data_keys = edks,
          dr_alg = alg_id (the (se_alg_props s))\<rparr>))"

text \<open>The expected commitment is computed in place, in the array of the session.\<close>

definition derive_data_key :: "env \<Rightarrow> session \<Rightarrow> dec_materials \<Rightarrow> status \<times> session" where
  "derive_data_key V s materials =
     (let props = the (se_alg_props s); key = dm_unencrypted_data_key materials
      in if dk_len key \<noteq> data_key_len props then (AWS_OP_ERR AWS_CRYPTOSDK_ERR_CRYPTO_UNKNOWN, s)
         else if \<not> aws_cryptosdk_priv_algorithm_allowed_for_decrypt (alg_id props) (se_policy s)
         then (AWS_OP_ERR AWS_CRYPTOSDK_ERR_COMMITMENT_POLICY_VIOLATION, s)
         else
           let data_key = splice zero_key 0 (dk_contents key);
               expected_commitment = buf_from_array (take (commitment_len props) (se_commitment_arr s));
               (rv, content_key, expected_commitment) =
                 aws_cryptosdk_private_derive_key (env_lib V) (env_ssl V) props (se_content_key s) data_key
                   expected_commitment (hdr_message_id (se_header s));
               s = s\<lparr>se_content_key := content_key,
                     se_commitment_arr := splice (se_commitment_arr s) 0 (buf_mem expected_commitment)\<rparr>
           in case rv of
                Some e \<Rightarrow> (AWS_OP_ERR e, s)
              | None \<Rightarrow>
                  if \<not> aws_cryptosdk_private_commitment_eq expected_commitment (hdr_alg_suite_data (se_header s))
                  then (AWS_OP_ERR AWS_CRYPTOSDK_ERR_BAD_CIPHERTEXT, s)
                  else (AWS_OP_SUCCESS, s))"

definition validate_header :: "env \<Rightarrow> session \<Rightarrow> status run" where
  "validate_header V s =
     (let header_size = hdr_size_t (env_lib V) (se_header s);
          props = the (se_alg_props s);
          authtag_len = aws_cryptosdk_private_authtag_len props;
          auth_len = hdr_auth_len (se_header s);
          header_copy = the (se_header_copy s)
      in if header_size = 0 then Some (AWS_OP_ERR AWS_CRYPTOSDK_ERR_BAD_CIPHERTEXT)
         else if word_of_nat header_size - (word_of_nat auth_len :: size_t) \<noteq> word_of_nat authtag_len
         then Some (AWS_OP_ERR AWS_CRYPTOSDK_ERR_BAD_CIPHERTEXT)
         else aws_cryptosdk_verify_header (env_ssl V) props (se_content_key s)
                \<lparr>buf_mem = drop auth_len header_copy, buf_len = authtag_len, buf_owned = False\<rparr>
                (take auth_len header_copy))"

text \<open>What follows a successful call of the manager.\<close>

definition check_materials :: "session \<Rightarrow> dec_materials \<Rightarrow> status" where
  "check_materials s materials =
     (case aws_cryptosdk_alg_props (dm_alg materials) of
        None \<Rightarrow> AWS_OP_ERR AWS_CRYPTOSDK_ERR_BAD_STATE
      | Some materials_alg_props \<Rightarrow>
          if se_mode s = AWS_CRYPTOSDK_DECRYPT_UNSIGNED \<and> signature_len materials_alg_props \<noteq> 0
          then AWS_OP_ERR AWS_CRYPTOSDK_ERR_DECRYPT_SIGNED_MESSAGE_NOT_ALLOWED
          else AWS_OP_SUCCESS)"

definition take_signctx :: "env \<Rightarrow> session \<Rightarrow> dec_materials \<Rightarrow> status \<times> session" where
  "take_signctx V s materials =
     (if signature_len (the (se_alg_props s)) \<noteq> 0 then
        (case dm_signctx materials of
           None \<Rightarrow> (AWS_OP_ERR AWS_CRYPTOSDK_ERR_BAD_CIPHERTEXT, s)
         | Some ctx \<Rightarrow>
             (case aws_cryptosdk_sig_update (env_ec V) ctx (take (se_header_size s) (the (se_header_copy s))) of
                (st, ctx) \<Rightarrow> (st, s\<lparr>se_signctx := Some ctx\<rparr>)))
      else (AWS_OP_SUCCESS, s))"

definition use_materials :: "env \<Rightarrow> session \<Rightarrow> dec_materials \<Rightarrow> session_result" where
  "use_materials V s materials =
     (let (_, trace, _) = aws_cryptosdk_transfer_list (env_lib V) (se_trace s) (dm_keyring_trace materials);
          s = s\<lparr>se_trace := trace, se_cmm_success := True\<rparr>
      in and_then (Some (check_materials s materials, s)) (\<lambda>s.
         and_then (Some (derive_data_key V s materials)) (\<lambda>s.
         and_then (do { st \<leftarrow> validate_header V s; Some (st, s) }) (\<lambda>s.
         and_then (Some (take_signctx V s materials)) (\<lambda>s. do {
           s \<leftarrow> aws_cryptosdk_priv_session_change_state
                  (s\<lparr>se_seqno := 1, se_frame_size := ucast (hdr_frame_len (se_header s))\<rparr>) ST_DECRYPT_BODY;
           Some (AWS_OP_SUCCESS, s)
         })))))"

definition aws_cryptosdk_priv_unwrap_keys :: "env \<Rightarrow> session \<Rightarrow> session_result" where
  "aws_cryptosdk_priv_unwrap_keys V s =
     (let s = s\<lparr>se_alg_props := aws_cryptosdk_alg_props (hdr_alg_id (se_header s))\<rparr>
      in if se_alg_props s = None then Some (AWS_OP_ERR AWS_CRYPTOSDK_ERR_BAD_CIPHERTEXT, s)
         else case fill_request (env_lib V) s of
           Inl e \<Rightarrow> Some (AWS_OP_ERR e, s)
         | Inr request \<Rightarrow>
             (case aws_cryptosdk_cmm_decrypt_materials (the (se_cmm s)) request of
                Inl e \<Rightarrow> Some (AWS_OP_ERR e, s)
              | Inr materials \<Rightarrow> use_materials V s materials))"

section \<open>Reading the header\<close>

definition grow_input_estimate :: "session \<Rightarrow> nat \<Rightarrow> session" where
  "grow_input_estimate s len =
     (let n = word_of_nat len :: size_t
      in s\<lparr>se_in_est := (if n \<ge> se_in_est s then (if n + 128 < n then - 1 else n + 128) else se_in_est s),
           se_out_est := 0\<rparr>)"

definition aws_cryptosdk_priv_try_parse_header ::
  "env \<Rightarrow> session \<Rightarrow> byte_cursor \<Rightarrow> (status \<times> session \<times> byte_cursor) run" where
  "aws_cryptosdk_priv_try_parse_header V s input =
     (case aws_cryptosdk_hdr_parse (env_lib V) (se_header s) input (se_max_edks s) of
        (Some e, header, input') \<Rightarrow>
          let s = s\<lparr>se_header := header\<rparr>
          in if e = AWS_ERROR_SHORT_BUFFER
             then Some (AWS_OP_SUCCESS, grow_input_estimate s (cur_len input'), input')
             else Some (AWS_OP_ERR e, s, input')
      | (None, header, input') \<Rightarrow>
          let s = s\<lparr>se_header := header, se_header_size := hdr_size_t (env_lib V) header\<rparr>
          in if se_header_size s = 0 then Some (AWS_OP_ERR AWS_CRYPTOSDK_ERR_BAD_CIPHERTEXT, s, input')
             else if sint (word_of_nat (se_header_size s) :: size_t) \<noteq> int (cur_ptr input') - int (cur_ptr input)
             then Some (AWS_OP_ERR AWS_CRYPTOSDK_ERR_CRYPTO_UNKNOWN, s, input')
             else if \<not> lib_acquire (env_lib V) (se_header_size s) then Some (AWS_OP_ERR AWS_ERROR_OOM, s, input')
             else do {
               s \<leftarrow> aws_cryptosdk_priv_session_change_state
                      (s\<lparr>se_header_copy := Some (take (se_header_size s) (cur_data input))\<rparr>) ST_UNWRAP_KEY;
               (st, s) \<leftarrow> aws_cryptosdk_priv_unwrap_keys V s;
               Some (st, s, input')
             })"

section \<open>Decrypting frames\<close>

text \<open>The bytes of a part of the frame that was found at the cursor.\<close>

definition cur_slice :: "byte_cursor \<Rightarrow> slice \<Rightarrow> bytes" where
  "cur_slice c sl = take (sl_len sl) (drop (the (sl_ptr sl) - cur_ptr c) (cur_data c))"

text \<open>After a frame has been decrypted: the sequence number, the signature and the state.\<close>

definition frame_decrypted :: "env \<Rightarrow> session \<Rightarrow> bytes \<Rightarrow> frame_type \<Rightarrow> session_result" where
  "frame_decrypted V s to_sign ty =
     (let s = s\<lparr>se_seqno := se_seqno s + 1\<rparr>
      in and_then (Some (case se_signctx s of
                     None \<Rightarrow> (AWS_OP_SUCCESS, s)
                   | Some ctx \<Rightarrow>
                       (case aws_cryptosdk_sig_update (env_ec V) ctx to_sign of
                          (st, ctx) \<Rightarrow> (st, s\<lparr>se_signctx := Some ctx\<rparr>)))) (\<lambda>s.
         if ty \<noteq> FRAME_TYPE_FRAME then do {
           s \<leftarrow> aws_cryptosdk_priv_session_change_state s ST_CHECK_TRAILER;
           Some (AWS_OP_SUCCESS, s)
         } else Some (AWS_OP_SUCCESS, s)))"

definition aws_cryptosdk_priv_try_decrypt_body ::
  "env \<Rightarrow> session \<Rightarrow> byte_buf \<Rightarrow> byte_cursor \<Rightarrow> (status \<times> session \<times> byte_buf \<times> byte_cursor) run" where
  "aws_cryptosdk_priv_try_decrypt_body V s poutput pinput =
     (case aws_cryptosdk_deserialize_frame (env_lib V) pinput (the (se_alg_props s)) (se_frame_size s) of
        (st, frame, csize, psize, pinput') \<Rightarrow>
          let s = s\<lparr>se_in_est := csize, se_out_est := psize\<rparr>
          in case st of
               Some e \<Rightarrow>
                 if e = AWS_ERROR_SHORT_BUFFER then Some (AWS_OP_SUCCESS, s, poutput, pinput')
                 else Some (AWS_OP_ERR e, s, poutput, pinput')
             | None \<Rightarrow>
                 if se_seqno s \<noteq> ucast (sequence_number frame)
                 then Some (AWS_OP_ERR AWS_CRYPTOSDK_ERR_BAD_CIPHERTEXT, s, poutput, pinput')
                 else (case lib_buf_advance (env_lib V) poutput (unat psize) of
                   None \<Rightarrow> Some (AWS_OP_SUCCESS, s, poutput, pinput)
                 | Some poutput' \<Rightarrow>
                     let output = buf_from_empty_array (take (unat psize) (drop (buf_len poutput) (buf_mem poutput)))
                     in do {
                       (rv, output) \<leftarrow> aws_cryptosdk_decrypt_body (env_lib V) (env_ssl V) (the (se_alg_props s)) output
                                        (cursor_of (cur_slice pinput (frame_ciphertext frame)))
                                        (hdr_message_id (se_header s)) (sequence_number frame)
                                        (cur_slice pinput (frame_iv frame)) (se_content_key s)
                                        (cur_slice pinput (frame_authtag frame)) (Some (frame_ty frame));
                       let poutput = poutput'\<lparr>buf_mem := splice (buf_mem poutput') (buf_len poutput) (buf_mem output)\<rparr>;
                       (case rv of
                          Some e \<Rightarrow> Some (AWS_OP_ERR e, s, poutput, pinput')
                        | None \<Rightarrow> do {
                            (st, s) \<leftarrow> frame_decrypted V s
                                        (take (cur_ptr pinput' - cur_ptr pinput) (cur_data pinput)) (frame_ty frame);
                            Some (st, s, poutput, pinput')
                          })
                     }))"

section \<open>The trailer\<close>

definition aws_cryptosdk_priv_check_trailer ::
  "env \<Rightarrow> session \<Rightarrow> byte_cursor \<Rightarrow> (status \<times> session \<times> byte_cursor) run" where
  "aws_cryptosdk_priv_check_trailer V s input =
     (let s = s\<lparr>se_out_est := 0, se_in_est := 0\<rparr>
      in case se_signctx s of
           None \<Rightarrow> do {
             s \<leftarrow> aws_cryptosdk_priv_session_change_state s ST_DONE;
             Some (AWS_OP_SUCCESS, s, input)
           }
         | Some ctx \<Rightarrow>
             (case lib_read_be16 (env_lib V) input of
                None \<Rightarrow> Some (AWS_OP_SUCCESS, s\<lparr>se_in_est := 2\<rparr>, input)
              | Some (sig_len, input') \<Rightarrow>
                  (case lib_advance (env_lib V) input' (unat sig_len) of
                     None \<Rightarrow> Some (AWS_OP_SUCCESS, s\<lparr>se_in_est := 2 + ucast sig_len\<rparr>, input)
                   | Some (signature, input'') \<Rightarrow>
                       (case aws_string_new_from_array (env_lib V) (cur_data signature) of
                          None \<Rightarrow> Some (AWS_OP_ERR AWS_ERROR_OOM, s, input'')
                        | Some signature_str \<Rightarrow>
                            Some (aws_cryptosdk_sig_verify_finish (env_ec V) ctx signature_str,
                                  s\<lparr>se_signctx := None\<rparr>, input'')))))"

end
