(* ===== verification/SessionEncrypt.thy ===== *)
theory SessionEncrypt
  imports Session
begin

text \<open>
  The encryption path of sessions, \<^verbatim>\<open>source/session_encrypt.c\<close>: getting materials, building and authenticating the header, encrypting frames and
  writing the trailing signature.
\<close>

section \<open>The header\<close>

definition build_header :: "env \<Rightarrow> session \<Rightarrow> enc_materials \<Rightarrow> status \<times> session" where
  "build_header V s materials =
     (let props = the (se_alg_props s);
          s = s\<lparr>se_header := (se_header s)\<lparr>hdr_alg_id := alg_id props\<rparr>\<rparr>
      in if se_frame_size s > UINT32_MAX then (AWS_OP_ERR AWS_CRYPTOSDK_ERR_LIMIT_EXCEEDED, s)
         else
           let s = s\<lparr>se_header := (se_header s)\<lparr>hdr_frame_len := ucast (se_frame_size s),
                                               hdr_edk_list := em_encrypted_data_keys materials\<rparr>\<rparr>
           in case lib_buf_init (env_lib V) (iv_len props) of
                None \<Rightarrow> (AWS_OP_ERR AWS_ERROR_OOM, s)
              | Some iv \<Rightarrow>
                  let iv = iv\<lparr>buf_mem := splice (buf_mem iv) 0 (replicate (iv_len props) 0), buf_len := buf_capacity iv\<rparr>;
                      s = s\<lparr>se_header := (se_header s)\<lparr>hdr_iv := iv\<rparr>\<rparr>
                  in case lib_buf_init (env_lib V) (tag_len props) of
                       None \<Rightarrow> (AWS_OP_ERR AWS_ERROR_OOM, s)
                     | Some tag \<Rightarrow>
                         (AWS_OP_SUCCESS, s\<lparr>se_header := (se_header s)\<lparr>hdr_auth_tag := tag\<lparr>buf_len := buf_capacity tag\<rparr>\<rparr>\<rparr>))"

definition buf_fill :: "byte_buf \<Rightarrow> byte \<Rightarrow> byte_buf" where
  "buf_fill b x = b\<lparr>buf_mem := splice (buf_mem b) 0 (replicate (buf_len b) x)\<rparr>"

definition buf_copy_from :: "byte_buf \<Rightarrow> bytes \<Rightarrow> byte_buf" where
  "buf_copy_from b src = b\<lparr>buf_mem := splice (buf_mem b) 0 (take (buf_len b) src)\<rparr>"

text \<open>Writing the header to its copy, which must take exactly the computed size.\<close>

definition write_header_copy :: "env \<Rightarrow> session \<Rightarrow> status \<times> session" where
  "write_header_copy V s =
     (case aws_cryptosdk_hdr_write (env_lib V) (se_header s) (the (se_header_copy s)) of
        (rv, actual_size, copy) \<Rightarrow>
          let s = s\<lparr>se_header_copy := Some copy\<rparr>
          in case rv of
               Some e \<Rightarrow> (AWS_OP_ERR e, s)
             | None \<Rightarrow>
                 if actual_size \<noteq> se_header_size s then (AWS_OP_ERR AWS_CRYPTOSDK_ERR_CRYPTO_UNKNOWN, s)
                 else (AWS_OP_SUCCESS, s))"

definition authenticate_header :: "env \<Rightarrow> session \<Rightarrow> session_result" where
  "authenticate_header V s =
     (let props = the (se_alg_props s);
          authtag_len = aws_cryptosdk_private_authtag_len props;
          n = se_header_size s - authtag_len;
          copy = the (se_header_copy s);
          h = se_header s
      in do {
        (rv, authtag) \<leftarrow> aws_cryptosdk_sign_header (env_ssl V) props (se_content_key s)
                          (buf_from_array (drop n copy)) (take n copy);
        let s = s\<lparr>se_header_copy := Some (take n copy @ buf_mem authtag)\<rparr>;
        (case rv of
           Some e \<Rightarrow> Some (AWS_OP_ERR e, s)
         | None \<Rightarrow>
             let h = (if msg_format_version props = AWS_CRYPTOSDK_HEADER_VERSION_1_0
                      then h\<lparr>hdr_iv := buf_copy_from (hdr_iv h) (buf_mem authtag),
                             hdr_auth_tag := buf_copy_from (hdr_auth_tag h) (drop (buf_len (hdr_iv h)) (buf_mem authtag))\<rparr>
                      else h\<lparr>hdr_auth_tag := buf_copy_from (hdr_auth_tag h) (buf_mem authtag)\<rparr>)
             in Some (AWS_OP_SUCCESS, s\<lparr>se_header := h\<rparr>))
      })"

definition sign_message_header :: "env \<Rightarrow> session \<Rightarrow> status \<times> session" where
  "sign_message_header V s =
     (case se_signctx s of
        None \<Rightarrow> (AWS_OP_SUCCESS, s)
      | Some ctx \<Rightarrow>
          (case aws_cryptosdk_sig_update (env_ec V) ctx (take (se_header_size s) (the (se_header_copy s))) of
             (st, ctx) \<Rightarrow> (st, s\<lparr>se_signctx := Some ctx\<rparr>)))"

text \<open>
  The static function \<^verbatim>\<open>sign_header\<close> of \<^verbatim>\<open>session_encrypt.c\<close>. What the allocated copy holds at first is up to the allocator.
\<close>

definition session_sign_header :: "env \<Rightarrow> session \<Rightarrow> session_result" where
  "session_sign_header V s =
     (let s = s\<lparr>se_header_size := hdr_size_t (env_lib V) (se_header s)\<rparr>
      in if se_header_size s = 0 then Some (AWS_OP_ERR AWS_CRYPTOSDK_ERR_LIMIT_EXCEEDED, s)
         else case lib_buf_init (env_lib V) (se_header_size s) of
           None \<Rightarrow> Some (AWS_OP_ERR AWS_ERROR_OOM, s)
         | Some b \<Rightarrow>
             let h = se_header s;
                 s = s\<lparr>se_header_copy := Some (buf_mem b),
                       se_header := h\<lparr>hdr_iv := buf_fill (hdr_iv h) 0x42, hdr_auth_tag := buf_fill (hdr_auth_tag h) 0xDE\<rparr>\<rparr>
             in and_then (Some (write_header_copy V s)) (\<lambda>s.
                and_then (authenticate_header V s) (\<lambda>s.
                and_then (Some (write_header_copy V s)) (\<lambda>s.
                and_then (Some (sign_message_header V s)) (\<lambda>s. do {
                  s \<leftarrow> aws_cryptosdk_priv_session_change_state (s\<lparr>se_seqno := 1\<rparr>) ST_WRITE_HEADER;
                  Some (AWS_OP_SUCCESS, s)
                })))))"

section \<open>Generating keys\<close>

text \<open>The validation of the materials.\<close>

definition check_enc_materials :: "session \<Rightarrow> enc_materials \<Rightarrow> status" where
  "check_enc_materials s materials =
     (case se_alg_props s of
        None \<Rightarrow> AWS_OP_ERR AWS_CRYPTOSDK_ERR_CRYPTO_UNKNOWN
      | Some props \<Rightarrow>
          if dk_len (em_unencrypted_data_key materials) \<noteq> data_key_len props then AWS_OP_ERR AWS_CRYPTOSDK_ERR_CRYPTO_UNKNOWN
          else
            let num_edks = length (em_encrypted_data_keys materials)
            in if num_edks = 0 then AWS_OP_ERR AWS_CRYPTOSDK_ERR_CRYPTO_UNKNOWN
               else if se_max_edks s \<noteq> 0 \<and> num_edks > se_max_edks s then AWS_OP_ERR AWS_CRYPTOSDK_ERR_LIMIT_EXCEEDED
               else if (signature_len props \<noteq> 0) \<noteq> (em_signctx materials \<noteq> None)
               then AWS_OP_ERR AWS_CRYPTOSDK_ERR_CRYPTO_UNKNOWN
               else if \<not> aws_cryptosdk_priv_algorithm_allowed_for_encrypt (em_alg materials) (se_policy s)
               then AWS_OP_ERR AWS_CRYPTOSDK_ERR_COMMITMENT_POLICY_VIOLATION
               else AWS_OP_SUCCESS)"

definition gen_message_id :: "env \<Rightarrow> session \<Rightarrow> status \<times> session" where
  "gen_message_id V s =
     (let message_id_len = aws_cryptosdk_private_algorithm_message_id_len (the (se_alg_props s))
      in case lib_buf_init (env_lib V) message_id_len of
           None \<Rightarrow> (AWS_OP_ERR AWS_CRYPTOSDK_ERR_CRYPTO_UNKNOWN, s)
         | Some b \<Rightarrow>
             (case aws_cryptosdk_genrandom (env_rand V) (se_draws s) (buf_mem b) of
                (st, bs) \<Rightarrow>
                  let s = s\<lparr>se_draws := Suc (se_draws s)\<rparr>
                  in case st of
                       Some e \<Rightarrow> (AWS_OP_ERR AWS_CRYPTOSDK_ERR_CRYPTO_UNKNOWN,
                                  s\<lparr>se_header := (se_header s)\<lparr>hdr_message_id := b\<lparr>buf_mem := bs\<rparr>\<rparr>\<rparr>)
                     | None \<Rightarrow> (AWS_OP_SUCCESS,
                                s\<lparr>se_header := (se_header s)\<lparr>hdr_message_id := b\<lparr>buf_mem := bs, buf_len := message_id_len\<rparr>\<rparr>\<rparr>)))"

text \<open>
  The commitment is computed in place: where the policy asks for one, \<open>alg_suite_data\<close> of the header is the array of the session.
  A code that \<^verbatim>\<open>derive_key\<close> returns without raising it leaves the last error as it was; a failing HKDF has raised
  \<^const>\<open>AWS_CRYPTOSDK_ERR_CRYPTO_UNKNOWN\<close>.
\<close>

definition derive_enc_key :: "env \<Rightarrow> session \<Rightarrow> bytes \<Rightarrow> status \<times> session" where
  "derive_enc_key V s data_key =
     (let props = the (se_alg_props s);
          must_commit = aws_cryptosdk_commitment_policy_encrypt_must_include_commitment (se_policy s);
          suite_data = (if must_commit then buf_from_array (take (commitment_len props) (se_commitment_arr s))
                        else hdr_alg_suite_data (se_header s));
          (rv, content_key, suite_data) =
            aws_cryptosdk_private_derive_key (env_lib V) (env_ssl V) props (se_content_key s) data_key suite_data
              (hdr_message_id (se_header s));
          s = s\<lparr>se_content_key := content_key, se_header := (se_header s)\<lparr>hdr_alg_suite_data := suite_data\<rparr>,
                se_commitment_arr := (if must_commit then splice (se_commitment_arr s) 0 (buf_mem suite_data)
                                      else se_commitment_arr s)\<rparr>
      in case rv of
           None \<Rightarrow> (AWS_OP_SUCCESS, s)
         | Some e \<Rightarrow> (AWS_OP_ERR (if e = RAISED_MINUS_ONE then AWS_CRYPTOSDK_ERR_CRYPTO_UNKNOWN else LAST_ERROR_UNCHANGED), s))"

definition aws_cryptosdk_priv_try_gen_key :: "env \<Rightarrow> session \<Rightarrow> session_result" where
  "aws_cryptosdk_priv_try_gen_key V s =
     (let request = \<lparr>er_enc_ctx = hdr_enc_ctx (se_header s), er_requested_alg = 0,
                     er_plaintext_size = (if se_precise_size_known s then se_precise_size s else se_size_bound s),
                     er_commitment_policy = se_policy s\<rparr>
      in case aws_cryptosdk_cmm_generate_enc_materials (the (se_cmm s)) request (se_draws s) of
           (r, enc_ctx, draws) \<Rightarrow>
             let s = s\<lparr>se_header := (se_header s)\<lparr>hdr_enc_ctx := enc_ctx\<rparr>, se_draws := draws\<rparr>
             in case r of
                  Inl e \<Rightarrow> Some (AWS_OP_ERR e, s)
                | Inr materials \<Rightarrow>
                    let s = s\<lparr>se_alg_props := aws_cryptosdk_alg_props (em_alg materials)\<rparr>
                    in and_then (Some (check_enc_materials s materials, s)) (\<lambda>s.
                       let data_key = dk_contents (em_unencrypted_data_key materials);
                           (_, trace, _) = aws_cryptosdk_transfer_list (env_lib V) (se_trace s) (em_keyring_trace materials);
                           s = s\<lparr>se_signctx := em_signctx materials, se_trace := trace, se_cmm_success := True\<rparr>
                       in and_then (Some (gen_message_id V s)) (\<lambda>s.
                          and_then (Some (derive_enc_key V s data_key)) (\<lambda>s.
                          and_then (Some (build_header V s materials)) (\<lambda>s.
                          session_sign_header V s)))))"

definition aws_cryptosdk_priv_try_write_header :: "env \<Rightarrow> session \<Rightarrow> byte_buf \<Rightarrow> (status \<times> session \<times> byte_buf) run" where
  "aws_cryptosdk_priv_try_write_header V s output =
     (let s = s\<lparr>se_out_est := word_of_nat (se_header_size s)\<rparr>
      in case lib_write (env_lib V) output (take (se_header_size s) (the (se_header_copy s))) of
           None \<Rightarrow> Some (AWS_OP_SUCCESS, s, output)
         | Some output \<Rightarrow> do {
             s \<leftarrow> aws_cryptosdk_priv_session_change_state s ST_ENCRYPT_BODY;
             Some (AWS_OP_SUCCESS, s, output)
           })"

section \<open>Encrypting frames\<close>

text \<open>The size and the type of the next frame; \<^const>\<open>None\<close> while a message without frames has no size.\<close>

definition next_frame :: "session \<Rightarrow> (uint64 \<times> frame_type) option" where
  "next_frame s =
     (if se_frame_size s \<noteq> 0 then
        if se_precise_size_known s \<and> se_precise_size s - se_data_so_far s < se_frame_size s
        then Some (se_precise_size s - se_data_so_far s, FRAME_TYPE_FINAL)
        else Some (se_frame_size s, FRAME_TYPE_FRAME)
      else if \<not> se_precise_size_known s then None
      else Some (se_precise_size s, FRAME_TYPE_SINGLE))"

text \<open>The memory of a part of the frame in the output.\<close>

definition mem_slice :: "bytes \<Rightarrow> slice \<Rightarrow> bytes" where
  "mem_slice mem sl = take (sl_capacity sl) (drop (the (sl_ptr sl)) mem)"

definition mem_update :: "bytes \<Rightarrow> slice \<Rightarrow> bytes \<Rightarrow> bytes" where
  "mem_update mem sl bs = (if sl_capacity sl = 0 then mem else splice mem (the (sl_ptr sl)) bs)"

text \<open>After a frame has been encrypted: the signature, the counters and the state. \<open>off\<close> is where the frame starts.\<close>

definition frame_encrypted ::
  "env \<Rightarrow> session \<Rightarrow> byte_buf \<Rightarrow> byte_buf \<Rightarrow> byte_cursor \<Rightarrow> byte_cursor \<Rightarrow> uint64 \<Rightarrow> frame_type \<Rightarrow>
   (status \<times> session \<times> byte_buf \<times> byte_cursor) run" where
  "frame_encrypted V s poutput output pinput input plaintext_size ty =
     (let off = buf_len poutput; n = buf_len output - off;
          (st, signctx) = (case se_signctx s of
             None \<Rightarrow> (AWS_OP_SUCCESS, None)
           | Some ctx \<Rightarrow> (case aws_cryptosdk_sig_update (env_ec V) ctx (take n (drop off (buf_mem output))) of
               (st, ctx) \<Rightarrow> (st, Some ctx)));
          s = s\<lparr>se_signctx := signctx\<rparr>
      in if st \<noteq> None
         then Some (AWS_OP_ERR AWS_CRYPTOSDK_ERR_CRYPTO_UNKNOWN, s,
                    poutput\<lparr>buf_mem := splice (buf_mem output) off (replicate n 0)\<rparr>, pinput)
         else
           let s = s\<lparr>se_data_so_far := se_data_so_far s + plaintext_size, se_seqno := se_seqno s + 1\<rparr>
           in if ty \<noteq> FRAME_TYPE_FRAME then do {
                s \<leftarrow> aws_cryptosdk_priv_session_change_state s ST_WRITE_TRAILER;
                Some (AWS_OP_SUCCESS, s, output, input)
              } else Some (AWS_OP_SUCCESS, s, output, input))"

text \<open>
  The output is the memory of the caller's buffer: what is written to it stays there when the frame is not finished. If
  the size of the frame is refused, \<^verbatim>\<open>ciphertext_size\<close> is not set; its value, here \<open>0\<close>, is then unspecified.
\<close>

definition aws_cryptosdk_priv_try_encrypt_body ::
  "env \<Rightarrow> session \<Rightarrow> byte_buf \<Rightarrow> byte_cursor \<Rightarrow> (status \<times> session \<times> byte_buf \<times> byte_cursor) run" where
  "aws_cryptosdk_priv_try_encrypt_body V s poutput pinput =
     (case next_frame s of
        None \<Rightarrow> Some (AWS_OP_SUCCESS, s\<lparr>se_out_est := 0, se_in_est := 0\<rparr>, poutput, pinput)
      | Some (plaintext_size, ty) \<Rightarrow>
          if se_seqno s > UINT32_MAX then Some (AWS_OP_ERR AWS_CRYPTOSDK_ERR_LIMIT_EXCEEDED, s, poutput, pinput)
          else
            let props = the (se_alg_props s);
                seqno = ucast (se_seqno s) :: uint32;
                (rv, frame, ciphertext_size, output) =
                  aws_cryptosdk_serialize_frame (env_lib V) (frame_zero\<lparr>frame_ty := ty, sequence_number := seqno\<rparr>)
                    0 plaintext_size poutput props;
                s = s\<lparr>se_out_est := ciphertext_size, se_in_est := plaintext_size\<rparr>
            in case rv of
                 Some e \<Rightarrow>
                   let poutput = poutput\<lparr>buf_mem := buf_mem output\<rparr>
                   in if e = AWS_ERROR_SHORT_BUFFER then Some (AWS_OP_SUCCESS, s, poutput, pinput)
                      else Some (AWS_OP_ERR AWS_CRYPTOSDK_ERR_CRYPTO_UNKNOWN, s, poutput, pinput)
               | None \<Rightarrow>
                   (case lib_advance (env_lib V) pinput (unat plaintext_size) of
                      None \<Rightarrow> Some (AWS_OP_SUCCESS, s, poutput\<lparr>buf_mem := buf_mem output\<rparr>, pinput)
                    | Some (plaintext, input) \<Rightarrow> do {
                        (rv, ct, iv, tag) \<leftarrow> aws_cryptosdk_encrypt_body (env_lib V) (env_ssl V) props
                          (buf_from_empty_array (mem_slice (buf_mem output) (frame_ciphertext frame))) plaintext
                          (hdr_message_id (se_header s)) (sequence_number frame)
                          (mem_slice (buf_mem output) (frame_iv frame)) (se_content_key s)
                          (mem_slice (buf_mem output) (frame_authtag frame)) (Some (frame_ty frame));
                        let output = output\<lparr>buf_mem := mem_update (mem_update (mem_update (buf_mem output)
                              (frame_ciphertext frame) (buf_mem ct)) (frame_iv frame) iv) (frame_authtag frame) tag\<rparr>;
                        (if rv \<noteq> None
                         then Some (AWS_OP_ERR AWS_CRYPTOSDK_ERR_CRYPTO_UNKNOWN, s,
                                    lib_secure_zero (env_lib V) (poutput\<lparr>buf_mem := buf_mem output\<rparr>), pinput)
                         else frame_encrypted V s poutput output pinput input plaintext_size (frame_ty frame))
                      }))"

definition aws_cryptosdk_priv_encrypt_compute_body_estimate :: "env \<Rightarrow> session \<Rightarrow> session run" where
  "aws_cryptosdk_priv_encrypt_compute_body_estimate V s =
     (if se_state s \<noteq> ST_ENCRYPT_BODY then Some s
      else do {
        (_, s, _, _) \<leftarrow> aws_cryptosdk_priv_try_encrypt_body V s buf_zero (cursor_of []);
        Some s
      })"

definition aws_cryptosdk_session_set_message_size :: "env \<Rightarrow> session \<Rightarrow> uint64 \<Rightarrow> session_result" where
  "aws_cryptosdk_session_set_message_size V s message_size =
     (if se_mode s \<noteq> AWS_CRYPTOSDK_ENCRYPT then Some (AWS_OP_ERR AWS_CRYPTOSDK_ERR_BAD_STATE, s)
      else if se_precise_size_known s then aws_cryptosdk_priv_fail_session s AWS_CRYPTOSDK_ERR_BAD_STATE
      else if se_size_bound s < message_size then aws_cryptosdk_priv_fail_session s AWS_CRYPTOSDK_ERR_LIMIT_EXCEEDED
      else
        let s = s\<lparr>se_precise_size := message_size, se_precise_size_known := True\<rparr>
        in if se_state s = ST_ENCRYPT_BODY then do {
             s \<leftarrow> aws_cryptosdk_priv_encrypt_compute_body_estimate V s;
             Some (AWS_OP_SUCCESS, s)
           } else Some (AWS_OP_SUCCESS, s))"

section \<open>The trailer\<close>

definition aws_cryptosdk_priv_write_trailer :: "env \<Rightarrow> session \<Rightarrow> byte_buf \<Rightarrow> (status \<times> session \<times> byte_buf) run" where
  "aws_cryptosdk_priv_write_trailer V s poutput =
     (let s = s\<lparr>se_in_est := 0, se_out_est := 0\<rparr>;
          sig_len = signature_len (the (se_alg_props s));
          size_needed = 2 + sig_len
      in if sig_len = 0 then do {
           s \<leftarrow> aws_cryptosdk_priv_session_change_state s ST_DONE;
           Some (AWS_OP_SUCCESS, s, poutput)
         } else if buf_capacity poutput - buf_len poutput < size_needed
         then Some (AWS_OP_SUCCESS, s\<lparr>se_out_est := word_of_nat size_needed\<rparr>, poutput)
         else do {
           (r, draws) \<leftarrow> aws_cryptosdk_sig_sign_finish (env_lib V) (env_ec V) (se_draws s) (the (se_signctx s));
           let s = s\<lparr>se_signctx := None, se_draws := draws\<rparr>;
           (case r of
              Inl e \<Rightarrow> Some (AWS_OP_ERR e, s, poutput)
            | Inr signature \<Rightarrow>
                (case lib_write_be16 (env_lib V) poutput (word_of_nat (length signature)) of
                   None \<Rightarrow> Some (AWS_OP_ERR AWS_CRYPTOSDK_ERR_CRYPTO_UNKNOWN, s, poutput)
                 | Some poutput \<Rightarrow>
                     (case lib_write (env_lib V) poutput signature of
                        None \<Rightarrow> Some (AWS_OP_ERR AWS_CRYPTOSDK_ERR_CRYPTO_UNKNOWN, s, poutput)
                      | Some poutput \<Rightarrow> do {
                          s \<leftarrow> aws_cryptosdk_priv_session_change_state s ST_DONE;
                          Some (AWS_OP_SUCCESS, s, poutput)
                        })))
         })"

end
