(* ===== verification/SessionProcess.thy ===== *)
theory SessionProcess
  imports SessionDecrypt SessionEncrypt
begin

text \<open>
  Processing of messages, \<^verbatim>\<open>source/session.c\<close>: the loop of \<^verbatim>\<open>aws_cryptosdk_session_process\<close> over the steps of the two paths, and the accessors
  of sessions.
\<close>

section \<open>Steps\<close>

type_synonym step_result = "(status \<times> session \<times> byte_buf \<times> byte_cursor) run"

text \<open>One pass of the \<^verbatim>\<open>switch\<close>. In \<^const>\<open>ST_ERROR\<close> the stored error is raised.\<close>

definition session_step :: "env \<Rightarrow> session \<Rightarrow> byte_buf \<Rightarrow> byte_cursor \<Rightarrow> step_result" where
  "session_step V s space input =
     (case se_state s of
        ST_CONFIG \<Rightarrow>
          if se_cmm s = None \<or> \<not> aws_cryptosdk_commitment_policy_is_valid (se_policy s)
          then Some (AWS_OP_ERR AWS_CRYPTOSDK_ERR_BAD_STATE, s, space, input)
          else do {
            s \<leftarrow> aws_cryptosdk_priv_session_change_state s
                   (if se_mode s = AWS_CRYPTOSDK_ENCRYPT then ST_GEN_KEY else ST_READ_HEADER);
            Some (AWS_OP_SUCCESS, s, space, input)
          }
      | ST_READ_HEADER \<Rightarrow> do {
          (st, s, input) \<leftarrow> aws_cryptosdk_priv_try_parse_header V s input;
          Some (st, s, space, input)
        }
      | ST_UNWRAP_KEY \<Rightarrow> do {
          (st, s) \<leftarrow> aws_cryptosdk_priv_unwrap_keys V s;
          Some (st, s, space, input)
        }
      | ST_DECRYPT_BODY \<Rightarrow> aws_cryptosdk_priv_try_decrypt_body V s space input
      | ST_CHECK_TRAILER \<Rightarrow> do {
          (st, s, input) \<leftarrow> aws_cryptosdk_priv_check_trailer V s input;
          Some (st, s, space, input)
        }
      | ST_GEN_KEY \<Rightarrow> do {
          (st, s) \<leftarrow> aws_cryptosdk_priv_try_gen_key V s;
          Some (st, s, space, input)
        }
      | ST_WRITE_HEADER \<Rightarrow> do {
          (st, s, space) \<leftarrow> aws_cryptosdk_priv_try_write_header V s space;
          Some (st, s, space, input)
        }
      | ST_ENCRYPT_BODY \<Rightarrow> aws_cryptosdk_priv_try_encrypt_body V s space input
      | ST_WRITE_TRAILER \<Rightarrow> do {
          (st, s, space) \<leftarrow> aws_cryptosdk_priv_write_trailer V s space;
          Some (st, s, space, input)
        }
      | ST_DONE \<Rightarrow> Some (AWS_OP_SUCCESS, s, space, input)
      | ST_ERROR \<Rightarrow> Some (AWS_OP_ERR (case se_error s of None \<Rightarrow> LAST_ERROR_UNCHANGED | Some e \<Rightarrow> e), s, space, input))"

text \<open>The part of the output that is not used yet, and the output after a step on it.\<close>

definition remaining_space :: "byte_buf \<Rightarrow> byte_buf" where
  "remaining_space output = buf_from_empty_array (drop (buf_len output) (buf_mem output))"

definition put_back :: "byte_buf \<Rightarrow> byte_buf \<Rightarrow> byte_buf" where
  "put_back output space =
     output\<lparr>buf_mem := splice (buf_mem output) (buf_len output) (buf_mem space), buf_len := buf_len output + buf_len space\<rparr>"

text \<open>The loop goes on while steps succeed and make progress; it may not return only through a step.\<close>

partial_function (option) process_loop :: "env \<Rightarrow> session \<Rightarrow> byte_buf \<Rightarrow> byte_cursor \<Rightarrow> step_result" where
  "process_loop V s output input = do {
     (result, s', space, input') \<leftarrow> session_step V s (remaining_space output) input;
     let made_progress = (buf_len space \<noteq> 0 \<or> cur_ptr input' \<noteq> cur_ptr input \<or> se_state s \<noteq> se_state s');
     let output' = put_back output space;
     (if result = None \<and> made_progress then process_loop V s' output' input'
      else Some (result, s', output', input'))
   }"

record processed =
  pr_status :: status
  pr_session :: session
  pr_outp :: bytes
  pr_out_bytes_written :: nat
  pr_in_bytes_read :: nat

text \<open>The result of \<^verbatim>\<open>aws_cryptosdk_session_process\<close>: the status, the session, the memory of the output and the two counters.\<close>

definition aws_cryptosdk_session_process :: "env \<Rightarrow> session \<Rightarrow> bytes \<Rightarrow> bytes \<Rightarrow> processed run" where
  "aws_cryptosdk_session_process V s outp inp = do {
     (result, s, output, input) \<leftarrow> process_loop V s (buf_from_empty_array outp) (cursor_of inp);
     (case result of
        None \<Rightarrow>
          Some \<lparr>pr_status = (if se_state s = ST_ERROR
                             then AWS_OP_ERR (case se_error s of None \<Rightarrow> LAST_ERROR_UNCHANGED | Some e \<Rightarrow> e)
                             else AWS_OP_SUCCESS),
                pr_session = s, pr_outp = buf_mem output,
                pr_out_bytes_written = buf_len output, pr_in_bytes_read = cur_ptr input\<rparr>
      | Some e \<Rightarrow> do {
          s \<leftarrow> (if se_state s \<noteq> ST_ERROR
                 then aws_cryptosdk_priv_session_change_state (s\<lparr>se_error := Some e\<rparr>) ST_ERROR
                 else Some s);
          Some \<lparr>pr_status = AWS_OP_ERR (case se_error s of None \<Rightarrow> LAST_ERROR_UNCHANGED | Some e \<Rightarrow> e),
                pr_session = s, pr_outp = buf_mem (lib_secure_zero (env_lib V) output),
                pr_out_bytes_written = 0, pr_in_bytes_read = cur_ptr input\<rparr>
        })
   }"

definition aws_cryptosdk_session_is_done :: "session \<Rightarrow> bool" where
  "aws_cryptosdk_session_is_done s \<longleftrightarrow> se_state s = ST_DONE"

text \<open>The result of \<^verbatim>\<open>aws_cryptosdk_session_process_full\<close>; \<open>written\<close> is what \<^verbatim>\<open>*out_bytes_written\<close> holds before the call.\<close>

definition aws_cryptosdk_session_process_full :: "env \<Rightarrow> session \<Rightarrow> bytes \<Rightarrow> nat \<Rightarrow> bytes \<Rightarrow> (status \<times> session \<times> bytes \<times> nat) run" where
  "aws_cryptosdk_session_process_full V s outp written0 inp =
     (if se_state s \<noteq> ST_CONFIG then Some (AWS_OP_ERR AWS_CRYPTOSDK_ERR_BAD_STATE, s, outp, written0)
      else do {
        (st, s) \<leftarrow> (if se_mode s = AWS_CRYPTOSDK_ENCRYPT
                     then aws_cryptosdk_session_set_message_size V s (word_of_nat (length inp))
                     else Some (AWS_OP_SUCCESS, s));
        (if st \<noteq> None then Some (st, s, outp, written0)
         else do {
           r \<leftarrow> aws_cryptosdk_session_process V s outp inp;
           let s = pr_session r;
           (if pr_status r = None \<and> \<not> (aws_cryptosdk_session_is_done s \<and> pr_in_bytes_read r = length inp) then do {
              s \<leftarrow> aws_cryptosdk_priv_session_change_state (s\<lparr>se_error := Some AWS_CRYPTOSDK_ERR_BAD_CIPHERTEXT\<rparr>) ST_ERROR;
              Some (AWS_OP_ERR AWS_CRYPTOSDK_ERR_BAD_CIPHERTEXT, s, replicate (length outp) 0, 0)
            }
            else if pr_status r \<noteq> None then Some (pr_status r, s, replicate (length outp) 0, 0)
            else Some (AWS_OP_SUCCESS, s, pr_outp r, pr_out_bytes_written r))
         })
      })"

section \<open>Accessors\<close>

definition aws_cryptosdk_session_get_alg_id :: "session \<Rightarrow> alg_id result" where
  "aws_cryptosdk_session_get_alg_id s =
     (case se_alg_props s of None \<Rightarrow> Inl AWS_CRYPTOSDK_ERR_BAD_STATE | Some props \<Rightarrow> Inr (alg_id props))"

definition aws_cryptosdk_session_estimate_buf :: "session \<Rightarrow> size_t \<times> size_t" where
  "aws_cryptosdk_session_estimate_buf s = (se_out_est s, se_in_est s)"

text \<open>The pointers that the accessors give are the parts of the session, or \<^const>\<open>None\<close> for NULL.\<close>

definition aws_cryptosdk_session_get_enc_ctx_ptr :: "session \<Rightarrow> hash_table option" where
  "aws_cryptosdk_session_get_enc_ctx_ptr s =
     (if aws_cryptosdk_priv_is_decrypt_mode (se_mode s) \<and> \<not> se_cmm_success s then None
      else Some (hdr_enc_ctx (se_header s)))"

definition aws_cryptosdk_session_get_enc_ctx_ptr_mut :: "session \<Rightarrow> hash_table option" where
  "aws_cryptosdk_session_get_enc_ctx_ptr_mut s =
     (if se_mode s = AWS_CRYPTOSDK_ENCRYPT \<and> se_state s = ST_CONFIG then Some (hdr_enc_ctx (se_header s)) else None)"

definition aws_cryptosdk_session_get_keyring_trace_ptr :: "session \<Rightarrow> keyring_trace option" where
  "aws_cryptosdk_session_get_keyring_trace_ptr s = (if se_cmm_success s then Some (se_trace s) else None)"

end
