(* ===== verification/FrameInv.thy ===== *)
theory FrameInv
  imports FrameWrite
begin

text \<open>
  The converse of the parsing lemmas of frames: whatever the parser accepts is the wire format of a frame.
\<close>

lemma unat_ucast_32_64 [simp]: "unat (ucast (x :: uint32) :: uint64) = unat x"
proof -
  have "unat x < 2 ^ 32" using unsigned_less [of x, where 'a = nat] by simp
  also have "(2::nat) ^ 32 < 2 ^ 64" by simp
  finally have "unat x < 2 ^ 64" .
  then show ?thesis by (simp add: unsigned_ucast_eq take_bit_nat_eq_self)
qed

lemma ucast_32_64_32 [simp]: "ucast (ucast (x :: uint32) :: uint64) = x"
  by (rule bit_eqI) (auto simp: bit_unsigned_iff dest: bit_imp_le_length)

context aws_c_common
begin

lemma field_be32_inv:
  assumes "field_be32 L st w = (v, st')" "\<not> fs_too_small st'" "\<not> fs_writing st"
  shows "\<not> fs_too_small st" "cur_data (fs_cursor st) = be_bytes 4 v @ drop 4 (cur_data (fs_cursor st))"
    "st' = st\<lparr>fs_ciphertext_size := fs_ciphertext_size st + 4, fs_cursor := advanced (fs_cursor st) 4\<rparr>"
proof -
  have *: "\<not> fs_too_small st \<and> 4 \<le> cur_len (fs_cursor st) \<and> v = be_val (take 4 (cur_data (fs_cursor st))) \<and>
      st' = st\<lparr>fs_ciphertext_size := fs_ciphertext_size st + 4, fs_cursor := advanced (fs_cursor st) 4\<rparr>"
    using assms by (auto simp: field_be32_def Let_def read_be32 split: if_splits)
  then have "be_bytes 4 v = take 4 (cur_data (fs_cursor st))" by (simp add: be_bytes_32_val)
  then show "cur_data (fs_cursor st) = be_bytes 4 v @ drop 4 (cur_data (fs_cursor st))" by simp
  show "\<not> fs_too_small st" "st' = st\<lparr>fs_ciphertext_size := fs_ciphertext_size st + 4, fs_cursor := advanced (fs_cursor st) 4\<rparr>"
    using * by simp_all
qed

lemma field_be64_inv:
  assumes "field_be64 L st w = (v, st')" "\<not> fs_too_small st'" "\<not> fs_writing st"
  shows "\<not> fs_too_small st" "cur_data (fs_cursor st) = be_bytes 8 v @ drop 8 (cur_data (fs_cursor st))"
    "st' = st\<lparr>fs_ciphertext_size := fs_ciphertext_size st + 8, fs_cursor := advanced (fs_cursor st) 8\<rparr>"
proof -
  have *: "\<not> fs_too_small st \<and> 8 \<le> cur_len (fs_cursor st) \<and> v = be_val (take 8 (cur_data (fs_cursor st))) \<and>
      st' = st\<lparr>fs_ciphertext_size := fs_ciphertext_size st + 8, fs_cursor := advanced (fs_cursor st) 8\<rparr>"
    using assms by (auto simp: field_be64_def Let_def read_be64 split: if_splits)
  then have "be_bytes 8 v = take 8 (cur_data (fs_cursor st))" by (simp add: be_bytes_64_val)
  then show "cur_data (fs_cursor st) = be_bytes 8 v @ drop 8 (cur_data (fs_cursor st))" by simp
  show "\<not> fs_too_small st" "st' = st\<lparr>fs_ciphertext_size := fs_ciphertext_size st + 8, fs_cursor := advanced (fs_cursor st) 8\<rparr>"
    using * by simp_all
qed

lemma field_sized_inv:
  assumes "field_sized L st sz = (sl, st')" "\<not> fs_too_small st'" "\<not> fs_writing st"
  shows "\<not> fs_too_small st"
    "\<exists>bs. length bs = unat sz \<and> cur_data (fs_cursor st) = bs @ drop (unat sz) (cur_data (fs_cursor st))"
    "st' = st\<lparr>fs_ciphertext_size := fs_ciphertext_size st + sz, fs_cursor := advanced (fs_cursor st) (unat sz)\<rparr>"
proof -
  have *: "\<not> fs_too_small st \<and> unat sz \<le> cur_len (fs_cursor st) \<and>
      st' = st\<lparr>fs_ciphertext_size := fs_ciphertext_size st + sz, fs_cursor := advanced (fs_cursor st) (unat sz)\<rparr>"
    using assms by (auto simp: field_sized_def Let_def advance split: if_splits)
  then show "\<exists>bs. length bs = unat sz \<and> cur_data (fs_cursor st) = bs @ drop (unat sz) (cur_data (fs_cursor st))"
    by (intro exI [of _ "take (unat sz) (cur_data (fs_cursor st))"]) simp
  show "\<not> fs_too_small st" "st' = st\<lparr>fs_ciphertext_size := fs_ciphertext_size st + sz, fs_cursor := advanced (fs_cursor st) (unat sz)\<rparr>"
    using * by simp_all
qed

text \<open>The last two parts of every frame.\<close>

definition keeps :: "framestate \<Rightarrow> framestate \<Rightarrow> bool" where
  "keeps st st' \<longleftrightarrow> fs_writing st' = fs_writing st \<and> fs_alg_props st' = fs_alg_props st \<and>
     fs_max_frame_size st' = fs_max_frame_size st \<and> fs_plaintext_size st' = fs_plaintext_size st"

lemma field_keeps:
  "field_sized L st sz = (sl, st') \<Longrightarrow> keeps st st'" "field_be32 L st w = (v, st') \<Longrightarrow> keeps st st'"
  "field_be64 L st x = (y, st') \<Longrightarrow> keeps st st'"
  by (auto simp: field_sized_def field_be32_def field_be64_def keeps_def Let_def split: if_splits option.splits)

lemma parts_inv:
  assumes r: "field_sized L st n = (ct, st1)" "field_sized L st1 k = (tag, st2)"
    and s: "\<not> fs_too_small st2" "\<not> fs_writing st" and k: "unat k = 16"
  obtains cb tb rest where "\<not> fs_too_small st" "cur_data (fs_cursor st) = cb @ tb @ rest" "length cb = unat n" "length tb = 16"
proof -
  have w1: "\<not> fs_writing st1" using field_keeps(1) [OF r(1)] s(2) by (simp add: keeps_def)
  note t = field_sized_inv [OF r(2) s(1) w1, unfolded k]
  note c = field_sized_inv [OF r(1) t(1) s(2)]
  obtain cb where cb: "length cb = unat n" "cur_data (fs_cursor st) = cb @ drop (unat n) (cur_data (fs_cursor st))" using c(2) by blast
  obtain tb where tb: "length tb = 16" "drop (unat n) (cur_data (fs_cursor st)) = tb @ drop 16 (drop (unat n) (cur_data (fs_cursor st)))"
    using t(2) c(3) by auto
  show thesis using that [OF c(1) _ cb(1) tb(1)] cb(2) tb(2) by metis
qed

lemma serde_nonframed_inv:
  assumes r: "serde_nonframed L st f = (None, st', f')" and s: "\<not> fs_too_small st'" "\<not> fs_writing st"
    and p: "iv_len (fs_alg_props st) = 12" "tag_len (fs_alg_props st) = 16"
  shows "frame_ty f' = FRAME_TYPE_SINGLE \<and> sequence_number f' = 1 \<and> (\<exists>iv ct tag rest.
    cur_data (fs_cursor st) = frame_bytes FRAME_TYPE_SINGLE 1 iv ct tag @ rest \<and> length iv = 12 \<and> length tag = 16 \<and> length ct < 0xFFFFFFFE0)"
proof -
  define i12 i16 where "i12 = (word_of_nat 12 :: uint64)" and "i16 = (word_of_nat 16 :: uint64)"
  have u: "unat i12 = 12" "unat i16 = 16" by (simp_all add: i12_def i16_def)
  obtain iv s1 where 1: "field_sized L st i12 = (iv, s1)" by force
  obtain sz s2 where 2: "field_be64 L s1 (fs_plaintext_size s1) = (sz, s2)" by force
  obtain ct s3 where 3: "field_sized L (s2\<lparr>fs_plaintext_size := sz\<rparr>) sz = (ct, s3)" by force
  obtain tag s4 where 4: "field_sized L s3 i16 = (tag, s4)" by force
  note k = field_keeps(1) [OF 1] field_keeps(3) [OF 2] field_keeps(1) [OF 3]
  have kk: "\<not> fs_writing s1" "\<not> fs_writing s2" "\<not> fs_writing s3" "tag_len (fs_alg_props s3) = 16"
    using k s(2) p by (simp_all add: keeps_def)
  have e: "sz < MAX_UNFRAMED_PLAINTEXT_SIZE" "st' = s4" "frame_ty f' = FRAME_TYPE_SINGLE" "sequence_number f' = 1"
    using r 1 2 3 4 kk(4) p(1) by (auto simp: serde_nonframed_def Let_def i12_def i16_def not_le split: if_splits)
  obtain cb tb rest where c: "\<not> fs_too_small s2" "cur_data (fs_cursor s2) = cb @ tb @ rest" "length cb = unat sz" "length tb = 16"
    using parts_inv [OF 3 4 _ _ u(2)] s(1) e(2) kk(2) by auto
  note b = field_be64_inv [OF 2 c(1) kk(1)]
  obtain ib where ib: "length ib = 12" "cur_data (fs_cursor st) = ib @ drop 12 (cur_data (fs_cursor st))"
    using field_sized_inv(2) [OF 1 b(1) s(2)] u(1) by auto
  have "drop 12 (cur_data (fs_cursor st)) = be_bytes 8 sz @ cb @ tb @ rest"
    using b(2,3) c(2) field_sized_inv(3) [OF 1 b(1) s(2)] u(1) by simp
  then have "cur_data (fs_cursor st) = frame_bytes FRAME_TYPE_SINGLE 1 ib cb tb @ rest"
    using ib(2) c(3) by simp
  moreover have "length cb < 0xFFFFFFFE0" using e(1) c(3) by (simp add: word_less_nat_alt)
  ultimately show ?thesis using e(3,4) ib(1) c(4) by blast
qed

lemma serde_last_frame_inv:
  assumes r: "serde_last_frame L st f = (None, st', f')" and s: "\<not> fs_too_small st'" "\<not> fs_writing st"
    and p: "iv_len (fs_alg_props st) = 12" "tag_len (fs_alg_props st) = 16"
  shows "\<not> fs_too_small st \<and> frame_ty f' = FRAME_TYPE_FINAL \<and> (\<exists>iv ct tag rest.
    be_bytes 4 LAST_FRAME_MARK @ cur_data (fs_cursor st) = frame_bytes FRAME_TYPE_FINAL (sequence_number f') iv ct tag @ rest \<and>
    length iv = 12 \<and> length tag = 16 \<and> length ct \<le> unat (fs_max_frame_size st))"
proof -
  define i12 i16 where "i12 = (word_of_nat 12 :: uint64)" and "i16 = (word_of_nat 16 :: uint64)"
  have u: "unat i12 = 12" "unat i16 = 16" by (simp_all add: i12_def i16_def)
  obtain sn s1 where 1: "field_be32 L st (sequence_number f) = (sn, s1)" by force
  obtain iv s2 where 2: "field_sized L s1 i12 = (iv, s2)" by force
  obtain sz s3 where 3: "field_be32 L s2 (ucast (fs_plaintext_size s2)) = (sz, s3)" by force
  define n where "n = (ucast sz :: uint64)"
  obtain ct s4 where 4: "field_sized L (s3\<lparr>fs_plaintext_size := n\<rparr>) n = (ct, s4)" by force
  obtain tag s5 where 5: "field_sized L s4 i16 = (tag, s5)" by force
  note k = field_keeps(2) [OF 1] field_keeps(1) [OF 2] field_keeps(2) [OF 3] field_keeps(1) [OF 4]
  have kk: "\<not> fs_writing s1" "\<not> fs_writing s2" "\<not> fs_writing s3" "\<not> fs_writing s4" "iv_len (fs_alg_props s1) = 12"
      "tag_len (fs_alg_props s4) = 16" "fs_max_frame_size s3 = fs_max_frame_size st"
    using k s(2) p by (simp_all add: keeps_def)
  have e: "n \<le> fs_max_frame_size st" "st' = s5" "frame_ty f' = FRAME_TYPE_FINAL" "sequence_number f' = sn"
    using r 1 2 3 4 5 kk by (auto simp: serde_last_frame_def Let_def i12_def i16_def not_less n_def split: if_splits)
  obtain cb tb rest where c: "\<not> fs_too_small s3" "cur_data (fs_cursor s3) = cb @ tb @ rest" "length cb = unat n" "length tb = 16"
    using parts_inv [OF 4 5 _ _ u(2)] s(1) e(2) kk(3) by auto
  note b = field_be32_inv [OF 3 c(1) kk(2)]
  obtain ib where ib: "length ib = 12" "cur_data (fs_cursor s1) = ib @ drop 12 (cur_data (fs_cursor s1))"
    using field_sized_inv(2) [OF 2 b(1) kk(1)] u(1) by auto
  note a = field_be32_inv [OF 1 field_sized_inv(1) [OF 2 b(1) kk(1)] s(2)]
  have sz: "sz = word_of_nat (length cb)" using c(3) by (intro word_of_nat_eqI) (simp add: n_def)
  have "drop 12 (cur_data (fs_cursor s1)) = be_bytes 4 sz @ cb @ tb @ rest"
    using b(2,3) c(2) field_sized_inv(3) [OF 2 b(1) kk(1)] u(1) by simp
  then have "be_bytes 4 LAST_FRAME_MARK @ cur_data (fs_cursor st) = frame_bytes FRAME_TYPE_FINAL sn ib cb tb @ rest"
    using ib(2) a(2,3) sz by simp
  moreover have "length cb \<le> unat (fs_max_frame_size st)" using e(1) c(3) by (simp add: word_le_nat_alt)
  ultimately show ?thesis using e(3,4) ib(1) c(4) a(1) by blast
qed

lemma serde_framed_inv:
  assumes r: "serde_framed L st f = (None, st', f')" and s: "\<not> fs_too_small st'" "\<not> fs_writing st"
    and p: "iv_len (fs_alg_props st) = 12" "tag_len (fs_alg_props st) = 16"
    and m: "fs_max_frame_size st \<noteq> 0" "fs_max_frame_size st \<le> MAX_FRAME_SIZE"
  shows "\<exists>iv ct tag rest. cur_data (fs_cursor st) = frame_bytes (frame_ty f') (sequence_number f') iv ct tag @ rest \<and>
    length iv = 12 \<and> length tag = 16 \<and> frame_ok (frame_ty f') (sequence_number f') (fs_max_frame_size st) (length ct)"
proof -
  define i12 i16 where "i12 = (word_of_nat 12 :: uint64)" and "i16 = (word_of_nat 16 :: uint64)"
  have u: "unat i12 = 12" "unat i16 = 16" by (simp_all add: i12_def i16_def)
  obtain mk s1 where 1: "field_be32 L st (sequence_number f) = (mk, s1)" by force
  note k1 = field_keeps(2) [OF 1]
  have kk1: "\<not> fs_writing s1" "iv_len (fs_alg_props s1) = 12" "tag_len (fs_alg_props s1) = 16" "fs_max_frame_size s1 = fs_max_frame_size st"
    using k1 s(2) p by (simp_all add: keeps_def)
  show ?thesis
  proof (cases "mk = LAST_FRAME_MARK")
    case True
    then have "serde_last_frame L s1 f = (None, st', f')" using r 1 s(2) by (simp add: serde_framed_def Let_def)
    from serde_last_frame_inv [OF this s(1) kk1(1-3)] obtain iv ct tag rest where
      i: "\<not> fs_too_small s1" "frame_ty f' = FRAME_TYPE_FINAL" "length iv = 12" "length tag = 16" "length ct \<le> unat (fs_max_frame_size st)"
      "be_bytes 4 LAST_FRAME_MARK @ cur_data (fs_cursor s1) = frame_bytes FRAME_TYPE_FINAL (sequence_number f') iv ct tag @ rest"
      using kk1(4) by auto
    note a = field_be32_inv [OF 1 i(1) s(2)]
    show ?thesis
      using i m a(2,3) True by (intro exI [of _ iv] exI [of _ ct] exI [of _ tag] exI [of _ rest]) (simp del: frame_bytes.simps)
  next
    case False
    define n where "n = fs_max_frame_size st"
    obtain iv s2 where 2: "field_sized L (s1\<lparr>fs_plaintext_size := n\<rparr>) i12 = (iv, s2)" by force
    obtain ct s3 where 3: "field_sized L s2 n = (ct, s3)" by force
    obtain tag s4 where 4: "field_sized L s3 i16 = (tag, s4)" by force
    note k = field_keeps(1) [OF 2] field_keeps(1) [OF 3]
    have kk: "\<not> fs_writing s2" "\<not> fs_writing s3" "tag_len (fs_alg_props s3) = 16" "fs_plaintext_size s2 = n"
      using k kk1 by (simp_all add: keeps_def)
    have e: "st' = s4" "frame_ty f' = FRAME_TYPE_FRAME" "sequence_number f' = mk"
      using r 1 2 3 4 kk kk1 False s(2)
      by (auto simp: serde_framed_def Let_def i12_def i16_def n_def split: if_splits)
    obtain cb tb rest where c: "\<not> fs_too_small s2" "cur_data (fs_cursor s2) = cb @ tb @ rest" "length cb = unat n" "length tb = 16"
      using parts_inv [OF 3 4 _ _ u(2)] s(1) e(1) kk(1) by auto
    have w: "\<not> fs_writing (s1\<lparr>fs_plaintext_size := n\<rparr>)" using kk1(1) by simp
    note i = field_sized_inv [OF 2 c(1) w, simplified, unfolded u(1)]
    obtain ib where ib: "length ib = 12" "cur_data (fs_cursor s1) = ib @ drop 12 (cur_data (fs_cursor s1))" using i(2) by auto
    note a = field_be32_inv [OF 1 i(1) s(2)]
    have "drop 12 (cur_data (fs_cursor s1)) = cb @ tb @ rest" using c(2) i(3) by simp
    then have "cur_data (fs_cursor st) = frame_bytes FRAME_TYPE_FRAME mk ib cb tb @ rest" using a(2,3) ib(2) by simp
    then show ?thesis using e c(3,4) ib(1) m(1) False by (auto simp: n_def)
  qed
qed

lemma deserialize_frame_inv:
  assumes r: "aws_cryptosdk_deserialize_frame L c p m = (None, f, csize, psize, c')"
    and p: "iv_len p = 12" "tag_len p = 16" and m: "m \<le> MAX_FRAME_SIZE"
  obtains iv ct tag rest where "cur_data c = frame_bytes (frame_ty f) (sequence_number f) iv ct tag @ rest"
    "length iv = 12" "length tag = 16" "frame_ok (frame_ty f) (sequence_number f) m (length ct)"
proof -
  define st where "st = \<lparr>fs_max_frame_size = m, fs_plaintext_size = 0, fs_ciphertext_size = 0, fs_alg_props = p,
     fs_cursor = c, fs_buffer = buf_zero, fs_writing = False, fs_too_small = False\<rparr>"
  obtain r1 st' f' where s: "(if m \<noteq> 0 then serde_framed L st frame_zero else serde_nonframed L st frame_zero) = (r1, st', f')"
    by (metis prod_cases3)
  have e: "r1 = None" "\<not> fs_too_small st'" "f = f'"
    using r s by (auto simp: aws_cryptosdk_deserialize_frame_def st_def Let_def split: if_splits option.splits prod.splits)
  have st: "\<not> fs_writing st" "iv_len (fs_alg_props st) = 12" "tag_len (fs_alg_props st) = 16" "fs_max_frame_size st = m" "fs_cursor st = c"
    using p by (simp_all add: st_def)
  show thesis
  proof (cases "m = 0")
    case True
    then show thesis
      using serde_nonframed_inv [of st frame_zero st' f'] s e st that by auto
  next
    case False
    then show thesis
      using serde_framed_inv [of st frame_zero st' f'] s e st m that by auto
  qed
qed

end

end
