(* ===== verification/SessionInv.thy ===== *)
theory SessionInv
  imports SessionProcess FrameInv
begin

text \<open>
  The states a session can be in: an invariant that every operation keeps, from which it follows that no operation
  aborts the process and that processing always returns.
\<close>

section \<open>Operations that return\<close>

text \<open>The operation returns, with \<open>S\<close> if it succeeds and with \<open>E\<close> if it fails.\<close>

definition ends :: "('a \<Rightarrow> bool) \<Rightarrow> ('a \<Rightarrow> bool) \<Rightarrow> (status \<times> 'a) run \<Rightarrow> bool" where
  "ends E S r = (case r of None \<Rightarrow> False | Some (st, x) \<Rightarrow> if st = None then S x else E x)"

lemma ends_Some [simp]: "ends E S (Some (st, x)) \<longleftrightarrow> (if st = None then S x else E x)"
  by (simp add: ends_def)

lemma ends_and_then: "ends E P m \<Longrightarrow> (\<And>s. P s \<Longrightarrow> ends E S (f s)) \<Longrightarrow> ends E S (and_then m f)"
  by (cases m; cases "fst (the m)"; cases "the m") (auto simp: and_then_def ends_def)

lemma ends_mono: "ends E S r \<Longrightarrow> (\<And>x. E x \<Longrightarrow> E' x) \<Longrightarrow> (\<And>x. S x \<Longrightarrow> S' x) \<Longrightarrow> ends E' S' r"
  by (auto simp: ends_def split: option.splits if_splits)

lemma ends_map:
  assumes "ends (\<lambda>x. E (f x)) (\<lambda>x. S (f x)) m"
  shows "ends E S (do { (st, x) \<leftarrow> m; Some (st, f x) })"
  using assms by (auto simp: ends_def split: option.splits)

lemma ends_elim:
  assumes "ends E S r"
  obtains st x where "r = Some (st, x)" "st = None \<Longrightarrow> S x" "st \<noteq> None \<Longrightarrow> E x"
  using assms by (auto simp: ends_def split: option.splits if_splits)

lemma change_state_ok:
  "se_state s \<noteq> ST_ERROR \<Longrightarrow> transition_ok s new \<Longrightarrow>
     aws_cryptosdk_priv_session_change_state s new = Some (s\<lparr>se_state := new\<rparr>)"
  by (cases s) (simp add: aws_cryptosdk_priv_session_change_state_def)

lemma change_state_error:
  "aws_cryptosdk_priv_session_change_state s ST_ERROR = Some (s\<lparr>se_state := ST_ERROR\<rparr>)"
  by (cases s) (simp add: aws_cryptosdk_priv_session_change_state_def transition_ok_def)

section \<open>Cryptographic operations return\<close>

lemma verify_header_returns:
  assumes S: "gcm_spec S ks tg"
  shows "\<exists>st. aws_cryptosdk_verify_header S p key authtag header = Some st"
proof -
  have "\<exists>st. evp_gcm_decrypt_final S p ctx' tag = Some st"
    if "evp_gcm_cipher_init S p key iv False = Some ctx" "evp_call S ctx (OP_AAD a) = Some ctx'" for ctx ctx' iv tag a
    using decrypt_final_spec [OF S aad_call_setup [OF that]] by blast
  then show ?thesis by (auto simp: aws_cryptosdk_verify_header_def Let_def split: option.splits)
qed

lemma sign_header_returns:
  assumes S: "gcm_spec S ks tg"
  shows "\<exists>r. aws_cryptosdk_sign_header S p key authtag header = Some r"
proof -
  have "\<exists>st. evp_gcm_encrypt_final S p ctx' = Some st"
    if "evp_gcm_cipher_init S p key iv True = Some ctx" "evp_call S ctx (OP_AAD a) = Some ctx'" for ctx ctx' iv a
    using encrypt_final_spec [OF S aad_call_setup [OF that]] by blast
  then show ?thesis
    by (fastforce simp: aws_cryptosdk_sign_header_def Let_def split: option.splits sum.splits)
qed

section \<open>Opened headers\<close>

text \<open>
  A header is sealed under a content key if its last part is the tag over everything before. Headers of suites without key commitment
  have the initialization vector in front of the tag.
\<close>

definition header_sealed :: "(gcm_id \<Rightarrow> bytes \<Rightarrow> bytes \<Rightarrow> bytes) \<Rightarrow> alg_properties \<Rightarrow> content_key \<Rightarrow> bytes \<Rightarrow> bool" where
  "header_sealed tg p key hb \<longleftrightarrow>
     (\<exists>body iv. length iv = 12 \<and>
        (if aws_cryptosdk_algorithm_is_committing (alg_id p) then iv = ZERO_IV \<and> hb = body @ tg (suite_gcm p key iv) body []
         else hb = body @ iv @ tg (suite_gcm p key iv) body []))"

lemma header_sealedI:
  "aws_cryptosdk_algorithm_is_committing (alg_id p) \<Longrightarrow> hb = body @ tg (suite_gcm p key ZERO_IV) body [] \<Longrightarrow> header_sealed tg p key hb"
  "\<not> aws_cryptosdk_algorithm_is_committing (alg_id p) \<Longrightarrow> length iv = 12 \<Longrightarrow> hb = body @ iv @ tg (suite_gcm p key iv) body [] \<Longrightarrow>
     header_sealed tg p key hb"
  unfolding header_sealed_def by (metis ZERO_IV_def length_replicate) metis

definition unowned_edk :: "edk \<Rightarrow> edk" where
  "unowned_edk e = \<lparr>provider_id = (provider_id e)\<lparr>buf_owned := False\<rparr>, provider_info = (provider_info e)\<lparr>buf_owned := False\<rparr>,
     ciphertext = (ciphertext e)\<lparr>buf_owned := False\<rparr>\<rparr>"

definition header_request :: "hdr \<Rightarrow> dec_request" where
  "header_request h = \<lparr>dr_enc_ctx = hdr_enc_ctx h, dr_encrypted_data_keys = map unowned_edk (hdr_edk_list h), dr_alg = hdr_alg_id h\<rparr>"

definition mode_allows :: "aws_cryptosdk_mode \<Rightarrow> dec_materials \<Rightarrow> bool" where
  "mode_allows mode dm \<longleftrightarrow> (\<exists>q. aws_cryptosdk_alg_props (dm_alg dm) = Some q \<and>
     (mode = AWS_CRYPTOSDK_DECRYPT_UNSIGNED \<longrightarrow> signature_len q = 0))"

text \<open>
  The bytes \<open>hb\<close> are the header of the session, and the materials \<open>dm\<close> of its manager opened it: suite and mode are allowed, the key
  commitment is the one that is derived from the data key, and the header is sealed under the content key of the session.
\<close>

definition parses_to :: "aws_lib \<Rightarrow> nat \<Rightarrow> bytes \<Rightarrow> hdr \<Rightarrow> bool" where
  "parses_to L max_edks hb h \<longleftrightarrow>
     (\<exists>h0 q rest. hdr_alloc h0 \<and> aws_cryptosdk_hdr_parse L h0 \<lparr>cur_ptr = q, cur_data = hb @ rest\<rparr> max_edks =
        (None, h, \<lparr>cur_ptr = q + length hb, cur_data = rest\<rparr>))"

definition padded_data_key :: "dec_materials \<Rightarrow> data_key" where
  "padded_data_key dm = splice zero_key 0 (dk_contents (dm_unencrypted_data_key dm))"

definition opened ::
  "env \<Rightarrow> (gcm_id \<Rightarrow> bytes \<Rightarrow> bytes \<Rightarrow> bytes) \<Rightarrow> (evp_md \<Rightarrow> bytes \<Rightarrow> bytes \<Rightarrow> bytes) \<Rightarrow> session \<Rightarrow> bytes \<Rightarrow> dec_materials \<Rightarrow> alg_properties \<Rightarrow> bool" where
  "opened V tg hmac s hb dm p \<longleftrightarrow>
     parses_to (env_lib V) (se_max_edks s) hb (se_header s) \<and>
     hdr_wf (se_header s) \<and>
     aws_cryptosdk_alg_props (hdr_alg_id (se_header s)) = Some p \<and> se_alg_props s = Some p \<and>
     aws_cryptosdk_cmm_decrypt_materials (the (se_cmm s)) (header_request (se_header s)) = Inr dm \<and>
     mode_allows (se_mode s) dm \<and>
     aws_cryptosdk_priv_algorithm_allowed_for_decrypt (alg_id p) (se_policy s) \<and>
     dk_len (dm_unencrypted_data_key dm) = data_key_len p \<and>
     se_content_key s = spec_content_key hmac p (padded_data_key dm) (buf_contents (hdr_message_id (se_header s))) \<and>
     (aws_cryptosdk_algorithm_is_committing (alg_id p) \<longrightarrow>
        buf_contents (hdr_alg_suite_data (se_header s)) = spec_commitment hmac p (padded_data_key dm) (buf_contents (hdr_message_id (se_header s)))) \<and>
     header_sealed tg p (se_content_key s) hb \<and> se_frame_size s = ucast (hdr_frame_len (se_header s))"

text \<open>What the verification context of a session has seen, if the suite signs.\<close>

definition verifies_with :: "dec_materials \<Rightarrow> alg_properties \<Rightarrow> bytes \<Rightarrow> sig_ctx option \<Rightarrow> bool" where
  "verifies_with dm p data vc \<longleftrightarrow>
     (if signature_len p = 0 then vc = None
      else \<exists>sc. dm_signctx dm = Some sc \<and> vc = Some (sc\<lparr>sc_data := sc_data sc @ data\<rparr>))"

section \<open>The invariant\<close>

text \<open>
  A context signs again until the length is right; it is live if some further attempt gives that length or fails.
  A manager is live if all contexts it gives are.
\<close>

definition sig_live :: "siglib \<Rightarrow> sig_ctx \<Rightarrow> bool" where
  "sig_live E c \<longleftrightarrow> (\<forall>dg d. \<exists>k. case sign_once E c dg (d + k) of Inl e \<Rightarrow> True | Inr sig \<Rightarrow> length sig = signature_len (sc_props c))"

definition cmm_live :: "siglib \<Rightarrow> cmm \<Rightarrow> bool" where
  "cmm_live E c \<longleftrightarrow> (\<forall>rq d m ctx d' sc. aws_cryptosdk_cmm_generate_enc_materials c rq d = (Inr m, ctx, d') \<longrightarrow>
     em_signctx m = Some sc \<longrightarrow> sig_live E sc)"

definition suite_ready :: "siglib \<Rightarrow> session \<Rightarrow> bool" where
  "suite_ready E s \<longleftrightarrow> (\<exists>i p. se_alg_props s = Some p \<and> aws_cryptosdk_alg_props i = Some p \<and>
     (se_signctx s = None \<longleftrightarrow> signature_len p = 0) \<and> (\<forall>c. se_signctx s = Some c \<longrightarrow> sig_live E c)) \<and>
     se_seqno s \<noteq> 0 \<and> buf_len (hdr_message_id (se_header s)) \<le> 32 \<and> se_frame_size s \<le> UINT32_MAX"

text \<open>The header before keys are generated.\<close>

definition header_fresh :: "hdr \<Rightarrow> bool" where
  "header_fresh h \<longleftrightarrow> hash_valid (hdr_enc_ctx h) \<and> hdr_alg_suite_data h = buf_zero"

definition session_ok :: "env \<Rightarrow> session \<Rightarrow> bool" where
  "session_ok V s \<longleftrightarrow> hdr_alloc (se_header s) \<and> length (se_commitment_arr s) = 32 \<and>
     (\<forall>c. se_cmm s = Some c \<longrightarrow> cmm_live (env_ec V) c) \<and>
     (case se_state s of
        ST_ERROR \<Rightarrow> se_error s \<noteq> None
      | ST_CONFIG \<Rightarrow> aws_cryptosdk_priv_is_valid_mode (se_mode s) \<and> se_signctx s = None \<and> se_data_so_far s = 0 \<and> header_fresh (se_header s)
      | ST_DONE \<Rightarrow> aws_cryptosdk_priv_is_valid_mode (se_mode s)
      | ST_READ_HEADER \<Rightarrow> aws_cryptosdk_priv_is_decrypt_mode (se_mode s) \<and> se_signctx s = None \<and> se_cmm s \<noteq> None
      | ST_UNWRAP_KEY \<Rightarrow> False
      | ST_DECRYPT_BODY \<Rightarrow> aws_cryptosdk_priv_is_decrypt_mode (se_mode s) \<and> se_seqno s \<noteq> 0 \<and> hdr_wf (se_header s) \<and>
          se_alg_props s = aws_cryptosdk_alg_props (hdr_alg_id (se_header s)) \<and> se_frame_size s \<le> UINT32_MAX
      | ST_CHECK_TRAILER \<Rightarrow> aws_cryptosdk_priv_is_decrypt_mode (se_mode s)
      | ST_GEN_KEY \<Rightarrow> se_mode s = AWS_CRYPTOSDK_ENCRYPT \<and> se_signctx s = None \<and> se_cmm s \<noteq> None \<and> se_data_so_far s = 0 \<and> header_fresh (se_header s)
      | ST_WRITE_HEADER \<Rightarrow> se_mode s = AWS_CRYPTOSDK_ENCRYPT \<and> suite_ready (env_ec V) s \<and> se_header_copy s \<noteq> None
      | ST_ENCRYPT_BODY \<Rightarrow> se_mode s = AWS_CRYPTOSDK_ENCRYPT \<and> suite_ready (env_ec V) s
      | ST_WRITE_TRAILER \<Rightarrow> se_mode s = AWS_CRYPTOSDK_ENCRYPT \<and> suite_ready (env_ec V) s)"

text \<open>The order in which a session goes through its states.\<close>

fun rank :: "session_state \<Rightarrow> nat" where
  "rank ST_CONFIG = 0"
| "rank ST_READ_HEADER = 1"
| "rank ST_GEN_KEY = 1"
| "rank ST_UNWRAP_KEY = 2"
| "rank ST_WRITE_HEADER = 2"
| "rank ST_DECRYPT_BODY = 3"
| "rank ST_ENCRYPT_BODY = 3"
| "rank ST_CHECK_TRAILER = 4"
| "rank ST_WRITE_TRAILER = 4"
| "rank ST_DONE = 5"
| "rank ST_ERROR = 6"

lemma rank_le_5 [simp]: "rank st \<le> 5 \<longleftrightarrow> st \<noteq> ST_ERROR"
  by (cases st) simp_all

text \<open>What a step leaves alone, whatever its result, and what it may do to its output and input.\<close>

definition same_config :: "session \<Rightarrow> session \<Rightarrow> bool" where
  "same_config s s' \<longleftrightarrow> se_cmm s' = se_cmm s \<and> se_mode s' = se_mode s \<and> se_policy s' = se_policy s \<and> se_max_edks s' = se_max_edks s \<and>
     hdr_alloc (se_header s') = hdr_alloc (se_header s) \<and> length (se_commitment_arr s') = length (se_commitment_arr s) \<and>
     se_precise_size_known s' = se_precise_size_known s \<and> se_precise_size s' = se_precise_size s \<and> se_size_bound s' = se_size_bound s"

definition step_frame :: "session \<Rightarrow> byte_buf \<Rightarrow> byte_cursor \<Rightarrow> session \<times> byte_buf \<times> byte_cursor \<Rightarrow> bool" where
  "step_frame s space input = (\<lambda>(s', space', input'). same_config s s' \<and> rank (se_state s) \<le> rank (se_state s') \<and> (se_state s' = ST_ERROR \<longrightarrow> s' = s) \<and>
     buf_capacity space' = buf_capacity space \<and> buf_valid space' \<and>
     (\<exists>n. n \<le> cur_len input \<and> input' = advanced input n))"

section \<open>Sealed frames\<close>

text \<open>The bytes \<open>fb\<close> are a frame of type \<open>ty\<close> and number \<open>sn\<close> that was sealed under the content key, and \<open>pt\<close> is its plaintext.\<close>

definition sealed_frame ::
  "(gcm_id \<Rightarrow> nat \<Rightarrow> byte) \<Rightarrow> (gcm_id \<Rightarrow> bytes \<Rightarrow> bytes \<Rightarrow> bytes) \<Rightarrow> alg_properties \<Rightarrow> content_key \<Rightarrow> byte_buf \<Rightarrow> uint64 \<Rightarrow>
   frame_type \<Rightarrow> uint32 \<Rightarrow> bytes \<Rightarrow> bytes \<Rightarrow> bool" where
  "sealed_frame ks tg p key mid m ty sn fb pt \<longleftrightarrow>
     (\<exists>iv ct. length iv = 12 \<and> frame_ok ty sn m (length ct) \<and>
        fb = frame_bytes ty sn iv ct (frame_tag tg (suite_gcm p key iv) mid (Some ty) sn ct) \<and>
        pt = ctr_xor (ks (suite_gcm p key iv)) 0 ct)"

section \<open>Steps of decryption\<close>

lemma fill_edks_result: "fill_edks L dest es = Inr r \<Longrightarrow> r = dest @ map unowned_edk es"
  by (induction L dest es rule: fill_edks.induct) (auto simp: unowned_edk_def split: if_splits)

lemma fill_request_result:
  assumes "fill_request L s = Inr r" "se_alg_props s = Some p" "aws_cryptosdk_alg_props (hdr_alg_id (se_header s)) = Some p"
  shows "r = header_request (se_header s)"
  using assms alg_props_fields(1) [OF assms(3)] fill_edks_result
  by (auto simp: fill_request_def header_request_def bindE_eq_Inr aws_cryptosdk_edk_list_init_def split: if_splits)

text \<open>The session after the header was read and before it is opened.\<close>

definition header_read :: "env \<Rightarrow> session \<Rightarrow> bytes \<Rightarrow> bool" where
  "header_read V s hb \<longleftrightarrow> se_state s = ST_UNWRAP_KEY \<and> hdr_wf (se_header s) \<and> se_header_copy s = Some hb \<and> se_header_size s = length hb \<and>
     length hb \<le> INT_MAX \<and> length (se_commitment_arr s) = 32 \<and> se_signctx s = None \<and>
     length hb = hdr_auth_len (se_header s) + buf_len (hdr_iv (se_header s)) + buf_len (hdr_auth_tag (se_header s)) \<and>
     parses_to (env_lib V) (se_max_edks s) hb (se_header s)"

definition body_start ::
  "env \<Rightarrow> (gcm_id \<Rightarrow> bytes \<Rightarrow> bytes \<Rightarrow> bytes) \<Rightarrow> (evp_md \<Rightarrow> bytes \<Rightarrow> bytes \<Rightarrow> bytes) \<Rightarrow> bytes \<Rightarrow> session \<Rightarrow> bool" where
  "body_start V tg hmac hb s \<longleftrightarrow> (\<exists>dm p. opened V tg hmac s hb dm p \<and> verifies_with dm p hb (se_signctx s)) \<and>
     se_state s = ST_DECRYPT_BODY \<and> se_seqno s = 1"

text \<open>The next frame of the input was opened into the output.\<close>

definition next_opened ::
  "(gcm_id \<Rightarrow> nat \<Rightarrow> byte) \<Rightarrow> (gcm_id \<Rightarrow> bytes \<Rightarrow> bytes \<Rightarrow> bytes) \<Rightarrow> session \<Rightarrow> byte_buf \<Rightarrow> byte_cursor \<Rightarrow>
   session \<times> byte_buf \<times> byte_cursor \<Rightarrow> bool" where
  "next_opened ks tg s b i = (\<lambda>(s', b', i'). \<exists>ty fb pt rest x y.
     sealed_frame ks tg (the (se_alg_props s)) (se_content_key s) (hdr_message_id (se_header s)) (se_frame_size s) ty (ucast (se_seqno s)) fb pt \<and>
     se_seqno s \<le> UINT32_MAX \<and> cur_data i = fb @ rest \<and> i' = advanced i (length fb) \<and> fits b (length pt) \<and> b' = written b pt \<and>
     s' = s\<lparr>se_in_est := x, se_out_est := y, se_seqno := se_seqno s + 1,
            se_signctx := map_option (\<lambda>c. c\<lparr>sc_data := sc_data c @ fb\<rparr>) (se_signctx s),
            se_state := (if ty = FRAME_TYPE_FRAME then ST_DECRYPT_BODY else ST_CHECK_TRAILER)\<rparr>)"

text \<open>The signature in the trailer was read and is valid for everything the verification context has seen.\<close>

definition trailer_checked :: "siglib \<Rightarrow> session \<Rightarrow> byte_cursor \<Rightarrow> session \<times> byte_cursor \<Rightarrow> bool" where
  "trailer_checked E s i = (\<lambda>(s', i'). \<exists>c sig rest. se_signctx s = Some c \<and> length sig \<le> UINT16_MAX \<and>
     cur_data i = be_bytes 2 (word_of_nat (length sig) :: 16 word) @ sig @ rest \<and> i' = advanced i (2 + length sig) \<and>
     ec_verify_final E (ek_group (sc_keypair c)) (ek_pub (sc_keypair c)) (sc_md c) (sc_data c) sig \<and>
     s' = s\<lparr>se_out_est := 0, se_in_est := 0, se_signctx := None\<rparr>)"

locale session_env = aws_c_common "env_lib V" for V :: env +
  fixes ks :: "gcm_id \<Rightarrow> nat \<Rightarrow> byte" and tg :: "gcm_id \<Rightarrow> bytes \<Rightarrow> bytes \<Rightarrow> bytes" and hmac :: "evp_md \<Rightarrow> bytes \<Rightarrow> bytes \<Rightarrow> bytes"
  assumes gcm: "gcm_spec (env_ssl V) ks tg" and hkdf: "hkdf_spec (env_ssl V) hmac" and rand: "rand_spec (env_rand V)"
begin

lemma hdr_parse_result:
  assumes "hdr_alloc h" "aws_cryptosdk_hdr_parse (env_lib V) h c m = (st, h', c')"
  shows "hdr_alloc h'" "st \<noteq> None \<Longrightarrow> c' = c"
    "st = None \<Longrightarrow> hdr_wf h' \<and> c' = advanced c (hdr_auth_len h' + buf_len (hdr_iv h') + buf_len (hdr_auth_tag h')) \<and>
       hdr_auth_len h' + buf_len (hdr_iv h') + buf_len (hdr_auth_tag h') \<le> cur_len c"
  using hdr_parse_fields_parses [OF refl, of m c] assms
  by (auto simp: hdr_parse_unfold read_from_def hdr_wf_def aws_cryptosdk_hdr_is_valid_def split: sum.splits prod.splits option.splits)

lemma validate_header_ends:
  assumes p: "se_alg_props s = Some p" "aws_cryptosdk_alg_props i = Some p" and hb: "se_header_copy s = Some hb"
    and len: "length hb = hdr_auth_len (se_header s) + aws_cryptosdk_private_authtag_len p" "length hb \<le> INT_MAX"
  shows "ends (\<lambda>s'. s' = s) (\<lambda>s'. s' = s \<and> header_sealed tg p (se_content_key s) hb) (do { st \<leftarrow> validate_header V s; Some (st, s) })"
proof -
  let ?n = "hdr_auth_len (se_header s)" and ?key = "se_content_key s"
  let ?t = "\<lparr>buf_mem = drop ?n hb, buf_len = aws_cryptosdk_private_authtag_len p, buf_owned = False\<rparr>"
  have t: "buf_valid ?t" "buf_contents ?t = drop ?n hb" using len(1) by (simp_all add: buf_valid_def buf_contents_def)
  note f = alg_props_fields [OF p(2)]
  have al: "aws_cryptosdk_private_authtag_len p = (if aws_cryptosdk_algorithm_is_committing i then 16 else 28)"
    using f by (simp add: aws_cryptosdk_private_authtag_len_def)
  have h: "length (take ?n hb) \<le> INT_MAX" using len(2) by simp
  obtain st where st: "aws_cryptosdk_verify_header (env_ssl V) p ?key ?t (take ?n hb) = Some st"
      "st = None \<longrightarrow> header_tag i ?t = tg (suite_gcm p ?key (header_iv i ?t)) (take ?n hb) []"
    using verify_header_spec [OF gcm p(2) h t(1) _ refl, of ?key] by auto
  have "header_sealed tg p ?key hb" if "header_tag i ?t = tg (suite_gcm p ?key (header_iv i ?t)) (take ?n hb) []"
  proof (cases "aws_cryptosdk_algorithm_is_committing i")
    case True
    then have "hb = take ?n hb @ tg (suite_gcm p ?key ZERO_IV) (take ?n hb) []"
      using that append_take_drop_id [of ?n hb] t(2) by (simp add: header_tag_def header_iv_def)
    then show ?thesis using True f(1) by (intro header_sealedI(1)) simp_all
  next
    case False
    have "take 12 (drop ?n hb) @ drop 12 (drop ?n hb) = drop ?n hb" by (rule append_take_drop_id)
    then have "hb = take ?n hb @ take 12 (drop ?n hb) @ tg (suite_gcm p ?key (take 12 (drop ?n hb))) (take ?n hb) []"
      using that append_take_drop_id [of ?n hb] t(2) False by (simp add: header_tag_def header_iv_def)
    moreover have "length (take 12 (drop ?n hb)) = 12" using False len(1) al by simp
    ultimately show ?thesis using False f(1) by (intro header_sealedI(2)) blast+
  qed
  then show ?thesis using st p(1) hb by (auto simp: validate_header_def Let_def)
qed

lemma derive_data_key_eq:
  assumes p: "se_alg_props s = Some p" "aws_cryptosdk_alg_props i = Some p"
    and mid: "buf_valid (hdr_message_id (se_header s))" "buf_len (hdr_message_id (se_header s)) = aws_cryptosdk_private_algorithm_message_id_len p"
    and sd: "buf_valid (hdr_alg_suite_data (se_header s))" and arr: "length (se_commitment_arr s) = 32"
  defines "mb \<equiv> buf_contents (hdr_message_id (se_header s))"
  obtains a where "length a = 32" "derive_data_key V s dm =
      (if dk_len (dm_unencrypted_data_key dm) \<noteq> data_key_len p then (Some AWS_CRYPTOSDK_ERR_CRYPTO_UNKNOWN, s)
       else if \<not> aws_cryptosdk_priv_algorithm_allowed_for_decrypt (alg_id p) (se_policy s)
       then (Some AWS_CRYPTOSDK_ERR_COMMITMENT_POLICY_VIOLATION, s)
       else (if (if aws_cryptosdk_algorithm_is_committing i
                 then buf_contents (hdr_alg_suite_data (se_header s)) = spec_commitment hmac p (padded_data_key dm) mb
                 else buf_len (hdr_alg_suite_data (se_header s)) = 0) then None
             else Some AWS_CRYPTOSDK_ERR_BAD_CIPHERTEXT,
             s\<lparr>se_content_key := spec_content_key hmac p (padded_data_key dm) mb, se_commitment_arr := a\<rparr>))"
proof -
  let ?c = "buf_from_array (take (commitment_len p) (se_commitment_arr s))"
  note f = alg_props_fields [OF p(2)]
  have com: "if aws_cryptosdk_algorithm_is_committing i then 32 \<le> buf_capacity ?c else buf_len ?c = 0"
    using f(10) arr by (simp add: buf_from_array_def)
  have dk: "data_key_len p \<le> length (padded_data_key dm)"
    using f(5) by (auto simp: padded_data_key_def splice_def zero_key_def)
  note d = derive_key_eq [OF hkdf p(2) dk mid com, folded mb_def, of "env_lib V"]
  define com' where "com' = (if aws_cryptosdk_algorithm_is_committing i
    then ?c\<lparr>buf_mem := splice (buf_mem ?c) 0 (spec_commitment hmac p (padded_data_key dm) mb), buf_len := 32\<rparr> else ?c)"
  have l: "length (spec_commitment hmac p (padded_data_key dm) mb) = 32" unfolding spec_commitment_def by (rule length_rfc5869 [OF hkdf])
  have c': "length (splice (se_commitment_arr s) 0 (buf_mem com')) = 32" "buf_valid com'"
      "aws_cryptosdk_algorithm_is_committing i \<Longrightarrow> buf_contents com' = spec_commitment hmac p (padded_data_key dm) mb \<and> buf_len com' = 32"
      "\<not> aws_cryptosdk_algorithm_is_committing i \<Longrightarrow> buf_contents com' = [] \<and> buf_len com' = 0"
    using l arr f(10) by (auto simp: com'_def buf_from_array_def buf_valid_def buf_contents_def splice_def)
  have q: "aws_cryptosdk_private_commitment_eq com' (hdr_alg_suite_data (se_header s)) =
      (if aws_cryptosdk_algorithm_is_committing i
       then buf_contents (hdr_alg_suite_data (se_header s)) = spec_commitment hmac p (padded_data_key dm) mb
       else buf_len (hdr_alg_suite_data (se_header s)) = 0)"
    using c'(3,4) commitment_eq_contents [OF c'(2) sd] length_contents [OF sd] l by auto
  have "derive_data_key V s dm =
      (if dk_len (dm_unencrypted_data_key dm) \<noteq> data_key_len p then (Some AWS_CRYPTOSDK_ERR_CRYPTO_UNKNOWN, s)
       else if \<not> aws_cryptosdk_priv_algorithm_allowed_for_decrypt (alg_id p) (se_policy s)
       then (Some AWS_CRYPTOSDK_ERR_COMMITMENT_POLICY_VIOLATION, s)
       else (if aws_cryptosdk_private_commitment_eq com' (hdr_alg_suite_data (se_header s)) then None else Some AWS_CRYPTOSDK_ERR_BAD_CIPHERTEXT,
             s\<lparr>se_content_key := spec_content_key hmac p (padded_data_key dm) mb,
               se_commitment_arr := splice (se_commitment_arr s) 0 (buf_mem com')\<rparr>))"
    using d [of "se_content_key s"] p(1) by (simp add: derive_data_key_def padded_data_key_def com'_def Let_def)
  then show thesis unfolding q by (rule that [OF c'(1)])
qed

lemma derive_data_key_ends:
  assumes p: "se_alg_props s = Some p" "aws_cryptosdk_alg_props i = Some p"
    and mid: "buf_valid (hdr_message_id (se_header s))" "buf_len (hdr_message_id (se_header s)) = aws_cryptosdk_private_algorithm_message_id_len p"
    and sd: "buf_valid (hdr_alg_suite_data (se_header s))" and arr: "length (se_commitment_arr s) = 32"
  defines "mb \<equiv> buf_contents (hdr_message_id (se_header s))"
  shows "ends (\<lambda>s'. \<exists>k a. length a = 32 \<and> s' = s\<lparr>se_content_key := k, se_commitment_arr := a\<rparr>)
    (\<lambda>s'. (\<exists>a. length a = 32 \<and> s' = s\<lparr>se_content_key := spec_content_key hmac p (padded_data_key dm) mb, se_commitment_arr := a\<rparr>) \<and>
       dk_len (dm_unencrypted_data_key dm) = data_key_len p \<and>
       aws_cryptosdk_priv_algorithm_allowed_for_decrypt (alg_id p) (se_policy s) \<and>
       (aws_cryptosdk_algorithm_is_committing (alg_id p) \<longrightarrow>
          buf_contents (hdr_alg_suite_data (se_header s)) = spec_commitment hmac p (padded_data_key dm) mb))
    (Some (derive_data_key V s dm))"
proof -
  have keep: "\<exists>k a. length a = 32 \<and> s = s\<lparr>se_content_key := k, se_commitment_arr := a\<rparr>"
    using arr by - (rule exI [where x = "se_content_key s"], rule exI [where x = "se_commitment_arr s"], simp)
  obtain a where a: "length a = 32" "derive_data_key V s dm =
      (if dk_len (dm_unencrypted_data_key dm) \<noteq> data_key_len p then (Some AWS_CRYPTOSDK_ERR_CRYPTO_UNKNOWN, s)
       else if \<not> aws_cryptosdk_priv_algorithm_allowed_for_decrypt (alg_id p) (se_policy s)
       then (Some AWS_CRYPTOSDK_ERR_COMMITMENT_POLICY_VIOLATION, s)
       else (if (if aws_cryptosdk_algorithm_is_committing i
                 then buf_contents (hdr_alg_suite_data (se_header s)) = spec_commitment hmac p (padded_data_key dm) mb
                 else buf_len (hdr_alg_suite_data (se_header s)) = 0) then None
             else Some AWS_CRYPTOSDK_ERR_BAD_CIPHERTEXT,
             s\<lparr>se_content_key := spec_content_key hmac p (padded_data_key dm) mb, se_commitment_arr := a\<rparr>))"
    unfolding mb_def by (rule derive_data_key_eq [OF p mid sd arr])
  let ?s' = "s\<lparr>se_content_key := spec_content_key hmac p (padded_data_key dm) mb, se_commitment_arr := a\<rparr>"
  define E where "E s' \<longleftrightarrow> (\<exists>k a. length a = 32 \<and> s' = s\<lparr>se_content_key := k, se_commitment_arr := a\<rparr>)" for s'
  have E: "E s" "E ?s'" unfolding E_def using keep a(1) by blast+
  have S: "\<exists>a. length a = 32 \<and> ?s' = s\<lparr>se_content_key := spec_content_key hmac p (padded_data_key dm) mb, se_commitment_arr := a\<rparr>"
    using a(1) by blast
  show ?thesis
    unfolding a(2) E_def [symmetric] using E S alg_props_fields(1) [OF p(2)] by (simp split del: if_split add: if_distrib) (simp split: if_split)
qed

lemma sig_update_result:
  "aws_cryptosdk_sig_update E c bs = (None, c') \<Longrightarrow> c' = c\<lparr>sc_data := sc_data c @ bs\<rparr>"
  by (cases c) (auto simp: aws_cryptosdk_sig_update_def split: if_splits)

lemma take_signctx_ends:
  assumes p: "se_alg_props s = Some p" and hb: "se_header_copy s = Some hb" "se_header_size s = length hb" and sc: "se_signctx s = None"
  shows "ends (\<lambda>s'. \<exists>c. s' = s\<lparr>se_signctx := c\<rparr>) (\<lambda>s'. \<exists>c. s' = s\<lparr>se_signctx := c\<rparr> \<and> verifies_with dm p hb c) (Some (take_signctx V s dm))"
proof (cases "signature_len p = 0")
  case True
  have "s = s\<lparr>se_signctx := None\<rparr>" using sc by simp
  then show ?thesis using True p by (auto simp: take_signctx_def verifies_with_def)
next
  case False
  show ?thesis
  proof (cases "dm_signctx dm")
    case None
    have "s = s\<lparr>se_signctx := None\<rparr>" using sc by simp
    then show ?thesis using False None p by (auto simp: take_signctx_def)
  next
    case (Some c)
    obtain st c' where u: "aws_cryptosdk_sig_update (env_ec V) c hb = (st, c')" by force
    then show ?thesis
      using False Some p hb sig_update_result [of "env_ec V" c hb c'] by (auto simp: take_signctx_def verifies_with_def)
  qed
qed

lemma use_materials_ends:
  assumes r: "header_read V s hb" and p: "aws_cryptosdk_alg_props (hdr_alg_id (se_header s)) = Some p" "se_alg_props s = Some p"
    and dm: "aws_cryptosdk_cmm_decrypt_materials (the (se_cmm s)) (header_request (se_header s)) = Inr dm"
  shows "ends (\<lambda>s'. same_config s s' \<and> rank (se_state s') \<in> {2..5}) (\<lambda>s'. same_config s s' \<and> body_start V tg hmac hb s') (use_materials V s dm)"
proof -
  obtain st tr sr where tr: "aws_cryptosdk_transfer_list (env_lib V) (se_trace s) (dm_keyring_trace dm) = (st, tr, sr)" by (metis prod_cases3)
  define s2 where "s2 = s\<lparr>se_trace := tr, se_cmm_success := True\<rparr>"
  let ?K = "spec_content_key hmac p (padded_data_key dm) (buf_contents (hdr_message_id (se_header s)))"
  let ?E = "\<lambda>s'. same_config s s' \<and> rank (se_state s') \<in> {2..5}"
  let ?D = "dk_len (dm_unencrypted_data_key dm) = data_key_len p \<and>
       aws_cryptosdk_priv_algorithm_allowed_for_decrypt (alg_id p) (se_policy s) \<and>
       (aws_cryptosdk_algorithm_is_committing (alg_id p) \<longrightarrow>
          buf_contents (hdr_alg_suite_data (se_header s)) = spec_commitment hmac p (padded_data_key dm) (buf_contents (hdr_message_id (se_header s))))"
  have wf: "buf_valid (hdr_message_id (se_header s))" "buf_len (hdr_message_id (se_header s)) = aws_cryptosdk_private_algorithm_message_id_len p"
      "buf_valid (hdr_alg_suite_data (se_header s))"
      "buf_len (hdr_iv (se_header s)) + buf_len (hdr_auth_tag (se_header s)) = aws_cryptosdk_private_authtag_len p"
    using r p(1) alg_props_fields(8) [OF p(1)]
    by (auto simp: header_read_def hdr_wf_def aws_cryptosdk_hdr_is_valid_def aws_cryptosdk_private_authtag_len_def)
  have s2: "se_alg_props s2 = Some p" "se_header s2 = se_header s" "se_commitment_arr s2 = se_commitment_arr s" "se_policy s2 = se_policy s"
      "se_mode s2 = se_mode s" "se_header_copy s2 = Some hb" "se_header_size s2 = length hb" "se_signctx s2 = None" "se_state s2 = ST_UNWRAP_KEY"
      "length (se_commitment_arr s2) = 32"
    using r p(2) by (simp_all add: s2_def header_read_def)
  have 1: "ends ?E (\<lambda>s'. s' = s2 \<and> mode_allows (se_mode s) dm) (Some (check_materials s2 dm, s2))"
    using s2 by (auto simp: check_materials_def mode_allows_def same_config_def s2_def split: option.splits)
  have 2: "ends ?E (\<lambda>s'. (\<exists>a. length a = 32 \<and> s' = s2\<lparr>se_content_key := ?K, se_commitment_arr := a\<rparr>) \<and> ?D) (Some (derive_data_key V s2 dm))"
    by (rule ends_mono [OF derive_data_key_ends [OF s2(1) p(1)]]) (use s2 wf r in \<open>auto simp: same_config_def header_read_def s2_def\<close>)
  have 3: "ends ?E (\<lambda>s''. s'' = s' \<and> header_sealed tg p ?K hb) (do { st \<leftarrow> validate_header V s'; Some (st, s') })"
    if "s' = s2\<lparr>se_content_key := ?K, se_commitment_arr := a\<rparr>" "length a = 32" for s' a
  proof (rule ends_mono [OF validate_header_ends [of s' p "hdr_alg_id (se_header s)" hb]])
    show "length hb = hdr_auth_len (se_header s') + aws_cryptosdk_private_authtag_len p" "length hb \<le> INT_MAX"
      using r wf(4) that s2 by (simp_all add: header_read_def)
  qed (use that s2 p r in \<open>auto simp: same_config_def header_read_def s2_def\<close>)
  have 4: "ends ?E (\<lambda>s''. \<exists>c. s'' = s'\<lparr>se_signctx := c\<rparr> \<and> verifies_with dm p hb c) (Some (take_signctx V s' dm))"
    if "s' = s2\<lparr>se_content_key := ?K, se_commitment_arr := a\<rparr>" "length a = 32" for s' a
    by (rule ends_mono [OF take_signctx_ends [of s' p hb dm]]) (use that s2 r in \<open>auto simp: same_config_def s2_def header_read_def\<close>)
  have 5: "ends ?E (\<lambda>s'. same_config s s' \<and> body_start V tg hmac hb s') (do {
        s \<leftarrow> aws_cryptosdk_priv_session_change_state (s'\<lparr>se_seqno := 1, se_frame_size := ucast (hdr_frame_len (se_header s'))\<rparr>) ST_DECRYPT_BODY;
        Some (AWS_OP_SUCCESS, s) })"
    if c: "s' = s2\<lparr>se_content_key := ?K, se_commitment_arr := a, se_signctx := c\<rparr>" "length a = 32" "verifies_with dm p hb c"
      "header_sealed tg p ?K hb" ?D "mode_allows (se_mode s) dm" for s' a c
  proof -
    let ?s = "s'\<lparr>se_seqno := 1, se_frame_size := ucast (hdr_frame_len (se_header s')), se_state := ST_DECRYPT_BODY\<rparr>"
    have "aws_cryptosdk_priv_session_change_state (s'\<lparr>se_seqno := 1, se_frame_size := ucast (hdr_frame_len (se_header s'))\<rparr>) ST_DECRYPT_BODY = Some ?s"
      using c(1) s2 by (subst change_state_ok) (auto simp: transition_ok_def)
    moreover have "same_config s ?s" using c(1,2) r by (simp add: same_config_def s2_def header_read_def)
    moreover have "opened V tg hmac ?s hb dm p"
      using c r p dm unfolding opened_def by (simp add: s2_def header_read_def)
    moreover have "verifies_with dm p hb (se_signctx ?s)" using c by simp
    ultimately show ?thesis by (auto simp: body_start_def)
  qed
  have "use_materials V s dm = and_then (Some (check_materials s2 dm, s2)) (\<lambda>s.
         and_then (Some (derive_data_key V s dm)) (\<lambda>s.
         and_then (do { st \<leftarrow> validate_header V s; Some (st, s) }) (\<lambda>s.
         and_then (Some (take_signctx V s dm)) (\<lambda>s. do {
           s \<leftarrow> aws_cryptosdk_priv_session_change_state
                  (s\<lparr>se_seqno := 1, se_frame_size := ucast (hdr_frame_len (se_header s))\<rparr>) ST_DECRYPT_BODY;
           Some (AWS_OP_SUCCESS, s)
         }))))"
    by (simp add: use_materials_def tr s2_def Let_def)
  also have "ends ?E (\<lambda>s'. same_config s s' \<and> body_start V tg hmac hb s') \<dots>"
    by (rule ends_and_then [OF 1]) (elim conjE, hypsubst, rule ends_and_then [OF 2], elim conjE exE,
      rule ends_and_then [OF 3], assumption, assumption, elim conjE, hypsubst, rule ends_and_then [OF 4], rule refl, assumption,
      elim conjE exE, rule 5, simp_all)
  finally show ?thesis .
qed

lemma unwrap_keys_ends:
  assumes r: "header_read V s hb"
  shows "ends (\<lambda>s'. same_config s s' \<and> rank (se_state s') \<in> {2..5}) (\<lambda>s'. same_config s s' \<and> body_start V tg hmac hb s')
    (aws_cryptosdk_priv_unwrap_keys V s)"
proof -
  obtain p where p: "aws_cryptosdk_alg_props (hdr_alg_id (se_header s)) = Some p"
    using r by (auto simp: header_read_def hdr_wf_def split: option.splits)
  let ?s = "s\<lparr>se_alg_props := Some p\<rparr>"
  have r': "header_read V ?s hb" using r by (simp add: header_read_def)
  have e: "same_config s ?s \<and> rank (se_state ?s) \<in> {2..5}" using r by (simp add: header_read_def same_config_def)
  have c: "same_config ?s s' = same_config s s'" for s' by (simp add: same_config_def)
  show ?thesis
  proof (cases "fill_request (env_lib V) ?s")
    case (Inl x)
    then show ?thesis using p e by (simp add: aws_cryptosdk_priv_unwrap_keys_def)
  next
    case (Inr rq)
    then have rq: "rq = header_request (se_header s)" using fill_request_result [of "env_lib V" ?s rq p] p by simp
    show ?thesis
    proof (cases "aws_cryptosdk_cmm_decrypt_materials (the (se_cmm s)) rq")
      case (Inr dm)
      then show ?thesis
        using \<open>fill_request (env_lib V) ?s = Inr rq\<close> p rq use_materials_ends [OF r', of p dm]
        by (simp add: aws_cryptosdk_priv_unwrap_keys_def c)
    qed (use Inr p e in \<open>simp add: aws_cryptosdk_priv_unwrap_keys_def\<close>)
  qed
qed

lemma hdr_size_bound: "- (2 ^ 31) \<le> aws_cryptosdk_hdr_size L h \<and> aws_cryptosdk_hdr_size L h < 2 ^ 31"
proof -
  have "- (2 ^ 31) \<le> sint (x :: 32 word) \<and> sint x < 2 ^ 31" for x
    using sint_ge [of x] sint_less [of x] by simp
  then show ?thesis by (simp add: aws_cryptosdk_hdr_size_def Let_def split: option.splits sum.splits)
qed

lemma hdr_size_t_exact:
  assumes "sint (word_of_nat (hdr_size_t L h) :: size_t) = int n"
  shows "hdr_size_t L h = n" "n \<le> INT_MAX"
proof -
  let ?z = "aws_cryptosdk_hdr_size L h"
  have "sint (word_of_int ?z :: size_t) = ?z"
    using hdr_size_bound [of L h] by (simp add: sint_sbintrunc' signed_take_bit_int_eq_self)
  moreover have "(word_of_nat (hdr_size_t L h) :: size_t) = word_of_int ?z" by (simp add: hdr_size_t_def)
  ultimately have z: "?z = int n" using assms by simp
  then have "n < 2 ^ 31" using hdr_size_bound [of L h] by simp
  then show "n \<le> INT_MAX" by simp
  then show "hdr_size_t L h = n" by (simp add: hdr_size_t_def z unat_of_nat)
qed

text \<open>When the header is complete, the keys are unwrapped in the same step.\<close>

lemma try_parse_header_read:
  assumes s: "se_state s = ST_READ_HEADER" "aws_cryptosdk_priv_is_decrypt_mode (se_mode s)" "hdr_alloc (se_header s)"
    "se_signctx s = None" "length (se_commitment_arr s) = 32"
    and r: "aws_cryptosdk_hdr_parse (env_lib V) (se_header s) i (se_max_edks s) = (None, h, advanced i n)"
    and n: "hdr_wf h" "n \<le> cur_len i" "n = hdr_auth_len h + buf_len (hdr_iv h) + buf_len (hdr_auth_tag h)"
    and sz: "hdr_size_t (env_lib V) h = n" "n \<noteq> 0" "n \<le> INT_MAX" "lib_acquire (env_lib V) n"
  defines "u \<equiv> s\<lparr>se_header := h, se_header_size := n, se_header_copy := Some (take n (cur_data i)), se_state := ST_UNWRAP_KEY\<rparr>"
  shows "aws_cryptosdk_priv_try_parse_header V s i = do { (st, s) \<leftarrow> aws_cryptosdk_priv_unwrap_keys V u; Some (st, s, advanced i n) }"
    "header_read V u (take n (cur_data i))"
proof -
  let ?s = "s\<lparr>se_header := h, se_header_size := n\<rparr>" and ?hb = "take n (cur_data i)"
  have c: "aws_cryptosdk_priv_session_change_state (?s\<lparr>se_header_copy := Some ?hb\<rparr>) ST_UNWRAP_KEY = Some u"
    using s sz by (subst change_state_ok) (auto simp: transition_ok_def u_def)
  have "sint (word_of_int (int n) :: size_t) = int n" using sz(3) by (simp only: sint_sbintrunc') (simp add: signed_take_bit_int_eq_self)
  then have "sint (word_of_nat n :: size_t) = int n" by simp
  then show "aws_cryptosdk_priv_try_parse_header V s i = do { (st, s) \<leftarrow> aws_cryptosdk_priv_unwrap_keys V u; Some (st, s, advanced i n) }"
    using r sz c by (simp add: aws_cryptosdk_priv_try_parse_header_def Let_def)
  have "parses_to (env_lib V) (se_max_edks s) ?hb h"
    unfolding parses_to_def using r n s(3)
    by (intro exI [of _ "se_header s"] exI [of _ "cur_ptr i"] exI [of _ "drop n (cur_data i)"]) (cases i, simp add: advanced_def)
  then show "header_read V u ?hb" using n sz s by (simp add: header_read_def u_def)
qed

lemma try_parse_header_ends:
  assumes s: "se_state s = ST_READ_HEADER" "aws_cryptosdk_priv_is_decrypt_mode (se_mode s)" "hdr_alloc (se_header s)"
    "se_signctx s = None" "length (se_commitment_arr s) = 32"
  shows "ends (\<lambda>(s', i'). same_config s s' \<and> rank (se_state s') \<in> {1..5} \<and> (\<exists>n \<le> cur_len i. i' = advanced i n))
    (\<lambda>(s', i'). same_config s s' \<and>
       (i' = i \<and> se_state s' = ST_READ_HEADER \<and> se_signctx s' = None \<or>
        (\<exists>hb rest. cur_data i = hb @ rest \<and> i' = advanced i (length hb) \<and> body_start V tg hmac hb s')))
    (aws_cryptosdk_priv_try_parse_header V s i)"
proof -
  obtain st h i' where r: "aws_cryptosdk_hdr_parse (env_lib V) (se_header s) i (se_max_edks s) = (st, h, i')" by (metis prod_cases3)
  note hr = hdr_parse_result [OF s(3) r]
  have al: "hdr_alloc h = hdr_alloc (se_header s)" using hr(1) s(3) by simp
  have i0: "\<exists>n \<le> cur_len i. i = advanced i n" by (rule exI [of _ 0]) simp
  show ?thesis
  proof (cases st)
    case (Some e)
    then show ?thesis
      using r hr(2) s al i0 by (auto simp: aws_cryptosdk_priv_try_parse_header_def grow_input_estimate_def same_config_def Let_def)
  next
    case None
    define n where "n = hdr_auth_len h + buf_len (hdr_iv h) + buf_len (hdr_auth_tag h)"
    have n: "hdr_wf h" "i' = advanced i n" "n \<le> cur_len i" using hr(3) None by (simp_all add: n_def)
    have i1: "\<exists>n \<le> cur_len i. i' = advanced i n" using n by blast
    let ?s = "s\<lparr>se_header := h, se_header_size := hdr_size_t (env_lib V) h\<rparr>" and ?hb = "take n (cur_data i)"
    have E: "same_config s ?s \<and> rank (se_state ?s) \<in> {1..5}" using al s by (simp add: same_config_def)
    show ?thesis
    proof (cases "hdr_size_t (env_lib V) h \<noteq> 0 \<and> sint (word_of_nat (hdr_size_t (env_lib V) h) :: size_t) = int n \<and>
        lib_acquire (env_lib V) (hdr_size_t (env_lib V) h)")
      case False
      then show ?thesis using r None E i1 n(2) by (auto simp: aws_cryptosdk_priv_try_parse_header_def Let_def)
    next
      case True
      note sz = hdr_size_t_exact [of "env_lib V" h n]
      have len: "hdr_size_t (env_lib V) h = n" "n \<le> INT_MAX" "n \<noteq> 0" using sz True by auto
      let ?u = "?s\<lparr>se_header_copy := Some ?hb, se_state := ST_UNWRAP_KEY\<rparr>"
      have u: "aws_cryptosdk_priv_try_parse_header V s i = do { (st, s) \<leftarrow> aws_cryptosdk_priv_unwrap_keys V ?u; Some (st, s, i') }" "header_read V ?u ?hb"
        using try_parse_header_read [OF s _ n(1,3) n_def len(1,3,2)] r None True len(1) unfolding n(2) by simp_all
      note hr = u(2)
      have X: "ends (\<lambda>(s', i'). same_config s s' \<and> rank (se_state s') \<in> {1..5} \<and> (\<exists>n \<le> cur_len i. i' = advanced i n))
          (\<lambda>(s', i'). same_config s s' \<and> (\<exists>hb rest. cur_data i = hb @ rest \<and> i' = advanced i (length hb) \<and> body_start V tg hmac hb s'))
          (do { (st, s) \<leftarrow> aws_cryptosdk_priv_unwrap_keys V ?u; Some (st, s, i') })"
      proof (rule ends_map, rule ends_mono [OF unwrap_keys_ends [OF hr]])
        have cfg: "same_config ?u s' = same_config s s'" for s' using al by (simp add: same_config_def)
        show "case (s', i') of (s', i') \<Rightarrow> same_config s s' \<and> rank (se_state s') \<in> {1..5} \<and> (\<exists>n \<le> cur_len i. i' = advanced i n)"
          if "same_config ?u s' \<and> rank (se_state s') \<in> {2..5}" for s' using that i1 by (simp add: cfg)
        have "cur_data i = ?hb @ drop n (cur_data i)" "i' = advanced i (length ?hb)" using n by simp_all
        then show "case (s', i') of (s', i') \<Rightarrow> same_config s s' \<and>
            (\<exists>hb rest. cur_data i = hb @ rest \<and> i' = advanced i (length hb) \<and> body_start V tg hmac hb s')"
          if "same_config ?u s' \<and> body_start V tg hmac ?hb s'" for s' using that unfolding cfg prod.case by blast
      qed
      show ?thesis unfolding u(1) by (rule ends_mono [OF X]) auto
    qed
  qed
qed

lemma frame_slices:
  assumes "cur_data c = frame_bytes ty sn iv ct tag @ rest" "length iv = 12" "iv_len p = 12"
  shows "cur_slice c (located (cur_ptr c + iv_off ty) 12) = iv"
    "cur_slice c (located (cur_ptr c + ct_off ty p) (length ct)) = ct"
    "cur_slice c (located (cur_ptr c + ct_off ty p + length ct) (length tag)) = tag"
  using assms by (cases ty; simp add: cur_slice_def located_def)+

lemma frame_decrypted_ends:
  assumes s: "se_state s = ST_DECRYPT_BODY"
  shows "ends (\<lambda>s'. same_config s s' \<and> rank (se_state s') \<in> {3..5})
    (\<lambda>s'. s' = s\<lparr>se_seqno := se_seqno s + 1, se_signctx := map_option (\<lambda>c. c\<lparr>sc_data := sc_data c @ bs\<rparr>) (se_signctx s),
       se_state := (if ty = FRAME_TYPE_FRAME then ST_DECRYPT_BODY else ST_CHECK_TRAILER)\<rparr>) (frame_decrypted V s bs ty)"
proof -
  define s1 where "s1 = s\<lparr>se_seqno := se_seqno s + 1\<rparr>"
  let ?f = "\<lambda>s. if ty \<noteq> FRAME_TYPE_FRAME then do { s \<leftarrow> aws_cryptosdk_priv_session_change_state s ST_CHECK_TRAILER; Some (AWS_OP_SUCCESS, s) }
     else Some (AWS_OP_SUCCESS, s)"
  have f: "?f x = Some (None, x\<lparr>se_state := (if ty = FRAME_TYPE_FRAME then ST_DECRYPT_BODY else ST_CHECK_TRAILER)\<rparr>)"
    if "se_state x = ST_DECRYPT_BODY" for x
    using that by (cases x) (simp add: change_state_ok transition_ok_def)
  show ?thesis
  proof (cases "se_signctx s")
    case None
    then have "frame_decrypted V s bs ty = ?f s1" by (simp add: frame_decrypted_def and_then_def s1_def)
    also have "\<dots> = Some (None, s1\<lparr>se_state := (if ty = FRAME_TYPE_FRAME then ST_DECRYPT_BODY else ST_CHECK_TRAILER)\<rparr>)"
      by (rule f) (simp add: s1_def s)
    finally show ?thesis using None s by (cases s) (simp add: s1_def)
  next
    case (Some c)
    obtain st c' where u: "aws_cryptosdk_sig_update (env_ec V) c bs = (st, c')" by force
    have *: "frame_decrypted V s bs ty = and_then (Some (st, s1\<lparr>se_signctx := Some c'\<rparr>)) ?f"
      using Some u by (simp add: frame_decrypted_def s1_def)
    show ?thesis
    proof (cases st)
      case None
      have "frame_decrypted V s bs ty = ?f (s1\<lparr>se_signctx := Some c'\<rparr>)" using * None by (simp add: and_then_def)
      also have "\<dots> = Some (None, s1\<lparr>se_signctx := Some c', se_state := (if ty = FRAME_TYPE_FRAME then ST_DECRYPT_BODY else ST_CHECK_TRAILER)\<rparr>)"
        by (subst f) (simp_all add: s1_def s)
      finally show ?thesis using Some u None sig_update_result [of "env_ec V" c bs c'] by (simp add: s1_def)
    qed (use * s in \<open>simp add: and_then_def s1_def same_config_def\<close>)
  qed
qed

lemma deserialize_frame_result:
  assumes p: "aws_cryptosdk_alg_props j = Some p" and m: "m \<le> MAX_FRAME_SIZE"
    and r: "aws_cryptosdk_deserialize_frame (env_lib V) c p m = (st, f, cs, ps, c')"
  shows "st \<noteq> None \<Longrightarrow> c' = c"
    "st = None \<Longrightarrow> \<exists>iv ct tag rest. cur_data c = frame_bytes (frame_ty f) (sequence_number f) iv ct tag @ rest \<and> length iv = 12 \<and> length tag = 16 \<and>
       frame_ok (frame_ty f) (sequence_number f) m (length ct) \<and> unat ps = length ct \<and>
       c' = advanced c (length (frame_bytes (frame_ty f) (sequence_number f) iv ct tag)) \<and>
       cur_slice c (frame_iv f) = iv \<and> cur_slice c (frame_ciphertext f) = ct \<and> cur_slice c (frame_authtag f) = tag"
proof -
  note f = alg_props_fields [OF p]
  show "c' = c" if "st \<noteq> None"
    using r that by (auto simp: aws_cryptosdk_deserialize_frame_def Let_def split: prod.splits option.splits if_splits)
  assume "st = None"
  with r have r': "aws_cryptosdk_deserialize_frame (env_lib V) c p m = (None, f, cs, ps, c')" by simp
  obtain iv ct tag rest where i: "cur_data c = frame_bytes (frame_ty f) (sequence_number f) iv ct tag @ rest" "length iv = 12" "length tag = 16"
      "frame_ok (frame_ty f) (sequence_number f) m (length ct)"
    using deserialize_frame_inv [OF r' f(2,3) m] by metis
  note e = deserialize_frame_eq [OF i(1,4), of p]
  have g: "f = \<lparr>frame_ty = frame_ty f, sequence_number = sequence_number f, frame_iv = located (cur_ptr c + iv_off (frame_ty f)) 12,
      frame_ciphertext = located (cur_ptr c + ct_off (frame_ty f) p) (length ct),
      frame_authtag = located (cur_ptr c + ct_off (frame_ty f) p + length ct) 16\<rparr>" "ps = word_of_nat (length ct)"
      "c' = advanced c (frame_size (frame_ty f) p (length ct))"
    using e r' i f by auto
  have "length ct < 2 ^ 64"
    using i(4) m unsigned_less [of m, where 'a = nat] by (cases "frame_ty f") auto
  then have "unat ps = length ct" using g(2) by (simp add: unat_of_nat)
  moreover have "c' = advanced c (length (frame_bytes (frame_ty f) (sequence_number f) iv ct tag))"
    using g(3) length_frame_bytes [of iv p tag] i f by simp
  moreover have "frame_iv f = located (cur_ptr c + iv_off (frame_ty f)) 12"
      "frame_ciphertext f = located (cur_ptr c + ct_off (frame_ty f) p) (length ct)"
      "frame_authtag f = located (cur_ptr c + ct_off (frame_ty f) p + length ct) (length tag)"
    using arg_cong [OF g(1), of frame_iv] arg_cong [OF g(1), of frame_ciphertext] arg_cong [OF g(1), of frame_authtag] i(3) by simp_all
  ultimately show "\<exists>iv ct tag rest. cur_data c = frame_bytes (frame_ty f) (sequence_number f) iv ct tag @ rest \<and> length iv = 12 \<and> length tag = 16 \<and>
       frame_ok (frame_ty f) (sequence_number f) m (length ct) \<and> unat ps = length ct \<and>
       c' = advanced c (length (frame_bytes (frame_ty f) (sequence_number f) iv ct tag)) \<and>
       cur_slice c (frame_iv f) = iv \<and> cur_slice c (frame_ciphertext f) = ct \<and> cur_slice c (frame_authtag f) = tag"
    using i frame_slices [OF i(1,2) f(2)] by - (rule exI [of _ iv], rule exI [of _ ct], rule exI [of _ tag], rule exI [of _ rest], simp)
qed

lemma try_decrypt_body_ends:
  assumes s: "se_state s = ST_DECRYPT_BODY" "se_alg_props s = Some p" "aws_cryptosdk_alg_props j = Some p" "se_frame_size s \<le> UINT32_MAX"
      "buf_len (hdr_message_id (se_header s)) \<le> INT_MAX" and b: "buf_valid b"
  shows "ends (\<lambda>(s', b', i'). same_config s s' \<and> rank (se_state s') \<in> {3..5} \<and> buf_capacity b' = buf_capacity b \<and> buf_valid b' \<and>
        (\<exists>n \<le> cur_len i. i' = advanced i n))
    (\<lambda>(s', b', i'). b' = b \<and> i' = i \<and> (\<exists>x y. s' = s\<lparr>se_in_est := x, se_out_est := y\<rparr>) \<or> next_opened ks tg s b i (s', b', i'))
    (aws_cryptosdk_priv_try_decrypt_body V s b i)"
proof -
  obtain st f cs ps i' where r: "aws_cryptosdk_deserialize_frame (env_lib V) i p (se_frame_size s) = (st, f, cs, ps, i')" by (metis prod_cases5)
  note d = deserialize_frame_result [OF s(3,4) r]
  let ?s = "s\<lparr>se_in_est := cs, se_out_est := ps\<rparr>"
  have c: "same_config s ?s" "\<exists>n \<le> cur_len i. i = advanced i n"
    by (simp add: same_config_def, rule exI [of _ 0], simp)
  show ?thesis
  proof (cases st)
    case (Some e)
    then show ?thesis using d(1) r s c b by (auto simp: aws_cryptosdk_priv_try_decrypt_body_def Let_def)
  next
    case None
    then obtain iv ct tag rest where f: "cur_data i = frame_bytes (frame_ty f) (sequence_number f) iv ct tag @ rest" "length iv = 12" "length tag = 16"
       "frame_ok (frame_ty f) (sequence_number f) (se_frame_size s) (length ct)" "unat ps = length ct"
       "i' = advanced i (length (frame_bytes (frame_ty f) (sequence_number f) iv ct tag))"
       "cur_slice i (frame_iv f) = iv" "cur_slice i (frame_ciphertext f) = ct" "cur_slice i (frame_authtag f) = tag"
      using d(2) by blast
    let ?fb = "frame_bytes (frame_ty f) (sequence_number f) iv ct tag" and ?g = "suite_gcm p (se_content_key s) iv"
    let ?mid = "hdr_message_id (se_header s)"
    have len: "\<exists>n \<le> cur_len i. i' = advanced i n" using f(1,6) by (intro exI [of _ "length ?fb"]) simp
    have adv: "lib_buf_advance (env_lib V) b (length ct) = (if fits b (length ct) then Some (b\<lparr>buf_len := buf_len b + length ct\<rparr>) else None)"
      using buf_advance [OF b] .
    show ?thesis
    proof (cases "se_seqno s = ucast (sequence_number f) \<and> fits b (length ct)")
      case False
      then show ?thesis using r s None c b len adv f(5) by (auto simp: aws_cryptosdk_priv_try_decrypt_body_def Let_def)
    next
      case True
      define out where "out = buf_from_empty_array (take (length ct) (drop (buf_len b) (buf_mem b)))"
      have out: "buf_capacity out = length ct" "buf_len out = 0" "buf_valid out" "buf_capacity out < 2 ^ 64"
        using True f(5) unsigned_less [of ps, where 'a = nat]
        by (auto simp: out_def buf_from_empty_array_def fits_def buf_valid_def min_def)
      have "cur_len (cursor_of ct) = buf_capacity out - buf_len out" using out by (simp add: cursor_of_def)
      from decrypt_body_spec [OF gcm refl this out(3,4) s(5), where props = p and key = "se_content_key s" and iv = iv and
        seqno = "sequence_number f" and tag = tag and ty = "Some (frame_ty f)"]
      obtain rv out' where dec: "aws_cryptosdk_decrypt_body (env_lib V) (env_ssl V) p out (cursor_of ct) ?mid (sequence_number f) iv
          (se_content_key s) tag (Some (frame_ty f)) = Some (rv, out')"
        "rv = None \<longrightarrow> tag_matches p tag (frame_tag tg ?g ?mid (Some (frame_ty f)) (sequence_number f) ct) \<and> out' = written out (ctr_xor (ks ?g) 0 ct)"
        "rv \<noteq> None \<longrightarrow> out' = zeroed out"
        by (auto simp: cursor_of_def)
      have cap: "buf_capacity out' = length ct" using dec(2,3) out by (cases rv) (auto simp: zeroed_def written_def splice_def)
      define b' where "b' = b\<lparr>buf_len := buf_len b + length ct, buf_mem := splice (buf_mem b) (buf_len b) (buf_mem out')\<rparr>"
      have b': "buf_capacity b' = buf_capacity b" "buf_valid b'" using cap True by (simp_all add: b'_def fits_def buf_valid_def)
      have e: "aws_cryptosdk_priv_try_decrypt_body V s b i = (case rv of
          Some e \<Rightarrow> Some (Some e, ?s, b', i')
        | None \<Rightarrow> do { (st, s) \<leftarrow> frame_decrypted V ?s ?fb (frame_ty f); Some (st, s, b', i') })"
        using r s(1,2) None True f(1,5-9) adv dec(1)
        by (simp add: aws_cryptosdk_priv_try_decrypt_body_def Let_def out_def [symmetric] b'_def split: option.splits)
      show ?thesis
      proof (cases rv)
        case (Some x)
        then show ?thesis using e s c len b' by auto
      next
        case None
        let ?pt = "ctr_xor (ks ?g) 0 ct"
        have tag: "tag = frame_tag tg ?g ?mid (Some (frame_ty f)) (sequence_number f) ct"
          using dec(2) None f(3) alg_props_fields(3) [OF s(3)] gcm_tag_length [OF gcm] by (simp add: tag_matches_def frame_tag_def)
        have bw: "b' = written b ?pt"
          using dec(2) None out(1,2) by (simp add: b'_def written_def splice_def)
        have sn: "(ucast (se_seqno s) :: uint32) = sequence_number f" "se_seqno s \<le> UINT32_MAX"
          using True unsigned_less [of "sequence_number f", where 'a = nat] by (simp_all add: word_le_nat_alt)
        have sf: "sealed_frame ks tg p (se_content_key s) ?mid (se_frame_size s) (frame_ty f) (ucast (se_seqno s)) ?fb ?pt"
          unfolding sealed_frame_def sn(1) using f(2,4) tag by blast
        have st: "se_state ?s = ST_DECRYPT_BODY" using s(1) by simp
        show ?thesis
          unfolding e None option.case
        proof (rule ends_map, rule ends_mono [OF frame_decrypted_ends [OF st]])
          show "case (s', b', i') of (s', b', i') \<Rightarrow> same_config s s' \<and> rank (se_state s') \<in> {3..5} \<and> buf_capacity b' = buf_capacity b \<and> buf_valid b' \<and>
              (\<exists>n \<le> cur_len i. i' = advanced i n)" if "same_config ?s s' \<and> rank (se_state s') \<in> {3..5}" for s'
            using that b' len by (simp add: same_config_def)
        next
          fix s'
          assume a: "s' = ?s\<lparr>se_seqno := se_seqno ?s + 1, se_signctx := map_option (\<lambda>c. c\<lparr>sc_data := sc_data c @ ?fb\<rparr>) (se_signctx ?s),
            se_state := (if frame_ty f = FRAME_TYPE_FRAME then ST_DECRYPT_BODY else ST_CHECK_TRAILER)\<rparr>"
          have "next_opened ks tg s b i (s', b', i')"
            unfolding next_opened_def prod.case
            using a sf sn(2) f(1,6) bw True s(2)
            by - (rule exI [of _ "frame_ty f"], rule exI [of _ ?fb], rule exI [of _ ?pt], auto)
          then show "case (s', b', i') of (s', b', i') \<Rightarrow>
              b' = b \<and> i' = i \<and> (\<exists>x y. s' = s\<lparr>se_in_est := x, se_out_est := y\<rparr>) \<or> next_opened ks tg s b i (s', b', i')" by simp
        qed
      qed
    qed
  qed
qed

lemma check_trailer_ends:
  assumes s: "se_state s = ST_CHECK_TRAILER"
  shows "ends (\<lambda>(s', i'). same_config s s' \<and> rank (se_state s') \<in> {4..5} \<and> (\<exists>n \<le> cur_len i. i' = advanced i n))
    (\<lambda>(s', i'). se_signctx s = None \<and> i' = i \<and> s' = s\<lparr>se_out_est := 0, se_in_est := 0, se_state := ST_DONE\<rparr> \<or>
       i' = i \<and> (\<exists>x. s' = s\<lparr>se_out_est := 0, se_in_est := x\<rparr>) \<or> trailer_checked (env_ec V) s i (s', i'))
    (aws_cryptosdk_priv_check_trailer V s i)"
proof (cases "se_signctx s")
  case None
  then show ?thesis using s by (simp add: aws_cryptosdk_priv_check_trailer_def Let_def change_state_ok transition_ok_def)
next
  case (Some c)
  show ?thesis
  proof (cases "2 \<le> cur_len i")
    case False
    then show ?thesis using Some by (auto simp: aws_cryptosdk_priv_check_trailer_def Let_def read_be16)
  next
    case True
    define n where "n = (be_val (take 2 (cur_data i)) :: 16 word)"
    have r: "lib_read_be16 (env_lib V) i = Some (n, advanced i 2)" using True by (simp add: read_be16 n_def)
    show ?thesis
    proof (cases "unat n \<le> cur_len (advanced i 2)")
      case False
      then show ?thesis using Some r by (auto simp: aws_cryptosdk_priv_check_trailer_def Let_def advance)
    next
      case n: True
      define sig where "sig = take (unat n) (drop 2 (cur_data i))"
      have "drop 2 (cur_data i) = sig @ drop (unat n) (drop 2 (cur_data i))" by (simp only: sig_def append_take_drop_id)
      then have sig: "length sig = unat n" "cur_data i = be_bytes 2 n @ sig @ drop (unat n) (drop 2 (cur_data i))"
        using n True be_bytes_16_val [of "take 2 (cur_data i)"] append_take_drop_id [of 2 "cur_data i"]
        by (simp_all add: sig_def n_def)
      from sig(2) obtain rest where rest: "cur_data i = be_bytes 2 n @ sig @ rest" by blast
      have n': "(word_of_nat (length sig) :: 16 word) = n" "length sig \<le> UINT16_MAX"
        using sig(1) unsigned_less [of n, where 'a = nat] by simp_all
      let ?ok = "ec_verify_final (env_ec V) (ek_group (sc_keypair c)) (ek_pub (sc_keypair c)) (sc_md c) (sc_data c) sig"
      let ?s = "s\<lparr>se_out_est := 0, se_in_est := 0\<rparr>" and ?i = "advanced i (2 + unat n)"
      have a: "lib_advance (env_lib V) (advanced i 2) (unat n) = Some (prefix_cur (advanced i 2) (unat n), ?i)"
        using n by (simp add: advance)
      have e: "aws_cryptosdk_priv_check_trailer V s i =
          (if \<not> lib_acquire (env_lib V) (length sig + 1) then Some (Some AWS_ERROR_OOM, ?s, ?i)
           else Some (if ?ok then None else Some AWS_CRYPTOSDK_ERR_BAD_CIPHERTEXT, ?s\<lparr>se_signctx := None\<rparr>, ?i))"
        using Some r a
        by (simp add: aws_cryptosdk_priv_check_trailer_def Let_def aws_string_new_from_array_def sig_def aws_cryptosdk_sig_verify_finish_def)
      have "trailer_checked (env_ec V) s i (?s\<lparr>se_signctx := None\<rparr>, ?i)" if ?ok
        unfolding trailer_checked_def prod.case using that Some rest n' sig(1)
        by - (rule exI [of _ c], rule exI [of _ sig], rule exI [of _ rest], simp)
      moreover have "\<exists>n \<le> cur_len i. ?i = advanced i n" using n True by (intro exI [of _ "2 + unat n"]) simp
      ultimately show ?thesis unfolding e using s by (cases ?ok) (simp_all add: same_config_def)
    qed
  qed
qed

end

end
