(* ===== verification/SessionEncInv.thy ===== *)
theory SessionEncInv
  imports SessionInv
begin

text \<open>
  The steps of encryption: each returns, keeps what the session was configured with, and if it succeeds has the effect that is
  given here. The written header is followed through the two calls of the header writer around the authentication.
\<close>

section \<open>Generating keys\<close>

definition gen_buf :: "bytes \<Rightarrow> byte_buf" where
  "gen_buf bs = \<lparr>buf_mem = bs, buf_len = length bs, buf_owned = True\<rparr>"

lemma gen_buf_simps [simp]:
  "buf_len (gen_buf bs) = length bs" "buf_mem (gen_buf bs) = bs" "buf_valid (gen_buf bs)" "buf_contents (gen_buf bs) = bs"
  by (simp_all add: gen_buf_def buf_valid_def buf_contents_def)

lemma check_enc_materials_ok:
  assumes "check_enc_materials s m = None" "se_alg_props s = aws_cryptosdk_alg_props (em_alg m)"
  obtains p where "se_alg_props s = Some p" "aws_cryptosdk_alg_props (em_alg m) = Some p" "dk_len (em_unencrypted_data_key m) = data_key_len p"
    "em_encrypted_data_keys m \<noteq> []" "se_max_edks s \<noteq> 0 \<longrightarrow> length (em_encrypted_data_keys m) \<le> se_max_edks s"
    "em_signctx m = None \<longleftrightarrow> signature_len p = 0"
    "aws_cryptosdk_priv_algorithm_allowed_for_encrypt (em_alg m) (se_policy s)"
  using assms by (auto simp: check_enc_materials_def Let_def split: option.splits if_splits)

lemma allowed_for_encrypt_commits:
  "aws_cryptosdk_priv_algorithm_allowed_for_encrypt i pol \<Longrightarrow>
     aws_cryptosdk_commitment_policy_encrypt_must_include_commitment pol = aws_cryptosdk_algorithm_is_committing i"
  by (auto simp: aws_cryptosdk_priv_algorithm_allowed_for_encrypt_def aws_cryptosdk_commitment_policy_encrypt_must_include_commitment_def
      split: if_splits)

text \<open>The header with the placeholders, and with the result of the authentication.\<close>

definition hdr_placeholders :: "hdr \<Rightarrow> hdr" where
  "hdr_placeholders h = h\<lparr>hdr_iv := buf_fill (hdr_iv h) 0x42, hdr_auth_tag := buf_fill (hdr_auth_tag h) 0xDE\<rparr>"

definition with_authtag :: "alg_properties \<Rightarrow> hdr \<Rightarrow> bytes \<Rightarrow> hdr" where
  "with_authtag p h bs =
     (if msg_format_version p = AWS_CRYPTOSDK_HEADER_VERSION_1_0
      then h\<lparr>hdr_iv := buf_copy_from (hdr_iv h) bs, hdr_auth_tag := buf_copy_from (hdr_auth_tag h) (drop (buf_len (hdr_iv h)) bs)\<rparr>
      else h\<lparr>hdr_auth_tag := buf_copy_from (hdr_auth_tag h) bs\<rparr>)"

lemma hdr_alloc_kept [simp]:
  "hdr_alloc (hdr_placeholders h) = hdr_alloc h" "hdr_alloc (with_authtag p h bs) = hdr_alloc h"
  by (simp_all add: hdr_placeholders_def with_authtag_def)

text \<open>
  The header \<open>h2\<close> with its bytes \<open>c1\<close>: the header was written to memory with placeholders, authenticated there, and written again with the tag.
\<close>

definition header_signed :: "env \<Rightarrow> session \<Rightarrow> alg_properties \<Rightarrow> nat \<Rightarrow> hdr \<Rightarrow> bytes \<Rightarrow> bool" where
  "header_signed V s p n h2 c1 \<longleftrightarrow> n = hdr_size_t (env_lib V) (se_header s) \<and> n \<noteq> 0 \<and>
     (\<exists>b0 c0 authtag. let m = n - aws_cryptosdk_private_authtag_len p; h1 = hdr_placeholders (se_header s) in
        length b0 = n \<and> aws_cryptosdk_hdr_write (env_lib V) h1 b0 = (None, n, c0) \<and>
        aws_cryptosdk_sign_header (env_ssl V) p (se_content_key s) (buf_from_array (drop m c0)) (take m c0) = Some (None, authtag) \<and>
        h2 = with_authtag p h1 (buf_mem authtag) \<and>
        aws_cryptosdk_hdr_write (env_lib V) h2 (take m c0 @ buf_mem authtag) = (None, n, c1))"

text \<open>The request of a session, and the session that has generated its keys from the materials \<open>m\<close> of its manager.\<close>

definition enc_request_of :: "session \<Rightarrow> enc_request" where
  "enc_request_of s =
     \<lparr>er_enc_ctx = hdr_enc_ctx (se_header s), er_requested_alg = 0,
      er_plaintext_size = (if se_precise_size_known s then se_precise_size s else se_size_bound s), er_commitment_policy = se_policy s\<rparr>"

definition keys_generated :: "env \<Rightarrow> (evp_md \<Rightarrow> bytes \<Rightarrow> bytes \<Rightarrow> bytes) \<Rightarrow> session \<Rightarrow> session \<Rightarrow> bool" where
  "keys_generated V hmac s s' \<longleftrightarrow> (\<exists>m ctx d p mid sd tag a tr k n h c.
     aws_cryptosdk_cmm_generate_enc_materials (the (se_cmm s)) (enc_request_of s) (se_draws s) = (Inr m, ctx, d) \<and>
     aws_cryptosdk_alg_props (em_alg m) = Some p \<and> dk_len (em_unencrypted_data_key m) = data_key_len p \<and>
     em_encrypted_data_keys m \<noteq> [] \<and> (se_max_edks s \<noteq> 0 \<longrightarrow> length (em_encrypted_data_keys m) \<le> se_max_edks s) \<and>
     (em_signctx m = None \<longleftrightarrow> signature_len p = 0) \<and> aws_cryptosdk_priv_algorithm_allowed_for_encrypt (em_alg m) (se_policy s) \<and>
     length mid = aws_cryptosdk_private_algorithm_message_id_len p \<and>
     (data_key_len p \<le> length (dk_contents (em_unencrypted_data_key m)) \<longrightarrow>
        k = spec_content_key hmac p (dk_contents (em_unencrypted_data_key m)) mid) \<and>
     buf_len sd = alg_suite_data_len p \<and>
     (if aws_cryptosdk_algorithm_is_committing (em_alg m)
      then buf_valid sd \<and> buf_contents sd = spec_commitment hmac p (dk_contents (em_unencrypted_data_key m)) mid
      else sd = hdr_alg_suite_data (se_header s)) \<and>
     se_frame_size s \<le> UINT32_MAX \<and> length tag = 16 \<and> length a = 32 \<and>
     (let s1 = s\<lparr>se_draws := Suc d, se_alg_props := Some p, se_signctx := em_signctx m, se_trace := tr, se_cmm_success := True,
            se_content_key := k, se_commitment_arr := a,
            se_header := (se_header s)\<lparr>hdr_enc_ctx := ctx, hdr_message_id := gen_buf mid, hdr_alg_suite_data := sd, hdr_alg_id := em_alg m,
              hdr_frame_len := ucast (se_frame_size s), hdr_edk_list := em_encrypted_data_keys m,
              hdr_iv := gen_buf (replicate 12 0), hdr_auth_tag := gen_buf tag\<rparr>\<rparr>
      in header_signed V s1 p n h c \<and> hdr_alloc h = hdr_alloc (se_header s) \<and>
         s' = s1\<lparr>se_header_size := n, se_header_copy := Some c, se_header := h,
           se_signctx := map_option (\<lambda>sc. sc\<lparr>sc_data := sc_data sc @ take n c\<rparr>) (em_signctx m), se_seqno := 1, se_state := ST_WRITE_HEADER\<rparr>))"

section \<open>Encrypting frames\<close>

definition frame_sealing ::
  "(gcm_id \<Rightarrow> nat \<Rightarrow> byte) \<Rightarrow> (gcm_id \<Rightarrow> bytes \<Rightarrow> bytes \<Rightarrow> bytes) \<Rightarrow> alg_properties \<Rightarrow> content_key \<Rightarrow> byte_buf \<Rightarrow>
   frame_type \<Rightarrow> uint32 \<Rightarrow> bytes \<Rightarrow> bytes" where
  "frame_sealing ks tg p key mid ty sn pt =
     (let iv = frame_iv_bytes p sn; g = suite_gcm p key iv; ct = ctr_xor (ks g) 0 pt
      in frame_bytes ty sn iv ct (frame_tag tg g mid (Some ty) sn ct))"

lemma frame_iv_bytes_length: "iv_len p = 12 \<Longrightarrow> length (frame_iv_bytes p sn) = 12"
  by (simp add: frame_iv_bytes_def)

lemma frame_sealing_sealed:
  assumes "iv_len p = 12" "frame_ok ty sn m (length pt)"
  shows "sealed_frame ks tg p key mid m ty sn (frame_sealing ks tg p key mid ty sn pt) pt"
  unfolding sealed_frame_def frame_sealing_def Let_def using assms frame_iv_bytes_length [OF assms(1)]
  by - (rule exI [of _ "frame_iv_bytes p sn"], rule exI [of _ "ctr_xor (ks (suite_gcm p key (frame_iv_bytes p sn))) 0 pt"], simp)

text \<open>The next frame of the input was sealed into the output.\<close>

definition frame_number :: "session \<Rightarrow> frame_type \<Rightarrow> uint32" where
  "frame_number s ty = (if ty = FRAME_TYPE_SINGLE then 1 else ucast (se_seqno s))"

definition next_sealed ::
  "(gcm_id \<Rightarrow> nat \<Rightarrow> byte) \<Rightarrow> (gcm_id \<Rightarrow> bytes \<Rightarrow> bytes \<Rightarrow> bytes) \<Rightarrow> session \<Rightarrow> byte_buf \<Rightarrow> byte_cursor \<Rightarrow>
   session \<times> byte_buf \<times> byte_cursor \<Rightarrow> bool" where
  "next_sealed ks tg s b i = (\<lambda>(s', b', i'). \<exists>ty n fb x y.
     next_frame s = Some (n, ty) \<and> unat n \<le> cur_len i \<and> se_seqno s \<le> UINT32_MAX \<and>
     fb = frame_sealing ks tg (the (se_alg_props s)) (se_content_key s) (hdr_message_id (se_header s)) ty (frame_number s ty) (take (unat n) (cur_data i)) \<and>
     frame_ok ty (frame_number s ty) (se_frame_size s) (unat n) \<and>
     i' = advanced i (unat n) \<and> fits b (length fb) \<and> buf_mem b' = buf_mem (written b fb) \<and> buf_len b' = buf_len b + length fb \<and>
     s' = s\<lparr>se_out_est := x, se_in_est := y, se_data_so_far := se_data_so_far s + n, se_seqno := se_seqno s + 1,
            se_signctx := map_option (\<lambda>c. c\<lparr>sc_data := sc_data c @ fb\<rparr>) (se_signctx s),
            se_state := (if ty = FRAME_TYPE_FRAME then ST_ENCRYPT_BODY else ST_WRITE_TRAILER)\<rparr>)"

lemma length_mem_slice: "off + n \<le> length mem \<Longrightarrow> length (mem_slice mem (hole off n)) = n"
  by (simp add: mem_slice_def hole_def)

lemma mem_update_hole: "length bs = n \<Longrightarrow> mem_update mem (hole off n) bs = splice mem off bs"
  by (auto simp: mem_update_def hole_def)

lemma mem_update_fill:
  assumes "f' = laid_out f off p n" "length iv = iv_len p" "length ct = n" "length tag = tag_len p" "off + frame_size (frame_ty f) p n \<le> length mem"
  shows "mem_update (mem_update (mem_update mem (frame_ciphertext f') ct) (frame_iv f') iv) (frame_authtag f') tag = fill_frame f' mem iv ct tag"
proof -
  have "splice (splice mem (off + ct_off (frame_ty f) p) ct) (off + iv_off (frame_ty f)) iv =
      splice (splice mem (off + iv_off (frame_ty f)) iv) (off + ct_off (frame_ty f) p) ct"
    using assms by (intro splice_commute) (cases "frame_ty f"; simp add: frame_size_def)+
  then show ?thesis using assms by (simp add: laid_out_def mem_update_hole fill_frame_def hole_def [THEN arg_cong [where f = sl_ptr]])
qed

lemma unat_ucast_64_32: "(w :: uint64) \<le> UINT32_MAX \<Longrightarrow> unat (ucast w :: uint32) = unat w"
  by (simp add: unsigned_ucast_eq take_bit_nat_eq_self word_le_nat_alt)

lemma next_frame_ok:
  assumes "next_frame s = Some (n, ty)" "se_frame_size s \<le> UINT32_MAX" "frame_writable (frame_zero\<lparr>frame_ty := ty, sequence_number := ucast (se_seqno s)\<rparr>) n"
  shows "frame_ok ty (frame_number s ty) (se_frame_size s) (unat n)"
  using assms
  by (auto simp: next_frame_def frame_number_def frame_writable_def word_le_nat_alt word_less_nat_alt split: if_splits)

section \<open>The trailer\<close>

lemma sign_loop_live:
  "(case sign_once E c dg (d + k) of Inl e \<Rightarrow> True | Inr sig \<Rightarrow> length sig = signature_len (sc_props c)) \<Longrightarrow> \<exists>r. sign_loop E c dg d t = Some r"
proof (induction k arbitrary: d t)
  case 0
  have "sign_loop E c dg (Suc d) sig = Some (Inr sig, Suc d)" if "length sig = signature_len (sc_props c)" for sig
    using that by (simp add: sign_loop.simps [of E c dg "Suc d"])
  then show ?case using 0 by (simp add: sign_loop.simps [of E c dg d] split: sum.splits)
next
  case (Suc k)
  have "\<exists>r. sign_loop E c dg (Suc d) sig = Some r" for sig using Suc.IH [of "Suc d"] Suc.prems by simp
  then show ?case by (simp add: sign_loop.simps [of E c dg d] split: sum.split)
qed

lemma sign_finish_returns:
  assumes "sig_live E c"
  shows "\<exists>r. aws_cryptosdk_sig_sign_finish L E d c = Some r"
proof -
  have r: "\<exists>r. sign_loop E c dg d [] = Some r" for dg using assms sign_loop_live unfolding sig_live_def by blast
  have "sign_loop E c dg d [] \<noteq> None" for dg using r [of dg] by auto
  then show ?thesis by (auto simp del: not_None_eq simp: aws_cryptosdk_sig_sign_finish_def split: option.split sum.split)
qed

lemma sig_live_data [simp]: "sig_live E (c\<lparr>sc_data := d\<rparr>) = sig_live E c"
proof -
  have h: "sc_keypair (c\<lparr>sc_data := d\<rparr>) = sc_keypair c" "sc_props (c\<lparr>sc_data := d\<rparr>) = sc_props c" by simp_all
  show ?thesis unfolding sig_live_def sign_once_def h ..
qed

definition trailer_bytes :: "bytes \<Rightarrow> bytes" where
  "trailer_bytes sig = be_bytes 2 (word_of_nat (length sig) :: 16 word) @ sig"

definition trailer_written :: "env \<Rightarrow> session \<Rightarrow> byte_buf \<Rightarrow> session \<times> byte_buf \<Rightarrow> bool" where
  "trailer_written V s b = (\<lambda>(s', b'). \<exists>c sig d. se_signctx s = Some c \<and>
     aws_cryptosdk_sig_sign_finish (env_lib V) (env_ec V) (se_draws s) c = Some (Inr sig, d) \<and>
     fits b (length (trailer_bytes sig)) \<and> b' = written b (trailer_bytes sig) \<and>
     s' = s\<lparr>se_in_est := 0, se_out_est := 0, se_signctx := None, se_draws := d, se_state := ST_DONE\<rparr>)"

context session_env
begin

lemma gen_message_id_ends:
  assumes "se_alg_props s = Some p"
  shows "ends (\<lambda>s'. \<exists>b d. s' = s\<lparr>se_draws := d, se_header := (se_header s)\<lparr>hdr_message_id := b\<rparr>\<rparr>)
    (\<lambda>s'. \<exists>bs. length bs = aws_cryptosdk_private_algorithm_message_id_len p \<and>
       s' = s\<lparr>se_draws := Suc (se_draws s), se_header := (se_header s)\<lparr>hdr_message_id := gen_buf bs\<rparr>\<rparr>)
    (Some (gen_message_id V s))"
proof (cases "lib_buf_init (env_lib V) (aws_cryptosdk_private_algorithm_message_id_len p)")
  case None
  then show ?thesis using assms
    by (auto simp: gen_message_id_def Let_def intro!: exI [where x = "hdr_message_id (se_header s)"] exI [where x = "se_draws s"])
next
  case (Some b)
  note b = buf_init [OF this]
  obtain st bs where g: "aws_cryptosdk_genrandom (env_rand V) (se_draws s) (buf_mem b) = (st, bs)" by fastforce
  show ?thesis
  proof (cases st)
    case None
    have l: "length bs = aws_cryptosdk_private_algorithm_message_id_len p" using genrandom_result [OF rand] g None b by metis
    have "b\<lparr>buf_mem := bs, buf_len := length bs\<rparr> = gen_buf bs" using b by (simp add: gen_buf_def)
    then show ?thesis using Some g None assms l by (auto simp: gen_message_id_def Let_def)
  next
    case (Some e)
    then show ?thesis using \<open>lib_buf_init _ _ = _\<close> g assms by (auto simp: gen_message_id_def Let_def)
  qed
qed

lemma derive_enc_key_ends:
  assumes p: "se_alg_props s = Some p" "aws_cryptosdk_alg_props i = Some p"
    and mid: "hdr_message_id (se_header s) = gen_buf mb" "length mb = aws_cryptosdk_private_algorithm_message_id_len p"
    and arr: "length (se_commitment_arr s) = 32"
    and pol: "aws_cryptosdk_commitment_policy_encrypt_must_include_commitment (se_policy s) = aws_cryptosdk_algorithm_is_committing i"
  defines "Q k sd a s' \<equiv> length a = 32 \<and>
     s' = s\<lparr>se_content_key := k, se_header := (se_header s)\<lparr>hdr_alg_suite_data := sd\<rparr>, se_commitment_arr := a\<rparr>"
  shows "ends (\<lambda>s'. \<exists>k sd a. Q k sd a s')
    (\<lambda>s'. \<exists>k sd a. Q k sd a s' \<and> buf_len sd = alg_suite_data_len p \<and>
       (aws_cryptosdk_algorithm_is_committing i \<longrightarrow> buf_valid sd \<and> buf_contents sd = spec_commitment hmac p dk mb) \<and>
       (\<not> aws_cryptosdk_algorithm_is_committing i \<longrightarrow> sd = hdr_alg_suite_data (se_header s)) \<and>
       (data_key_len p \<le> length dk \<longrightarrow> k = spec_content_key hmac p dk mb))
    (Some (derive_enc_key V s dk))"
proof (cases "aws_cryptosdk_algorithm_is_committing i")
  case True
  let ?c = "buf_from_array (take 32 (se_commitment_arr s))" and ?v = "spec_commitment hmac p dk mb"
  note f = alg_props_fields [OF p(2)]
  have l: "length ?v = 32" unfolding spec_commitment_def by (rule length_rfc5869 [OF hkdf])
  have mid': "buf_len (hdr_message_id (se_header s)) = MSG_ID_LEN_V2"
    using mid True f by (simp add: aws_cryptosdk_private_algorithm_message_id_len_def)
  have c: "32 \<le> buf_capacity ?c" using arr by (simp add: buf_from_array_def)
  let ?sd = "?c\<lparr>buf_mem := splice (buf_mem ?c) 0 ?v, buf_len := 32\<rparr>"
  have d: "aws_cryptosdk_private_derive_key (env_lib V) (env_ssl V) p (se_content_key s) dk ?c (hdr_message_id (se_header s)) =
      (None, spec_content_key hmac p dk mb, ?sd)"
    using derive_key_v2_eq [OF hkdf p(2) True mid' c] f True mid(1) by (simp add: aws_cryptosdk_private_derive_key_def)
  have sd: "buf_len ?sd = 32" "buf_valid ?sd" "buf_contents ?sd = ?v"
    using l arr by (auto simp: buf_from_array_def buf_valid_def buf_contents_def splice_def)
  have a: "length (splice (se_commitment_arr s) 0 (buf_mem ?sd)) = 32" using l arr by (simp add: buf_from_array_def splice_def)
  have e: "derive_enc_key V s dk = (None, s\<lparr>se_content_key := spec_content_key hmac p dk mb,
      se_header := (se_header s)\<lparr>hdr_alg_suite_data := ?sd\<rparr>, se_commitment_arr := splice (se_commitment_arr s) 0 (buf_mem ?sd)\<rparr>)"
    unfolding derive_enc_key_def Let_def using p(1) pol True f d by simp
  show ?thesis
    unfolding e ends_Some if_P [OF refl] Q_def using a sd True f
    by - (rule exI [of _ "spec_content_key hmac p dk mb"], rule exI [of _ ?sd], rule exI [of _ "splice (se_commitment_arr s) 0 (buf_mem ?sd)"], simp)
next
  case False
  let ?sd = "hdr_alg_suite_data (se_header s)"
  note f = alg_props_fields [OF p(2)]
  obtain st k where d: "aws_cryptosdk_private_derive_key (env_lib V) (env_ssl V) p (se_content_key s) dk ?sd (hdr_message_id (se_header s)) =
      (st, k, ?sd)" "st = None \<Longrightarrow> buf_len ?sd = 0"
    using f(8) False
    by (cases "aws_cryptosdk_private_derive_key_v1 (env_lib V) (env_ssl V) p (se_content_key s) dk (hdr_message_id (se_header s))";
        cases "buf_len ?sd = 0") (auto simp: aws_cryptosdk_private_derive_key_def)
  have k: "k = spec_content_key hmac p dk mb" if "st = None" "data_key_len p \<le> length dk"
    using derive_key_eq [OF hkdf p(2) that(2), of "hdr_message_id (se_header s)" ?sd "env_lib V" "se_content_key s"] d that(1) False mid by simp
  let ?s = "s\<lparr>se_content_key := k, se_header := (se_header s)\<lparr>hdr_alg_suite_data := ?sd\<rparr>, se_commitment_arr := se_commitment_arr s\<rparr>"
  obtain st' where e: "st' = None \<longleftrightarrow> st = None" "derive_enc_key V s dk = (st', ?s)"
    using p(1) pol False d by (cases st) (auto simp: derive_enc_key_def Let_def)
  have q: "Q k ?sd (se_commitment_arr s) ?s" unfolding Q_def using arr by simp
  have "\<exists>k sd a. Q k sd a ?s" using q by blast
  moreover have "\<exists>k sd a. Q k sd a ?s \<and> buf_len sd = alg_suite_data_len p \<and>
       (aws_cryptosdk_algorithm_is_committing i \<longrightarrow> buf_valid sd \<and> buf_contents sd = spec_commitment hmac p dk mb) \<and>
       (\<not> aws_cryptosdk_algorithm_is_committing i \<longrightarrow> sd = ?sd) \<and> (data_key_len p \<le> length dk \<longrightarrow> k = spec_content_key hmac p dk mb)"
    if "st = None"
    using q d(2) [OF that] k [OF that] f(9) False
    by - (rule exI [of _ k], rule exI [of _ ?sd], rule exI [of _ "se_commitment_arr s"], simp)
  ultimately show ?thesis unfolding e(2) ends_Some e(1) by simp
qed

lemma build_header_ends:
  assumes p: "se_alg_props s = Some p"
  shows "ends (\<lambda>s'. \<exists>h. hdr_alloc h = hdr_alloc (se_header s) \<and> s' = s\<lparr>se_header := h\<rparr>)
    (\<lambda>s'. se_frame_size s \<le> UINT32_MAX \<and> (\<exists>tag. length tag = tag_len p \<and>
       s' = s\<lparr>se_header := (se_header s)\<lparr>hdr_alg_id := alg_id p, hdr_frame_len := ucast (se_frame_size s),
         hdr_edk_list := em_encrypted_data_keys m, hdr_iv := gen_buf (replicate (iv_len p) 0), hdr_auth_tag := gen_buf tag\<rparr>\<rparr>))
    (Some (build_header V s m))"
proof -
  have iv: "b\<lparr>buf_mem := splice (buf_mem b) 0 (replicate n 0), buf_len := length (splice (buf_mem b) 0 (replicate n 0))\<rparr> = gen_buf (replicate n 0)"
    if "lib_buf_init (env_lib V) n = Some b" for n b
    using buf_init [OF that] by (simp add: gen_buf_def splice_def)
  have tag: "b\<lparr>buf_len := length (buf_mem b)\<rparr> = gen_buf (buf_mem b)" "length (buf_mem b) = n"
    if "lib_buf_init (env_lib V) n = Some b" for n b
    using buf_init [OF that] by (simp_all add: gen_buf_def)
  have E: "\<exists>h'. hdr_alloc h' = hdr_alloc (se_header s) \<and> s\<lparr>se_header := h\<rparr> = s\<lparr>se_header := h'\<rparr>"
    if "hdr_alloc h = hdr_alloc (se_header s)" for h
    using that by blast
  show ?thesis
    using p iv tag by (auto simp: build_header_def Let_def not_less intro!: E split: option.splits) blast
qed

lemma write_header_copy_ends:
  assumes "se_header_copy s = Some c0"
  shows "ends (\<lambda>s'. \<exists>c. s' = s\<lparr>se_header_copy := Some c\<rparr>)
    (\<lambda>s'. \<exists>c. aws_cryptosdk_hdr_write (env_lib V) (se_header s) c0 = (None, se_header_size s, c) \<and> s' = s\<lparr>se_header_copy := Some c\<rparr>)
    (Some (write_header_copy V s))"
  using assms by (auto simp: write_header_copy_def Let_def split: prod.splits option.splits)

lemma authenticate_header_ends:
  assumes p: "se_alg_props s = Some p" and c0: "se_header_copy s = Some c0" and n: "n = se_header_size s - aws_cryptosdk_private_authtag_len p"
  shows "ends (\<lambda>s'. \<exists>c. s' = s\<lparr>se_header_copy := Some c\<rparr>)
    (\<lambda>s'. \<exists>authtag. aws_cryptosdk_sign_header (env_ssl V) p (se_content_key s) (buf_from_array (drop n c0)) (take n c0) = Some (None, authtag) \<and>
       s' = s\<lparr>se_header_copy := Some (take n c0 @ buf_mem authtag), se_header := with_authtag p (se_header s) (buf_mem authtag)\<rparr>)
    (authenticate_header V s)"
proof -
  obtain st authtag where
    "aws_cryptosdk_sign_header (env_ssl V) p (se_content_key s) (buf_from_array (drop n c0)) (take n c0) = Some (st, authtag)"
    using sign_header_returns [OF gcm] by fast
  then show ?thesis using p c0 unfolding n by (cases st) (auto simp: authenticate_header_def with_authtag_def Let_def)
qed

lemma sign_message_header_ends:
  assumes "se_header_copy s = Some c"
  shows "ends (\<lambda>s'. \<exists>sc. s' = s\<lparr>se_signctx := sc\<rparr>)
    (\<lambda>s'. s' = s\<lparr>se_signctx := map_option (\<lambda>sc. sc\<lparr>sc_data := sc_data sc @ take (se_header_size s) c\<rparr>) (se_signctx s)\<rparr>)
    (Some (sign_message_header V s))"
proof (cases "se_signctx s")
  case None
  then have "s = s\<lparr>se_signctx := None\<rparr>" by simp
  then show ?thesis using None by (simp add: sign_message_header_def)
next
  case (Some sc)
  obtain st sc' where "aws_cryptosdk_sig_update (env_ec V) sc (take (se_header_size s) c) = (st, sc')" by force
  then show ?thesis
    using Some assms sig_update_result [of "env_ec V" sc "take (se_header_size s) c" sc'] by (auto simp: sign_message_header_def)
qed

text \<open>Sessions that differ in the header and what depends on it.\<close>

lemma session_sign_header_ends:
  assumes s: "se_state s = ST_GEN_KEY" "se_mode s = AWS_CRYPTOSDK_ENCRYPT" and p: "se_alg_props s = Some p"
  defines "E s' \<equiv> \<exists>n c h sc. hdr_alloc h = hdr_alloc (se_header s) \<and>
     s' = s\<lparr>se_header_size := n, se_header_copy := c, se_header := h, se_signctx := sc\<rparr>"
  shows "ends E (\<lambda>s'. \<exists>n h c. header_signed V s p n h c \<and> hdr_alloc h = hdr_alloc (se_header s) \<and>
       s' = s\<lparr>se_header_size := n, se_header_copy := Some c, se_header := h,
         se_signctx := map_option (\<lambda>sc. sc\<lparr>sc_data := sc_data sc @ take n c\<rparr>) (se_signctx s), se_seqno := 1, se_state := ST_WRITE_HEADER\<rparr>)
    (session_sign_header V s)"
proof -
  define n where "n = hdr_size_t (env_lib V) (se_header s)"
  have E: "E (s\<lparr>se_header_size := n, se_header_copy := c, se_header := h, se_signctx := sc\<rparr>)"
    if "hdr_alloc h = hdr_alloc (se_header s)" for c h sc
    unfolding E_def using that by blast
  have E0: "E (s\<lparr>se_header_size := n\<rparr>)"
    using E [where c = "se_header_copy s" and h = "se_header s" and sc = "se_signctx s"] by simp
  have swap: "s\<lparr>se_header_size := n, se_header := h, se_header_copy := c\<rparr> = s\<lparr>se_header_size := n, se_header_copy := c, se_header := h\<rparr>" for c h
    by simp
  have E1: "E (s\<lparr>se_header_size := n, se_header_copy := c, se_header := h\<rparr>)" "E (s\<lparr>se_header_size := n, se_header := h, se_header_copy := c\<rparr>)"
    if "hdr_alloc h = hdr_alloc (se_header s)" for c h
    unfolding swap using E [where c = c and h = h and sc = "se_signctx s"] that by simp_all
  show ?thesis
  proof (cases "n = 0 \<or> lib_buf_init (env_lib V) n = None")
    case True
    then show ?thesis using E0 by (auto simp: session_sign_header_def Let_def n_def)
  next
    case False
    then obtain b where n: "n \<noteq> 0" and b: "lib_buf_init (env_lib V) n = Some b" by auto
    let ?h1 = "hdr_placeholders (se_header s)"
    let ?u = "\<lambda>c h. s\<lparr>se_header_size := n, se_header_copy := Some c, se_header := h\<rparr>"
    let ?P2 = "\<lambda>s2. \<exists>c0. aws_cryptosdk_hdr_write (env_lib V) ?h1 (buf_mem b) = (None, n, c0) \<and> s2 = ?u c0 ?h1"
    let ?P3 = "\<lambda>s3. \<exists>h c. (\<forall>c'. aws_cryptosdk_hdr_write (env_lib V) h c = (None, n, c') \<longrightarrow> header_signed V s p n h c') \<and>
        hdr_alloc h = hdr_alloc (se_header s) \<and> s3 = ?u c h"
    let ?P4 = "\<lambda>s4. \<exists>h c. header_signed V s p n h c \<and> hdr_alloc h = hdr_alloc (se_header s) \<and> s4 = ?u c h"
    let ?P5 = "\<lambda>s5. \<exists>h c. header_signed V s p n h c \<and> hdr_alloc h = hdr_alloc (se_header s) \<and>
        s5 = (?u c h)\<lparr>se_signctx := map_option (\<lambda>sc. sc\<lparr>sc_data := sc_data sc @ take n c\<rparr>) (se_signctx s)\<rparr>"
    have 1: "ends E ?P2 (Some (write_header_copy V (?u (buf_mem b) ?h1)))"
      by (rule ends_mono [OF write_header_copy_ends]) (auto simp: E1)
    have 2: "ends E ?P3 (authenticate_header V s2)" if s2: "?P2 s2" for s2
    proof -
      obtain c0 where c0: "aws_cryptosdk_hdr_write (env_lib V) ?h1 (buf_mem b) = (None, n, c0)" "s2 = ?u c0 ?h1" using s2 by blast
      have l: "length (buf_mem b) = n" using buf_init [OF b] by simp
      show ?thesis
      proof (rule ends_mono [OF authenticate_header_ends [of s2 p c0 "n - aws_cryptosdk_private_authtag_len p"]])
        fix s3
        let ?m = "n - aws_cryptosdk_private_authtag_len p"
        assume "\<exists>authtag. aws_cryptosdk_sign_header (env_ssl V) p (se_content_key s2) (buf_from_array (drop ?m c0)) (take ?m c0) = Some (None, authtag) \<and>
          s3 = s2\<lparr>se_header_copy := Some (take ?m c0 @ buf_mem authtag), se_header := with_authtag p (se_header s2) (buf_mem authtag)\<rparr>"
        then obtain authtag where a:
          "aws_cryptosdk_sign_header (env_ssl V) p (se_content_key s) (buf_from_array (drop ?m c0)) (take ?m c0) = Some (None, authtag)"
          "s3 = ?u (take ?m c0 @ buf_mem authtag) (with_authtag p ?h1 (buf_mem authtag))"
          unfolding c0(2) by auto
        have "header_signed V s p n (with_authtag p ?h1 (buf_mem authtag)) c'"
          if "aws_cryptosdk_hdr_write (env_lib V) (with_authtag p ?h1 (buf_mem authtag)) (take ?m c0 @ buf_mem authtag) = (None, n, c')" for c'
          unfolding header_signed_def Let_def using n l c0(1) a(1) that by (auto simp: n_def)
        then show "?P3 s3" unfolding a(2) by - (rule exI, rule exI, rule conjI, blast, rule conjI, simp, rule refl)
      qed (use c0 p in \<open>auto intro: E1\<close>)
    qed
    have 3: "ends E ?P4 (Some (write_header_copy V s3))" if s3: "?P3 s3" for s3
    proof -
      obtain h c where h: "\<And>c'. aws_cryptosdk_hdr_write (env_lib V) h c = (None, n, c') \<Longrightarrow> header_signed V s p n h c'"
        "hdr_alloc h = hdr_alloc (se_header s)" "s3 = ?u c h" using s3 by blast
      have "?P4 ((?u c h)\<lparr>se_header_copy := Some c'\<rparr>)" if "aws_cryptosdk_hdr_write (env_lib V) h c = (None, n, c')" for c'
        using h(1) [OF that] h(2) by - (rule exI [of _ h], rule exI [of _ c'], simp)
      then show ?thesis unfolding h(3) by - (rule ends_mono [OF write_header_copy_ends [of _ c]], simp, use h(2) E1 in force, force)
    qed
    have 4: "ends E ?P5 (Some (sign_message_header V s4))" if s4: "?P4 s4" for s4
    proof -
      obtain h c where h: "header_signed V s p n h c" "hdr_alloc h = hdr_alloc (se_header s)" "s4 = ?u c h" using s4 by blast
      show ?thesis unfolding h(3)
        by (rule ends_mono [OF sign_message_header_ends]) (use h(1,2) E in \<open>auto\<close>)
    qed
    have 5: "ends E (\<lambda>s'. \<exists>n h c. header_signed V s p n h c \<and> hdr_alloc h = hdr_alloc (se_header s) \<and>
       s' = s\<lparr>se_header_size := n, se_header_copy := Some c, se_header := h,
         se_signctx := map_option (\<lambda>sc. sc\<lparr>sc_data := sc_data sc @ take n c\<rparr>) (se_signctx s), se_seqno := 1, se_state := ST_WRITE_HEADER\<rparr>)
      (do { s \<leftarrow> aws_cryptosdk_priv_session_change_state (s5\<lparr>se_seqno := 1\<rparr>) ST_WRITE_HEADER; Some (AWS_OP_SUCCESS, s) })" if "?P5 s5" for s5
      using that s n by (auto simp: change_state_ok transition_ok_def) blast+
    have e: "session_sign_header V s =
        and_then (Some (write_header_copy V (?u (buf_mem b) ?h1))) (\<lambda>s.
        and_then (authenticate_header V s) (\<lambda>s.
        and_then (Some (write_header_copy V s)) (\<lambda>s.
        and_then (Some (sign_message_header V s)) (\<lambda>s. do {
          s \<leftarrow> aws_cryptosdk_priv_session_change_state (s\<lparr>se_seqno := 1\<rparr>) ST_WRITE_HEADER; Some (AWS_OP_SUCCESS, s) }))))"
      using n b by (simp add: session_sign_header_def Let_def n_def hdr_placeholders_def)
    show ?thesis unfolding e by (intro ends_and_then [OF 1] ends_and_then [OF 2] ends_and_then [OF 3] ends_and_then [OF 4] 5)
  qed
qed

text \<open>The session that has generated its keys from the materials \<open>m\<close>.\<close>

lemma try_gen_key_ends:
  assumes s: "se_state s = ST_GEN_KEY" "se_mode s = AWS_CRYPTOSDK_ENCRYPT" and arr: "length (se_commitment_arr s) = 32"
  shows "ends (\<lambda>s'. same_config s s' \<and> rank (se_state s') \<in> {1..5}) (\<lambda>s'. same_config s s' \<and> keys_generated V hmac s s') (aws_cryptosdk_priv_try_gen_key V s)"
proof -
  let ?E = "\<lambda>s'. same_config s s' \<and> rank (se_state s') \<in> {1..5}"
  define rq where "rq = enc_request_of s"
  obtain r ctx d where g: "aws_cryptosdk_cmm_generate_enc_materials (the (se_cmm s)) rq (se_draws s) = (r, ctx, d)" by (metis prod_cases3)
  define s1 where "s1 = s\<lparr>se_header := (se_header s)\<lparr>hdr_enc_ctx := ctx\<rparr>, se_draws := d\<rparr>"
  show ?thesis
  proof (cases r)
    case (Inl e)
    then show ?thesis using g s by (simp add: aws_cryptosdk_priv_try_gen_key_def rq_def enc_request_of_def same_config_def)
  next
    case (Inr m)
    obtain st tr sr where tr: "aws_cryptosdk_transfer_list (env_lib V) (se_trace s) (em_keyring_trace m) = (st, tr, sr)" by (metis prod_cases3)
    define s2 where "s2 = s1\<lparr>se_alg_props := aws_cryptosdk_alg_props (em_alg m)\<rparr>"
    let ?dk = "dk_contents (em_unencrypted_data_key m)"
    define s3 where "s3 = s2\<lparr>se_signctx := em_signctx m, se_trace := tr, se_cmm_success := True\<rparr>"
    have e: "aws_cryptosdk_priv_try_gen_key V s = (case check_enc_materials s2 m of Some x \<Rightarrow> Some (Some x, s2)
      | None \<Rightarrow> and_then (Some (gen_message_id V s3)) (\<lambda>s.
           and_then (Some (derive_enc_key V s ?dk)) (\<lambda>s. and_then (Some (build_header V s m)) (\<lambda>s. session_sign_header V s))))"
      using g tr Inr
      by (simp add: aws_cryptosdk_priv_try_gen_key_def Let_def rq_def enc_request_of_def s1_def s2_def s3_def and_then_def split: option.split)
    show ?thesis
    proof (cases "check_enc_materials s2 m")
      case (Some x)
      then show ?thesis unfolding e using s by (simp add: same_config_def s2_def s1_def)
    next
      case None
      obtain p where p: "aws_cryptosdk_alg_props (em_alg m) = Some p" "dk_len (em_unencrypted_data_key m) = data_key_len p"
        "em_encrypted_data_keys m \<noteq> []" "se_max_edks s \<noteq> 0 \<longrightarrow> length (em_encrypted_data_keys m) \<le> se_max_edks s"
        "em_signctx m = None \<longleftrightarrow> signature_len p = 0" "aws_cryptosdk_priv_algorithm_allowed_for_encrypt (em_alg m) (se_policy s)"
        using check_enc_materials_ok [OF None] by (auto simp: s2_def s1_def)
      note f = alg_props_fields [OF p(1)] and pol = allowed_for_encrypt_commits [OF p(6)]
      let ?h = "\<lambda>mid sd. (se_header s)\<lparr>hdr_enc_ctx := ctx, hdr_message_id := gen_buf mid, hdr_alg_suite_data := sd\<rparr>"
      let ?s = "s\<lparr>se_draws := Suc d, se_alg_props := Some p, se_signctx := em_signctx m, se_trace := tr, se_cmm_success := True\<rparr>"
      let ?s4 = "\<lambda>mid. ?s\<lparr>se_header := ?h mid (hdr_alg_suite_data (se_header s))\<rparr>"
      let ?s5 = "\<lambda>mid sd k a. ?s\<lparr>se_content_key := k, se_commitment_arr := a, se_header := ?h mid sd\<rparr>"
      let ?s6 = "\<lambda>mid sd k a tag. ?s\<lparr>se_content_key := k, se_commitment_arr := a, se_header := (?h mid sd)\<lparr>hdr_alg_id := em_alg m,
          hdr_frame_len := ucast (se_frame_size s), hdr_edk_list := em_encrypted_data_keys m,
          hdr_iv := gen_buf (replicate 12 0), hdr_auth_tag := gen_buf tag\<rparr>\<rparr>"
      let ?Q = "\<lambda>mid sd k a. length mid = aws_cryptosdk_private_algorithm_message_id_len p \<and> length a = 32 \<and>
         (data_key_len p \<le> length ?dk \<longrightarrow> k = spec_content_key hmac p ?dk mid) \<and> buf_len sd = alg_suite_data_len p \<and>
         (if aws_cryptosdk_algorithm_is_committing (em_alg m) then buf_valid sd \<and> buf_contents sd = spec_commitment hmac p ?dk mid
          else sd = hdr_alg_suite_data (se_header s))"
      let ?P4 = "\<lambda>x. \<exists>mid. length mid = aws_cryptosdk_private_algorithm_message_id_len p \<and> x = ?s4 mid"
      let ?P5 = "\<lambda>x. \<exists>mid sd k a. ?Q mid sd k a \<and> x = ?s5 mid sd k a"
      let ?P6 = "\<lambda>x. \<exists>mid sd k a tag. ?Q mid sd k a \<and> se_frame_size s \<le> UINT32_MAX \<and> length tag = 16 \<and> x = ?s6 mid sd k a tag"
      have s3: "se_alg_props s3 = Some p" by (simp add: s3_def s2_def p)
      have 1: "ends ?E ?P4 (Some (gen_message_id V s3))"
        by (rule ends_mono [OF gen_message_id_ends [OF s3]]) (use s p in \<open>auto simp: same_config_def s3_def s2_def s1_def\<close>)
      have 2: "ends ?E ?P5 (Some (derive_enc_key V x ?dk))" if x: "?P4 x" for x
      proof -
        obtain mid where mid: "length mid = aws_cryptosdk_private_algorithm_message_id_len p" "x = ?s4 mid" using x by blast
        have "?P5 (?s4 mid\<lparr>se_content_key := k, se_header := (se_header (?s4 mid))\<lparr>hdr_alg_suite_data := sd\<rparr>, se_commitment_arr := a\<rparr>)"
          if "?Q mid sd k a" for sd k a
          by (rule exI [of _ mid], rule exI [of _ sd], rule exI [of _ k], rule exI [of _ a], rule conjI [OF that]) simp
        then have S: "?Q mid sd k a \<Longrightarrow>
            x = ?s4 mid\<lparr>se_content_key := k, se_header := (se_header (?s4 mid))\<lparr>hdr_alg_suite_data := sd\<rparr>, se_commitment_arr := a\<rparr> \<Longrightarrow> ?P5 x"
          for sd k a x by blast
        show ?thesis
          unfolding mid(2)
        proof (rule ends_mono [OF derive_enc_key_ends [of _ p "em_alg m" mid]], goal_cases)
          case (7 x) then show ?case using s arr by (elim exE conjE) (simp add: same_config_def)
        next
          case (8 x) then show ?case using mid(1) by (elim exE conjE) (rule S, auto)
        qed (use p(1) pol mid(1) arr in simp_all)
      qed
      have 3: "ends ?E ?P6 (Some (build_header V x m))" if x: "?P5 x" for x
      proof -
        obtain mid sd k a where q: "?Q mid sd k a" "x = ?s5 mid sd k a" using x by blast
        have S: "?P6 x" if "se_frame_size s \<le> UINT32_MAX" "length tag = 16" "x = ?s6 mid sd k a tag" for tag x
          by (rule exI [of _ mid], rule exI [of _ sd], rule exI [of _ k], rule exI [of _ a], rule exI [of _ tag]) (intro conjI that q(1))
        show ?thesis
          unfolding q(2)
        proof (rule ends_mono [OF build_header_ends [of _ p]], goal_cases)
          case (2 x) then show ?case using s arr q(1) by (elim exE conjE) (simp add: same_config_def)
        next
          case (3 x) then show ?case by (elim exE conjE) (rule S, simp_all add: f(1-3))
        qed simp
      qed
      have 4: "ends ?E (\<lambda>s'. same_config s s' \<and> keys_generated V hmac s s') (session_sign_header V x)" if x: "?P6 x" for x
      proof -
        obtain mid sd k a tag where q: "?Q mid sd k a" "se_frame_size s \<le> UINT32_MAX" "length tag = 16" "x = ?s6 mid sd k a tag" using x by blast
        have gen: "aws_cryptosdk_cmm_generate_enc_materials (the (se_cmm s)) (enc_request_of s) (se_draws s) = (Inr m, ctx, d)"
          using g Inr by (simp add: rq_def)
        have S: "same_config s s' \<and> keys_generated V hmac s s'"
          if "header_signed V x p n h c" "hdr_alloc h = hdr_alloc (se_header s)"
            "s' = x\<lparr>se_header_size := n, se_header_copy := Some c, se_header := h,
               se_signctx := map_option (\<lambda>sc. sc\<lparr>sc_data := sc_data sc @ take n c\<rparr>) (em_signctx m), se_seqno := 1, se_state := ST_WRITE_HEADER\<rparr>"
          for s' n h c
        proof
          show "same_config s s'" using that(2,3) q arr by (simp add: same_config_def)
          show "keys_generated V hmac s s'"
            unfolding keys_generated_def Let_def q(4) [symmetric]
            by (rule exI [of _ m], rule exI [of _ ctx], rule exI [of _ d], rule exI [of _ p], rule exI [of _ mid], rule exI [of _ sd], rule exI [of _ tag],
                rule exI [of _ a], rule exI [of _ tr], rule exI [of _ k], rule exI [of _ n], rule exI [of _ h], rule exI [of _ c],
                unfold q(4) [symmetric]) (use gen p q(1-3) that in blast)
        qed
        have x': "se_state x = ST_GEN_KEY" "se_mode x = AWS_CRYPTOSDK_ENCRYPT" "se_alg_props x = Some p" "hdr_alloc (se_header x) = hdr_alloc (se_header s)"
            "se_signctx x = em_signctx m"
          using s by (simp_all add: q(4))
        show ?thesis
        proof (rule ends_mono [OF session_sign_header_ends [OF x'(1-3)]], goal_cases)
          case (1 y) then show ?case using s arr q(1,4) by (elim exE conjE) (simp add: same_config_def)
        next
          case (2 y) then show ?case unfolding x'(4,5) by (elim exE conjE) (rule S)
        qed
      qed
      have e': "aws_cryptosdk_priv_try_gen_key V s = and_then (Some (gen_message_id V s3)) (\<lambda>s.
           and_then (Some (derive_enc_key V s ?dk)) (\<lambda>s. and_then (Some (build_header V s m)) (\<lambda>s. session_sign_header V s)))"
        unfolding e using None by simp
      show ?thesis unfolding e' by (intro ends_and_then [OF 1] ends_and_then [OF 2] ends_and_then [OF 3] 4)
    qed
  qed
qed

lemma try_write_header_ends:
  assumes s: "se_state s = ST_WRITE_HEADER" "se_alg_props s \<noteq> None" "se_seqno s \<noteq> 0" "se_header_copy s = Some c" and b: "buf_valid b"
  defines "hb \<equiv> take (se_header_size s) c"
  shows "ends (\<lambda>x. False) (\<lambda>(s', b'). \<exists>x. b' = b \<and> s' = s\<lparr>se_out_est := x\<rparr> \<or>
      fits b (length hb) \<and> b' = written b hb \<and> s' = s\<lparr>se_out_est := x, se_state := ST_ENCRYPT_BODY\<rparr>)
    (aws_cryptosdk_priv_try_write_header V s b)"
  using s b buf_write [OF b, of hb]
  by (cases "fits b (length hb)") (auto simp: aws_cryptosdk_priv_try_write_header_def Let_def hb_def change_state_ok transition_ok_def)

lemma frame_encrypted_ends:
  assumes s: "se_state s = ST_ENCRYPT_BODY" and o: "buf_mem out = splice (buf_mem b) (buf_len b) fb" "buf_len out = buf_len b + length fb" "fits b (length fb)"
  shows "ends (\<lambda>(s', b', i'). same_config s s' \<and> se_state s' = ST_ENCRYPT_BODY \<and> buf_capacity b' = buf_capacity b \<and> buf_len b' = buf_len b \<and> i' = i)
    (\<lambda>(s', b', i'). b' = out \<and> i' = j \<and> s' = s\<lparr>se_data_so_far := se_data_so_far s + n, se_seqno := se_seqno s + 1,
       se_signctx := map_option (\<lambda>c. c\<lparr>sc_data := sc_data c @ fb\<rparr>) (se_signctx s),
       se_state := (if ty = FRAME_TYPE_FRAME then ST_ENCRYPT_BODY else ST_WRITE_TRAILER)\<rparr>)
    (frame_encrypted V s b out i j n ty)"
proof -
  have cap: "length (buf_mem out) = buf_capacity b" using o(1,3) by (simp add: fits_def)
  have fb: "take (buf_len out - buf_len b) (drop (buf_len b) (buf_mem out)) = fb"
    using o by (simp add: fits_def range_splice_same)
  let ?f = "\<lambda>sc. let s = s\<lparr>se_signctx := sc, se_data_so_far := se_data_so_far s + n, se_seqno := se_seqno s + 1\<rparr>
      in if ty \<noteq> FRAME_TYPE_FRAME then do { s \<leftarrow> aws_cryptosdk_priv_session_change_state s ST_WRITE_TRAILER; Some (AWS_OP_SUCCESS, s, out, j) }
         else Some (AWS_OP_SUCCESS, s, out, j)"
  have f: "?f sc = Some (None, s\<lparr>se_data_so_far := se_data_so_far s + n, se_seqno := se_seqno s + 1, se_signctx := sc,
      se_state := (if ty = FRAME_TYPE_FRAME then ST_ENCRYPT_BODY else ST_WRITE_TRAILER)\<rparr>, out, j)" for sc
    using s by (cases s) (simp add: change_state_ok transition_ok_def)
  show ?thesis
  proof (cases "se_signctx s")
    case None
    have e: "frame_encrypted V s b out i j n ty = ?f None" using None by (simp add: frame_encrypted_def Let_def)
    show ?thesis unfolding e f using None by simp
  next
    case (Some c)
    obtain st c' where u: "aws_cryptosdk_sig_update (env_ec V) c fb = (st, c')" by force
    show ?thesis
    proof (cases st)
      case None
      have e: "frame_encrypted V s b out i j n ty = ?f (Some c')" using Some u None fb by (simp add: frame_encrypted_def Let_def)
      show ?thesis unfolding e f using Some u None sig_update_result [of "env_ec V" c fb c'] by simp
    next
      case (Some x)
      then have e: "frame_encrypted V s b out i j n ty = Some (Some AWS_CRYPTOSDK_ERR_CRYPTO_UNKNOWN, s\<lparr>se_signctx := Some c'\<rparr>,
          b\<lparr>buf_mem := splice (buf_mem out) (buf_len b) (replicate (buf_len out - buf_len b) 0)\<rparr>, i)"
        using \<open>se_signctx s = Some c\<close> u fb by (simp add: frame_encrypted_def Let_def)
      show ?thesis unfolding e using s o(2,3) cap by (simp add: same_config_def fits_def)
    qed
  qed
qed

text \<open>What the body encryption does to the output once its frame is laid out there.\<close>

lemma sealed_frame_mem:
  assumes p: "aws_cryptosdk_alg_props j = Some p" and f: "f' = laid_out f (buf_len b) p n" "length pt = n"
    and fill: "\<And>iv ct tag. length iv = iv_len p \<Longrightarrow> length ct = n \<Longrightarrow> length tag = tag_len p \<Longrightarrow>
      fill_frame f' mem iv ct tag = buf_mem (written b (frame_bytes (frame_ty f) (sequence_number f) iv ct tag))"
    and mem: "buf_len b + frame_size (frame_ty f) p n \<le> length mem" "n < 2 ^ 64"
    and mid: "buf_len mid \<le> 32" and sn: "sequence_number f' = sn" "sn \<noteq> 0" "frame_ty f = ty"
    and fb: "fb = frame_sealing ks tg p key mid ty sn pt"
  shows "\<exists>st ct iv tag. aws_cryptosdk_encrypt_body (env_lib V) (env_ssl V) p (buf_from_empty_array (mem_slice mem (frame_ciphertext f')))
      \<lparr>cur_ptr = q, cur_data = pt\<rparr> mid sn (mem_slice mem (frame_iv f')) key (mem_slice mem (frame_authtag f')) (Some ty) = Some (st, ct, iv, tag) \<and>
    length (mem_update (mem_update (mem_update mem (frame_ciphertext f') (buf_mem ct)) (frame_iv f') iv) (frame_authtag f') tag) = length mem \<and>
    (st = None \<longrightarrow> mem_update (mem_update (mem_update mem (frame_ciphertext f') (buf_mem ct)) (frame_iv f') iv) (frame_authtag f') tag =
       buf_mem (written b fb)) \<and> (gcm_ok (env_ssl V) \<longrightarrow> st = None)"
proof -
  note a = alg_props_fields(2,3) [OF p]
  let ?iv = "frame_iv_bytes p sn" and ?g = "suite_gcm p key (frame_iv_bytes p sn)"
  let ?c = "ctr_xor (ks ?g) 0 pt"
  let ?t = "frame_tag tg ?g mid (Some ty) sn ?c"
  have sl: "frame_ciphertext f' = hole (buf_len b + ct_off ty p) n" "frame_iv f' = hole (buf_len b + iv_off ty) (iv_len p)"
      "frame_authtag f' = hole (buf_len b + ct_off ty p + n) (tag_len p)" "frame_ty f' = ty"
    using f(1) sn(3) by (simp_all add: laid_out_def)
  have len: "length (mem_slice mem (frame_ciphertext f')) = n" "length (mem_slice mem (frame_iv f')) = 12" "length (mem_slice mem (frame_authtag f')) = 16"
    using mem(1) sn(3) a unfolding sl by (cases ty; simp add: length_mem_slice frame_size_def)+
  have lens: "length ?iv = iv_len p" "length ?c = n" "length ?t = tag_len p"
    using a frame_iv_bytes_length [OF a(1)] f(2) gcm_tag_length [OF gcm] by (simp_all add: frame_tag_def)
  have l: "length (mem_update (mem_update (mem_update mem (frame_ciphertext f') ct) (frame_iv f') iv) (frame_authtag f') tag) = length mem"
    if "length ct = n" "length iv = iv_len p" "length tag = tag_len p" for ct iv tag
    using that mem(1) sn(3) unfolding sl by (cases ty; simp add: mem_update_hole frame_size_def)
  have seq: "frame_bytes (frame_ty f) (sequence_number f) ?iv ?c ?t = fb"
    using f(1) sn fb by (cases ty) (simp_all add: laid_out_def frame_sealing_def Let_def)
  let ?o = "buf_from_empty_array (mem_slice mem (frame_ciphertext f'))" and ?i = "\<lparr>cur_ptr = q, cur_data = pt\<rparr>"
  have pre: "cur_len ?i = buf_capacity ?o" "buf_len ?o = 0" "buf_capacity ?o < 2 ^ 64" "buf_len mid \<le> INT_MAX" "8 \<le> iv_len p"
    using len(1) f(2) mem(2) mid a by (simp_all add: buf_from_empty_array_def)
  obtain st ct tag where e: "aws_cryptosdk_encrypt_body (env_lib V) (env_ssl V) p ?o ?i mid sn (mem_slice mem (frame_iv f')) key
        (mem_slice mem (frame_authtag f')) (Some ty) = Some (st, ct, splice (mem_slice mem (frame_iv f')) 0 ?iv, tag)"
    "st = None \<longrightarrow> ct = written ?o (ctr_xor (ks ?g) 0 (cur_data ?i)) \<and>
       tag = splice (mem_slice mem (frame_authtag f')) 0 (take (tag_len p) (frame_tag tg ?g mid (Some ty) sn (ctr_xor (ks ?g) 0 (cur_data ?i))))"
    "st \<noteq> None \<longrightarrow> ct = zeroed ?o \<and> tag = mem_slice mem (frame_authtag f')" "gcm_ok (env_ssl V) \<longrightarrow> st = None"
    using encrypt_body_spec [OF gcm refl pre(1-4) sn(2) pre(5)] by metis
  have iv: "splice (mem_slice mem (frame_iv f')) 0 ?iv = ?iv" using len lens a by (simp add: splice_def)
  have ok: "buf_mem ct = ?c" "tag = ?t" if "st = None"
    using e(2) that len lens a f(2) by (simp_all add: written_def buf_from_empty_array_def splice_def)
  have "length (buf_mem ct) = n" "length tag = tag_len p"
    using e(3) ok len lens a by (cases st; simp add: zeroed_def buf_from_empty_array_def)+
  then have "length (mem_update (mem_update (mem_update mem (frame_ciphertext f') (buf_mem ct)) (frame_iv f') ?iv) (frame_authtag f') tag) = length mem"
    using l lens by blast
  moreover have "mem_update (mem_update (mem_update mem (frame_ciphertext f') ?c) (frame_iv f') ?iv) (frame_authtag f') ?t = buf_mem (written b fb)"
    using mem_update_fill [OF f(1) lens mem(1)] fill [OF lens] seq by simp
  ultimately show ?thesis using e(1,4) ok unfolding iv by auto
qed

text \<open>When there is room and input for the next frame, it is laid out in the output and encrypted there.\<close>

lemma try_encrypt_body_laid:
  assumes s: "se_alg_props s = Some p" "aws_cryptosdk_alg_props j = Some p" "buf_len (hdr_message_id (se_header s)) \<le> 32" "se_seqno s \<noteq> 0"
    and b: "buf_valid b" and nf: "next_frame s = Some (n, ty)" and seq: "se_seqno s \<le> UINT32_MAX"
    and w: "frame_writable (frame_zero\<lparr>frame_ty := ty, sequence_number := ucast (se_seqno s)\<rparr>) n"
    and fit: "fits b (frame_size ty p (unat n))" and len: "unat n \<le> cur_len i"
  defines "fb \<equiv> frame_sealing ks tg p (se_content_key s) (hdr_message_id (se_header s)) ty (frame_number s ty) (take (unat n) (cur_data i))"
  obtains cs and st :: status and out where "aws_cryptosdk_priv_try_encrypt_body V s b i =
      (if st \<noteq> None then Some (Some AWS_CRYPTOSDK_ERR_CRYPTO_UNKNOWN, s\<lparr>se_out_est := cs, se_in_est := n\<rparr>, lib_secure_zero (env_lib V) (b\<lparr>buf_mem := buf_mem out\<rparr>), i)
       else frame_encrypted V (s\<lparr>se_out_est := cs, se_in_est := n\<rparr>) b out i (advanced i (unat n)) n ty)"
    "buf_capacity out = buf_capacity b" "buf_len out = buf_len b + length fb" "fits b (length fb)"
    "st = None \<Longrightarrow> buf_mem out = buf_mem (written b fb)" "gcm_ok (env_ssl V) \<Longrightarrow> st = None"
proof -
  define f where "f = frame_zero\<lparr>frame_ty := ty, sequence_number := ucast (se_seqno s)\<rparr>"
  have ty0: "frame_ty f = ty" by (simp add: f_def)
  obtain st0 f' cs out where r: "aws_cryptosdk_serialize_frame (env_lib V) f 0 n b p = (st0, f', cs, out)" by (metis prod_cases4)
  note wr = serialize_frame_written [OF aws_c_common_axioms b s(2) w [folded f_def] r]
  have fit': "fits b (unat cs)" using wr fit ty0 by simp
  have laid: "st0 = None" "unat cs = frame_size ty p (unat n)" "buf_len out = buf_len b + unat cs" "buf_capacity out = buf_capacity b"
      "f' = laid_out f (buf_len b) p (unat n)"
    using wr fit' ty0 by simp_all
  have fill: "fill_frame f' (buf_mem out) iv ct tag = buf_mem (written b (frame_bytes (frame_ty f) (sequence_number f) iv ct tag))"
    if "length iv = iv_len p" "length ct = unat n" "length tag = tag_len p" for iv ct tag
    using wr that unfolding if_P [OF fit'] by blast
  let ?pt = "take (unat n) (cur_data i)" and ?sn = "frame_number s ty" and ?mid = "hdr_message_id (se_header s)"
  have ty: "frame_ty f' = ty" "sequence_number f' = ?sn" by (simp_all add: f_def laid(5) laid_out_def frame_number_def)
  have sn: "?sn \<noteq> 0" using s(4) seq unat_ucast_64_32 [of "se_seqno s"] by (auto simp: frame_number_def unat_eq_zero)
  have mem: "buf_len b + frame_size (frame_ty f) p (unat n) \<le> length (buf_mem out)" "unat n < 2 ^ 64" "length ?pt = unat n"
    using fit laid(4) len ty0 unsigned_less [of n, where 'a = nat] by (simp_all add: fits_def)
  have fl: "length fb = unat cs"
    using laid(2) mem(3) alg_props_fields(2,3) [OF s(2)] frame_iv_bytes_length [of p] gcm_tag_length [OF gcm]
    by (simp add: fb_def frame_sealing_def Let_def length_frame_bytes frame_tag_def)
  obtain st ct iv tag where enc: "aws_cryptosdk_encrypt_body (env_lib V) (env_ssl V) p
        (buf_from_empty_array (mem_slice (buf_mem out) (frame_ciphertext f'))) (prefix_cur i (unat n)) ?mid ?sn
        (mem_slice (buf_mem out) (frame_iv f')) (se_content_key s) (mem_slice (buf_mem out) (frame_authtag f')) (Some ty) = Some (st, ct, iv, tag)"
    and upd: "length (mem_update (mem_update (mem_update (buf_mem out) (frame_ciphertext f') (buf_mem ct)) (frame_iv f') iv) (frame_authtag f') tag) = length (buf_mem out)"
      "st = None \<longrightarrow> mem_update (mem_update (mem_update (buf_mem out) (frame_ciphertext f') (buf_mem ct)) (frame_iv f') iv) (frame_authtag f') tag = buf_mem (written b fb)"
      "gcm_ok (env_ssl V) \<longrightarrow> st = None"
    using sealed_frame_mem [OF s(2) laid(5) mem(3) fill mem(1,2) s(3) ty(2) sn ty0 fb_def [THEN meta_eq_to_obj_eq], of "cur_ptr i", folded prefix_cur_def] by blast
  let ?out = "out\<lparr>buf_mem := mem_update (mem_update (mem_update (buf_mem out) (frame_ciphertext f') (buf_mem ct)) (frame_iv f') iv) (frame_authtag f') tag\<rparr>"
  have lim: "\<not> se_seqno s > UINT32_MAX" using seq by simp
  note e0 = aws_cryptosdk_priv_try_encrypt_body_def [of V s b i, unfolded nf option.case prod.case if_not_P [OF lim] Let_def s(1) option.sel, folded f_def, unfolded r prod.case]
  show thesis
  proof (rule that [of st cs ?out])
    show "aws_cryptosdk_priv_try_encrypt_body V s b i =
      (if st \<noteq> None then Some (Some AWS_CRYPTOSDK_ERR_CRYPTO_UNKNOWN, s\<lparr>se_out_est := cs, se_in_est := n\<rparr>, lib_secure_zero (env_lib V) (b\<lparr>buf_mem := buf_mem ?out\<rparr>), i)
       else frame_encrypted V (s\<lparr>se_out_est := cs, se_in_est := n\<rparr>) b ?out i (advanced i (unat n)) n ty)"
      unfolding e0 using laid(1) len enc ty by (simp add: advance)
  qed (use upd laid fit' fl in auto)
qed

lemma try_encrypt_body_ends:
  assumes s: "se_state s = ST_ENCRYPT_BODY" "se_alg_props s = Some p" "aws_cryptosdk_alg_props j = Some p" "se_frame_size s \<le> UINT32_MAX"
      "buf_len (hdr_message_id (se_header s)) \<le> 32" "se_seqno s \<noteq> 0" and b: "buf_valid b"
  shows "ends (\<lambda>(s', b', i'). same_config s s' \<and> se_state s' = ST_ENCRYPT_BODY \<and> buf_capacity b' = buf_capacity b \<and> buf_len b' \<le> buf_len b \<and> i' = i)
    (\<lambda>(s', b', i'). buf_capacity b' = buf_capacity b \<and> buf_len b' = buf_len b \<and> i' = i \<and> (\<exists>x y. s' = s\<lparr>se_out_est := x, se_in_est := y\<rparr>) \<or>
       next_sealed ks tg s b i (s', b', i'))
    (aws_cryptosdk_priv_try_encrypt_body V s b i)"
proof (cases "next_frame s")
  case None
  then show ?thesis by (auto simp: aws_cryptosdk_priv_try_encrypt_body_def)
next
  case (Some nt)
  obtain n ty where nf: "next_frame s = Some (n, ty)" using Some by (cases nt) auto
  define f where "f = frame_zero\<lparr>frame_ty := ty, sequence_number := ucast (se_seqno s)\<rparr>"
  have ty: "frame_ty f = ty" by (simp add: f_def)
  obtain st f' cs out where r: "aws_cryptosdk_serialize_frame (env_lib V) f 0 n b p = (st, f', cs, out)" by (metis prod_cases4)
  consider (limit) "se_seqno s > UINT32_MAX" | (refused) x where "se_seqno s \<le> UINT32_MAX" "st = Some x" "buf_capacity out = buf_capacity b"
    | (short) "se_seqno s \<le> UINT32_MAX" "st = None" "cur_len i < unat n" "buf_capacity out = buf_capacity b"
    | (laid) "se_seqno s \<le> UINT32_MAX" "frame_writable f n" "fits b (frame_size ty p (unat n))" "unat n \<le> cur_len i"
  proof (cases "se_seqno s > UINT32_MAX \<or> \<not> frame_writable f n")
    case True
    then show ?thesis using serialize_frame_refused [OF r] limit refused by (force simp: secure_zero)
  next
    case False
    then have w: "se_seqno s \<le> UINT32_MAX" "frame_writable f n" by auto
    note v = serialize_frame_written [OF aws_c_common_axioms b s(3) w(2) r, unfolded ty]
    show ?thesis
    proof (cases "fits b (unat cs)")
      case True
      then show ?thesis using v w short laid by (cases "unat n \<le> cur_len i") auto
    qed (use v w refused in \<open>simp add: secure_zero\<close>)
  qed
  then show ?thesis
  proof cases
    case limit
    then show ?thesis using nf s by (simp add: aws_cryptosdk_priv_try_encrypt_body_def same_config_def)
  next
    case refused
    then show ?thesis using nf s r by (auto simp: aws_cryptosdk_priv_try_encrypt_body_def Let_def f_def [symmetric] same_config_def)
  next
    case short
    then show ?thesis using nf s r by (auto simp: aws_cryptosdk_priv_try_encrypt_body_def Let_def f_def [symmetric] advance)
  next
    case laid
    let ?fb = "frame_sealing ks tg p (se_content_key s) (hdr_message_id (se_header s)) ty (frame_number s ty) (take (unat n) (cur_data i))"
    obtain cs and st :: status and out where e: "aws_cryptosdk_priv_try_encrypt_body V s b i =
      (if st \<noteq> None then Some (Some AWS_CRYPTOSDK_ERR_CRYPTO_UNKNOWN, s\<lparr>se_out_est := cs, se_in_est := n\<rparr>, lib_secure_zero (env_lib V) (b\<lparr>buf_mem := buf_mem out\<rparr>), i)
       else frame_encrypted V (s\<lparr>se_out_est := cs, se_in_est := n\<rparr>) b out i (advanced i (unat n)) n ty)"
      "buf_capacity out = buf_capacity b" "buf_len out = buf_len b + length ?fb" "fits b (length ?fb)"
      "st = None \<Longrightarrow> buf_mem out = buf_mem (written b ?fb)"
      using try_encrypt_body_laid [OF s(2,3,5,6) b nf laid(1) laid(2) [unfolded f_def] laid(3,4)] by metis
    let ?s = "s\<lparr>se_out_est := cs, se_in_est := n\<rparr>"
    show ?thesis
    proof (cases st)
      case (Some x)
      then show ?thesis unfolding e(1) using e(2) s by (simp add: secure_zero same_config_def)
    next
      case None
      have out: "buf_mem out = splice (buf_mem b) (buf_len b) ?fb" using e(5) None by (simp add: written_def)
      have st: "se_state ?s = ST_ENCRYPT_BODY" using s(1) by simp
      note F = frame_encrypted_ends [OF st out e(3,4), where i = i and j = "advanced i (unat n)" and n = n and ty = ty]
      have ok: "frame_ok ty (frame_number s ty) (se_frame_size s) (unat n)" using next_frame_ok [OF nf s(4)] laid(2) by (simp add: f_def)
      have S: "next_sealed ks tg s b i (s', out, advanced i (unat n))"
        if "s' = ?s\<lparr>se_data_so_far := se_data_so_far ?s + n, se_seqno := se_seqno ?s + 1,
          se_signctx := map_option (\<lambda>c. c\<lparr>sc_data := sc_data c @ ?fb\<rparr>) (se_signctx ?s),
          se_state := (if ty = FRAME_TYPE_FRAME then ST_ENCRYPT_BODY else ST_WRITE_TRAILER)\<rparr>" for s'
        unfolding next_sealed_def prod.case using nf laid(1,4) ok out e(3,4) that s(2)
        by - (rule exI [of _ ty], rule exI [of _ n], rule exI [of _ ?fb], rule exI [of _ cs], rule exI [of _ n], simp add: written_def)
      show ?thesis
        unfolding e(1) using None
      proof (simp only: simp_thms if_False, intro ends_mono [OF F], goal_cases)
        case (1 x) then show ?case by (auto simp: same_config_def)
      next
        case (2 x) then show ?case using S by (cases x) (simp only: prod.case, blast)
      qed
    qed
  qed
qed

lemma write_trailer_ends:
  assumes s: "se_state s = ST_WRITE_TRAILER" "suite_ready (env_ec V) s" and b: "buf_valid b"
  shows "ends (\<lambda>(s', b'). same_config s s' \<and> rank (se_state s') \<in> {4..5} \<and> buf_capacity b' = buf_capacity b \<and> buf_valid b')
    (\<lambda>(s', b'). b' = b \<and> se_signctx s = None \<and> s' = s\<lparr>se_in_est := 0, se_out_est := 0, se_state := ST_DONE\<rparr> \<or>
       b' = b \<and> (\<exists>x. s' = s\<lparr>se_in_est := 0, se_out_est := x\<rparr>) \<or> trailer_written V s b (s', b'))
    (aws_cryptosdk_priv_write_trailer V s b)"
proof -
  obtain i p where p: "se_alg_props s = Some p" "aws_cryptosdk_alg_props i = Some p" "se_signctx s = None \<longleftrightarrow> signature_len p = 0"
      "\<And>c. se_signctx s = Some c \<Longrightarrow> sig_live (env_ec V) c"
    using s(2) by (auto simp: suite_ready_def)
  show ?thesis
  proof (cases "se_signctx s")
    case None
    then show ?thesis using p s by (simp add: aws_cryptosdk_priv_write_trailer_def Let_def change_state_ok transition_ok_def)
  next
    case (Some c)
    then have nz: "signature_len p \<noteq> 0" using p(3) by simp
    show ?thesis
    proof (cases "buf_capacity b - buf_len b < 2 + signature_len p")
      case True
      then show ?thesis using p nz by (auto simp: aws_cryptosdk_priv_write_trailer_def Let_def)
    next
      case False
      obtain r d where f: "aws_cryptosdk_sig_sign_finish (env_lib V) (env_ec V) (se_draws s) c = Some (r, d)"
        using sign_finish_returns [OF p(4) [OF Some]] by fast
      let ?s = "s\<lparr>se_in_est := 0, se_out_est := 0, se_signctx := None, se_draws := d\<rparr>"
      have c: "same_config s ?s \<and> rank (se_state ?s) \<in> {4..5}" using s by (simp add: same_config_def)
      note e0 = aws_cryptosdk_priv_write_trailer_def [of V s b]
      show ?thesis
      proof (cases r)
        case (Inl x)
        then show ?thesis using e0 p nz False Some f c b by (simp add: Let_def)
      next
        case (Inr sig)
        let ?l = "be_bytes 2 (word_of_nat (length sig) :: 16 word)"
        have e: "aws_cryptosdk_priv_write_trailer V s b =
          (if \<not> fits b 2 then Some (Some AWS_CRYPTOSDK_ERR_CRYPTO_UNKNOWN, ?s, b)
           else if \<not> fits (written b ?l) (length sig) then Some (Some AWS_CRYPTOSDK_ERR_CRYPTO_UNKNOWN, ?s, written b ?l)
           else Some (None, ?s\<lparr>se_state := ST_DONE\<rparr>, written (written b ?l) sig))"
          using e0 p nz False Some f Inr b s(1) by (simp add: Let_def write_be16 buf_write change_state_ok transition_ok_def)
        have w: "trailer_written V s b (?s\<lparr>se_state := ST_DONE\<rparr>, written (written b ?l) sig)"
          if "fits b 2" "fits (written b ?l) (length sig)"
          unfolding trailer_written_def prod.case using that Some f Inr
          by - (rule exI [of _ c], rule exI [of _ sig], rule exI [of _ d], simp add: trailer_bytes_def written_written)
        show ?thesis unfolding e using w c b by simp
      qed
    qed
  qed
qed

end

end
