(* ===== verification/SessionRun.thy ===== *)
theory SessionRun
  imports SessionEncInv
begin

text \<open>
  Runs of sessions. Every step of \<^verbatim>\<open>aws_cryptosdk_session_process\<close> has one of a few effects (\<open>step_effect\<close>); they keep the invariant of
  sessions, move the state forward, and let the loop end. A rule for the loop carries an invariant over the steps.
\<close>

section \<open>The effect of a step\<close>

definition step_effect ::
  "env \<Rightarrow> (gcm_id \<Rightarrow> nat \<Rightarrow> byte) \<Rightarrow> (gcm_id \<Rightarrow> bytes \<Rightarrow> bytes \<Rightarrow> bytes) \<Rightarrow> (evp_md \<Rightarrow> bytes \<Rightarrow> bytes \<Rightarrow> bytes) \<Rightarrow>
   session \<Rightarrow> byte_buf \<Rightarrow> byte_cursor \<Rightarrow> session \<times> byte_buf \<times> byte_cursor \<Rightarrow> bool" where
  "step_effect V ks tg hmac s b i = (\<lambda>(s', b', i'). case se_state s of
     ST_CONFIG \<Rightarrow> b' = b \<and> i' = i \<and> se_cmm s \<noteq> None \<and>
       s' = s\<lparr>se_state := (if se_mode s = AWS_CRYPTOSDK_ENCRYPT then ST_GEN_KEY else ST_READ_HEADER)\<rparr>
   | ST_READ_HEADER \<Rightarrow> b' = b \<and> same_config s s' \<and>
       (i' = i \<and> se_state s' = ST_READ_HEADER \<and> se_signctx s' = None \<or>
        (\<exists>hb rest. cur_data i = hb @ rest \<and> i' = advanced i (length hb) \<and> body_start V tg hmac hb s'))
   | ST_DECRYPT_BODY \<Rightarrow>
       b' = b \<and> i' = i \<and> (\<exists>x y. s' = s\<lparr>se_in_est := x, se_out_est := y\<rparr>) \<or> next_opened ks tg s b i (s', b', i')
   | ST_CHECK_TRAILER \<Rightarrow> b' = b \<and>
       (se_signctx s = None \<and> i' = i \<and> s' = s\<lparr>se_out_est := 0, se_in_est := 0, se_state := ST_DONE\<rparr> \<or>
        i' = i \<and> (\<exists>x. s' = s\<lparr>se_out_est := 0, se_in_est := x\<rparr>) \<or> trailer_checked (env_ec V) s i (s', i'))
   | ST_GEN_KEY \<Rightarrow> b' = b \<and> i' = i \<and> same_config s s' \<and> keys_generated V hmac s s'
   | ST_WRITE_HEADER \<Rightarrow> i' = i \<and> (\<exists>x. b' = b \<and> s' = s\<lparr>se_out_est := x\<rparr> \<or>
       (\<exists>hb. hb = take (se_header_size s) (the (se_header_copy s)) \<and> fits b (length hb) \<and> b' = written b hb \<and>
          s' = s\<lparr>se_out_est := x, se_state := ST_ENCRYPT_BODY\<rparr>))
   | ST_ENCRYPT_BODY \<Rightarrow>
       buf_capacity b' = buf_capacity b \<and> buf_len b' = buf_len b \<and> i' = i \<and> (\<exists>x y. s' = s\<lparr>se_out_est := x, se_in_est := y\<rparr>) \<or>
       next_sealed ks tg s b i (s', b', i')
   | ST_WRITE_TRAILER \<Rightarrow> i' = i \<and>
       (b' = b \<and> se_signctx s = None \<and> s' = s\<lparr>se_in_est := 0, se_out_est := 0, se_state := ST_DONE\<rparr> \<or>
        b' = b \<and> (\<exists>x. s' = s\<lparr>se_in_est := 0, se_out_est := x\<rparr>) \<or> trailer_written V s b (s', b'))
   | ST_DONE \<Rightarrow> s' = s \<and> b' = b \<and> i' = i
   | _ \<Rightarrow> False)"

lemma ends_bind2:
  assumes "ends (\<lambda>(s', i'). E (s', b, i')) (\<lambda>(s', i'). S (s', b, i')) m"
  shows "ends E S (do { (st, s, i) \<leftarrow> m; Some (st, s, b, i) })"
  using assms by (auto simp: ends_def split: option.splits if_splits)

lemma ends_bind3:
  assumes "ends (\<lambda>(s', b'). E (s', b', i)) (\<lambda>(s', b'). S (s', b', i)) m"
  shows "ends E S (do { (st, s, b) \<leftarrow> m; Some (st, s, b, i) })"
  using assms by (auto simp: ends_def split: option.splits if_splits)

lemma ends_elim3:
  assumes "ends (\<lambda>(x, y, z). E x y z) (\<lambda>(x, y, z). S x y z) r"
  obtains st x y z where "r = Some (st, x, y, z)" "st = None \<Longrightarrow> S x y z" "st \<noteq> None \<Longrightarrow> E x y z"
  using assms by (auto simp: ends_def split: option.splits if_splits)

lemma advanced_self: "\<exists>n \<le> cur_len i. i = advanced i n"
  by (rule exI [of _ 0]) (simp add: advanced_def)

section \<open>The invariant is kept\<close>

lemma header_signed_kept:
  "header_signed V s p n h c \<Longrightarrow> hdr_message_id h = hdr_message_id (se_header s) \<and> hdr_alg_id h = hdr_alg_id (se_header s) \<and>
     hdr_enc_ctx h = hdr_enc_ctx (se_header s) \<and> hdr_edk_list h = hdr_edk_list (se_header s) \<and>
     hdr_frame_len h = hdr_frame_len (se_header s) \<and> hdr_alg_suite_data h = hdr_alg_suite_data (se_header s) \<and> n \<noteq> 0"
  by (auto simp: header_signed_def Let_def with_authtag_def hdr_placeholders_def)

lemma keys_generated_ready:
  assumes g: "keys_generated V hmac s s'" and live: "cmm_live (env_ec V) (the (se_cmm s))"
  shows "suite_ready (env_ec V) s' \<and> se_state s' = ST_WRITE_HEADER \<and> se_header_copy s' \<noteq> None"
proof -
  obtain m ctx d p mid sd tag a tr k n h c s1 where
    m: "aws_cryptosdk_cmm_generate_enc_materials (the (se_cmm s)) (enc_request_of s) (se_draws s) = (Inr m, ctx, d)"
      "aws_cryptosdk_alg_props (em_alg m) = Some p" "em_signctx m = None \<longleftrightarrow> signature_len p = 0" "se_frame_size s \<le> UINT32_MAX"
      "length mid = aws_cryptosdk_private_algorithm_message_id_len p"
    and h: "header_signed V s1 p n h c" "hdr_message_id (se_header s1) = gen_buf mid" "se_frame_size s1 = se_frame_size s" "se_alg_props s1 = Some p"
      "s' = s1\<lparr>se_header_size := n, se_header_copy := Some c, se_header := h,
         se_signctx := map_option (\<lambda>sc. sc\<lparr>sc_data := sc_data sc @ take n c\<rparr>) (em_signctx m), se_seqno := 1, se_state := ST_WRITE_HEADER\<rparr>"
    using g unfolding keys_generated_def Let_def by (elim exE conjE) (rule that, assumption+, simp_all)
  have "sig_live (env_ec V) sc" if "em_signctx m = Some sc" for sc using live m(1) that unfolding cmm_live_def by blast
  then have "\<exists>i p. se_alg_props s' = Some p \<and> aws_cryptosdk_alg_props i = Some p \<and> (se_signctx s' = None \<longleftrightarrow> signature_len p = 0) \<and>
      (\<forall>c. se_signctx s' = Some c \<longrightarrow> sig_live (env_ec V) c)"
    using h m(2,3) by - (rule exI [of _ "em_alg m"], rule exI [of _ p], auto)
  moreover have "length mid \<le> 32" using m(5) by (simp add: aws_cryptosdk_private_algorithm_message_id_len_def)
  ultimately show ?thesis unfolding suite_ready_def using h m(4) header_signed_kept [OF h(1)] by simp
qed

lemma seqno_next: "(w :: uint64) \<le> UINT32_MAX \<Longrightarrow> w + 1 \<noteq> 0"
  using unsigned_less [of w, where 'a = nat] by (auto simp: word_le_nat_alt unat_word_ariths dest!: arg_cong [where f = unat])

lemma frame_len_bound: "(ucast (w :: uint32) :: uint64) \<le> UINT32_MAX"
  using unsigned_less [of w, where 'a = nat] by (simp add: word_le_nat_alt)

lemma decrypt_mode_valid: "aws_cryptosdk_priv_is_decrypt_mode m \<Longrightarrow> aws_cryptosdk_priv_is_valid_mode m"
  by (cases m) (simp_all add: aws_cryptosdk_priv_is_decrypt_mode_def aws_cryptosdk_priv_is_valid_mode_def)

lemma body_start_ok:
  "body_start V tg hmac hb s \<Longrightarrow> se_seqno s \<noteq> 0 \<and> hdr_wf (se_header s) \<and> se_alg_props s = aws_cryptosdk_alg_props (hdr_alg_id (se_header s)) \<and>
     se_frame_size s \<le> UINT32_MAX \<and> se_state s = ST_DECRYPT_BODY"
  using frame_len_bound by (auto simp: body_start_def opened_def)

lemma step_effect_keeps:
  assumes ok: "session_ok V s" and b: "buf_valid b" and e: "step_effect V ks tg hmac s b i (s', b', i')"
  shows "session_ok V s' \<and> step_frame s b i (s', b', i') \<and> (se_state s' \<noteq> se_state s \<longrightarrow> rank (se_state s) < rank (se_state s'))"
proof -
  note o = ok [unfolded session_ok_def]
  have c: "same_config s s' \<Longrightarrow> hdr_alloc (se_header s') \<and> length (se_commitment_arr s') = 32 \<and> (\<forall>c. se_cmm s' = Some c \<longrightarrow> cmm_live (env_ec V) c) \<and>
      se_mode s' = se_mode s \<and> se_cmm s' = se_cmm s"
    using o by (simp add: same_config_def)
  show ?thesis
  proof (cases "se_state s")
    case ST_CONFIG
    then show ?thesis using e o b advanced_self
      by (cases "se_mode s") (auto simp: step_effect_def session_ok_def step_frame_def same_config_def aws_cryptosdk_priv_is_valid_mode_def aws_cryptosdk_priv_is_decrypt_mode_def)
  next
    case ST_DONE
    then show ?thesis using e ok b advanced_self by (auto simp: step_effect_def step_frame_def same_config_def)
  next
    case ST_GEN_KEY
    then have e': "b' = b" "i' = i" "same_config s s'" "keys_generated V hmac s s'" using e by (simp_all add: step_effect_def)
    obtain k where k: "se_cmm s = Some k" "cmm_live (env_ec V) k" using o ST_GEN_KEY by auto
    then have g: "suite_ready (env_ec V) s' \<and> se_state s' = ST_WRITE_HEADER \<and> se_header_copy s' \<noteq> None"
      using keys_generated_ready [OF e'(4)] by simp
    show ?thesis unfolding session_ok_def step_frame_def using c [OF e'(3)] e' g ST_GEN_KEY o b advanced_self by simp
  next
    case ST_READ_HEADER
    then consider "b' = b" "i' = i" "same_config s s'" "se_state s' = ST_READ_HEADER" "se_signctx s' = None"
      | hb rest where "b' = b" "cur_data i = hb @ rest" "i' = advanced i (length hb)" "same_config s s'" "body_start V tg hmac hb s'"
      using e by (auto simp: step_effect_def)
    then show ?thesis
    proof cases
      case 1
      then show ?thesis unfolding session_ok_def step_frame_def using c o b ST_READ_HEADER advanced_self by simp
    next
      case 2
      have "\<exists>n \<le> cur_len i. i' = advanced i n" using 2 by (intro exI [of _ "length hb"]) simp
      then show ?thesis unfolding session_ok_def step_frame_def using 2 c o b ST_READ_HEADER body_start_ok [OF 2(5)] by simp
    qed
  next
    case ST_DECRYPT_BODY
    then consider x y where "b' = b" "i' = i" "s' = s\<lparr>se_in_est := x, se_out_est := y\<rparr>" | "next_opened ks tg s b i (s', b', i')"
      using e by (auto simp: step_effect_def)
    then show ?thesis
    proof cases
      case 1
      then show ?thesis using o b ST_DECRYPT_BODY advanced_self by (simp add: session_ok_def step_frame_def same_config_def)
    next
      case 2
      then obtain ty fb pt rest x y where f: "se_seqno s \<le> UINT32_MAX" "cur_data i = fb @ rest" "i' = advanced i (length fb)" "fits b (length pt)" "b' = written b pt"
        "s' = s\<lparr>se_in_est := x, se_out_est := y, se_seqno := se_seqno s + 1, se_signctx := map_option (\<lambda>c. c\<lparr>sc_data := sc_data c @ fb\<rparr>) (se_signctx s),
            se_state := (if ty = FRAME_TYPE_FRAME then ST_DECRYPT_BODY else ST_CHECK_TRAILER)\<rparr>"
        by (auto simp: next_opened_def)
      have "\<exists>n \<le> cur_len i. i' = advanced i n" using f by (intro exI [of _ "length fb"]) simp
      then show ?thesis using f(1,4-6) o ST_DECRYPT_BODY seqno_next by (simp add: session_ok_def step_frame_def same_config_def)
    qed
  next
    case ST_CHECK_TRAILER
    then consider "b' = b" "i' = i" "s' = s\<lparr>se_out_est := 0, se_in_est := 0, se_state := ST_DONE\<rparr>"
      | x where "b' = b" "i' = i" "s' = s\<lparr>se_out_est := 0, se_in_est := x\<rparr>" | "b' = b" "trailer_checked (env_ec V) s i (s', i')"
      using e by (auto simp: step_effect_def)
    then show ?thesis
    proof cases
      case 3
      then obtain c sig rest where t: "cur_data i = be_bytes 2 (word_of_nat (length sig) :: 16 word) @ sig @ rest" "i' = advanced i (2 + length sig)"
          "s' = s\<lparr>se_out_est := 0, se_in_est := 0, se_signctx := None\<rparr>" by (auto simp: trailer_checked_def)
      have "\<exists>n \<le> cur_len i. i' = advanced i n" using t by (intro exI [of _ "2 + length sig"]) simp
      then show ?thesis using t(3) 3(1) o b ST_CHECK_TRAILER by (simp add: session_ok_def step_frame_def same_config_def)
    qed (use o b ST_CHECK_TRAILER advanced_self decrypt_mode_valid in \<open>simp_all add: session_ok_def step_frame_def same_config_def\<close>)
  next
    case ST_WRITE_HEADER
    then consider x where "i' = i" "b' = b" "s' = s\<lparr>se_out_est := x\<rparr>"
      | x hb where "i' = i" "fits b (length hb)" "b' = written b hb" "s' = s\<lparr>se_out_est := x, se_state := ST_ENCRYPT_BODY\<rparr>"
      using e by (simp add: step_effect_def del: length_take) blast
    then show ?thesis
      by cases (use o b ST_WRITE_HEADER advanced_self in \<open>simp_all add: session_ok_def step_frame_def same_config_def suite_ready_def\<close>)
  next
    case ST_ENCRYPT_BODY
    then consider x y where "i' = i" "buf_capacity b' = buf_capacity b" "buf_len b' = buf_len b" "s' = s\<lparr>se_out_est := x, se_in_est := y\<rparr>"
      | "next_sealed ks tg s b i (s', b', i')"
      using e by (auto simp: step_effect_def)
    then show ?thesis
    proof cases
      case 1
      then show ?thesis using o b ST_ENCRYPT_BODY advanced_self by (simp add: session_ok_def step_frame_def same_config_def suite_ready_def buf_valid_def)
    next
      case 2
      then obtain ty n fb x y where f: "se_seqno s \<le> UINT32_MAX" "unat n \<le> cur_len i" "i' = advanced i (unat n)" "fits b (length fb)"
          "buf_mem b' = buf_mem (written b fb)" "buf_len b' = buf_len b + length fb"
        "s' = s\<lparr>se_out_est := x, se_in_est := y, se_data_so_far := se_data_so_far s + n, se_seqno := se_seqno s + 1,
            se_signctx := map_option (\<lambda>c. c\<lparr>sc_data := sc_data c @ fb\<rparr>) (se_signctx s),
            se_state := (if ty = FRAME_TYPE_FRAME then ST_ENCRYPT_BODY else ST_WRITE_TRAILER)\<rparr>"
        by (auto simp: next_sealed_def)
      have "\<exists>n \<le> cur_len i. i' = advanced i n" using f(2,3) by blast
      moreover have "buf_capacity b' = buf_capacity b" "buf_valid b'" using f(4-6) by (simp_all add: buf_valid_def fits_def)
      moreover have "suite_ready (env_ec V) s'" using o ST_ENCRYPT_BODY f(7) seqno_next [OF f(1)] by (auto simp: suite_ready_def)
      ultimately show ?thesis using f(7) o ST_ENCRYPT_BODY by (cases ty) (simp_all add: session_ok_def step_frame_def same_config_def)
    qed
  next
    case ST_WRITE_TRAILER
    then consider "i' = i" "b' = b" "s' = s\<lparr>se_in_est := 0, se_out_est := 0, se_state := ST_DONE\<rparr>"
      | x where "i' = i" "b' = b" "s' = s\<lparr>se_in_est := 0, se_out_est := x\<rparr>" | "i' = i" "trailer_written V s b (s', b')"
      using e by (auto simp: step_effect_def)
    then show ?thesis
    proof cases
      case 3
      then obtain bs d where w: "fits b (length bs)" "b' = written b bs"
          "s' = s\<lparr>se_in_est := 0, se_out_est := 0, se_signctx := None, se_draws := d, se_state := ST_DONE\<rparr>" by (auto simp: trailer_written_def)
      show ?thesis unfolding w(2,3) using w(1) 3(1) o ST_WRITE_TRAILER advanced_self
        by (simp add: session_ok_def step_frame_def same_config_def aws_cryptosdk_priv_is_valid_mode_def)
    qed (use o b ST_WRITE_TRAILER advanced_self in \<open>simp_all add: session_ok_def step_frame_def same_config_def suite_ready_def
          aws_cryptosdk_priv_is_valid_mode_def\<close>)
  qed (use e o in \<open>auto simp: step_effect_def\<close>)
qed

lemma step_effect_live:
  "session_ok V s \<Longrightarrow> buf_valid b \<Longrightarrow> step_effect V ks tg hmac s b i (s', b', i') \<Longrightarrow> se_state s' \<noteq> ST_ERROR"
  using step_effect_keeps [of V s b ks tg hmac i s' b' i'] by (auto simp: step_frame_def step_effect_def)

lemma put_back_capacity:
  assumes "buf_valid out" "buf_capacity sp = buf_capacity (remaining_space out)" "buf_valid sp"
  shows "buf_capacity (put_back out sp) = buf_capacity out" "buf_valid (put_back out sp)" "buf_len (put_back out sp) = buf_len out + buf_len sp"
    "buf_contents (put_back out sp) = buf_contents out @ buf_contents sp"
  using assms by (auto simp: put_back_def remaining_space_def buf_from_empty_array_def buf_valid_def buf_contents_def splice_def)

lemma same_config_trans: "same_config s t \<Longrightarrow> same_config t u \<Longrightarrow> same_config s u"
  by (simp add: same_config_def)

context session_env
begin

lemma session_step_ends:
  assumes ok: "session_ok V s" and b: "buf_valid b"
  shows "ends (step_frame s b i) (step_effect V ks tg hmac s b i) (session_step V s b i)"
proof -
  note o = ok [unfolded session_ok_def]
  show ?thesis
  proof (cases "se_state s")
    case ST_CONFIG
    show ?thesis
    proof (cases "se_cmm s = None \<or> \<not> aws_cryptosdk_commitment_policy_is_valid (se_policy s)")
      case True
      then show ?thesis using ST_CONFIG b advanced_self by (auto simp: session_step_def step_frame_def same_config_def)
    next
      case False
      have "transition_ok s (if se_mode s = AWS_CRYPTOSDK_ENCRYPT then ST_GEN_KEY else ST_READ_HEADER)"
        using ST_CONFIG o by (cases "se_mode s") (auto simp: transition_ok_def aws_cryptosdk_priv_is_valid_mode_def aws_cryptosdk_priv_is_decrypt_mode_def)
      then show ?thesis using ST_CONFIG False by (auto simp: session_step_def change_state_ok step_effect_def)
    qed
  next
    case ST_ERROR
    then show ?thesis using b advanced_self by (simp add: session_step_def step_frame_def same_config_def)
  next
    case ST_DONE
    then show ?thesis by (simp add: session_step_def step_effect_def)
  next
    case ST_READ_HEADER
    have "ends (\<lambda>(s', i'). step_frame s b i (s', b, i')) (\<lambda>(s', i'). step_effect V ks tg hmac s b i (s', b, i'))
        (aws_cryptosdk_priv_try_parse_header V s i)"
      by (rule ends_mono [OF try_parse_header_ends]) (use ST_READ_HEADER o b in \<open>auto simp: step_frame_def step_effect_def\<close>)
    then show ?thesis using ends_bind2 ST_READ_HEADER by (simp add: session_step_def)
  next
    case ST_UNWRAP_KEY
    then show ?thesis using o by simp
  next
    case ST_DECRYPT_BODY
    obtain p where p: "aws_cryptosdk_alg_props (hdr_alg_id (se_header s)) = Some p" "se_alg_props s = Some p"
        "buf_len (hdr_message_id (se_header s)) = aws_cryptosdk_private_algorithm_message_id_len p"
      using ST_DECRYPT_BODY o by (auto simp: hdr_wf_def split: option.splits)
    then have "buf_len (hdr_message_id (se_header s)) \<le> INT_MAX" by (simp add: aws_cryptosdk_private_algorithm_message_id_len_def)
    then have "ends (step_frame s b i) (step_effect V ks tg hmac s b i) (aws_cryptosdk_priv_try_decrypt_body V s b i)"
      by - (rule ends_mono [OF try_decrypt_body_ends [OF ST_DECRYPT_BODY p(2,1)]], use ST_DECRYPT_BODY o b in \<open>auto simp: step_frame_def step_effect_def\<close>)
    then show ?thesis using ST_DECRYPT_BODY by (simp add: session_step_def)
  next
    case ST_CHECK_TRAILER
    have "ends (\<lambda>(s', i'). step_frame s b i (s', b, i')) (\<lambda>(s', i'). step_effect V ks tg hmac s b i (s', b, i'))
        (aws_cryptosdk_priv_check_trailer V s i)"
      by (rule ends_mono [OF check_trailer_ends]) (use ST_CHECK_TRAILER o b in \<open>auto simp: step_frame_def step_effect_def\<close>)
    then show ?thesis using ends_bind2 ST_CHECK_TRAILER by (simp add: session_step_def)
  next
    case ST_GEN_KEY
    have "ends (\<lambda>s'. step_frame s b i (s', b, i)) (\<lambda>s'. step_effect V ks tg hmac s b i (s', b, i)) (aws_cryptosdk_priv_try_gen_key V s)"
      by (rule ends_mono [OF try_gen_key_ends]) (use ST_GEN_KEY o b advanced_self in \<open>auto simp: step_frame_def step_effect_def\<close>)
    then show ?thesis using ends_map [where f = "\<lambda>s. (s, b, i)"] ST_GEN_KEY by (simp add: session_step_def)
  next
    case ST_WRITE_HEADER
    obtain c where c: "se_header_copy s = Some c" using ST_WRITE_HEADER o by auto
    have "ends (\<lambda>(s', b'). step_frame s b i (s', b', i)) (\<lambda>(s', b'). step_effect V ks tg hmac s b i (s', b', i))
        (aws_cryptosdk_priv_try_write_header V s b)"
      by (rule ends_mono [OF try_write_header_ends [OF _ _ _ c b]]) (use ST_WRITE_HEADER o c in \<open>auto simp: suite_ready_def step_effect_def\<close>)
    then show ?thesis using ends_bind3 ST_WRITE_HEADER by (simp add: session_step_def)
  next
    case ST_ENCRYPT_BODY
    obtain j p where p: "se_alg_props s = Some p" "aws_cryptosdk_alg_props j = Some p" using ST_ENCRYPT_BODY o by (auto simp: suite_ready_def)
    have "ends (step_frame s b i) (step_effect V ks tg hmac s b i) (aws_cryptosdk_priv_try_encrypt_body V s b i)"
      by (rule ends_mono [OF try_encrypt_body_ends [OF ST_ENCRYPT_BODY p]])
        (use ST_ENCRYPT_BODY o b advanced_self in \<open>auto simp: suite_ready_def step_frame_def step_effect_def buf_valid_def\<close>)
    then show ?thesis using ST_ENCRYPT_BODY by (simp add: session_step_def)
  next
    case ST_WRITE_TRAILER
    have "ends (\<lambda>(s', b'). step_frame s b i (s', b', i)) (\<lambda>(s', b'). step_effect V ks tg hmac s b i (s', b', i))
        (aws_cryptosdk_priv_write_trailer V s b)"
      by (rule ends_mono [OF write_trailer_ends]) (use ST_WRITE_TRAILER o b advanced_self in \<open>auto simp: step_frame_def step_effect_def\<close>)
    then show ?thesis using ends_bind3 ST_WRITE_TRAILER by (simp add: session_step_def)
  qed
qed

text \<open>The rule for the loop: what every successful step keeps holds at the end, and the loop returns.\<close>

lemma process_loop_ends:
  assumes J: "\<And>s cin cout. J s cin cout \<Longrightarrow> session_ok V s"
    and step: "\<And>s cin cout sp inp s' sp' n. J s cin cout \<Longrightarrow> buf_valid sp \<Longrightarrow> buf_len sp = 0 \<Longrightarrow> n \<le> cur_len inp \<Longrightarrow>
      step_effect V ks tg hmac s sp inp (s', sp', advanced inp n) \<Longrightarrow> J s' (cin @ take n (cur_data inp)) (cout @ buf_contents sp')"
    and start: "J s cin cout" "buf_valid out"
  shows "ends (\<lambda>(s', out', inp'). same_config s s' \<and> (se_state s' = ST_ERROR \<longrightarrow> session_ok V s') \<and>
       buf_capacity out' = buf_capacity out \<and> buf_valid out' \<and> (\<exists>n \<le> cur_len inp. inp' = advanced inp n))
    (\<lambda>(s', out', inp'). same_config s s' \<and> se_state s' \<noteq> ST_ERROR \<and> buf_capacity out' = buf_capacity out \<and> buf_valid out' \<and>
       (\<exists>n bs. n \<le> cur_len inp \<and> inp' = advanced inp n \<and> buf_contents out' = buf_contents out @ bs \<and> J s' (cin @ take n (cur_data inp)) (cout @ bs)))
    (process_loop V s out inp)"
  using start
proof (induction "(buf_capacity out - buf_len out) + cur_len inp + (6 - rank (se_state s))" arbitrary: s cin cout out inp rule: less_induct)
  case less
  note ok = J [OF less.prems(1)] and v = less.prems(2)
  have sp: "buf_valid (remaining_space out)" "buf_len (remaining_space out) = 0" by (simp_all add: remaining_space_def buf_from_empty_array_def buf_valid_def)
  obtain st s' sp' inp' where r: "session_step V s (remaining_space out) inp = Some (st, s', sp', inp')"
    and S: "st = None \<Longrightarrow> step_effect V ks tg hmac s (remaining_space out) inp (s', sp', inp')"
    and E: "st \<noteq> None \<Longrightarrow> step_frame s (remaining_space out) inp (s', sp', inp')"
    using session_step_ends [OF ok sp(1), of inp] by (elim ends_elim) (metis prod_cases3)
  have f: "step_frame s (remaining_space out) inp (s', sp', inp')"
    using E step_effect_keeps [OF ok sp(1) S] by blast
  then have sp': "buf_capacity sp' = buf_capacity (remaining_space out)" "buf_valid sp'" "same_config s s'" "rank (se_state s) \<le> rank (se_state s')"
      "se_state s' = ST_ERROR \<longrightarrow> s' = s"
    by (simp_all add: step_frame_def)
  obtain n where n: "n \<le> cur_len inp" "inp' = advanced inp n" using f by (auto simp: step_frame_def)
  note out = put_back_capacity [OF v sp'(1,2)]
  note J' = step [OF less.prems(1) sp n(1) S [unfolded n(2)]]
  let ?p = "buf_len sp' \<noteq> 0 \<or> cur_ptr inp' \<noteq> cur_ptr inp \<or> se_state s \<noteq> se_state s'"
  have e: "process_loop V s out inp = (if st = None \<and> ?p then process_loop V s' (put_back out sp') inp' else Some (st, s', put_back out sp', inp'))"
    unfolding process_loop.simps [of V s out inp] r by (simp add: Let_def)
  show ?case
  proof (cases "st = None \<and> ?p")
    case False
    then have e': "process_loop V s out inp = Some (st, s', put_back out sp', inp')" unfolding e by (rule if_not_P)
    show ?thesis unfolding e' using sp' out n J' ok step_effect_live [OF ok sp(1) S] by auto
  next
    case True
    then have e': "process_loop V s out inp = process_loop V s' (put_back out sp') inp'" unfolding e by (rule if_P)
    have st: "st = None" using True by blast
    have rk: "se_state s' \<noteq> se_state s \<Longrightarrow> rank (se_state s) < rank (se_state s')" using step_effect_keeps [OF ok sp(1) S [OF st]] by blast
    have "rank (se_state s') \<le> 6" by (cases "se_state s'") simp_all
    moreover have "cur_len inp' = cur_len inp - n" "cur_ptr inp' = cur_ptr inp + n" using n by (simp_all add: advanced_def)
    moreover have "buf_len out + buf_len sp' \<le> buf_capacity out" using out by (simp add: buf_valid_def)
    ultimately have m: "(buf_capacity (put_back out sp') - buf_len (put_back out sp')) + cur_len inp' + (6 - rank (se_state s')) <
        (buf_capacity out - buf_len out) + cur_len inp + (6 - rank (se_state s))"
      using True out(1-3) sp'(4) rk n(1) by auto
    have adv: "n + m \<le> cur_len inp \<and> advanced inp' m = advanced inp (n + m) \<and>
        take n (cur_data inp) @ take m (cur_data inp') = take (n + m) (cur_data inp)" if "m \<le> cur_len inp'" for m
      using that n by (simp add: advanced_def take_add add.commute [of m])
    show ?thesis
      unfolding e'
    proof (rule ends_mono [OF less.hyps [OF m J' [OF st] out(2)]], goal_cases)
      case (1 x)
      then show ?case using out(1) adv sp'(3) same_config_trans by (cases x) (fastforce split: prod.splits)
    next
      case (2 x)
      obtain s2 out2 inp2 where x: "x = (s2, out2, inp2)" by (cases x)
      obtain m bs where m: "m \<le> cur_len inp'" "inp2 = advanced inp' m" "buf_contents out2 = buf_contents (put_back out sp') @ bs"
          "J s2 ((cin @ take n (cur_data inp)) @ take m (cur_data inp')) ((cout @ buf_contents sp') @ bs)"
        using 2 unfolding x prod.case by blast
      have "\<exists>n bs. n \<le> cur_len inp \<and> inp2 = advanced inp n \<and> buf_contents out2 = buf_contents out @ bs \<and> J s2 (cin @ take n (cur_data inp)) (cout @ bs)"
        using m adv [OF m(1)] out(4) by - (rule exI [of _ "n + m"], rule exI [of _ "buf_contents sp' @ bs"], simp)
      moreover have C: "same_config s' s2" "se_state s2 \<noteq> ST_ERROR" "buf_capacity out2 = buf_capacity out" "buf_valid out2"
        using 2 out(1) unfolding x prod.case by (elim conjE; simp)+
      ultimately show ?case unfolding x prod.case using same_config_trans [OF sp'(3) C(1)] by blast
    qed
  qed
qed

text \<open>A call that returns, and what it does to the session and the buffers of the caller.\<close>

definition call_ok :: "session \<Rightarrow> bytes \<Rightarrow> bytes \<Rightarrow> processed \<Rightarrow> bool" where
  "call_ok s outp inp r \<longleftrightarrow> same_config s (pr_session r) \<and> pr_in_bytes_read r \<le> length inp \<and> pr_out_bytes_written r \<le> length outp \<and>
     length (pr_outp r) = length outp \<and>
     (pr_status r = None \<longrightarrow> se_state (pr_session r) \<noteq> ST_ERROR) \<and>
     (pr_status r \<noteq> None \<longrightarrow> se_state (pr_session r) = ST_ERROR \<and> pr_out_bytes_written r = 0 \<and> pr_outp r = replicate (length outp) 0 \<and>
        pr_status r = se_error (pr_session r))"

lemma process_ends:
  assumes J: "\<And>s cin cout. J s cin cout \<Longrightarrow> session_ok V s"
    and step: "\<And>s cin cout sp inp s' sp' n. J s cin cout \<Longrightarrow> buf_valid sp \<Longrightarrow> buf_len sp = 0 \<Longrightarrow> n \<le> cur_len inp \<Longrightarrow>
      step_effect V ks tg hmac s sp inp (s', sp', advanced inp n) \<Longrightarrow> J s' (cin @ take n (cur_data inp)) (cout @ buf_contents sp')"
    and start: "J s cin cout"
  shows "\<exists>r. aws_cryptosdk_session_process V s outp inp = Some r \<and> call_ok s outp inp r \<and> session_ok V (pr_session r) \<and>
    (pr_status r = None \<longrightarrow> J (pr_session r) (cin @ take (pr_in_bytes_read r) inp) (cout @ take (pr_out_bytes_written r) (pr_outp r)))"
proof -
  let ?out = "buf_from_empty_array outp"
  have v: "buf_valid ?out" "buf_contents ?out = []" "buf_capacity ?out = length outp" by (simp_all add: buf_valid_def buf_from_empty_array_def buf_contents_def)
  have ok: "session_ok V s" by (rule J [OF start])
  have c: "cur_len (cursor_of inp) = length inp" "cur_data (cursor_of inp) = inp" "cur_ptr (advanced (cursor_of inp) n) = n" for n
    by (simp_all add: cursor_of_def advanced_def)
  have L: "ends (\<lambda>(s', out', inp'). same_config s s' \<and> (se_state s' = ST_ERROR \<longrightarrow> session_ok V s') \<and>
       buf_capacity out' = buf_capacity ?out \<and> buf_valid out' \<and> (\<exists>n \<le> cur_len (cursor_of inp). inp' = advanced (cursor_of inp) n))
    (\<lambda>(s', out', inp'). same_config s s' \<and> se_state s' \<noteq> ST_ERROR \<and> buf_capacity out' = buf_capacity ?out \<and> buf_valid out' \<and>
       (\<exists>n bs. n \<le> cur_len (cursor_of inp) \<and> inp' = advanced (cursor_of inp) n \<and> buf_contents out' = buf_contents ?out @ bs \<and>
          J s' (cin @ take n (cur_data (cursor_of inp))) (cout @ bs)))
    (process_loop V s ?out (cursor_of inp))"
    by (rule process_loop_ends [where J = J, OF J step start v(1)])
  then obtain st s' out' inp' where r: "process_loop V s ?out (cursor_of inp) = Some (st, s', out', inp')"
    and S0: "st = None \<Longrightarrow> same_config s s' \<and> se_state s' \<noteq> ST_ERROR \<and> buf_capacity out' = buf_capacity ?out \<and> buf_valid out' \<and>
       (\<exists>n bs. n \<le> cur_len (cursor_of inp) \<and> inp' = advanced (cursor_of inp) n \<and> buf_contents out' = buf_contents ?out @ bs \<and>
          J s' (cin @ take n (cur_data (cursor_of inp))) (cout @ bs))"
    and E0: "st \<noteq> None \<Longrightarrow> same_config s s' \<and> (se_state s' = ST_ERROR \<longrightarrow> session_ok V s') \<and>
       buf_capacity out' = buf_capacity ?out \<and> buf_valid out' \<and> (\<exists>n \<le> cur_len (cursor_of inp). inp' = advanced (cursor_of inp) n)"
    by (rule ends_elim3) (rule that, assumption, blast+)
  show ?thesis
  proof (cases st)
    case None
    with S0 c v obtain n bs where S: "same_config s s'" "se_state s' \<noteq> ST_ERROR" "buf_capacity out' = length outp" "buf_valid out'"
        "n \<le> length inp" "inp' = advanced (cursor_of inp) n" "buf_contents out' = bs" "J s' (cin @ take n inp) (cout @ bs)" by auto
    show ?thesis
      using r S J [OF S(8)] None c(3) [of n]
      by (auto simp: aws_cryptosdk_session_process_def call_ok_def buf_valid_def buf_contents_def)
  next
    case (Some e)
    with E0 c v obtain n where E: "same_config s s'" "se_state s' = ST_ERROR \<longrightarrow> session_ok V s'" "buf_capacity out' = length outp" "buf_valid out'"
        "n \<le> length inp" "inp' = advanced (cursor_of inp) n" by auto
    let ?s = "if se_state s' \<noteq> ST_ERROR then s'\<lparr>se_error := Some e, se_state := ST_ERROR\<rparr> else s'"
    have p: "aws_cryptosdk_session_process V s outp inp = Some \<lparr>pr_status = AWS_OP_ERR (case se_error ?s of None \<Rightarrow> LAST_ERROR_UNCHANGED | Some e \<Rightarrow> e),
        pr_session = ?s, pr_outp = replicate (length outp) 0, pr_out_bytes_written = 0, pr_in_bytes_read = n\<rparr>"
      using r Some E(3,6) c(3) [of n]
      by (simp add: aws_cryptosdk_session_process_def change_state_error secure_zero)
    have "session_ok V ?s" "same_config s ?s" "se_error ?s \<noteq> None" "se_state ?s = ST_ERROR"
      using E(1,2) ok by (auto simp: session_ok_def same_config_def)
    then show ?thesis unfolding p using E by (auto simp: call_ok_def)
  qed
qed

end

end
