(* ===== verification/SessionProps.thy ===== *)
theory SessionProps
  imports SessionRun
begin

text \<open>
  What sessions promise their callers, whatever the sequence of calls: operations return, calls of \<^verbatim>\<open>aws_cryptosdk_session_process\<close> stay within the
  buffers, a failed call leaves nothing in the output, and the failure is final until the session is reset.
\<close>

section \<open>Sessions that calls can produce\<close>

text \<open>
  The operations of the interface in any order and with any arguments. A manager must be live: no signature context it gives
  asks for signatures of a length that its key never gives.
\<close>

inductive reachable :: "env \<Rightarrow> session \<Rightarrow> bool" for V :: env where
  from_cmm: "aws_cryptosdk_session_new_from_cmm_2 (env_lib V) d mode c = Some (Some s) \<Longrightarrow> cmm_live (env_ec V) c \<Longrightarrow> reachable V s"
| from_keyring: "aws_cryptosdk_session_new_from_keyring_2 V d mode kr = Some (Some s) \<Longrightarrow> aws_cryptosdk_default_cmm_new (env_lib V) kr = Some dc \<Longrightarrow>
    cmm_live (env_ec V) (default_cmm_vt V dc) \<Longrightarrow> reachable V s"
| reset: "reachable V s \<Longrightarrow> aws_cryptosdk_session_reset s mode = Some (st, s') \<Longrightarrow> reachable V s'"
| policy: "reachable V s \<Longrightarrow> aws_cryptosdk_session_set_commitment_policy s p = Some (st, s') \<Longrightarrow> reachable V s'"
| frame_size: "reachable V s \<Longrightarrow> aws_cryptosdk_session_set_frame_size s fsize = (st, s') \<Longrightarrow> reachable V s'"
| bound: "reachable V s \<Longrightarrow> aws_cryptosdk_session_set_message_bound s n = Some (st, s') \<Longrightarrow> reachable V s'"
| max_edks: "reachable V s \<Longrightarrow> aws_cryptosdk_session_set_max_encrypted_data_keys s m = Some (st, s') \<Longrightarrow> reachable V s'"
| enc_ctx: "reachable V s \<Longrightarrow> aws_cryptosdk_session_get_enc_ctx_ptr_mut s = Some t \<Longrightarrow> hash_valid t' \<Longrightarrow>
    reachable V (s\<lparr>se_header := (se_header s)\<lparr>hdr_enc_ctx := t'\<rparr>\<rparr>)"
| size: "reachable V s \<Longrightarrow> aws_cryptosdk_session_set_message_size V s n = Some (st, s') \<Longrightarrow> reachable V s'"
| process: "reachable V s \<Longrightarrow> aws_cryptosdk_session_process V s outp inp = Some r \<Longrightarrow> reachable V (pr_session r)"
| process_full: "reachable V s \<Longrightarrow> aws_cryptosdk_session_process_full V s outp w inp = Some (st, s', out') \<Longrightarrow> reachable V s'"

lemma fail_session_ok:
  assumes "session_ok V s"
  shows "\<exists>s'. aws_cryptosdk_priv_fail_session s e = Some (Some e, s') \<and> session_ok V s' \<and> se_state s' = ST_ERROR"
  using assms by (auto simp: aws_cryptosdk_priv_fail_session_def change_state_error session_ok_def)

lemma reset_ok:
  assumes "hdr_alloc (se_header s)" "length (se_commitment_arr s) = 32" "\<And>c. se_cmm s = Some c \<Longrightarrow> cmm_live (env_ec V) c"
  shows "\<exists>st s'. aws_cryptosdk_session_reset s mode = Some (st, s') \<and> session_ok V s' \<and> se_cmm s' = se_cmm s \<and>
    (st = None \<longrightarrow> se_state s' = ST_CONFIG \<and> se_mode s' = mode)"
  using assms
  by (auto simp: aws_cryptosdk_session_reset_def Let_def aws_cryptosdk_priv_fail_session_def change_state_error session_ok_def hdr_clear_eq header_fresh_def
      hash_valid_def buf_valid_def buf_zero_def hdr_zero_def)

lemma set_policy_ok:
  assumes "session_ok V s"
  shows "\<exists>st s'. aws_cryptosdk_session_set_commitment_policy s p = Some (st, s') \<and> session_ok V s'"
proof -
  have "session_ok V (s\<lparr>se_policy := p\<rparr>)" using assms by (auto simp: session_ok_def suite_ready_def split: session_state.split)
  then show ?thesis
    using fail_session_ok [of V "s\<lparr>se_policy := p\<rparr>" AWS_CRYPTOSDK_ERR_BAD_STATE] by (auto simp: aws_cryptosdk_session_set_commitment_policy_def Let_def)
qed

lemma session_new_ok:
  assumes "aws_cryptosdk_session_new L d mode = Some (Some s)" "cmm_live (env_ec V) c"
  shows "session_ok V (s\<lparr>se_cmm := Some c\<rparr>)" "se_state s = ST_CONFIG" "se_mode s = mode"
  using assms
  by (auto simp: aws_cryptosdk_session_new_def aws_cryptosdk_hdr_init_def aws_cryptosdk_session_reset_def Let_def session_zero_def
      aws_cryptosdk_priv_fail_session_def change_state_error session_ok_def hdr_clear_eq header_fresh_def hash_valid_def buf_valid_def buf_zero_def hdr_zero_def bind_eq_Some_conv bindE_eq_Inr split: if_splits sum.splits option.splits)

lemma set_message_bound_ok:
  assumes "session_ok V s"
  shows "\<exists>st s'. aws_cryptosdk_session_set_message_bound s n = Some (st, s') \<and> session_ok V s'"
proof -
  have "session_ok V (s\<lparr>se_size_bound := n\<rparr>)" using assms by (auto simp: session_ok_def suite_ready_def split: session_state.split)
  then show ?thesis
    using assms fail_session_ok [OF assms, of AWS_CRYPTOSDK_ERR_LIMIT_EXCEEDED] by (auto simp: aws_cryptosdk_session_set_message_bound_def)
qed

lemma set_max_edks_ok:
  assumes "session_ok V s"
  shows "\<exists>st s'. aws_cryptosdk_session_set_max_encrypted_data_keys s m = Some (st, s') \<and> session_ok V s'"
proof -
  have "session_ok V (s\<lparr>se_max_edks := m\<rparr>)" using assms by (auto simp: session_ok_def suite_ready_def split: session_state.split)
  then show ?thesis
    using assms fail_session_ok [OF assms, of AWS_CRYPTOSDK_ERR_BAD_STATE] by (auto simp: aws_cryptosdk_session_set_max_encrypted_data_keys_def)
qed

lemma set_frame_size_ok:
  assumes "session_ok V s" "aws_cryptosdk_session_set_frame_size s fsize = (st, s')"
  shows "session_ok V s'"
  using assms by (auto simp: aws_cryptosdk_session_set_frame_size_def session_ok_def split: if_splits)

lemma enc_ctx_ok:
  assumes "session_ok V s" "aws_cryptosdk_session_get_enc_ctx_ptr_mut s = Some t" "hash_valid t'"
  shows "session_ok V (s\<lparr>se_header := (se_header s)\<lparr>hdr_enc_ctx := t'\<rparr>\<rparr>)"
  using assms by (auto simp: aws_cryptosdk_session_get_enc_ctx_ptr_mut_def session_ok_def header_fresh_def split: if_splits)

context session_env
begin

text \<open>The estimate of the next frame is made with empty buffers, into which no frame fits.\<close>

lemma body_estimate:
  assumes ok: "session_ok V s"
  shows "\<exists>x y. aws_cryptosdk_priv_encrypt_compute_body_estimate V s = Some (s\<lparr>se_out_est := x, se_in_est := y\<rparr>)"
proof (cases "se_state s = ST_ENCRYPT_BODY")
  case False
  then show ?thesis
    by - (rule exI [of _ "se_out_est s"], rule exI [of _ "se_in_est s"], simp add: aws_cryptosdk_priv_encrypt_compute_body_estimate_def)
next
  case True
  then obtain j p where p: "se_alg_props s = Some p" "aws_cryptosdk_alg_props j = Some p" using ok by (auto simp: session_ok_def suite_ready_def)
  have s: "\<exists>x y. s = s\<lparr>se_out_est := x, se_in_est := y\<rparr>" by (rule exI [of _ "se_out_est s"], rule exI [of _ "se_in_est s"]) simp
  have ser: "\<exists>e f' cs out. aws_cryptosdk_serialize_frame (env_lib V) f 0 n buf_zero p = (Some e, f', cs, out)" for f n
  proof -
    obtain st f' cs out where r: "aws_cryptosdk_serialize_frame (env_lib V) f 0 n buf_zero p = (st, f', cs, out)" by (metis prod_cases4)
    have v: "buf_valid buf_zero" "\<not> fits buf_zero (frame_size (frame_ty f) p (unat n))"
      using alg_props_fields(3) [OF p(2)] by (simp_all add: buf_zero_def buf_valid_def fits_def frame_size_def)
    show ?thesis
    proof (cases "frame_writable f n")
      case True
      then show ?thesis using serialize_frame_written [OF aws_c_common_axioms v(1) p(2) True r] v(2) r by auto
    next
      case False
      then show ?thesis using serialize_frame_refused [OF r False] r by auto
    qed
  qed
  let ?f = "\<lambda>ty. frame_zero\<lparr>frame_ty := ty, sequence_number := ucast (se_seqno s)\<rparr>"
  have "\<exists>st b i x y. aws_cryptosdk_priv_try_encrypt_body V s buf_zero (cursor_of []) = Some (st, s\<lparr>se_out_est := x, se_in_est := y\<rparr>, b, i)"
  proof (cases "next_frame s")
    case None
    then show ?thesis by (auto simp: aws_cryptosdk_priv_try_encrypt_body_def)
  next
    case (Some nt)
    obtain n ty where nt: "next_frame s = Some (n, ty)" using Some by (cases nt) auto
    obtain e f' cs out where r: "aws_cryptosdk_serialize_frame (env_lib V) (?f ty) 0 n buf_zero p = (Some e, f', cs, out)"
      using ser [of "?f ty" n] by blast
    obtain x y where s': "s = s\<lparr>se_out_est := x, se_in_est := y\<rparr>" using s by blast
    show ?thesis
    proof (cases "se_seqno s > UINT32_MAX")
      case True
      then have "aws_cryptosdk_priv_try_encrypt_body V s buf_zero (cursor_of []) = Some (AWS_OP_ERR AWS_CRYPTOSDK_ERR_LIMIT_EXCEEDED, s, buf_zero, cursor_of [])"
        using nt by (simp add: aws_cryptosdk_priv_try_encrypt_body_def)
      then show ?thesis using s' by metis
    qed (use nt r p(1) in \<open>auto simp: aws_cryptosdk_priv_try_encrypt_body_def Let_def\<close>)
  qed
  then show ?thesis using True by (auto simp: aws_cryptosdk_priv_encrypt_compute_body_estimate_def) blast
qed

lemma set_message_size_ok:
  assumes ok: "session_ok V s"
  shows "\<exists>st s'. aws_cryptosdk_session_set_message_size V s n = Some (st, s') \<and> session_ok V s'"
proof -
  let ?s = "s\<lparr>se_precise_size := n, se_precise_size_known := True\<rparr>"
  have ok': "session_ok V ?s" "session_ok V (?s\<lparr>se_out_est := x, se_in_est := y\<rparr>)" for x y
    using ok by (auto simp: session_ok_def suite_ready_def split: session_state.split)
  obtain x y where "aws_cryptosdk_priv_encrypt_compute_body_estimate V ?s = Some (?s\<lparr>se_out_est := x, se_in_est := y\<rparr>)"
    using body_estimate [OF ok'(1)] by blast
  then show ?thesis
    using ok ok' fail_session_ok [OF ok, of AWS_CRYPTOSDK_ERR_BAD_STATE] fail_session_ok [OF ok, of AWS_CRYPTOSDK_ERR_LIMIT_EXCEEDED]
    by (auto simp: aws_cryptosdk_session_set_message_size_def Let_def)
qed

lemma process_ok:
  assumes "session_ok V s"
  shows "\<exists>r. aws_cryptosdk_session_process V s outp inp = Some r \<and> call_ok s outp inp r \<and> session_ok V (pr_session r)"
  using process_ends [where J = "\<lambda>s cin cout. session_ok V s" and s = s and cin = "[]" and cout = "[]" and outp = outp and inp = inp] assms step_effect_keeps
  by blast

lemma process_full_ok:
  assumes ok: "session_ok V s"
  shows "\<exists>st s' out w'. aws_cryptosdk_session_process_full V s outp w inp = Some (st, s', out, w') \<and> session_ok V s' \<and>
    (st = None \<longrightarrow> se_state s' = ST_DONE)"
proof (cases "se_state s = ST_CONFIG")
  case False
  then show ?thesis using ok by (simp add: aws_cryptosdk_session_process_full_def)
next
  case True
  obtain st s1 where s1: "(if se_mode s = AWS_CRYPTOSDK_ENCRYPT then aws_cryptosdk_session_set_message_size V s (word_of_nat (length inp)) else Some (None, s)) = Some (st, s1)"
      "session_ok V s1" using set_message_size_ok [OF ok] ok by (metis (full_types))
  obtain r where r: "aws_cryptosdk_session_process V s1 outp inp = Some r" "session_ok V (pr_session r)" using process_ok [OF s1(2)] by blast
  have e: "session_ok V ((pr_session r)\<lparr>se_error := Some x, se_state := ST_ERROR\<rparr>)" for x using r(2) by (simp add: session_ok_def)
  show ?thesis
    using True s1 r e by (auto simp: aws_cryptosdk_session_process_full_def Let_def change_state_error aws_cryptosdk_session_is_done_def)
qed

lemma reachable_ok:
  assumes "reachable V s"
  shows "session_ok V s"
  using assms
proof induction
  case (from_cmm d mode c s)
  then obtain s0 where s0: "aws_cryptosdk_session_new (env_lib V) d mode = Some (Some s0)"
      "(do { (_, s) \<leftarrow> aws_cryptosdk_session_set_commitment_policy (s0\<lparr>se_cmm := Some c\<rparr>) COMMITMENT_POLICY_REQUIRE_ENCRYPT_REQUIRE_DECRYPT; Some (Some s) }) = Some (Some s)"
    by (auto simp: aws_cryptosdk_session_new_from_cmm_2_def bind_eq_Some_conv split: option.splits)
  then show ?case using set_policy_ok [OF session_new_ok(1) [OF s0(1) from_cmm(2)], of COMMITMENT_POLICY_REQUIRE_ENCRYPT_REQUIRE_DECRYPT] by auto
next
  case (from_keyring d mode kr s dc)
  then obtain s0 where s0: "aws_cryptosdk_session_new (env_lib V) d mode = Some (Some s0)"
      "(do { (_, s) \<leftarrow> aws_cryptosdk_session_set_commitment_policy (s0\<lparr>se_cmm := Some (default_cmm_vt V dc)\<rparr>) COMMITMENT_POLICY_REQUIRE_ENCRYPT_REQUIRE_DECRYPT; Some (Some s) }) = Some (Some s)"
    by (auto simp: aws_cryptosdk_session_new_from_keyring_2_def bind_eq_Some_conv split: option.splits)
  then show ?case using set_policy_ok [OF session_new_ok(1) [OF s0(1) from_keyring(3)], of COMMITMENT_POLICY_REQUIRE_ENCRYPT_REQUIRE_DECRYPT] by auto
next
  case (reset s mode st s')
  then show ?case using reset_ok [of s V mode] by (auto simp: session_ok_def [of V s])
next
  case (policy s p st s')
  then show ?case using set_policy_ok [of V s p] by auto
next
  case (frame_size s fsize st s')
  then show ?case using set_frame_size_ok by blast
next
  case (bound s n st s')
  then show ?case using set_message_bound_ok [of V s n] by auto
next
  case (max_edks s m st s')
  then show ?case using set_max_edks_ok [of V s m] by auto
next
  case (enc_ctx s t t')
  then show ?case using enc_ctx_ok by blast
next
  case (size s n st s')
  then show ?case using set_message_size_ok [of s n] by auto
next
  case (process s outp inp r)
  then show ?case using process_ok [of s outp inp] by auto
next
  case (process_full s outp w inp st s' out')
  then show ?case using process_full_ok [of s outp w inp] by auto
qed

end

end
