(* ===== verification/SessionSound.thy ===== *)
theory SessionSound
  imports SessionProps
begin

text \<open>
  What a session that has decrypted a message guarantees: the bytes it has consumed are a message whose header, frames and signature are
  authentic, and what it has produced is the plaintext of the frames. This holds however the message was cut into calls.
\<close>

section \<open>Authentic messages\<close>

text \<open>
  A frame is given by its type, its bytes and its plaintext. The frames of a body are numbered from one; only the last one is
  a final frame or the single block.
\<close>

type_synonym sealed = "frame_type \<times> bytes \<times> bytes"

definition body_bytes :: "sealed list \<Rightarrow> bytes" where
  "body_bytes fs = concat (map (fst \<circ> snd) fs)"

definition body_plaintext :: "sealed list \<Rightarrow> bytes" where
  "body_plaintext fs = concat (map (snd \<circ> snd) fs)"

definition frames_sealed ::
  "(gcm_id \<Rightarrow> nat \<Rightarrow> byte) \<Rightarrow> (gcm_id \<Rightarrow> bytes \<Rightarrow> bytes \<Rightarrow> bytes) \<Rightarrow> session \<Rightarrow> sealed list \<Rightarrow> bool" where
  "frames_sealed ks tg s fs \<longleftrightarrow> length fs \<le> 0xFFFFFFFF \<and>
     (\<forall>i < length fs. sealed_frame ks tg (the (se_alg_props s)) (se_content_key s) (hdr_message_id (se_header s)) (se_frame_size s)
        (fst (fs ! i)) (word_of_nat (i + 1)) (fst (snd (fs ! i))) (snd (snd (fs ! i))))"

definition body_complete :: "sealed list \<Rightarrow> bool" where
  "body_complete fs \<longleftrightarrow> fs \<noteq> [] \<and> (\<forall>i < length fs. fst (fs ! i) = FRAME_TYPE_FRAME \<longleftrightarrow> i + 1 < length fs)"

text \<open>The signature over header and body, if the suite signs, is valid for the key that the materials name.\<close>

definition signature_ok :: "siglib \<Rightarrow> dec_materials \<Rightarrow> alg_properties \<Rightarrow> bytes \<Rightarrow> bytes \<Rightarrow> bool" where
  "signature_ok E dm p covered tr \<longleftrightarrow>
     (if signature_len p = 0 then tr = []
      else \<exists>sc sig. dm_signctx dm = Some sc \<and> length sig \<le> UINT16_MAX \<and> tr = trailer_bytes sig \<and>
        ec_verify_final E (ek_group (sc_keypair sc)) (ek_pub (sc_keypair sc)) (sc_md sc) (sc_data sc @ covered) sig)"

definition authentic ::
  "env \<Rightarrow> (gcm_id \<Rightarrow> nat \<Rightarrow> byte) \<Rightarrow> (gcm_id \<Rightarrow> bytes \<Rightarrow> bytes \<Rightarrow> bytes) \<Rightarrow> (evp_md \<Rightarrow> bytes \<Rightarrow> bytes \<Rightarrow> bytes) \<Rightarrow> session \<Rightarrow> bytes \<Rightarrow> bytes \<Rightarrow> bool" where
  "authentic V ks tg hmac s msg pt \<longleftrightarrow>
     (\<exists>hb fs tr dm p. msg = hb @ body_bytes fs @ tr \<and> pt = body_plaintext fs \<and> opened V tg hmac s hb dm p \<and>
        frames_sealed ks tg s fs \<and> body_complete fs \<and> signature_ok (env_ec V) dm p (hb @ body_bytes fs) tr)"

section \<open>The invariant of decryption\<close>

definition dec_inv ::
  "env \<Rightarrow> (gcm_id \<Rightarrow> nat \<Rightarrow> byte) \<Rightarrow> (gcm_id \<Rightarrow> bytes \<Rightarrow> bytes \<Rightarrow> bytes) \<Rightarrow> (evp_md \<Rightarrow> bytes \<Rightarrow> bytes \<Rightarrow> bytes) \<Rightarrow> session \<Rightarrow> bytes \<Rightarrow> bytes \<Rightarrow> bool" where
  "dec_inv V ks tg hmac s cin cout \<longleftrightarrow> session_ok V s \<and> aws_cryptosdk_priv_is_decrypt_mode (se_mode s) \<and>
     (case se_state s of
        ST_DECRYPT_BODY \<Rightarrow> \<exists>hb fs dm p. cin = hb @ body_bytes fs \<and> cout = body_plaintext fs \<and> opened V tg hmac s hb dm p \<and>
          frames_sealed ks tg s fs \<and> (\<forall>f \<in> set fs. fst f = FRAME_TYPE_FRAME) \<and> se_seqno s = word_of_nat (length fs + 1) \<and>
          verifies_with dm p cin (se_signctx s)
      | ST_CHECK_TRAILER \<Rightarrow> \<exists>hb fs tr dm p. cin = hb @ body_bytes fs @ tr \<and> cout = body_plaintext fs \<and> opened V tg hmac s hb dm p \<and>
          frames_sealed ks tg s fs \<and> body_complete fs \<and>
          (tr = [] \<and> verifies_with dm p cin (se_signctx s) \<or> se_signctx s = None \<and> signature_ok (env_ec V) dm p (hb @ body_bytes fs) tr)
      | ST_DONE \<Rightarrow> authentic V ks tg hmac s cin cout
      | _ \<Rightarrow> cin = [] \<and> cout = [])"

lemma body_append [simp]:
  "body_bytes (fs @ [(ty, fb, pt)]) = body_bytes fs @ fb" "body_plaintext (fs @ [(ty, fb, pt)]) = body_plaintext fs @ pt"
  "body_bytes [] = []" "body_plaintext [] = []"
  by (simp_all add: body_bytes_def body_plaintext_def)

text \<open>The updates that steps make after the header was opened.\<close>

lemma opened_updates [simp]:
  "opened V tg hmac (s\<lparr>se_in_est := x\<rparr>) hb dm p = opened V tg hmac s hb dm p"
  "opened V tg hmac (s\<lparr>se_out_est := x\<rparr>) hb dm p = opened V tg hmac s hb dm p"
  "opened V tg hmac (s\<lparr>se_seqno := n\<rparr>) hb dm p = opened V tg hmac s hb dm p"
  "opened V tg hmac (s\<lparr>se_signctx := c\<rparr>) hb dm p = opened V tg hmac s hb dm p"
  "opened V tg hmac (s\<lparr>se_state := st\<rparr>) hb dm p = opened V tg hmac s hb dm p"
  by (simp_all add: opened_def)

lemma frames_sealed_updates [simp]:
  "frames_sealed ks tg (s\<lparr>se_in_est := x\<rparr>) fs = frames_sealed ks tg s fs"
  "frames_sealed ks tg (s\<lparr>se_out_est := x\<rparr>) fs = frames_sealed ks tg s fs"
  "frames_sealed ks tg (s\<lparr>se_seqno := n\<rparr>) fs = frames_sealed ks tg s fs"
  "frames_sealed ks tg (s\<lparr>se_signctx := c\<rparr>) fs = frames_sealed ks tg s fs"
  "frames_sealed ks tg (s\<lparr>se_state := st\<rparr>) fs = frames_sealed ks tg s fs"
  by (simp_all add: frames_sealed_def)

lemma authentic_updates [simp]:
  "authentic V ks tg hmac (s\<lparr>se_in_est := x\<rparr>) msg pt = authentic V ks tg hmac s msg pt"
  "authentic V ks tg hmac (s\<lparr>se_out_est := x\<rparr>) msg pt = authentic V ks tg hmac s msg pt"
  "authentic V ks tg hmac (s\<lparr>se_state := st\<rparr>) msg pt = authentic V ks tg hmac s msg pt"
  by (simp_all add: authentic_def)

lemma frames_sealed_snoc:
  assumes "frames_sealed ks tg s fs" "sealed_frame ks tg (the (se_alg_props s)) (se_content_key s) (hdr_message_id (se_header s)) (se_frame_size s)
      ty (word_of_nat (length fs + 1)) fb pt" "length fs < 0xFFFFFFFF"
  shows "frames_sealed ks tg s (fs @ [(ty, fb, pt)])"
  using assms by (auto simp: frames_sealed_def nth_append less_Suc_eq)

lemma body_complete_snoc:
  "\<forall>f \<in> set fs. fst f = FRAME_TYPE_FRAME \<Longrightarrow> ty \<noteq> FRAME_TYPE_FRAME \<Longrightarrow> body_complete (fs @ [(ty, fb, pt)])"
  by (auto simp: body_complete_def nth_append less_Suc_eq)

lemma verifies_with_append:
  "verifies_with dm p data vc \<Longrightarrow> verifies_with dm p (data @ fb) (map_option (\<lambda>c. c\<lparr>sc_data := sc_data c @ fb\<rparr>) vc)"
  by (auto simp: verifies_with_def split: if_splits)

lemma opened_frame: "opened V tg hmac s hb dm p \<Longrightarrow> se_alg_props s = Some p"
  by (simp add: opened_def)

text \<open>The invariant is kept by every step.\<close>

lemma advanced_inject [simp]: "advanced i m = advanced i n \<longleftrightarrow> m = n" "advanced i n = i \<longleftrightarrow> n = 0" "i = advanced i n \<longleftrightarrow> n = 0"
  by (auto simp: advanced_def dest: arg_cong [where f = cur_ptr])

lemma contents_empty: "buf_len b = 0 \<Longrightarrow> buf_contents b = []"
  by (simp add: buf_contents_def)

lemma seqno_Suc:
  assumes "(word_of_nat (n + 1) :: uint64) \<le> UINT32_MAX" "n \<le> 0xFFFFFFFF"
  shows "n < 0xFFFFFFFF" "(ucast (word_of_nat (n + 1) :: uint64) :: uint32) = word_of_nat (n + 1)"
proof -
  have u: "unat (word_of_nat (n + 1) :: uint64) = n + 1" using assms(2) by (simp only: unat_of_nat) simp
  then show n: "n < 0xFFFFFFFF" using assms(1) unfolding word_le_nat_alt by simp
  then have "unat (word_of_nat (n + 1) :: uint32) = n + 1" by (simp only: unat_of_nat) simp
  then show "(ucast (word_of_nat (n + 1) :: uint64) :: uint32) = word_of_nat (n + 1)"
    using u unat_ucast_64_32 [OF assms(1)] by (simp only: word_unat_eq_iff)
qed

lemma dec_inv_frame:
  assumes J: "dec_inv V ks tg hmac s cin cout" "se_state s = ST_DECRYPT_BODY" and ok: "session_ok V s'" and b: "buf_len b = 0"
    and f: "next_opened ks tg s b i (s', b', advanced i n)"
  shows "dec_inv V ks tg hmac s' (cin @ take n (cur_data i)) (cout @ buf_contents b')"
proof -
  obtain hb fs dm p where d: "cin = hb @ body_bytes fs" "cout = body_plaintext fs" "opened V tg hmac s hb dm p" "frames_sealed ks tg s fs"
      "\<forall>f \<in> set fs. fst f = FRAME_TYPE_FRAME" "se_seqno s = word_of_nat (length fs + 1)" "verifies_with dm p cin (se_signctx s)"
    and m: "aws_cryptosdk_priv_is_decrypt_mode (se_mode s)"
    using J by (auto simp: dec_inv_def)
  obtain ty fb pt rest x y where f': "sealed_frame ks tg (the (se_alg_props s)) (se_content_key s) (hdr_message_id (se_header s)) (se_frame_size s) ty (ucast (se_seqno s)) fb pt"
      "se_seqno s \<le> UINT32_MAX" "cur_data i = fb @ rest" "n = length fb" "fits b (length pt)" "b' = written b pt"
    and s': "s' = s\<lparr>se_in_est := x, se_out_est := y, se_seqno := se_seqno s + 1,
            se_signctx := map_option (\<lambda>c. c\<lparr>sc_data := sc_data c @ fb\<rparr>) (se_signctx s),
            se_state := (if ty = FRAME_TYPE_FRAME then ST_DECRYPT_BODY else ST_CHECK_TRAILER)\<rparr>"
    using f by (auto simp: next_opened_def)
  let ?fs = "fs @ [(ty, fb, pt)]"
  note q = seqno_Suc [OF f'(2) [unfolded d(6)]]
  have l: "length fs \<le> 0xFFFFFFFF" using d(4) by (simp add: frames_sealed_def)
  have fs: "frames_sealed ks tg s ?fs"
    using frames_sealed_snoc [OF d(4) _ q(1) [OF l], of ty fb pt] f'(1) q(2) [OF l] unfolding d(6) by simp
  have c: "cin @ take n (cur_data i) = hb @ body_bytes ?fs" "cout @ buf_contents b' = body_plaintext ?fs"
    using f'(3-6) contents_empty [OF b] d(1,2) by simp_all
  have v: "verifies_with dm p (hb @ body_bytes ?fs) (se_signctx s')"
    using verifies_with_append [OF d(7), of fb] d(1) by (simp add: s')
  have o: "opened V tg hmac s' hb dm p" "frames_sealed ks tg s' ?fs" using d(3) fs by (simp_all add: s')
  show ?thesis
  proof (cases "ty = FRAME_TYPE_FRAME")
    case True
    then have st: "se_state s' = ST_DECRYPT_BODY" "se_seqno s' = word_of_nat (length ?fs + 1)" using d(6) by (simp_all add: s')
    show ?thesis
      unfolding dec_inv_def c st(1) session_state.case using ok m o v st(2) True d(5)
      by (intro conjI exI [of _ hb] exI [of _ ?fs] exI [of _ dm] exI [of _ p]) (auto simp: s')
  next
    case False
    then have st: "se_state s' = ST_CHECK_TRAILER" by (simp add: s')
    show ?thesis
      unfolding dec_inv_def c st session_state.case using ok m o v body_complete_snoc [OF d(5) False]
      by (intro conjI exI [of _ hb] exI [of _ ?fs] exI [of _ "[]"] exI [of _ dm] exI [of _ p]) (auto simp: s')
  qed
qed

lemma dec_inv_step:
  assumes J: "dec_inv V ks tg hmac s cin cout" and b: "buf_valid b" "buf_len b = 0" and n: "n \<le> cur_len i"
    and e: "step_effect V ks tg hmac s b i (s', b', advanced i n)"
  shows "dec_inv V ks tg hmac s' (cin @ take n (cur_data i)) (cout @ buf_contents b')"
proof -
  have m: "session_ok V s" "aws_cryptosdk_priv_is_decrypt_mode (se_mode s)" using J by (simp_all add: dec_inv_def)
  have k: "session_ok V s'" "same_config s s'" using step_effect_keeps [OF m(1) b(1) e] by (simp_all add: step_frame_def)
  have m': "aws_cryptosdk_priv_is_decrypt_mode (se_mode s')" using m(2) k(2) by (simp add: same_config_def)
  note z = contents_empty [OF b(2)]
  consider "se_state s = ST_CONFIG" | "se_state s = ST_READ_HEADER" | "se_state s = ST_DECRYPT_BODY" | "se_state s = ST_CHECK_TRAILER"
    | "se_state s = ST_DONE"
    using m e by (cases "se_state s") (auto simp: session_ok_def step_effect_def aws_cryptosdk_priv_is_decrypt_mode_def)
  then show ?thesis
  proof cases
    case 1
    then show ?thesis using J e z m k(1) by (auto simp: step_effect_def dec_inv_def aws_cryptosdk_priv_is_decrypt_mode_def)
  next
    case 2
    then have c: "cin = []" "cout = []" "b' = b" using J e by (simp_all add: dec_inv_def step_effect_def)
    consider "n = 0" "se_state s' = ST_READ_HEADER" | hb rest where "cur_data i = hb @ rest" "n = length hb" "body_start V tg hmac hb s'"
      using 2 e by (auto simp: step_effect_def)
    then show ?thesis
    proof cases
      case 1
      then show ?thesis using c z k m' by (simp add: dec_inv_def)
    next
      case 2
      obtain dm p where o: "opened V tg hmac s' hb dm p" "verifies_with dm p hb (se_signctx s')" "se_state s' = ST_DECRYPT_BODY" "se_seqno s' = 1"
        using 2(3) by (auto simp: body_start_def)
      show ?thesis
        unfolding dec_inv_def o(3) session_state.case using o 2(1,2) c z k m'
        by (intro conjI exI [of _ hb] exI [of _ "[]"] exI [of _ dm] exI [of _ p]) (auto simp: frames_sealed_def)
    qed
  next
    case 3
    then consider x y where "b' = b" "n = 0" "s' = s\<lparr>se_in_est := x, se_out_est := y\<rparr>" | "next_opened ks tg s b i (s', b', advanced i n)"
      using e by (auto simp: step_effect_def)
    then show ?thesis
    proof cases
      case 1
      then show ?thesis using J 3 z k(1) by (simp add: dec_inv_def)
    qed (rule dec_inv_frame [OF J 3 k(1) b(2)])
  next
    case 4
    then obtain hb fs tr dm p where d: "cin = hb @ body_bytes fs @ tr" "cout = body_plaintext fs" "opened V tg hmac s hb dm p" "frames_sealed ks tg s fs"
        "body_complete fs" "tr = [] \<and> verifies_with dm p cin (se_signctx s) \<or> se_signctx s = None \<and> signature_ok (env_ec V) dm p (hb @ body_bytes fs) tr"
      using J by (simp add: dec_inv_def) blast
    consider "b' = b" "se_signctx s = None" "n = 0" "s' = s\<lparr>se_out_est := 0, se_in_est := 0, se_state := ST_DONE\<rparr>"
      | x where "b' = b" "n = 0" "s' = s\<lparr>se_out_est := 0, se_in_est := x\<rparr>" | "b' = b" "trailer_checked (env_ec V) s i (s', advanced i n)"
      using 4 e by (auto simp: step_effect_def)
    then show ?thesis
    proof cases
      case 1
      have "signature_ok (env_ec V) dm p (hb @ body_bytes fs) tr" using d(6) 1(2) by (auto simp: verifies_with_def signature_ok_def split: if_splits)
      then have "authentic V ks tg hmac s cin cout" unfolding authentic_def using d(1-5) by blast
      then show ?thesis using 1 z k(1) m' by (simp add: dec_inv_def)
    next
      case 2
      then show ?thesis using J 4 z k(1) by (simp add: dec_inv_def)
    next
      case 3
      then obtain c sig rest where t: "se_signctx s = Some c" "length sig \<le> UINT16_MAX" "cur_data i = trailer_bytes sig @ rest"
          "ec_verify_final (env_ec V) (ek_group (sc_keypair c)) (ek_pub (sc_keypair c)) (sc_md c) (sc_data c) sig"
          "n = length (trailer_bytes sig)" "s' = s\<lparr>se_out_est := 0, se_in_est := 0, se_signctx := None\<rparr>"
        by (auto simp: trailer_checked_def trailer_bytes_def)
      have "tr = []" and v: "verifies_with dm p cin (Some c)" using d(6) t(1) by auto
      then have "signature_ok (env_ec V) dm p (hb @ body_bytes fs) (trailer_bytes sig)"
        using t(2,4) d(1) by (auto simp: verifies_with_def signature_ok_def split: if_splits)
      moreover have st: "se_state s' = ST_CHECK_TRAILER" "se_signctx s' = None" using 4 by (simp_all add: t(6))
      moreover have "opened V tg hmac s' hb dm p" "frames_sealed ks tg s' fs" using d(3,4) by (simp_all add: t(6))
      ultimately show ?thesis
        unfolding dec_inv_def st(1) session_state.case using d(1,2,5) \<open>tr = []\<close> t(3,5) k(1) m' 3(1) z
        by - (rule conjI, assumption, rule conjI, assumption, rule exI [of _ hb], rule exI [of _ fs], rule exI [of _ "trailer_bytes sig"],
            rule exI [of _ dm], rule exI [of _ p], simp)
    qed
  next
    case 5
    then show ?thesis using J e z by (simp add: step_effect_def)
  qed
qed

section \<open>Sequences of calls\<close>

text \<open>
  A session is given a message in successful calls, between which the caller may announce sizes: \<open>cin\<close> is what the calls have
  consumed and \<open>cout\<close> what they have produced.
\<close>

inductive calls :: "env \<Rightarrow> session \<Rightarrow> bytes \<Rightarrow> bytes \<Rightarrow> session \<Rightarrow> bool" for V :: env and s :: session where
  no_call: "calls V s [] [] s"
| call: "calls V s cin cout s' \<Longrightarrow> aws_cryptosdk_session_process V s' outp inp = Some r \<Longrightarrow> pr_status r = None \<Longrightarrow>
    calls V s (cin @ take (pr_in_bytes_read r) inp) (cout @ take (pr_out_bytes_written r) (pr_outp r)) (pr_session r)"
| set_size: "calls V s cin cout s' \<Longrightarrow> aws_cryptosdk_session_set_message_size V s' n = Some (None, s'') \<Longrightarrow> calls V s cin cout s''"
| set_bound: "calls V s cin cout s' \<Longrightarrow> aws_cryptosdk_session_set_message_bound s' n = Some (None, s'') \<Longrightarrow> calls V s cin cout s''"

text \<open>A call of \<^verbatim>\<open>aws_cryptosdk_session_process_full\<close> that succeeds is such a sequence.\<close>

lemma process_full_calls:
  assumes "aws_cryptosdk_session_process_full V s outp w inp = Some (None, s', out, n)"
  shows "calls V s inp (take n out) s' \<and> se_state s = ST_CONFIG \<and> se_state s' = ST_DONE"
proof -
  obtain s1 r where s1: "(if se_mode s = AWS_CRYPTOSDK_ENCRYPT then aws_cryptosdk_session_set_message_size V s (word_of_nat (length inp)) else Some (None, s)) = Some (None, s1)"
    and r: "aws_cryptosdk_session_process V s1 outp inp = Some r" "pr_status r = None" "pr_in_bytes_read r = length inp"
      "s' = pr_session r" "out = pr_outp r" "n = pr_out_bytes_written r" "se_state s' = ST_DONE" "se_state s = ST_CONFIG"
    using assms by (auto simp: aws_cryptosdk_session_process_full_def Let_def aws_cryptosdk_session_is_done_def bind_eq_Some_conv split: if_splits)
  have "calls V s [] [] s1" using s1 calls.set_size [OF calls.no_call] calls.no_call by (auto split: if_splits)
  from calls.call [OF this r(1,2)] show ?thesis using r by simp
qed

context session_env
begin

lemma process_keeps:
  assumes J: "\<And>s cin cout. J s cin cout \<Longrightarrow> session_ok V s"
    and step: "\<And>s cin cout sp inp s' sp' n. J s cin cout \<Longrightarrow> buf_valid sp \<Longrightarrow> buf_len sp = 0 \<Longrightarrow> n \<le> cur_len inp \<Longrightarrow>
      step_effect V ks tg hmac s sp inp (s', sp', advanced inp n) \<Longrightarrow> J s' (cin @ take n (cur_data inp)) (cout @ buf_contents sp')"
    and start: "J s cin cout" and r: "aws_cryptosdk_session_process V s outp inp = Some r" "pr_status r = None"
  shows "J (pr_session r) (cin @ take (pr_in_bytes_read r) inp) (cout @ take (pr_out_bytes_written r) (pr_outp r)) \<and> same_config s (pr_session r)"
proof -
  have "\<exists>r. aws_cryptosdk_session_process V s outp inp = Some r \<and> call_ok s outp inp r \<and> session_ok V (pr_session r) \<and>
    (pr_status r = None \<longrightarrow> J (pr_session r) (cin @ take (pr_in_bytes_read r) inp) (cout @ take (pr_out_bytes_written r) (pr_outp r)))"
    by (rule process_ends [where J = J, OF J step start])
  then show ?thesis using r by (auto simp: call_ok_def)
qed

lemma calls_decrypt:
  assumes "calls V s cin cout s'" "session_ok V s" "se_state s = ST_CONFIG" "aws_cryptosdk_priv_is_decrypt_mode (se_mode s)"
  shows "dec_inv V ks tg hmac s' cin cout \<and> same_config s s'"
  using assms(1)
proof induction
  case no_call
  then show ?case using assms(2-4) by (simp add: dec_inv_def same_config_def)
next
  case (call cin cout s' outp inp r)
  have "dec_inv V ks tg hmac (pr_session r) (cin @ take (pr_in_bytes_read r) inp) (cout @ take (pr_out_bytes_written r) (pr_outp r)) \<and>
      same_config s' (pr_session r)"
    by (rule process_keeps [where J = "dec_inv V ks tg hmac", OF _ dec_inv_step call.IH [THEN conjunct1] call.hyps(2,3)]) (simp add: dec_inv_def)
  then show ?case using call.IH same_config_trans [of s s' "pr_session r"] by simp
next
  case (set_size cin cout s' n s'')
  then have "se_mode s' \<noteq> AWS_CRYPTOSDK_ENCRYPT" by (auto simp: dec_inv_def aws_cryptosdk_priv_is_decrypt_mode_def)
  then show ?case using set_size by (simp add: aws_cryptosdk_session_set_message_size_def)
next
  case (set_bound cin cout s' n s'')
  then have "se_mode s' \<noteq> AWS_CRYPTOSDK_ENCRYPT" by (auto simp: dec_inv_def aws_cryptosdk_priv_is_decrypt_mode_def)
  then show ?case using set_bound by (simp add: aws_cryptosdk_session_set_message_bound_def)
qed

end

end
