(* ===== verification/SessionMsg.thy ===== *)
theory SessionMsg
  imports SessionSound
begin

text \<open>
  What a session that has encrypted a message has written: the header in its wire format, sealed under the content key that belongs to the data key
  of the materials, the sealed frames of the plaintext, and the signature. For this the allocator is assumed to serve every request.
\<close>

section \<open>The written header\<close>

text \<open>
  The session has sealed its header, the bytes \<open>hb\<close>, with the materials \<open>m\<close> for the context \<open>ctx\<close>. Headers of suites with key
  commitment have no initialization vector; the one in the session's header is not written.
\<close>

definition wire_header :: "alg_properties \<Rightarrow> hdr \<Rightarrow> hdr" where
  "wire_header p h = (if msg_format_version p = AWS_CRYPTOSDK_HEADER_VERSION_1_0 then h else h\<lparr>hdr_iv := buf_zero\<rparr>)"

lemma hdr_version_props:
  assumes "aws_cryptosdk_alg_props (hdr_alg_id h) = Some p"
  shows "hdr_version h = msg_format_version p" "msg_format_version p = AWS_CRYPTOSDK_HEADER_VERSION_1_0 \<longleftrightarrow> \<not> aws_cryptosdk_algorithm_is_committing (hdr_alg_id h)"
    "alg_id p = hdr_alg_id h"
  using alg_props_fields(1,8) [OF assms] by (simp_all add: hdr_version_def)

lemma wire_header_bytes:
  assumes "aws_cryptosdk_alg_props (hdr_alg_id h) = Some p"
  shows "hdr_bytes (wire_header p h) = hdr_bytes h" "hdr_body_bytes (wire_header p h) = hdr_body_bytes h"
  using hdr_version_props(1) [OF assms]
  by (auto simp: wire_header_def hdr_bytes_def hdr_body_bytes_def hdr_start_bytes_def hdr_aad_bytes_def hdr_edks_bytes_def hdr_frame_bytes_def
      hdr_auth_bytes_def hdr_version_def split: if_splits)

lemma body_bytes_auth [simp]:
  "buf_len iv = buf_len (hdr_iv h) \<Longrightarrow> hdr_body_bytes (h\<lparr>hdr_iv := iv\<rparr>) = hdr_body_bytes h"
  "hdr_body_bytes (h\<lparr>hdr_auth_tag := t\<rparr>) = hdr_body_bytes h"
  by (simp_all add: hdr_body_bytes_def hdr_start_bytes_def hdr_aad_bytes_def hdr_edks_bytes_def hdr_frame_bytes_def hdr_version_def)

lemma gen_buf_ops [simp]:
  "buf_fill (gen_buf bs) x = gen_buf (replicate (length bs) x)"
  "length bs \<le> length cs \<Longrightarrow> buf_copy_from (gen_buf bs) cs = gen_buf (take (length bs) cs)"
  by (simp_all add: buf_fill_def buf_copy_from_def gen_buf_def splice_def)

lemma hdr_size_t_fits:
  assumes L: "aws_c_common L" and n: "hdr_size_t L h \<noteq> 0"
  shows "enc_ctx_fits (hdr_enc_ctx h)"
proof (rule ccontr)
  assume "\<not> enc_ctx_fits (hdr_enc_ctx h)"
  then obtain e where "aws_cryptosdk_enc_ctx_size L (hdr_enc_ctx h) = Inl e"
    using aws_c_common.enc_ctx_size_Inr [OF L] by (cases "aws_cryptosdk_enc_ctx_size L (hdr_enc_ctx h)") auto
  then have "aws_cryptosdk_hdr_size L h = 0" by (simp add: aws_cryptosdk_hdr_size_def Let_def split: option.split)
  then show False using n by (simp add: hdr_size_t_def)
qed

locale session_env_mem = session_env V ks tg hmac + aws_c_common_mem "env_lib V" for V ks tg hmac
begin

lemma header_signed_bytes:
  assumes hs: "header_signed V s p n h c" and p: "aws_cryptosdk_alg_props (hdr_alg_id (se_header s)) = Some p"
    and iv: "hdr_iv (se_header s) = gen_buf (replicate 12 0)" and tag: "hdr_auth_tag (se_header s) = gen_buf t" "length t = 16"
    and ctx: "hash_valid (hdr_enc_ctx (se_header s))" and n: "n \<le> INT_MAX"
  shows "c = hdr_bytes h" "n = length c" "header_sealed tg p (se_content_key s) c" "enc_ctx_fits (hdr_enc_ctx h)"
    "hdr_iv h = gen_buf (if aws_cryptosdk_algorithm_is_committing (hdr_alg_id (se_header s)) then replicate 12 0x42 else replicate 12 0)"
    "\<exists>T. length T = 16 \<and> hdr_auth_tag h = gen_buf T"
proof -
  let ?h0 = "se_header s" and ?h1 = "hdr_placeholders (se_header s)" and ?m = "n - aws_cryptosdk_private_authtag_len p"
  let ?com = "aws_cryptosdk_algorithm_is_committing (hdr_alg_id (se_header s))"
  note f = alg_props_fields [OF p] and v = hdr_version_props [OF p]
  obtain b0 c0 at where h: "n = hdr_size_t (env_lib V) ?h0" "n \<noteq> 0" "length b0 = n" "aws_cryptosdk_hdr_write (env_lib V) ?h1 b0 = (None, n, c0)"
      "aws_cryptosdk_sign_header (env_ssl V) p (se_content_key s) (buf_from_array (drop ?m c0)) (take ?m c0) = Some (None, at)"
      "h = with_authtag p ?h1 (buf_mem at)" "aws_cryptosdk_hdr_write (env_lib V) h (take ?m c0 @ buf_mem at) = (None, n, c)"
    using hs by (auto simp: header_signed_def Let_def)
  have fit: "enc_ctx_fits (hdr_enc_ctx ?h0)" using hdr_size_t_fits [OF aws_c_common_axioms] h(1,2) by blast
  have known: "aws_cryptosdk_algorithm_is_known (hdr_alg_id ?h0)" using p alg_props_known by blast
  have h1: "hdr_alg_id ?h1 = hdr_alg_id ?h0" "hdr_enc_ctx ?h1 = hdr_enc_ctx ?h0" "hdr_iv ?h1 = gen_buf (replicate 12 0x42)"
      "hdr_auth_tag ?h1 = gen_buf (replicate 16 0xDE)" using iv tag by (simp_all add: hdr_placeholders_def)
  note w1 = hdr_write_eq [of ?h1, unfolded h1(1,2), OF known ctx fit]
  have c0: "n = length (hdr_bytes ?h1)" "c0 = hdr_bytes ?h1" using h(3,4) w1 [of b0] by (auto split: if_splits)
  have al: "length (hdr_auth_bytes ?h1) = aws_cryptosdk_private_authtag_len p"
    using h1 v f(2,3) hdr_version_props(1) [of ?h1 p] p by (simp add: hdr_auth_bytes_def aws_cryptosdk_private_authtag_len_def)
  have m: "take ?m c0 = hdr_body_bytes ?h1" "drop ?m c0 = hdr_auth_bytes ?h1" using c0 al by (simp_all add: hdr_bytes_def)
  have ab: "buf_valid (buf_from_array (hdr_auth_bytes ?h1))" "buf_len (buf_from_array (hdr_auth_bytes ?h1)) = aws_cryptosdk_private_authtag_len p"
    using al by (simp_all add: buf_from_array_def buf_valid_def)
  have len: "length (hdr_body_bytes ?h1) \<le> INT_MAX" using n c0(1) by (simp add: hdr_bytes_def)
  let ?T = "tg (suite_gcm p (se_content_key s) ZERO_IV) (hdr_body_bytes ?h1) []" and ?zs = "if ?com then [] else replicate 12 0 :: bytes"
  have T: "length ?T = 16" by (rule gcm_tag_length [OF gcm])
  have zl: "length (?zs @ ?T) = aws_cryptosdk_private_authtag_len p"
    using T f(2,3) v(2) by (simp add: aws_cryptosdk_private_authtag_len_def)
  have at: "buf_mem at = ?zs @ ?T"
    using sign_header_spec [OF gcm p len ab, of "se_content_key s"] h(5) m zl al by (auto simp: buf_from_array_def splice_def)
  have h2: "h = (if ?com then ?h1\<lparr>hdr_auth_tag := gen_buf ?T\<rparr> else ?h1\<lparr>hdr_iv := gen_buf (replicate 12 0), hdr_auth_tag := gen_buf ?T\<rparr>)"
    using h(6) at h1(3,4) v(2) T by (simp add: with_authtag_def)
  have hb: "hdr_body_bytes h = hdr_body_bytes ?h1" "hdr_auth_bytes h = ?zs @ ?T" "hdr_alg_id h = hdr_alg_id ?h0" "hdr_enc_ctx h = hdr_enc_ctx ?h0"
    using h1 hdr_version_props(1) [of h p] p v(2) by (auto simp: h2 hdr_auth_bytes_def)
  note w2 = hdr_write_eq [of h, unfolded hb(3,4), OF known ctx fit]
  have bytes: "hdr_bytes h = hdr_body_bytes ?h1 @ ?zs @ ?T" using hb by (simp add: hdr_bytes_def)
  show c: "c = hdr_bytes h" using h(7) w2 [of "take ?m c0 @ buf_mem at"] bytes m(1) at by (auto split: if_splits)
  show "n = length c" using c bytes c0(1) al zl by (simp add: hdr_bytes_def)
  show "enc_ctx_fits (hdr_enc_ctx h)" using fit hb(4) by simp
  show "hdr_iv h = gen_buf (if ?com then replicate 12 0x42 else replicate 12 0)" using h1(3) by (simp add: h2)
  show "\<exists>T. length T = 16 \<and> hdr_auth_tag h = gen_buf T" using T by (auto simp: h2)
  show "header_sealed tg p (se_content_key s) c"
    unfolding c bytes using v(3)
    by (cases ?com) (simp add: header_sealedI(1) ZERO_IV_def [symmetric], intro header_sealedI(2) [where iv = ZERO_IV], simp_all add: ZERO_IV_def)
qed

end

section \<open>Sealed messages\<close>

text \<open>
  The session has made its header from the materials \<open>m\<close>, which its manager generated for the context \<open>t\<close>: the header names the suite, the encrypted data keys and the
  completed context, the content key and the commitment are derived from the data key, and the bytes \<open>hb\<close> of the header are sealed.
\<close>

definition made_header ::
  "(gcm_id \<Rightarrow> bytes \<Rightarrow> bytes \<Rightarrow> bytes) \<Rightarrow> (evp_md \<Rightarrow> bytes \<Rightarrow> bytes \<Rightarrow> bytes) \<Rightarrow> hash_table \<Rightarrow> session \<Rightarrow> enc_materials \<Rightarrow> bytes \<Rightarrow> alg_properties \<Rightarrow> bool" where
  "made_header tg hmac t s m hb p \<longleftrightarrow>
     (\<exists>rq d d'. er_enc_ctx rq = t \<and> er_commitment_policy rq = se_policy s \<and>
        aws_cryptosdk_cmm_generate_enc_materials (the (se_cmm s)) rq d = (Inr m, hdr_enc_ctx (se_header s), d')) \<and>
     aws_cryptosdk_alg_props (em_alg m) = Some p \<and> se_alg_props s = Some p \<and>
     aws_cryptosdk_priv_algorithm_allowed_for_encrypt (em_alg m) (se_policy s) \<and>
     hdr_alg_id (se_header s) = em_alg m \<and> hdr_edk_list (se_header s) = em_encrypted_data_keys m \<and>
     hdr_frame_len (se_header s) = ucast (se_frame_size s) \<and> se_frame_size s \<le> UINT32_MAX \<and>
     hdr_wf (wire_header p (se_header s)) \<and> enc_ctx_fits (hdr_enc_ctx (se_header s)) \<and>
     se_content_key s = spec_content_key hmac p (dk_contents (em_unencrypted_data_key m)) (buf_contents (hdr_message_id (se_header s))) \<and>
     (aws_cryptosdk_algorithm_is_committing (em_alg m) \<longrightarrow>
        buf_contents (hdr_alg_suite_data (se_header s)) =
          spec_commitment hmac p (dk_contents (em_unencrypted_data_key m)) (buf_contents (hdr_message_id (se_header s)))) \<and>
     hb = hdr_bytes (se_header s) \<and> length hb \<le> INT_MAX \<and> header_sealed tg p (se_content_key s) hb"

text \<open>What the signature context of a session has seen.\<close>

definition signs_with :: "enc_materials \<Rightarrow> bytes \<Rightarrow> sig_ctx option \<Rightarrow> bool" where
  "signs_with m data sc \<longleftrightarrow> sc = map_option (\<lambda>c. c\<lparr>sc_data := sc_data c @ data\<rparr>) (em_signctx m)"

definition message_signed :: "env \<Rightarrow> enc_materials \<Rightarrow> bytes \<Rightarrow> bytes \<Rightarrow> bool" where
  "message_signed V m covered tr \<longleftrightarrow>
     (case em_signctx m of None \<Rightarrow> tr = []
      | Some c \<Rightarrow> \<exists>sig d d'. tr = trailer_bytes sig \<and>
          aws_cryptosdk_sig_sign_finish (env_lib V) (env_ec V) d (c\<lparr>sc_data := sc_data c @ covered\<rparr>) = Some (Inr sig, d'))"

text \<open>The bytes \<open>msg\<close> are the plaintext \<open>pt\<close>, sealed by the session for the context \<open>t\<close>.\<close>

definition message_sealed ::
  "env \<Rightarrow> (gcm_id \<Rightarrow> nat \<Rightarrow> byte) \<Rightarrow> (gcm_id \<Rightarrow> bytes \<Rightarrow> bytes \<Rightarrow> bytes) \<Rightarrow> (evp_md \<Rightarrow> bytes \<Rightarrow> bytes \<Rightarrow> bytes) \<Rightarrow> hash_table \<Rightarrow> session \<Rightarrow> bytes \<Rightarrow> bytes \<Rightarrow> bool" where
  "message_sealed V ks tg hmac t s pt msg \<longleftrightarrow>
     (\<exists>m hb p fs tr. msg = hb @ body_bytes fs @ tr \<and> pt = body_plaintext fs \<and> made_header tg hmac t s m hb p \<and>
        frames_sealed ks tg s fs \<and> body_complete fs \<and> message_signed V m (hb @ body_bytes fs) tr)"

section \<open>The invariant of encryption\<close>

definition enc_inv ::
  "env \<Rightarrow> (gcm_id \<Rightarrow> nat \<Rightarrow> byte) \<Rightarrow> (gcm_id \<Rightarrow> bytes \<Rightarrow> bytes \<Rightarrow> bytes) \<Rightarrow> (evp_md \<Rightarrow> bytes \<Rightarrow> bytes \<Rightarrow> bytes) \<Rightarrow> cmm \<Rightarrow> hash_table \<Rightarrow>
   session \<Rightarrow> bytes \<Rightarrow> bytes \<Rightarrow> bool" where
  "enc_inv V ks tg hmac c t s cin cout \<longleftrightarrow> session_ok V s \<and> se_mode s = AWS_CRYPTOSDK_ENCRYPT \<and> se_cmm s = Some c \<and>
     (case se_state s of
        ST_WRITE_HEADER \<Rightarrow> cin = [] \<and> cout = [] \<and> se_seqno s = 1 \<and> (se_header_size s \<le> INT_MAX \<longrightarrow>
          (\<exists>m hb p. made_header tg hmac t s m hb p \<and> se_header_copy s = Some hb \<and> se_header_size s = length hb \<and> signs_with m hb (se_signctx s)))
      | ST_ENCRYPT_BODY \<Rightarrow> se_header_size s \<le> INT_MAX \<longrightarrow>
          (\<exists>m hb p fs. cout = hb @ body_bytes fs \<and> cin = body_plaintext fs \<and> made_header tg hmac t s m hb p \<and> frames_sealed ks tg s fs \<and>
             (\<forall>f \<in> set fs. fst f = FRAME_TYPE_FRAME) \<and> (se_frame_size s = 0 \<longrightarrow> fs = []) \<and> se_seqno s = word_of_nat (length fs + 1) \<and>
             signs_with m cout (se_signctx s))
      | ST_WRITE_TRAILER \<Rightarrow> se_header_size s \<le> INT_MAX \<longrightarrow>
          (\<exists>m hb p fs. cout = hb @ body_bytes fs \<and> cin = body_plaintext fs \<and> made_header tg hmac t s m hb p \<and> frames_sealed ks tg s fs \<and>
             body_complete fs \<and> signs_with m cout (se_signctx s))
      | ST_DONE \<Rightarrow> se_header_size s \<le> INT_MAX \<longrightarrow> message_sealed V ks tg hmac t s cin cout
      | _ \<Rightarrow> cin = [] \<and> cout = [] \<and> hdr_enc_ctx (se_header s) = t)"

lemma made_header_updates [simp]:
  "made_header tg hmac t (s\<lparr>se_in_est := x\<rparr>) m hb p = made_header tg hmac t s m hb p"
  "made_header tg hmac t (s\<lparr>se_out_est := x\<rparr>) m hb p = made_header tg hmac t s m hb p"
  "made_header tg hmac t (s\<lparr>se_seqno := n\<rparr>) m hb p = made_header tg hmac t s m hb p"
  "made_header tg hmac t (s\<lparr>se_signctx := c\<rparr>) m hb p = made_header tg hmac t s m hb p"
  "made_header tg hmac t (s\<lparr>se_state := st\<rparr>) m hb p = made_header tg hmac t s m hb p"
  "made_header tg hmac t (s\<lparr>se_draws := j\<rparr>) m hb p = made_header tg hmac t s m hb p"
  "made_header tg hmac t (s\<lparr>se_data_so_far := k\<rparr>) m hb p = made_header tg hmac t s m hb p"
  by (simp_all add: made_header_def)

lemma frames_sealed_sent [simp]:
  "frames_sealed ks tg (s\<lparr>se_data_so_far := k\<rparr>) fs = frames_sealed ks tg s fs"
  "frames_sealed ks tg (s\<lparr>se_draws := j\<rparr>) fs = frames_sealed ks tg s fs"
  by (simp_all add: frames_sealed_def)

lemma message_sealed_updates [simp]:
  "message_sealed V ks tg hmac t (s\<lparr>se_in_est := x\<rparr>) pt msg = message_sealed V ks tg hmac t s pt msg"
  "message_sealed V ks tg hmac t (s\<lparr>se_out_est := x\<rparr>) pt msg = message_sealed V ks tg hmac t s pt msg"
  "message_sealed V ks tg hmac t (s\<lparr>se_state := st\<rparr>) pt msg = message_sealed V ks tg hmac t s pt msg"
  by (simp_all add: message_sealed_def)

lemma signs_with_append:
  "signs_with m data sc \<Longrightarrow> signs_with m (data @ fb) (map_option (\<lambda>c. c\<lparr>sc_data := sc_data c @ fb\<rparr>) sc)"
  by (cases "em_signctx m") (simp_all add: signs_with_def)

locale sealing_env = session_env_mem V ks tg hmac + cmm_contract c kp for V ks tg hmac c kp
begin

lemma keys_generated_header:
  assumes g: "keys_generated V hmac s s'" and c: "se_cmm s = Some c" and f: "header_fresh (se_header s)" "hdr_alloc (se_header s)" and n: "se_header_size s' \<le> INT_MAX"
  shows "\<exists>m hb p. made_header tg hmac (hdr_enc_ctx (se_header s)) s' m hb p \<and> se_header_copy s' = Some hb \<and> se_header_size s' = length hb \<and>
    signs_with m hb (se_signctx s')"
proof -
  obtain m ctx d p mid sd tag a tr k n h cb s1 where
    g1: "aws_cryptosdk_cmm_generate_enc_materials c (enc_request_of s) (se_draws s) = (Inr m, ctx, d)"
      "aws_cryptosdk_alg_props (em_alg m) = Some p"
      "aws_cryptosdk_priv_algorithm_allowed_for_encrypt (em_alg m) (se_policy s)"
      "length mid = aws_cryptosdk_private_algorithm_message_id_len p"
      "data_key_len p \<le> length (dk_contents (em_unencrypted_data_key m)) \<longrightarrow> k = spec_content_key hmac p (dk_contents (em_unencrypted_data_key m)) mid"
      "buf_len sd = alg_suite_data_len p"
      "if aws_cryptosdk_algorithm_is_committing (em_alg m)
       then buf_valid sd \<and> buf_contents sd = spec_commitment hmac p (dk_contents (em_unencrypted_data_key m)) mid
       else sd = hdr_alg_suite_data (se_header s)"
      "se_frame_size s \<le> UINT32_MAX" "length tag = 16"
    and s1: "s1 = s\<lparr>se_draws := Suc d, se_alg_props := Some p, se_signctx := em_signctx m, se_trace := tr, se_cmm_success := True,
            se_content_key := k, se_commitment_arr := a,
            se_header := (se_header s)\<lparr>hdr_enc_ctx := ctx, hdr_message_id := gen_buf mid, hdr_alg_suite_data := sd, hdr_alg_id := em_alg m,
              hdr_frame_len := ucast (se_frame_size s), hdr_edk_list := em_encrypted_data_keys m,
              hdr_iv := gen_buf (replicate 12 0), hdr_auth_tag := gen_buf tag\<rparr>\<rparr>"
    and g2: "header_signed V s1 p n h cb" "hdr_alloc h = hdr_alloc (se_header s)"
    and s': "s' = s1\<lparr>se_header_size := n, se_header_copy := Some cb, se_header := h,
           se_signctx := map_option (\<lambda>sc. sc\<lparr>sc_data := sc_data sc @ take n cb\<rparr>) (em_signctx m), se_seqno := 1, se_state := ST_WRITE_HEADER\<rparr>"
    using g [unfolded keys_generated_def Let_def c option.sel] by (elim exE conjE) (rule that, assumption+, rule refl, assumption+)
  note p = g1(2) and k = header_signed_kept [OF g2(1)]
  have v: "hash_valid (er_enc_ctx (enc_request_of s))" "er_enc_ctx (enc_request_of s) = hdr_enc_ctx (se_header s)"
      "er_commitment_policy (enc_request_of s) = se_policy s" using f(1) by (simp_all add: enc_request_of_def header_fresh_def)
  have n': "n \<le> INT_MAX" using n by (simp add: s')
  have fit: "enc_ctx_fits ctx" using hdr_size_t_fits [OF aws_c_common_axioms, of "se_header s1"] g2(1) by (simp add: header_signed_def s1)
  have m: "hash_valid ctx" "list_all aws_cryptosdk_edk_is_valid (em_encrypted_data_keys m)"
      "length (dk_contents (em_unencrypted_data_key m)) = data_key_len p"
    using generated [OF v(1) g1(1) fit] p by auto
  have h1: "aws_cryptosdk_alg_props (hdr_alg_id (se_header s1)) = Some p" "hdr_iv (se_header s1) = gen_buf (replicate 12 0)"
      "hdr_auth_tag (se_header s1) = gen_buf tag" "hash_valid (hdr_enc_ctx (se_header s1))" using p m(1) by (simp_all add: s1)
  note b = header_signed_bytes [OF g2(1) h1(1-3) g1(9) h1(4) n']
  obtain T where T: "length T = 16" "hdr_auth_tag h = gen_buf T" using b(6) by blast
  have sd: "buf_valid sd" using g1(7) f(1) by (simp add: header_fresh_def buf_valid_def split: if_splits)
  have wf: "hdr_wf (wire_header p h)"
    using k T b(5) sd m(1,2) f(2) g2(2) g1(4,6) alg_props_fields(2,3) [OF p] alg_props_fields(8) [OF p] p
    by (auto simp: hdr_wf_def aws_cryptosdk_hdr_is_valid_def wire_header_def s1 buf_zero_def buf_valid_def edks_valid_iff)
  have key: "k = spec_content_key hmac p (dk_contents (em_unencrypted_data_key m)) mid" using g1(5) m(3) by simp
  have "made_header tg hmac (hdr_enc_ctx (se_header s)) s' m cb p"
    unfolding made_header_def using v g1 k b key wf c fit n' by (simp add: s' s1) blast
  then show ?thesis using b(2) by (intro exI [of _ m] exI [of _ cb] exI [of _ p]) (simp add: s' signs_with_def)
qed

lemma enc_inv_frame:
  assumes J: "enc_inv V ks tg hmac c t s cin cout" "se_state s = ST_ENCRYPT_BODY" and ok: "session_ok V s'" and b: "buf_len b = 0"
    and f: "next_sealed ks tg s b i (s', b', advanced i n)"
  shows "enc_inv V ks tg hmac c t s' (cin @ take n (cur_data i)) (cout @ buf_contents b')"
proof -
  obtain ty w fb x y where f': "next_frame s = Some (w, ty)" "se_seqno s \<le> UINT32_MAX"
      "fb = frame_sealing ks tg (the (se_alg_props s)) (se_content_key s) (hdr_message_id (se_header s)) ty (frame_number s ty) (take (unat w) (cur_data i))"
      "frame_ok ty (frame_number s ty) (se_frame_size s) (unat w)" "n = unat w" "unat w \<le> cur_len i" "fits b (length fb)"
      "buf_mem b' = buf_mem (written b fb)" "buf_len b' = buf_len b + length fb"
    and s': "s' = s\<lparr>se_out_est := x, se_in_est := y, se_data_so_far := se_data_so_far s + w, se_seqno := se_seqno s + 1,
            se_signctx := map_option (\<lambda>c. c\<lparr>sc_data := sc_data c @ fb\<rparr>) (se_signctx s),
            se_state := (if ty = FRAME_TYPE_FRAME then ST_ENCRYPT_BODY else ST_WRITE_TRAILER)\<rparr>"
    using f [unfolded next_sealed_def prod.case advanced_inject] by (elim exE conjE) (rule that, assumption+)
  have m: "se_mode s' = AWS_CRYPTOSDK_ENCRYPT" "se_cmm s' = Some c" using J(1) by (simp_all add: enc_inv_def s')
  have st: "se_state s' = (if ty = FRAME_TYPE_FRAME then ST_ENCRYPT_BODY else ST_WRITE_TRAILER)" by (simp add: s')
  show ?thesis
  proof (cases "se_header_size s \<le> INT_MAX")
    case False
    then have "\<not> se_header_size s' \<le> INT_MAX" by (simp add: s')
    then show ?thesis using ok m st by (simp add: enc_inv_def)
  next
    case True
    then obtain mt hb p fs where d: "cout = hb @ body_bytes fs" "cin = body_plaintext fs" "made_header tg hmac t s mt hb p" "frames_sealed ks tg s fs"
        "\<forall>f \<in> set fs. fst f = FRAME_TYPE_FRAME" "se_frame_size s = 0 \<longrightarrow> fs = []" "se_seqno s = word_of_nat (length fs + 1)" "signs_with mt cout (se_signctx s)"
      using J by (auto simp: enc_inv_def)
    have p: "aws_cryptosdk_alg_props (em_alg mt) = Some p" "se_alg_props s = Some p" using d(3) by (simp_all add: made_header_def)
    let ?pt = "take n (cur_data i)" and ?fs = "fs @ [(ty, fb, take n (cur_data i))]"
    note q = seqno_Suc [OF f'(2) [unfolded d(7)]]
    have l: "length fs \<le> 0xFFFFFFFF" using d(4) by (simp add: frames_sealed_def)
    have "ty = FRAME_TYPE_SINGLE \<Longrightarrow> fs = []" using f'(1) d(6) by (auto simp: next_frame_def split: if_splits)
    then have num: "frame_number s ty = word_of_nat (length fs + 1)" using q(2) [OF l] d(7) by (auto simp: frame_number_def)
    have "length ?pt = unat w" using f'(5,6) by simp
    then have "sealed_frame ks tg p (se_content_key s) (hdr_message_id (se_header s)) (se_frame_size s) ty (word_of_nat (length fs + 1)) fb ?pt"
      using frame_sealing_sealed [OF alg_props_fields(2) [OF p(1)], where pt = ?pt] f'(3-5) num p(2) by simp
    then have fs: "frames_sealed ks tg s ?fs" using frames_sealed_snoc [OF d(4) _ q(1) [OF l], of ty fb ?pt] p(2) by simp
    have "buf_contents b' = fb" using f'(7-9) contents_empty [OF b] contents_written [of b fb] by (simp add: buf_contents_def b)
    then have c: "cin @ ?pt = body_plaintext ?fs" "cout @ buf_contents b' = hb @ body_bytes ?fs" using d(1,2) by simp_all
    have v: "signs_with mt (hb @ body_bytes ?fs) (se_signctx s')" using signs_with_append [OF d(8), of fb] d(1) by (simp add: s')
    have o: "made_header tg hmac t s' mt hb p" "frames_sealed ks tg s' ?fs" using d(3) fs by (simp_all add: s')
    have z: "ty = FRAME_TYPE_FRAME \<Longrightarrow> se_frame_size s' \<noteq> 0" using f'(1) by (auto simp: s' next_frame_def split: if_splits)
    show ?thesis
    proof (cases "ty = FRAME_TYPE_FRAME")
      case True
      then have st: "se_state s' = ST_ENCRYPT_BODY" "se_seqno s' = word_of_nat (length ?fs + 1)" using d(7) by (simp_all add: s')
      show ?thesis
        unfolding enc_inv_def c st(1) session_state.case using ok m o v st(2) True d(5) z
        by (intro conjI impI exI [of _ mt] exI [of _ hb] exI [of _ p] exI [of _ ?fs]) auto
    next
      case False
      then have st: "se_state s' = ST_WRITE_TRAILER" by (simp add: s')
      show ?thesis
        unfolding enc_inv_def c st session_state.case using ok m o v body_complete_snoc [OF d(5) False]
        by (intro conjI impI exI [of _ mt] exI [of _ hb] exI [of _ p] exI [of _ ?fs]) auto
    qed
  qed
qed

lemma enc_inv_step:
  assumes J: "enc_inv V ks tg hmac c t s cin cout" and b: "buf_valid b" "buf_len b = 0" and n: "n \<le> cur_len i"
    and e: "step_effect V ks tg hmac s b i (s', b', advanced i n)"
  shows "enc_inv V ks tg hmac c t s' (cin @ take n (cur_data i)) (cout @ buf_contents b')"
proof -
  have m: "session_ok V s" "se_mode s = AWS_CRYPTOSDK_ENCRYPT" "se_cmm s = Some c" using J by (simp_all add: enc_inv_def)
  have k: "session_ok V s'" "same_config s s'" using step_effect_keeps [OF m(1) b(1) e] by (simp_all add: step_frame_def)
  have m': "se_mode s' = AWS_CRYPTOSDK_ENCRYPT" "se_cmm s' = Some c" using m k(2) by (simp_all add: same_config_def)
  note z = contents_empty [OF b(2)]
  consider "se_state s = ST_CONFIG" | "se_state s = ST_GEN_KEY" | "se_state s = ST_WRITE_HEADER" | "se_state s = ST_ENCRYPT_BODY"
    | "se_state s = ST_WRITE_TRAILER" | "se_state s = ST_DONE"
    using m e by (cases "se_state s") (auto simp: session_ok_def step_effect_def aws_cryptosdk_priv_is_decrypt_mode_def)
  then show ?thesis
  proof cases
    case 1
    then have "b' = b" "n = 0" "s' = s\<lparr>se_state := ST_GEN_KEY\<rparr>" using e m(2) by (simp_all add: step_effect_def)
    then show ?thesis using J 1 z k(1) by (simp add: enc_inv_def)
  next
    case 2
    then have g: "b' = b" "n = 0" "keys_generated V hmac s s'" using e by (simp_all add: step_effect_def)
    have f: "header_fresh (se_header s)" "hdr_alloc (se_header s)" "cin = []" "cout = []" "hdr_enc_ctx (se_header s) = t" using m(1) J 2 by (simp_all add: session_ok_def enc_inv_def)
    have "se_state s' = ST_WRITE_HEADER" "se_seqno s' = 1" using g(3) by (auto simp: keys_generated_def Let_def)
    then show ?thesis using keys_generated_header [OF g(3) m(3) f(1,2)] f g z k(1) m' by (simp add: enc_inv_def)
  next
    case 3
    consider x where "b' = b" "n = 0" "s' = s\<lparr>se_out_est := x\<rparr>"
      | x hb where "hb = take (se_header_size s) (the (se_header_copy s))" "fits b (length hb)" "b' = written b hb" "n = 0"
        "s' = s\<lparr>se_out_est := x, se_state := ST_ENCRYPT_BODY\<rparr>"
      using 3 e by (auto simp: step_effect_def)
    then show ?thesis
    proof cases
      case 1
      then show ?thesis using J 3 z k(1) by (simp add: enc_inv_def)
    next
      case (2 x hb)
      have J': "cin = []" "cout = []" "se_seqno s = 1" and h: "se_header_size s \<le> INT_MAX \<Longrightarrow>
          \<exists>m hb p. made_header tg hmac t s m hb p \<and> se_header_copy s = Some hb \<and> se_header_size s = length hb \<and> signs_with m hb (se_signctx s)"
        using J 3 by (simp_all add: enc_inv_def)
      have st: "se_state s' = ST_ENCRYPT_BODY" "se_header_size s' = se_header_size s" "se_seqno s' = 1" "se_signctx s' = se_signctx s" using J'(3) by (simp_all add: 2(5))
      show ?thesis
        unfolding enc_inv_def st(1,2) session_state.case
      proof (intro conjI impI)
        assume "se_header_size s \<le> INT_MAX"
        from h [OF this] obtain mt hb' p where mk: "made_header tg hmac t s mt hb' p" "se_header_copy s = Some hb'" "se_header_size s = length hb'" "signs_with mt hb' (se_signctx s)"
          by blast
        have "hb = hb'" "made_header tg hmac t s' mt hb' p" using 2(1,5) mk by simp_all
        then show "\<exists>m hb p fs. cout @ buf_contents b' = hb @ body_bytes fs \<and> cin @ take n (cur_data i) = body_plaintext fs \<and>
            made_header tg hmac t s' m hb p \<and> frames_sealed ks tg s' fs \<and> (\<forall>f \<in> set fs. fst f = FRAME_TYPE_FRAME) \<and>
            (se_frame_size s' = 0 \<longrightarrow> fs = []) \<and> se_seqno s' = word_of_nat (length fs + 1) \<and> signs_with m (cout @ buf_contents b') (se_signctx s')"
          using J' 2(2-4) z mk st by (intro exI [of _ mt] exI [of _ hb'] exI [of _ p] exI [of _ "[]"]) (simp add: frames_sealed_def)
      qed (use k(1) m' in simp_all)
    qed
  next
    case 4
    then consider x y where "buf_len b' = 0" "n = 0" "s' = s\<lparr>se_out_est := x, se_in_est := y\<rparr>" | "next_sealed ks tg s b i (s', b', advanced i n)"
      using e b(2) by (auto simp: step_effect_def)
    then show ?thesis
    proof cases
      case 1
      then show ?thesis using J 4 contents_empty [OF 1(1)] k(1) by (simp add: enc_inv_def)
    qed (rule enc_inv_frame [OF J 4 k(1) b(2)])
  next
    case 5
    have J': "se_header_size s \<le> INT_MAX \<Longrightarrow> \<exists>m hb p fs. cout = hb @ body_bytes fs \<and> cin = body_plaintext fs \<and> made_header tg hmac t s m hb p \<and>
        frames_sealed ks tg s fs \<and> body_complete fs \<and> signs_with m cout (se_signctx s)"
      using J 5 by (simp add: enc_inv_def)
    consider "b' = b" "n = 0" "se_signctx s = None" "s' = s\<lparr>se_in_est := 0, se_out_est := 0, se_state := ST_DONE\<rparr>"
      | x where "b' = b" "n = 0" "s' = s\<lparr>se_in_est := 0, se_out_est := x\<rparr>" | "n = 0" "trailer_written V s b (s', b')"
      using 5 e by (auto simp: step_effect_def)
    then show ?thesis
    proof cases
      case 1
      have "message_sealed V ks tg hmac t s cin cout" if le: "se_header_size s \<le> INT_MAX"
        using J' [OF le] unfolding message_sealed_def
        by (elim exE conjE, intro exI [of _ "[]"] exI conjI) (auto simp: message_signed_def signs_with_def 1(3))
      then show ?thesis using 1 z k(1) m' by (simp add: enc_inv_def)
    next
      case 2
      then show ?thesis using J 5 z k(1) by (simp add: enc_inv_def)
    next
      case 3
      then obtain cx sig d where t: "se_signctx s = Some cx"
          "aws_cryptosdk_sig_sign_finish (env_lib V) (env_ec V) (se_draws s) cx = Some (Inr sig, d)"
          "fits b (length (trailer_bytes sig))" "b' = written b (trailer_bytes sig)"
          "s' = s\<lparr>se_in_est := 0, se_out_est := 0, se_signctx := None, se_draws := d, se_state := ST_DONE\<rparr>"
        by (auto simp: trailer_written_def)
      have "message_sealed V ks tg hmac t s' cin (cout @ trailer_bytes sig)" if le: "se_header_size s \<le> INT_MAX"
      proof -
        obtain mt hb p fs where d: "cout = hb @ body_bytes fs" "cin = body_plaintext fs" "made_header tg hmac t s mt hb p" "frames_sealed ks tg s fs"
            "body_complete fs" "signs_with mt cout (se_signctx s)" using J' [OF le] by blast
        have "message_signed V mt (hb @ body_bytes fs) (trailer_bytes sig)"
          using d(6) t(1,2) d(1) by (cases "em_signctx mt") (auto simp: message_signed_def signs_with_def)
        moreover have "made_header tg hmac t s' mt hb p" "frames_sealed ks tg s' fs" using d(3,4) by (simp_all add: t(5))
        ultimately show ?thesis
          unfolding message_sealed_def using d(1,2,5)
          by - (rule exI [of _ mt], rule exI [of _ hb], rule exI [of _ p], rule exI [of _ fs], rule exI [of _ "trailer_bytes sig"], simp)
      qed
      moreover have "se_state s' = ST_DONE" "se_header_size s' = se_header_size s" by (simp_all add: t(5))
      ultimately show ?thesis using t(3,4) z 3(1) k(1) m' by (simp add: enc_inv_def)
    qed
  next
    case 6
    then show ?thesis using J e z by (simp add: step_effect_def)
  qed
qed


end

section \<open>The announced size\<close>

text \<open>A session has counted the plaintext that it has consumed, and only ends the message when it has consumed as much as was announced.\<close>

definition size_inv :: "env \<Rightarrow> session \<Rightarrow> bytes \<Rightarrow> bool" where
  "size_inv V s cin \<longleftrightarrow> session_ok V s \<and> se_mode s = AWS_CRYPTOSDK_ENCRYPT \<and> se_data_so_far s = word_of_nat (length cin) \<and>
     (se_state s \<in> {ST_WRITE_HEADER, ST_CONFIG, ST_GEN_KEY} \<longrightarrow> cin = []) \<and>
     (se_state s = ST_ENCRYPT_BODY \<longrightarrow> se_frame_size s = 0 \<longrightarrow> cin = []) \<and>
     (se_state s \<in> {ST_WRITE_TRAILER, ST_DONE} \<longrightarrow> se_precise_size_known s \<and> se_data_so_far s = se_precise_size s)"

lemma size_inv_step:
  assumes J: "size_inv V s cin" and b: "buf_valid b" and n: "n \<le> cur_len i"
    and e: "step_effect V ks tg hmac s b i (s', b', advanced i n)"
  shows "size_inv V s' (cin @ take n (cur_data i))"
proof -
  have m: "session_ok V s" "se_mode s = AWS_CRYPTOSDK_ENCRYPT" using J by (simp_all add: size_inv_def)
  have k: "session_ok V s'" "same_config s s'" using step_effect_keeps [OF m(1) b(1) e] by (simp_all add: step_frame_def)
  have m': "se_mode s' = AWS_CRYPTOSDK_ENCRYPT" using m k(2) by (simp add: same_config_def)
  consider "se_state s = ST_CONFIG" | "se_state s = ST_GEN_KEY" | "se_state s = ST_WRITE_HEADER" | "se_state s = ST_ENCRYPT_BODY"
    | "se_state s = ST_WRITE_TRAILER" | "se_state s = ST_DONE"
    using m e by (cases "se_state s") (auto simp: session_ok_def step_effect_def aws_cryptosdk_priv_is_decrypt_mode_def)
  then show ?thesis
  proof cases
    case 1
    then show ?thesis using J e k(1) m by (simp add: size_inv_def step_effect_def)
  next
    case 2
    then have "n = 0" "se_state s' = ST_WRITE_HEADER" "se_data_so_far s' = se_data_so_far s"
      using e by (auto simp: step_effect_def keys_generated_def Let_def)
    then show ?thesis using J 2 k(1) m' by (simp add: size_inv_def)
  next
    case 3
    then show ?thesis using J e k(1) by (auto simp: step_effect_def size_inv_def)
  next
    case 4
    then consider x y where "n = 0" "s' = s\<lparr>se_out_est := x, se_in_est := y\<rparr>" | "next_sealed ks tg s b i (s', b', advanced i n)"
      using e by (auto simp: step_effect_def)
    then show ?thesis
    proof cases
      case 1
      then show ?thesis using J 4 k(1) by (simp add: size_inv_def)
    next
      case 2
      obtain ty w fb x y where f: "next_frame s = Some (w, ty)" "n = unat w"
        and s': "s' = s\<lparr>se_out_est := x, se_in_est := y, se_data_so_far := se_data_so_far s + w, se_seqno := se_seqno s + 1,
            se_signctx := map_option (\<lambda>c. c\<lparr>sc_data := sc_data c @ fb\<rparr>) (se_signctx s),
            se_state := (if ty = FRAME_TYPE_FRAME then ST_ENCRYPT_BODY else ST_WRITE_TRAILER)\<rparr>"
        using 2 [unfolded next_sealed_def prod.case advanced_inject] by (elim exE conjE) (rule that, assumption+)
      have "length (take n (cur_data i)) = unat w" using n f(2) by simp
      then have l: "word_of_nat (length (cin @ take n (cur_data i))) = se_data_so_far s'" using J by (simp add: s' size_inv_def)
      have z: "ty = FRAME_TYPE_FRAME \<Longrightarrow> se_frame_size s \<noteq> 0"
        "ty \<noteq> FRAME_TYPE_FRAME \<Longrightarrow> se_precise_size_known s \<and> se_data_so_far s + w = se_precise_size s"
        using f(1) J 4 by (auto simp: next_frame_def size_inv_def split: if_splits)
      then show ?thesis using l k(1) m' J 4 unfolding size_inv_def by (simp add: s')
    qed
  next
    case 5
    then show ?thesis using J e k(1) by (auto simp: step_effect_def size_inv_def trailer_written_def)
  next
    case 6
    then show ?thesis using J e by (simp add: step_effect_def)
  qed
qed

section \<open>Sequences of calls\<close>

context session_env
begin

lemma set_message_size_result:
  assumes "aws_cryptosdk_session_set_message_size V s n = Some (None, s')" "session_ok V s"
  shows "\<not> se_precise_size_known s \<and> (\<exists>x y. s' = s\<lparr>se_precise_size := n, se_precise_size_known := True, se_out_est := x, se_in_est := y\<rparr>) \<and> session_ok V s'"
proof -
  let ?s = "s\<lparr>se_precise_size := n, se_precise_size_known := True\<rparr>"
  have ok: "session_ok V ?s" using assms(2) by (auto simp: session_ok_def suite_ready_def split: session_state.split)
  have keep: "\<exists>x y. ?s = ?s\<lparr>se_out_est := x, se_in_est := y\<rparr>"
    by (rule exI [of _ "se_out_est s"], rule exI [of _ "se_in_est s"]) simp
  have "(\<exists>x y. s' = ?s\<lparr>se_out_est := x, se_in_est := y\<rparr>) \<and> \<not> se_precise_size_known s"
    using assms(1) body_estimate [OF ok]
    by (auto simp: aws_cryptosdk_session_set_message_size_def aws_cryptosdk_priv_fail_session_def change_state_error Let_def split: if_splits)
      (rule keep)
  then show ?thesis using set_message_size_ok [OF assms(2), of n] assms(1) by auto
qed

lemma set_message_bound_result:
  assumes "aws_cryptosdk_session_set_message_bound s n = Some (None, s')"
  shows "\<exists>k. s' = s\<lparr>se_size_bound := k\<rparr>"
proof -
  have keep: "\<exists>k. s' = s'\<lparr>se_size_bound := k\<rparr>" by (rule exI [of _ "se_size_bound s'"]) simp
  show ?thesis
    using assms
    by (auto simp: aws_cryptosdk_session_set_message_bound_def aws_cryptosdk_priv_fail_session_def change_state_error split: if_splits) (rule keep)+
qed

end

lemma enc_inv_sizes [simp]:
  "made_header tg hmac t (s\<lparr>se_precise_size := n\<rparr>) m hb p = made_header tg hmac t s m hb p"
  "made_header tg hmac t (s\<lparr>se_precise_size_known := b\<rparr>) m hb p = made_header tg hmac t s m hb p"
  "made_header tg hmac t (s\<lparr>se_size_bound := n\<rparr>) m hb p = made_header tg hmac t s m hb p"
  "frames_sealed ks tg (s\<lparr>se_precise_size := n\<rparr>) fs = frames_sealed ks tg s fs"
  "frames_sealed ks tg (s\<lparr>se_precise_size_known := b\<rparr>) fs = frames_sealed ks tg s fs"
  "frames_sealed ks tg (s\<lparr>se_size_bound := n\<rparr>) fs = frames_sealed ks tg s fs"
  by (simp_all add: made_header_def frames_sealed_def)

lemma message_sealed_sizes [simp]:
  "message_sealed V ks tg hmac t (s\<lparr>se_precise_size := n\<rparr>) pt msg = message_sealed V ks tg hmac t s pt msg"
  "message_sealed V ks tg hmac t (s\<lparr>se_precise_size_known := b\<rparr>) pt msg = message_sealed V ks tg hmac t s pt msg"
  "message_sealed V ks tg hmac t (s\<lparr>se_size_bound := n\<rparr>) pt msg = message_sealed V ks tg hmac t s pt msg"
  by (simp_all add: message_sealed_def)

context sealing_env
begin

lemma calls_encrypt:
  assumes "calls V s cin cout s'" "session_ok V s" "se_state s = ST_CONFIG" "se_mode s = AWS_CRYPTOSDK_ENCRYPT" "se_cmm s = Some c"
  shows "enc_inv V ks tg hmac c (hdr_enc_ctx (se_header s)) s' cin cout \<and> size_inv V s' cin"
  using assms(1)
proof induction
  case no_call
  then show ?case using assms(2-5) by (simp add: enc_inv_def size_inv_def session_ok_def)
next
  case (call cin cout s' outp inp r)
  let ?J = "\<lambda>s' cin cout. enc_inv V ks tg hmac c (hdr_enc_ctx (se_header s)) s' cin cout \<and> size_inv V s' cin"
  have "?J (pr_session r) (cin @ take (pr_in_bytes_read r) inp) (cout @ take (pr_out_bytes_written r) (pr_outp r)) \<and> same_config s' (pr_session r)"
    by (rule process_keeps [where J = ?J, OF _ _ call.IH call.hyps(2,3)])
      (simp add: size_inv_def, elim conjE, intro conjI, erule (4) enc_inv_step, erule (3) size_inv_step)
  then show ?case by simp
next
  case (set_size cin cout s' n s'')
  have ok: "session_ok V s'" using set_size.IH by (simp add: size_inv_def)
  obtain x y where s'': "s'' = s'\<lparr>se_precise_size := n, se_precise_size_known := True, se_out_est := x, se_in_est := y\<rparr>"
    and k: "\<not> se_precise_size_known s'" "session_ok V s''"
    using set_message_size_result [OF set_size.hyps(2) ok] by blast
  have "enc_inv V ks tg hmac c (hdr_enc_ctx (se_header s)) s'' cin cout"
    using set_size.IH k(2) by (cases "se_state s'") (simp_all add: enc_inv_def s'')
  moreover have "size_inv V s'' cin" using set_size.IH k by (simp add: size_inv_def s'')
  ultimately show ?case by simp
next
  case (set_bound cin cout s' n s'')
  obtain k where s'': "s'' = s'\<lparr>se_size_bound := k\<rparr>" using set_message_bound_result [OF set_bound.hyps(2)] by blast
  have ok: "session_ok V s''" using set_message_bound_ok [of V s' n] set_bound by (simp add: size_inv_def)
  have "enc_inv V ks tg hmac c (hdr_enc_ctx (se_header s)) s'' cin cout"
    using set_bound.IH ok by (cases "se_state s'") (simp_all add: enc_inv_def s'')
  moreover have "size_inv V s'' cin" using set_bound.IH ok by (auto simp: size_inv_def s'')
  ultimately show ?case by simp
qed

end

end
