(* ===== verification/SessionTrip.thy ===== *)
theory SessionTrip
  imports SessionMsg
begin

text \<open>
  What a session has sealed, another session with the same manager opens. Here every library call that can fail for lack of resources succeeds, so that
  decryption must go through; the steps of decryption are followed over the bytes of a sealed message.
\<close>

section \<open>Headers that agree\<close>

lemma enc_ctx_bytes_canonical:
  assumes "hash_valid t" "hash_valid t'" "map_of t = map_of t'"
  shows "enc_ctx_bytes t = enc_ctx_bytes t'"
proof -
  have s: "set t = set t'" using assms by (simp add: hash_valid_def map_of_inject_set)
  have d: "distinct (map fst (sort_key fst t))" if "hash_valid t" for t :: hash_table
    using that by (simp add: hash_valid_def distinct_map)
  have "inj_on fst (set (sort_key fst t) \<union> set (sort_key fst t'))"
    using assms(1) s by (simp add: hash_valid_def distinct_map)
  then have "sort_key fst t = sort_key fst t'"
    using s d [OF assms(1)] d [OF assms(2)] by (intro map_sorted_distinct_set_unique [of fst]) simp_all
  moreover have "length t = length t'" using arg_cong [OF calculation, of length] by simp
  moreover from this have "t = [] \<longleftrightarrow> t' = []" by auto
  ultimately show ?thesis by (simp add: enc_ctx_bytes_def)
qed

lemma edk_bytes_same:
  "list_all2 aws_cryptosdk_edk_eq es es' \<Longrightarrow> list_all aws_cryptosdk_edk_is_valid es \<Longrightarrow> list_all aws_cryptosdk_edk_is_valid es' \<Longrightarrow>
     map edk_bytes es = map edk_bytes es'"
proof (induction rule: list_all2_induct)
  case (Cons e es e' es')
  have f: "edk_field_bytes a = edk_field_bytes b" if "buf_contents a = buf_contents b" "buf_valid a" "buf_valid b" for a b
    unfolding edk_field_bytes_def using that length_contents by metis
  have "edk_bytes e = edk_bytes e'"
    unfolding edk_bytes_def using Cons by (intro arg_cong2 [where f = append] f) (simp_all add: aws_cryptosdk_edk_eq_def aws_cryptosdk_edk_is_valid_def)
  then show ?case using Cons by simp
qed simp

lemma hdr_same_bytes:
  assumes "hdr_same g h" "hdr_wf g" "hdr_wf h"
  shows "hdr_bytes h = hdr_bytes g"
proof -
  have v: "aws_cryptosdk_hdr_is_valid g" "aws_cryptosdk_hdr_is_valid h" using assms(2,3) by (simp_all add: hdr_wf_def split: option.splits)
  have "hdr_version h = hdr_version g" "buf_len (hdr_iv h) = buf_len (hdr_iv g)" "length (hdr_edk_list h) = length (hdr_edk_list g)"
    using assms by (auto simp: hdr_same_def hdr_version_def hdr_wf_def list_all2_lengthD split: option.splits)
  moreover have "map edk_bytes (hdr_edk_list g) = map edk_bytes (hdr_edk_list h)"
    using edk_bytes_same assms(1) v by (simp add: hdr_same_def aws_cryptosdk_hdr_is_valid_def edks_valid_iff)
  moreover have "enc_ctx_bytes (hdr_enc_ctx h) = enc_ctx_bytes (hdr_enc_ctx g)"
    using v assms(1) by (intro enc_ctx_bytes_canonical) (simp_all add: hdr_same_def aws_cryptosdk_hdr_is_valid_def)
  ultimately show ?thesis
    using assms(1) by (simp add: hdr_same_def hdr_bytes_def hdr_body_bytes_def hdr_start_bytes_def hdr_aad_bytes_def hdr_edks_bytes_def hdr_frame_bytes_def hdr_auth_bytes_def)
qed

text \<open>The verification context of the session has seen the same data as the signature context that the materials began with.\<close>

definition checks_for :: "(nat \<Rightarrow> nat \<Rightarrow> nat \<Rightarrow> bool) \<Rightarrow> enc_materials \<Rightarrow> bytes \<Rightarrow> sig_ctx option \<Rightarrow> bool" where
  "checks_for kp m data vc \<longleftrightarrow>
     (case em_signctx m of None \<Rightarrow> vc = None
      | Some sc \<Rightarrow> \<exists>v. sig_pair kp sc v \<and> vc = Some (v\<lparr>sc_data := sc_data v @ data\<rparr>))"

locale opening_env = sealing_env V ks tg hmac c kp for V ks tg hmac c kp +
  fixes dig :: "evp_md \<Rightarrow> bytes \<Rightarrow> bytes"
  assumes ssl_ok: "gcm_ok (env_ssl V)" and ec_ok: "ec_ok (env_ec V)" and ec_spec: "ec_spec (env_ec V) dig kp"
begin

section \<open>Frames\<close>

lemma frame_decrypted_ok:
  assumes s: "se_state s = ST_DECRYPT_BODY"
  shows "frame_decrypted V s bs ty = Some (None, s\<lparr>se_seqno := se_seqno s + 1,
       se_signctx := map_option (\<lambda>c. c\<lparr>sc_data := sc_data c @ bs\<rparr>) (se_signctx s),
       se_state := (if ty = FRAME_TYPE_FRAME then ST_DECRYPT_BODY else ST_CHECK_TRAILER)\<rparr>)"
  using s sig_update_ok [OF ec_ok]
  by (cases s; cases "se_signctx s") (auto simp: frame_decrypted_def Let_def and_then_def change_state_ok transition_ok_def)

lemma try_decrypt_body_ok:
  assumes s: "se_state s = ST_DECRYPT_BODY" "se_alg_props s = Some p" "aws_cryptosdk_alg_props j = Some p" "se_frame_size s \<le> UINT32_MAX"
      "buf_len (hdr_message_id (se_header s)) \<le> INT_MAX" and b: "fits b (length pt)"
    and f: "sealed_frame ks tg p (se_content_key s) (hdr_message_id (se_header s)) (se_frame_size s) ty sn fb pt" "se_seqno s = ucast sn"
      "cur_data i = fb @ rest"
  shows "\<exists>x y. aws_cryptosdk_priv_try_decrypt_body V s b i = Some (None, s\<lparr>se_in_est := x, se_out_est := y, se_seqno := se_seqno s + 1,
       se_signctx := map_option (\<lambda>c. c\<lparr>sc_data := sc_data c @ fb\<rparr>) (se_signctx s),
       se_state := (if ty = FRAME_TYPE_FRAME then ST_DECRYPT_BODY else ST_CHECK_TRAILER)\<rparr>, written b pt, advanced i (length fb))"
proof -
  let ?mid = "hdr_message_id (se_header s)"
  obtain iv ct where d: "length iv = 12" "frame_ok ty sn (se_frame_size s) (length ct)"
      "fb = frame_bytes ty sn iv ct (frame_tag tg (suite_gcm p (se_content_key s) iv) ?mid (Some ty) sn ct)"
      "pt = ctr_xor (ks (suite_gcm p (se_content_key s) iv)) 0 ct"
    using f(1) by (auto simp: sealed_frame_def)
  let ?g = "suite_gcm p (se_content_key s) iv"
  define tag where "tag = frame_tag tg ?g ?mid (Some ty) sn ct"
  note a = alg_props_fields [OF s(3)]
  have tl: "length tag = 16" unfolding tag_def frame_tag_def by (rule gcm_tag_length [OF gcm])
  have data: "cur_data i = frame_bytes ty sn iv ct tag @ rest" using f(3) d(3) by (simp add: tag_def)
  have len: "length pt = length ct" "length ct < 2 ^ 64"
    using d(2,4) s(4) unsigned_less [of "se_frame_size s", where 'a = nat] by (simp, cases ty) auto
  note fs = frame_slices [OF data d(1) a(2)]
  note e = deserialize_frame_eq [OF data d(2), of p, unfolded a(2,3) d(1) tl, simplified]
  have fl: "frame_size ty p (length ct) = length fb" using length_frame_bytes [of iv p tag ty sn ct] d(1,3) tl a by (simp add: tag_def)
  define out where "out = buf_from_empty_array (take (length ct) (drop (buf_len b) (buf_mem b)))"
  have out: "buf_capacity out = length ct" "buf_len out = 0" "buf_valid out" "buf_capacity out < 2 ^ 64"
    using b len by (auto simp: out_def buf_from_empty_array_def fits_def buf_valid_def min_def)
  have "cur_len (cursor_of ct) = buf_capacity out - buf_len out" using out by (simp add: cursor_of_def)
  from decrypt_body_spec [OF gcm refl this out(3,4) s(5), where props = p and key = "se_content_key s" and iv = iv and
    seqno = sn and tag = tag and ty = "Some ty"] ssl_ok tl a(3)
  have dec: "aws_cryptosdk_decrypt_body (env_lib V) (env_ssl V) p out (cursor_of ct) ?mid sn iv (se_content_key s) tag (Some ty) = Some (None, written out pt)"
    by (auto simp: cursor_of_def tag_matches_def tag_def d(4))
  have adv: "lib_buf_advance (env_lib V) b (length ct) = Some (b\<lparr>buf_len := buf_len b + length ct\<rparr>)"
    using buf_advance [OF fits_valid [OF b]] b len by simp
  have bw: "b\<lparr>buf_len := buf_len b + length ct, buf_mem := splice (buf_mem b) (buf_len b) (buf_mem (written out pt))\<rparr> = written b pt"
    using out(1,2) len by (simp add: written_def splice_def)
  have u: "unat (word_of_nat (length ct) :: uint64) = length ct" using len(2) by (simp only: unat_of_nat) simp
  let ?s = "s\<lparr>se_in_est := word_of_nat (length fb), se_out_est := word_of_nat (length ct)\<rparr>"
  have "aws_cryptosdk_priv_try_decrypt_body V s b i =
      do { (st, s) \<leftarrow> frame_decrypted V ?s fb ty; Some (st, s, written b pt, advanced i (length fb)) }"
    using e f(2,3) adv bw dec fs tl u fl s(2)
    by (simp add: aws_cryptosdk_priv_try_decrypt_body_def Let_def out_def [symmetric] split: option.splits)
  moreover have "se_state ?s = ST_DECRYPT_BODY" using s(1) by simp
  ultimately show ?thesis using frame_decrypted_ok by auto
qed

section \<open>The loop\<close>

lemma put_back_written:
  assumes "fits out (length bs)"
  shows "put_back out (written (remaining_space out) bs) = written out bs" "fits (remaining_space out) (length bs)"
  using assms by (auto simp: put_back_def written_def remaining_space_def buf_from_empty_array_def splice_def fits_def add.commute)

lemma loop_next:
  assumes "session_step V s (remaining_space out) i = Some (None, s', written (remaining_space out) bs, advanced i n)"
    and "0 < n \<or> se_state s' \<noteq> se_state s" "fits out (length bs)"
  shows "process_loop V s out i = process_loop V s' (written out bs) (advanced i n)"
  using assms put_back_written [OF assms(3)] by (subst process_loop.simps) (auto simp: Let_def advanced_def)

lemma loop_done:
  assumes "se_state s = ST_DONE" "buf_valid out"
  shows "process_loop V s out i = Some (None, s, out, i)"
  using assms put_back_written(1) [of out "[]"]
  by (subst process_loop.simps) (simp add: session_step_def Let_def fits_def buf_valid_def remaining_space_def buf_from_empty_array_def)

lemma body_complete_Cons:
  assumes "body_complete (f # fs)"
  shows "fs = [] \<Longrightarrow> fst f \<noteq> FRAME_TYPE_FRAME" "fs \<noteq> [] \<Longrightarrow> fst f = FRAME_TYPE_FRAME \<and> body_complete fs"
proof -
  have a: "fst ((f # fs) ! i) = FRAME_TYPE_FRAME \<longleftrightarrow> i + 1 < length (f # fs)" if "i < length (f # fs)" for i
    using assms that by (simp add: body_complete_def)
  show "fs = [] \<Longrightarrow> fst f \<noteq> FRAME_TYPE_FRAME" using a [of 0] by simp
  show "fs \<noteq> [] \<Longrightarrow> fst f = FRAME_TYPE_FRAME \<and> body_complete fs"
    using a [of 0] a [of "Suc i" for i] by (auto simp: body_complete_def)
qed

lemma frames_open:
  assumes "se_state s = ST_DECRYPT_BODY" "se_alg_props s = Some p" "aws_cryptosdk_alg_props j = Some p" "se_frame_size s \<le> UINT32_MAX"
      "buf_len (hdr_message_id (se_header s)) \<le> INT_MAX" "fits out (length (body_plaintext fs))" "se_seqno s = word_of_nat a" "a + length fs \<le> 0x100000000"
      "body_complete fs" "cur_data i = body_bytes fs @ rest"
      "\<forall>k < length fs. sealed_frame ks tg p (se_content_key s) (hdr_message_id (se_header s)) (se_frame_size s) (fst (fs ! k)) (word_of_nat (a + k))
         (fst (snd (fs ! k))) (snd (snd (fs ! k)))"
  shows "\<exists>x y n. process_loop V s out i = process_loop V (s\<lparr>se_in_est := x, se_out_est := y, se_seqno := n,
       se_signctx := map_option (\<lambda>c. c\<lparr>sc_data := sc_data c @ body_bytes fs\<rparr>) (se_signctx s), se_state := ST_CHECK_TRAILER\<rparr>)
     (written out (body_plaintext fs)) (advanced i (length (body_bytes fs)))"
  using assms
proof (induction fs arbitrary: s out i a)
  case Nil
  then show ?case by (simp add: body_complete_def)
next
  case (Cons f fs)
  obtain ty fb pt where f: "f = (ty, fb, pt)" by (cases f)
  have bb: "body_bytes (f # fs) = fb @ body_bytes fs" "body_plaintext (f # fs) = pt @ body_plaintext fs"
    by (simp_all add: f body_bytes_def body_plaintext_def)
  have sf: "sealed_frame ks tg p (se_content_key s) (hdr_message_id (se_header s)) (se_frame_size s) ty (word_of_nat a) fb pt"
    using Cons.prems(11) f by force
  have a: "a < 0x100000000" using Cons.prems(8) by simp
  have "unat (word_of_nat a :: uint64) = a" "unat (word_of_nat a :: uint32) = a" using a by (simp_all only: unat_of_nat) simp_all
  then have sn: "se_seqno s = ucast (word_of_nat a :: uint32)"
    unfolding Cons.prems(7) word_unat_eq_iff unsigned_ucast_eq using a by (simp only:) (simp add: take_bit_nat_eq_self)
  have b: "fits (remaining_space out) (length pt)" "fits out (length pt)"
    using Cons.prems(6) put_back_written(2) [of out pt] fits_le [of out _ "length pt"] bb(2) by simp_all
  have i: "cur_data i = fb @ body_bytes fs @ rest" using Cons.prems(10) bb by simp
  obtain x y where t: "aws_cryptosdk_priv_try_decrypt_body V s (remaining_space out) i = Some (None, s\<lparr>se_in_est := x, se_out_est := y, se_seqno := se_seqno s + 1,
       se_signctx := map_option (\<lambda>c. c\<lparr>sc_data := sc_data c @ fb\<rparr>) (se_signctx s),
       se_state := (if ty = FRAME_TYPE_FRAME then ST_DECRYPT_BODY else ST_CHECK_TRAILER)\<rparr>, written (remaining_space out) pt, advanced i (length fb))"
    (is "_ = Some (None, ?s, _, _)")
    using try_decrypt_body_ok [OF Cons.prems(1-5) b(1) sf sn i] by blast
  have "0 < length fb" using sf by (auto simp: sealed_frame_def) (cases ty; simp)
  then have l: "process_loop V s out i = process_loop V ?s (written out pt) (advanced i (length fb))"
    using t Cons.prems(1) b(2) by (intro loop_next) (simp_all add: session_step_def)
  show ?case
  proof (cases "fs = []")
    case True
    then have "ty \<noteq> FRAME_TYPE_FRAME" using body_complete_Cons(1) [OF Cons.prems(9)] f by simp
    then show ?thesis using l True bb by auto
  next
    case False
    then have c: "ty = FRAME_TYPE_FRAME" "body_complete fs" using body_complete_Cons(2) [OF Cons.prems(9)] f by simp_all
    have "\<exists>x y n. process_loop V ?s (written out pt) (advanced i (length fb)) = process_loop V (?s\<lparr>se_in_est := x, se_out_est := y, se_seqno := n,
         se_signctx := map_option (\<lambda>c. c\<lparr>sc_data := sc_data c @ body_bytes fs\<rparr>) (se_signctx ?s), se_state := ST_CHECK_TRAILER\<rparr>)
       (written (written out pt) (body_plaintext fs)) (advanced (advanced i (length fb)) (length (body_bytes fs)))"
    proof (rule Cons.IH [of ?s "written out pt" "a + 1"])
      show "\<forall>k < length fs. sealed_frame ks tg p (se_content_key ?s) (hdr_message_id (se_header ?s)) (se_frame_size ?s) (fst (fs ! k)) (word_of_nat (a + 1 + k))
         (fst (snd (fs ! k))) (snd (snd (fs ! k)))"
      proof (intro allI impI)
        fix k
        assume "k < length fs"
        then show "sealed_frame ks tg p (se_content_key ?s) (hdr_message_id (se_header ?s)) (se_frame_size ?s) (fst (fs ! k)) (word_of_nat (a + 1 + k))
            (fst (snd (fs ! k))) (snd (snd (fs ! k)))"
          using Cons.prems(11) [rule_format, of "Suc k"] by simp
      qed
    qed (use Cons.prems c b bb i in \<open>simp_all add: advanced_def\<close>)
    then obtain x' y' n' where "process_loop V ?s (written out pt) (advanced i (length fb)) = process_loop V (?s\<lparr>se_in_est := x', se_out_est := y', se_seqno := n',
         se_signctx := map_option (\<lambda>c. c\<lparr>sc_data := sc_data c @ body_bytes fs\<rparr>) (se_signctx ?s), se_state := ST_CHECK_TRAILER\<rparr>)
       (written (written out pt) (body_plaintext fs)) (advanced (advanced i (length fb)) (length (body_bytes fs)))" by blast
    then show ?thesis
      unfolding l using bb written_written [OF b(2)]
      by - (rule exI [of _ x'], rule exI [of _ y'], rule exI [of _ n'], cases "se_signctx s", simp_all)
  qed
qed

section \<open>The signature\<close>

lemma loop_trailer_None:
  assumes "se_state s = ST_CHECK_TRAILER" "se_signctx s = None" "buf_valid out"
  shows "process_loop V s out i = Some (None, s\<lparr>se_out_est := 0, se_in_est := 0, se_state := ST_DONE\<rparr>, out, i)"
proof -
  have "session_step V s (remaining_space out) i =
      Some (None, s\<lparr>se_out_est := 0, se_in_est := 0, se_state := ST_DONE\<rparr>, written (remaining_space out) [], advanced i 0)"
    using assms by (simp add: session_step_def aws_cryptosdk_priv_check_trailer_def Let_def change_state_ok transition_ok_def)
  from loop_next [OF this] show ?thesis using assms loop_done by (simp add: fits_def buf_valid_def)
qed

lemma trailer_opens:
  assumes s: "se_state s = ST_CHECK_TRAILER" "checks_for kp m covered (se_signctx s)" and tr: "message_signed V m covered tr" "cur_data i = tr"
    and m: "aws_cryptosdk_alg_props (em_alg m) = Some p" "\<forall>sc. em_signctx m = Some sc \<longrightarrow> sc_props sc = p \<and> signature_len p \<noteq> 0" and b: "buf_valid out"
  shows "process_loop V s out i = Some (None, s\<lparr>se_out_est := 0, se_in_est := 0, se_signctx := None, se_state := ST_DONE\<rparr>, out, advanced i (length tr))"
proof (cases "em_signctx m")
  case None
  then have "tr = []" "se_signctx s = None" using s(2) tr(1) by (simp_all add: checks_for_def message_signed_def)
  then show ?thesis using loop_trailer_None [OF s(1) _ b] by (cases s) simp
next
  case (Some sc)
  obtain v where v: "sig_pair kp sc v" "se_signctx s = Some (v\<lparr>sc_data := sc_data v @ covered\<rparr>)" using s(2) Some by (auto simp: checks_for_def)
  obtain sig d d' where t: "tr = trailer_bytes sig" "aws_cryptosdk_sig_sign_finish (env_lib V) (env_ec V) d (sc\<lparr>sc_data := sc_data sc @ covered\<rparr>) = Some (Inr sig, d')"
    using tr(1) Some by (auto simp: message_signed_def)
  obtain g pub priv where k: "kp g pub priv" "sc_keypair sc = \<lparr>ek_group = g, ek_pub = pub, ek_priv = Some priv\<rparr>"
      "sc_keypair v = \<lparr>ek_group = g, ek_pub = pub, ek_priv = None\<rparr>" "sc_props sc = sc_props v" "sc_md sc = sc_md v" "sc_data sc = sc_data v"
    using v(1) by (auto simp: sig_pair_def)
  have p: "sc_props sc = p" "signature_len p \<noteq> 0" using m(2) Some by simp_all
  have ver: "ec_verify_final (env_ec V) g pub (sc_md v) (sc_data v @ covered) sig"
    using sign_finish_verifies [OF ec_spec _ t(2), of priv] k p by simp
  have "length sig = signature_len p"
    using sign_finish_len [OF t(2)] p(1) ec_spec by (simp add: ec_spec_def)
  then have len: "length sig \<le> UINT16_MAX" using alg_props_fields(6) [OF m(1)] by auto
  have u: "unat (word_of_nat (length sig) :: 16 word) = length sig" using len by (simp only: unat_of_nat) simp
  have rd: "lib_read_be16 (env_lib V) i = Some (word_of_nat (length sig), advanced i 2)"
    using tr(2) t(1) by (intro read_be16_append [where rest = sig]) (simp add: trailer_bytes_def)
  have step: "session_step V s (remaining_space out) i =
      Some (None, s\<lparr>se_out_est := 0, se_in_est := 0, se_signctx := None\<rparr>, written (remaining_space out) [], advanced i (length tr))"
    using s(1) v(2) rd u tr(2) t(1) ver k(3) acquire_ok
    by (simp add: session_step_def aws_cryptosdk_priv_check_trailer_def Let_def advance trailer_bytes_def aws_string_new_from_array_def aws_cryptosdk_sig_verify_finish_def)
  show ?thesis
    using loop_next [OF step] loop_trailer_None [of "s\<lparr>se_out_est := 0, se_in_est := 0, se_signctx := None\<rparr>" out "advanced i (length tr)"] s(1) b t(1)
    by (simp add: trailer_bytes_def fits_def buf_valid_def)
qed

section \<open>The header\<close>

lemma validate_header_ok:
  assumes p: "se_alg_props s = Some p" "aws_cryptosdk_alg_props j = Some p" and hb: "se_header_copy s = Some hb"
    and len: "length hb = hdr_auth_len (se_header s) + aws_cryptosdk_private_authtag_len p" "length hb \<le> INT_MAX" "hdr_size_t (env_lib V) (se_header s) = length hb"
    and sealed: "header_sealed tg p (se_content_key s) hb"
  shows "validate_header V s = Some None"
proof -
  let ?n = "hdr_auth_len (se_header s)" and ?key = "se_content_key s"
  let ?t = "\<lparr>buf_mem = drop ?n hb, buf_len = aws_cryptosdk_private_authtag_len p, buf_owned = False\<rparr>"
  have t: "buf_valid ?t" "buf_contents ?t = drop ?n hb" using len(1) by (simp_all add: buf_valid_def buf_contents_def)
  note f = alg_props_fields [OF p(2)]
  have al: "aws_cryptosdk_private_authtag_len p = (if aws_cryptosdk_algorithm_is_committing j then 16 else 28)"
    using f by (simp add: aws_cryptosdk_private_authtag_len_def)
  have h: "length (take ?n hb) \<le> INT_MAX" using len(2) by simp
  have T: "length (tg g x []) = 16" for g x by (rule gcm_tag_length [OF gcm])
  have "header_tag j ?t = tg (suite_gcm p ?key (header_iv j ?t)) (take ?n hb) []"
  proof (cases "aws_cryptosdk_algorithm_is_committing j")
    case True
    then obtain body where b: "hb = body @ tg (suite_gcm p ?key ZERO_IV) body []" using sealed f(1) by (auto simp: header_sealed_def)
    then have "?n = length body" using len(1) al True T by simp
    then show ?thesis using b True t(2) by (simp add: header_tag_def header_iv_def)
  next
    case False
    then obtain body iv where b: "hb = body @ iv @ tg (suite_gcm p ?key iv) body []" "length iv = 12" using sealed f(1) by (auto simp: header_sealed_def)
    then have "?n = length body" using len(1) al False T by simp
    then show ?thesis using b False t(2) by (simp add: header_tag_def header_iv_def)
  qed
  then have "aws_cryptosdk_verify_header (env_ssl V) p ?key ?t (take ?n hb) = Some None"
    using verify_header_spec [OF gcm p(2) h t(1) _ refl, of ?key] ssl_ok by auto
  then show ?thesis using p(1) hb len(1,3) al by (auto simp: validate_header_def Let_def)
qed

lemma use_materials_ok:
  assumes r: "header_read V s hb" and p: "aws_cryptosdk_alg_props (hdr_alg_id (se_header s)) = Some p" "se_alg_props s = Some p"
    and dm: "mode_allows (se_mode s) dm" "dk_len (dm_unencrypted_data_key dm) = data_key_len p"
      "aws_cryptosdk_priv_algorithm_allowed_for_decrypt (alg_id p) (se_policy s)" "dm_signctx dm = None \<longrightarrow> signature_len p = 0"
    and com: "aws_cryptosdk_algorithm_is_committing (hdr_alg_id (se_header s)) \<Longrightarrow>
      buf_contents (hdr_alg_suite_data (se_header s)) = spec_commitment hmac p (padded_data_key dm) (buf_contents (hdr_message_id (se_header s)))"
    and sz: "hdr_size_t (env_lib V) (se_header s) = length hb"
    and sealed: "header_sealed tg p (spec_content_key hmac p (padded_data_key dm) (buf_contents (hdr_message_id (se_header s)))) hb"
  shows "\<exists>tr a vc. length a = 32 \<and> verifies_with dm p hb vc \<and> use_materials V s dm = Some (None, s\<lparr>se_trace := tr, se_cmm_success := True,
      se_content_key := spec_content_key hmac p (padded_data_key dm) (buf_contents (hdr_message_id (se_header s))), se_commitment_arr := a,
      se_signctx := vc, se_seqno := 1, se_frame_size := ucast (hdr_frame_len (se_header s)), se_state := ST_DECRYPT_BODY\<rparr>)"
proof -
  obtain st tr sr where tr: "aws_cryptosdk_transfer_list (env_lib V) (se_trace s) (dm_keyring_trace dm) = (st, tr, sr)" by (metis prod_cases3)
  define s2 where "s2 = s\<lparr>se_trace := tr, se_cmm_success := True\<rparr>"
  note f = alg_props_fields [OF p(1)]
  have wf: "buf_valid (hdr_message_id (se_header s))" "buf_len (hdr_message_id (se_header s)) = aws_cryptosdk_private_algorithm_message_id_len p"
      "buf_valid (hdr_alg_suite_data (se_header s))" "buf_len (hdr_alg_suite_data (se_header s)) = alg_suite_data_len p"
      "buf_len (hdr_iv (se_header s)) + buf_len (hdr_auth_tag (se_header s)) = aws_cryptosdk_private_authtag_len p"
    using r p(1) f(8)
    by (auto simp: header_read_def hdr_wf_def aws_cryptosdk_hdr_is_valid_def aws_cryptosdk_private_authtag_len_def)
  have s2: "se_alg_props s2 = Some p" "se_header s2 = se_header s" "se_policy s2 = se_policy s"
      "se_mode s2 = se_mode s" "se_header_copy s2 = Some hb" "se_header_size s2 = length hb" "se_signctx s2 = None" "se_state s2 = ST_UNWRAP_KEY"
      "length (se_commitment_arr s2) = 32" "length hb = hdr_auth_len (se_header s) + aws_cryptosdk_private_authtag_len p" "length hb \<le> INT_MAX"
    using r p(2) wf(5) by (simp_all add: s2_def header_read_def)
  have 1: "check_materials s2 dm = None" using dm(1) s2 by (auto simp: check_materials_def mode_allows_def)
  let ?K = "spec_content_key hmac p (padded_data_key dm) (buf_contents (hdr_message_id (se_header s2)))"
  obtain a where a: "length a = 32" "derive_data_key V s2 dm =
      (if dk_len (dm_unencrypted_data_key dm) \<noteq> data_key_len p then (Some AWS_CRYPTOSDK_ERR_CRYPTO_UNKNOWN, s2)
       else if \<not> aws_cryptosdk_priv_algorithm_allowed_for_decrypt (alg_id p) (se_policy s2)
       then (Some AWS_CRYPTOSDK_ERR_COMMITMENT_POLICY_VIOLATION, s2)
       else (if (if aws_cryptosdk_algorithm_is_committing (hdr_alg_id (se_header s))
                 then buf_contents (hdr_alg_suite_data (se_header s2)) =
                   spec_commitment hmac p (padded_data_key dm) (buf_contents (hdr_message_id (se_header s2)))
                 else buf_len (hdr_alg_suite_data (se_header s2)) = 0) then None
             else Some AWS_CRYPTOSDK_ERR_BAD_CIPHERTEXT, s2\<lparr>se_content_key := ?K, se_commitment_arr := a\<rparr>))"
    using derive_data_key_eq [OF s2(1) p(1), of dm] wf s2(2,9) by metis
  let ?s = "s2\<lparr>se_content_key := ?K, se_commitment_arr := a\<rparr>"
  have 2: "derive_data_key V s2 dm = (None, ?s)" using a(2) dm(2,3) com s2(2,3) wf(4) f(9) by simp
  have 3: "validate_header V ?s = Some None"
    using validate_header_ok [of ?s p "hdr_alg_id (se_header s)" hb] p(1) s2 sz sealed by simp
  have "\<exists>c. take_signctx V ?s dm = (None, ?s\<lparr>se_signctx := c\<rparr>) \<and> verifies_with dm p hb c"
  proof (cases "signature_len p = 0")
    case True
    have "?s = ?s\<lparr>se_signctx := None\<rparr>" using s2(7) by simp
    then show ?thesis using True s2(1) by (auto simp: take_signctx_def verifies_with_def)
  qed (use dm(4) s2(1,5,6) sig_update_ok [OF ec_ok] in \<open>auto simp: take_signctx_def verifies_with_def\<close>)
  then obtain c where 4: "take_signctx V ?s dm = (None, ?s\<lparr>se_signctx := c\<rparr>)" "verifies_with dm p hb c" by blast
  have 5: "aws_cryptosdk_priv_session_change_state (?s\<lparr>se_signctx := c, se_seqno := 1, se_frame_size := ucast (hdr_frame_len (se_header s2))\<rparr>) ST_DECRYPT_BODY =
      Some (?s\<lparr>se_signctx := c, se_seqno := 1, se_frame_size := ucast (hdr_frame_len (se_header s2)), se_state := ST_DECRYPT_BODY\<rparr>)"
    using s2(1,8) by (subst change_state_ok) (auto simp: transition_ok_def)
  have "use_materials V s dm = Some (None, ?s\<lparr>se_signctx := c, se_seqno := 1, se_frame_size := ucast (hdr_frame_len (se_header s2)), se_state := ST_DECRYPT_BODY\<rparr>)"
    using tr 1 2 3 4(1) 5 by (simp add: use_materials_def Let_def s2_def [symmetric] and_then_def)
  then show ?thesis
    using 4(2) a(1) unfolding s2_def by - (rule exI [of _ tr], rule exI [of _ a], rule exI [of _ c], simp)
qed

lemma fill_edks_ok: "fill_edks (env_lib V) dest es = Inr (dest @ map unowned_edk es)"
  using push_back_ok by (induction "env_lib V" dest es rule: fill_edks.induct) (simp_all add: unowned_edk_def)

lemma fill_request_ok:
  assumes "se_alg_props s = Some p" "aws_cryptosdk_alg_props (hdr_alg_id (se_header s)) = Some p"
  shows "fill_request (env_lib V) s = Inr (header_request (se_header s))"
  using assms alg_props_fields(1) [OF assms(2)] fill_edks_ok list_init_ok
  by (simp add: fill_request_def header_request_def aws_cryptosdk_edk_list_init_def)

lemma padded_key_take:
  assumes "length (dk_contents (dm_unencrypted_data_key dm)) = data_key_len p" "dk_contents (dm_unencrypted_data_key dm) = k"
  shows "spec_content_key hmac p (padded_data_key dm) mid = spec_content_key hmac p k mid"
    "spec_commitment hmac p (padded_data_key dm) mid = spec_commitment hmac p k mid"
proof -
  have "take (data_key_len p) (padded_data_key dm) = take (data_key_len p) k"
    using assms by (simp add: padded_data_key_def splice_def)
  then show "spec_content_key hmac p (padded_data_key dm) mid = spec_content_key hmac p k mid"
      "spec_commitment hmac p (padded_data_key dm) mid = spec_commitment hmac p k mid"
    unfolding spec_content_key_def spec_commitment_def by (simp_all only:)
qed

lemma unowned_eq:
  "list_all2 aws_cryptosdk_edk_eq es es' \<Longrightarrow> list_all2 aws_cryptosdk_edk_eq es (map unowned_edk es')"
  "list_all aws_cryptosdk_edk_is_valid (map unowned_edk es') = list_all aws_cryptosdk_edk_is_valid es'"
  by (auto simp: list_all2_conv_all_nth list_all_length aws_cryptosdk_edk_eq_def aws_cryptosdk_edk_is_valid_def unowned_edk_def buf_contents_def buf_valid_def)

text \<open>The header that was made is parsed back, with the length that the size computation gives.\<close>

lemma made_header_parses:
  assumes mk: "made_header tg hmac t se m hb p" and e: "em_encrypted_data_keys m \<noteq> []" "length (em_encrypted_data_keys m) \<le> UINT16_MAX" "list_all edk_fits (em_encrypted_data_keys m)"
    and s: "hdr_alloc h0" "k = 0 \<or> length (em_encrypted_data_keys m) \<le> k" and i: "cur_data i = hb @ rest"
  obtains h where "aws_cryptosdk_hdr_parse (env_lib V) h0 i k = (None, h, advanced i (length hb))" "hdr_wf h" "hdr_same (wire_header p (se_header se)) h"
    "length hb = hdr_auth_len h + buf_len (hdr_iv h) + buf_len (hdr_auth_tag h)" "hdr_size_t (env_lib V) h = length hb" "length hb \<noteq> 0"
proof -
  let ?g = "wire_header p (se_header se)"
  have p: "aws_cryptosdk_alg_props (hdr_alg_id (se_header se)) = Some p" and n: "length hb \<le> INT_MAX" using mk by (auto simp: made_header_def)
  have hb: "hb = hdr_bytes ?g" using mk wire_header_bytes(1) [OF p] by (simp add: made_header_def)
  have g: "hdr_alg_id ?g = hdr_alg_id (se_header se)" "hdr_edk_list ?g = em_encrypted_data_keys m" "hdr_enc_ctx ?g = hdr_enc_ctx (se_header se)"
    using mk by (simp_all add: wire_header_def made_header_def)
  have w: "hdr_writable ?g" "hdr_wf ?g" using mk e g by (simp_all add: hdr_writable_def made_header_def)
  have "k = 0 \<or> length (hdr_edk_list ?g) \<le> k" using s(2) g(2) by simp
  from hdr_parse_bytes [OF aws_c_common_mem_axioms w(1) s(1) this, of "cur_ptr i" rest] i hb
  obtain h where h: "aws_cryptosdk_hdr_parse (env_lib V) h0 i k = (None, h, advanced i (length hb))" "hdr_same ?g h"
    by (cases i) (auto simp: advanced_def)
  note r = hdr_parse_result(3) [OF s(1) h(1) refl]
  have len: "length hb = hdr_auth_len h + buf_len (hdr_iv h) + buf_len (hdr_auth_tag h)" "hdr_wf h" using r by simp_all
  have bytes: "hdr_bytes h = hb" using hdr_same_bytes [OF h(2) w(2) len(2)] hb by simp
  have p': "aws_cryptosdk_alg_props (hdr_alg_id h) = Some p" using h(2) g(1) p by (simp add: hdr_same_def)
  have v: "aws_cryptosdk_hdr_is_valid h" "buf_len (hdr_iv h) = (if msg_format_version p = AWS_CRYPTOSDK_HEADER_VERSION_1_0 then iv_len p else 0)"
      "buf_len (hdr_auth_tag h) = tag_len p" using len(2) p' by (simp_all add: hdr_wf_def)
  have "hash_valid (hdr_enc_ctx ?g)" using w(2) by (auto simp: hdr_wf_def aws_cryptosdk_hdr_is_valid_def split: option.splits)
  then have "enc_ctx_bytes (hdr_enc_ctx h) = enc_ctx_bytes (hdr_enc_ctx ?g)"
    using v(1) h(2) by (intro enc_ctx_bytes_canonical) (simp_all add: hdr_same_def aws_cryptosdk_hdr_is_valid_def)
  then have "enc_ctx_fits (hdr_enc_ctx h)" using w(1) by (simp add: hdr_writable_def enc_ctx_fits_def)
  then have "aws_cryptosdk_hdr_size (env_lib V) h = int (length hb)"
    using hdr_size_eq [OF aws_c_common_axioms v(1) p' _ v(3)] v(2) hdr_version_props(1) [OF p'] bytes n by simp
  then have "hdr_size_t (env_lib V) h = length hb" using n by (simp add: hdr_size_t_def unat_of_nat)
  moreover have "length hb \<noteq> 0" by (simp add: hb hdr_bytes_def hdr_body_bytes_def hdr_start_bytes_def)
  ultimately show thesis using that h len by blast
qed

text \<open>What an opening session needs to allow: the suite, the number of keys, and signed messages if the message is signed.\<close>

definition admits :: "session \<Rightarrow> enc_materials \<Rightarrow> bool" where
  "admits s m \<longleftrightarrow> aws_cryptosdk_priv_algorithm_allowed_for_decrypt (em_alg m) (se_policy s) \<and>
     (se_mode s = AWS_CRYPTOSDK_DECRYPT_UNSIGNED \<longrightarrow> em_signctx m = None) \<and>
     (se_max_edks s = 0 \<or> length (em_encrypted_data_keys m) \<le> se_max_edks s)"

lemma header_opens:
  assumes s: "session_ok V s" "se_state s = ST_READ_HEADER" "se_cmm s = Some c" "admits s m"
    and mk: "made_header tg hmac t se m hb p" "se_cmm se = Some c" "hash_valid t"
    and e: "length (em_encrypted_data_keys m) \<le> UINT16_MAX" "list_all edk_fits (em_encrypted_data_keys m)"
    and i: "cur_data i = hb @ rest"
  shows "\<exists>s'. aws_cryptosdk_priv_try_parse_header V s i = Some (None, s', advanced i (length hb)) \<and> se_state s' = ST_DECRYPT_BODY \<and> se_seqno s' = 1 \<and>
    se_alg_props s' = Some p \<and> se_content_key s' = se_content_key se \<and> se_frame_size s' = se_frame_size se \<and>
    buf_contents (hdr_message_id (se_header s')) = buf_contents (hdr_message_id (se_header se)) \<and> buf_len (hdr_message_id (se_header s')) \<le> INT_MAX \<and>
    map_of (hdr_enc_ctx (se_header s')) = map_of (hdr_enc_ctx (se_header se)) \<and> checks_for kp m hb (se_signctx s') \<and> same_config s s'"
proof -
  have so: "aws_cryptosdk_priv_is_decrypt_mode (se_mode s)" "hdr_alloc (se_header s)" "se_signctx s = None" "length (se_commitment_arr s) = 32"
    using s(1,2) by (simp_all add: session_ok_def)
  obtain rq d d' where rq: "er_enc_ctx rq = t" "aws_cryptosdk_cmm_generate_enc_materials c rq d = (Inr m, hdr_enc_ctx (se_header se), d')"
    using mk(1,2) by (auto simp: made_header_def)
  have me: "aws_cryptosdk_alg_props (em_alg m) = Some p" "hdr_alg_id (se_header se) = em_alg m" "hdr_edk_list (se_header se) = em_encrypted_data_keys m"
      "hdr_frame_len (se_header se) = ucast (se_frame_size se)" "se_frame_size se \<le> UINT32_MAX" "enc_ctx_fits (hdr_enc_ctx (se_header se))"
      "se_content_key se = spec_content_key hmac p (dk_contents (em_unencrypted_data_key m)) (buf_contents (hdr_message_id (se_header se)))"
      "aws_cryptosdk_algorithm_is_committing (em_alg m) \<longrightarrow> buf_contents (hdr_alg_suite_data (se_header se)) =
          spec_commitment hmac p (dk_contents (em_unencrypted_data_key m)) (buf_contents (hdr_message_id (se_header se)))"
      "length hb \<le> INT_MAX" "header_sealed tg p (se_content_key se) hb"
    using mk(1) unfolding made_header_def by blast+
  have gen: "em_encrypted_data_keys m \<noteq> []" "length (dk_contents (em_unencrypted_data_key m)) = data_key_len p"
      "dk_len (em_unencrypted_data_key m) = data_key_len p" "em_signctx m = None \<longleftrightarrow> signature_len p = 0"
    using generated [OF _ rq(2) me(6)] rq(1) mk(3) me(1) by auto
  have mx: "se_max_edks s = 0 \<or> length (em_encrypted_data_keys m) \<le> se_max_edks s" using s(4) by (simp add: admits_def)
  obtain h where h: "aws_cryptosdk_hdr_parse (env_lib V) (se_header s) i (se_max_edks s) = (None, h, advanced i (length hb))" "hdr_wf h"
      "hdr_same (wire_header p (se_header se)) h"
      "length hb = hdr_auth_len h + buf_len (hdr_iv h) + buf_len (hdr_auth_tag h)" "hdr_size_t (env_lib V) h = length hb" "length hb \<noteq> 0"
    using made_header_parses [OF mk(1) gen(1) e so(2) mx i] .
  have hs: "hdr_alg_id h = em_alg m" "hdr_frame_len h = ucast (se_frame_size se)"
      "buf_contents (hdr_message_id h) = buf_contents (hdr_message_id (se_header se))"
      "buf_contents (hdr_alg_suite_data h) = buf_contents (hdr_alg_suite_data (se_header se))"
      "map_of (hdr_enc_ctx h) = map_of (hdr_enc_ctx (se_header se))" "list_all2 aws_cryptosdk_edk_eq (em_encrypted_data_keys m) (hdr_edk_list h)"
    using h(3) me(2-4) by (simp_all add: hdr_same_def wire_header_def split: if_splits)
  have hv: "list_all aws_cryptosdk_edk_is_valid (hdr_edk_list h)" "hash_valid (hdr_enc_ctx h)" "hdr_alloc h"
      "buf_len (hdr_message_id h) = aws_cryptosdk_private_algorithm_message_id_len p"
    using h(2) hs(1) me(1) by (simp_all add: hdr_wf_def aws_cryptosdk_hdr_is_valid_def edks_valid_iff)
  have n: "length hb \<le> cur_len i" "take (length hb) (cur_data i) = hb" using i by simp_all
  define u where "u = s\<lparr>se_header := h, se_header_size := length hb, se_header_copy := Some hb, se_state := ST_UNWRAP_KEY\<rparr>"
  have rd: "aws_cryptosdk_priv_try_parse_header V s i = do { (st, s) \<leftarrow> aws_cryptosdk_priv_unwrap_keys V u; Some (st, s, advanced i (length hb)) }"
      "header_read V u hb"
    using try_parse_header_read [OF s(2) so h(1,2) n(1) h(4-6) me(9) acquire_ok] n(2) by (simp_all add: u_def)
  let ?u = "u\<lparr>se_alg_props := Some p\<rparr>"
  have p: "aws_cryptosdk_alg_props (hdr_alg_id (se_header ?u)) = Some p" using hs(1) me(1) by (simp add: u_def)
  have rq': "fill_request (env_lib V) ?u = Inr (header_request h)" using fill_request_ok [OF _ p] by (simp add: u_def)
  obtain dm where dm: "aws_cryptosdk_cmm_decrypt_materials c (header_request h) = Inr dm" "dm_alg dm = em_alg m"
      "dk_contents (dm_unencrypted_data_key dm) = dk_contents (em_unencrypted_data_key m)"
      "dk_len (dm_unencrypted_data_key dm) = dk_len (em_unencrypted_data_key m)" "em_signctx m = None \<longrightarrow> dm_signctx dm = None"
      "\<forall>sc. em_signctx m = Some sc \<longrightarrow> (\<exists>vc. dm_signctx dm = Some vc \<and> sig_pair kp sc vc)"
    using decrypted [OF _ rq(2) me(6), of "header_request h"] mk(3) rq(1) unowned_eq(1) [OF hs(6)] unowned_eq(2) [of "hdr_edk_list h"] hs hv
    by (auto simp: header_request_def)
  note k = padded_key_take [of dm p, OF _ dm(3)]
  have r': "header_read V ?u hb" using rd(2) by (simp add: header_read_def)
  have ma: "mode_allows (se_mode ?u) dm" using s(4) gen(4) dm(2) me(1) by (auto simp: mode_allows_def admits_def u_def)
  have dk: "dk_len (dm_unencrypted_data_key dm) = data_key_len p" using dm(4) gen(3) by simp
  have al: "aws_cryptosdk_priv_algorithm_allowed_for_decrypt (alg_id p) (se_policy ?u)"
    using s(4) alg_props_fields(1) [OF me(1)] by (simp add: admits_def u_def)
  have sc: "dm_signctx dm = None \<longrightarrow> signature_len p = 0" using dm(6) gen(4) by (cases "em_signctx m") auto
  have kk: "spec_content_key hmac p (padded_data_key dm) (buf_contents (hdr_message_id (se_header ?u))) = se_content_key se"
      "spec_commitment hmac p (padded_data_key dm) (buf_contents (hdr_message_id (se_header ?u))) =
        spec_commitment hmac p (dk_contents (em_unencrypted_data_key m)) (buf_contents (hdr_message_id (se_header se)))"
    using k dm(3) gen(2) hs(3) me(7) by (simp_all add: u_def)
  have com: "buf_contents (hdr_alg_suite_data (se_header ?u)) = spec_commitment hmac p (padded_data_key dm) (buf_contents (hdr_message_id (se_header ?u)))"
    if "aws_cryptosdk_algorithm_is_committing (hdr_alg_id (se_header ?u))"
    unfolding kk(2) using that me(8) hs(1,4) by (simp add: u_def)
  have sz: "hdr_size_t (env_lib V) (se_header ?u) = length hb" using h(5) by (simp add: u_def)
  obtain tr a vc where us: "length a = 32" "verifies_with dm p hb vc" "use_materials V ?u dm = Some (None, ?u\<lparr>se_trace := tr, se_cmm_success := True,
      se_content_key := se_content_key se, se_commitment_arr := a,
      se_signctx := vc, se_seqno := 1, se_frame_size := ucast (hdr_frame_len (se_header ?u)), se_state := ST_DECRYPT_BODY\<rparr>)"
    using use_materials_ok [OF r' p _ ma dk al sc com sz] me(10) unfolding kk(1) by auto
  let ?s = "?u\<lparr>se_trace := tr, se_cmm_success := True, se_content_key := se_content_key se, se_commitment_arr := a,
      se_signctx := vc, se_seqno := 1, se_frame_size := ucast (hdr_frame_len (se_header ?u)), se_state := ST_DECRYPT_BODY\<rparr>"
  have "aws_cryptosdk_priv_unwrap_keys V u = Some (None, ?s)"
    using us(3) rq' dm(1) s(3) p by (simp add: aws_cryptosdk_priv_unwrap_keys_def Let_def u_def)
  then have "aws_cryptosdk_priv_try_parse_header V s i = Some (None, ?s, advanced i (length hb))" using rd(1) by simp
  moreover have "checks_for kp m hb vc"
    using us(2) gen(4) dm(5,6) by (auto simp: checks_for_def verifies_with_def split: option.splits if_splits)
  moreover have "(ucast (ucast (se_frame_size se) :: uint32) :: uint64) = se_frame_size se"
    unfolding word_unat_eq_iff
    by (subst unsigned_ucast_eq) (simp only: unat_ucast_64_32 [OF me(5)], rule take_bit_nat_eq_self, rule unsigned_less)
  moreover have "same_config s ?s" using hv(3) so(2,4) us(1) by (simp add: same_config_def u_def)
  moreover have "buf_len (hdr_message_id h) \<le> INT_MAX" using hv(4) by (simp add: aws_cryptosdk_private_algorithm_message_id_len_def)
  ultimately show ?thesis using hs by (intro exI [of _ ?s] conjI) (simp_all add: u_def)
qed

section \<open>The message\<close>

lemma sealed_frame_mid:
  "buf_contents mid = buf_contents mid' \<Longrightarrow> sealed_frame ks tg p key mid m ty sn fb pt = sealed_frame ks tg p key mid' m ty sn fb pt"
  by (simp add: sealed_frame_def frame_tag_def)

lemma message_opens:
  assumes s: "session_ok V s" "se_state s = ST_CONFIG" "aws_cryptosdk_priv_is_decrypt_mode (se_mode s)" "se_cmm s = Some c"
      "aws_cryptosdk_commitment_policy_is_valid (se_policy s)" "admits s m"
    and mk: "made_header tg hmac t se m hb p" "se_cmm se = Some c" "hash_valid t"
    and e: "length (em_encrypted_data_keys m) \<le> UINT16_MAX" "list_all edk_fits (em_encrypted_data_keys m)"
    and fs: "frames_sealed ks tg se fs" "body_complete fs" and tr: "message_signed V m (hb @ body_bytes fs) tr"
    and out: "length (body_plaintext fs) \<le> length outp"
  shows "\<exists>s'. aws_cryptosdk_session_process V s outp (hb @ body_bytes fs @ tr) =
      Some \<lparr>pr_status = None, pr_session = s', pr_outp = body_plaintext fs @ drop (length (body_plaintext fs)) outp,
        pr_out_bytes_written = length (body_plaintext fs), pr_in_bytes_read = length (hb @ body_bytes fs @ tr)\<rparr> \<and>
    se_state s' = ST_DONE \<and> map_of (hdr_enc_ctx (se_header s')) = map_of (hdr_enc_ctx (se_header se)) \<and> same_config s s'"
proof -
  let ?msg = "hb @ body_bytes fs @ tr" and ?out = "buf_from_empty_array outp" and ?pt = "body_plaintext fs"
  let ?i = "cursor_of ?msg"
  have i: "cur_data ?i = hb @ body_bytes fs @ tr" "cur_ptr ?i = 0" by (simp_all add: cursor_of_def)
  have o: "buf_valid ?out" "fits ?out 0" "fits ?out (length ?pt)" "buf_len ?out = 0" "buf_mem ?out = outp"
    using out by (simp_all add: buf_from_empty_array_def buf_valid_def fits_def)
  obtain rq d d' where rq: "er_enc_ctx rq = t" "aws_cryptosdk_cmm_generate_enc_materials c rq d = (Inr m, hdr_enc_ctx (se_header se), d')"
      and p: "aws_cryptosdk_alg_props (em_alg m) = Some p" "enc_ctx_fits (hdr_enc_ctx (se_header se))" "se_alg_props se = Some p" "se_frame_size se \<le> UINT32_MAX"
    using mk(1,2) by (auto simp: made_header_def)
  have gen: "\<forall>sc. em_signctx m = Some sc \<longrightarrow> sc_props sc = p \<and> signature_len p \<noteq> 0"
    using generated [OF _ rq(2) p(2)] rq(1) mk(3) p(1) by auto
  define s1 where "s1 = s\<lparr>se_state := ST_READ_HEADER\<rparr>"
  have m: "se_mode s \<noteq> AWS_CRYPTOSDK_ENCRYPT" using s(3) by (auto simp: aws_cryptosdk_priv_is_decrypt_mode_def)
  have "session_step V s (remaining_space ?out) ?i = Some (None, s1, written (remaining_space ?out) [], advanced ?i 0)"
    using s(2-5) m by (simp add: session_step_def s1_def change_state_ok transition_ok_def)
  then have l1: "process_loop V s ?out ?i = process_loop V s1 ?out ?i" using loop_next [of s ?out ?i s1 "[]" 0] s(2) o(2) by (simp add: s1_def)
  have s1: "session_ok V s1" "se_state s1 = ST_READ_HEADER" "se_cmm s1 = Some c" "admits s1 m"
    using s by (simp_all add: s1_def session_ok_def admits_def)
  obtain s2 where h: "aws_cryptosdk_priv_try_parse_header V s1 ?i = Some (None, s2, advanced ?i (length hb))" "se_state s2 = ST_DECRYPT_BODY" "se_seqno s2 = 1"
      "se_alg_props s2 = Some p" "se_content_key s2 = se_content_key se" "se_frame_size s2 = se_frame_size se"
      "buf_contents (hdr_message_id (se_header s2)) = buf_contents (hdr_message_id (se_header se))" "buf_len (hdr_message_id (se_header s2)) \<le> INT_MAX"
      "map_of (hdr_enc_ctx (se_header s2)) = map_of (hdr_enc_ctx (se_header se))" "checks_for kp m hb (se_signctx s2)" "same_config s1 s2"
    using header_opens [OF s1 mk e i(1)] by blast
  have "session_step V s1 (remaining_space ?out) ?i = Some (None, s2, written (remaining_space ?out) [], advanced ?i (length hb))"
    using s1(2) h(1) by (simp add: session_step_def)
  then have l2: "process_loop V s1 ?out ?i = process_loop V s2 ?out (advanced ?i (length hb))"
    using loop_next [of s1 ?out ?i s2 "[]" "length hb"] s1(2) h(2) o(2) by simp
  have sf: "\<forall>k < length fs. sealed_frame ks tg p (se_content_key s2) (hdr_message_id (se_header s2)) (se_frame_size s2) (fst (fs ! k)) (word_of_nat (1 + k))
         (fst (snd (fs ! k))) (snd (snd (fs ! k)))"
    using fs(1) p(3) h(5,6) sealed_frame_mid [OF h(7)] by (simp add: frames_sealed_def add.commute)
  have n: "1 + length fs \<le> 0x100000000" using fs(1) by (simp add: frames_sealed_def)
  have i2: "cur_data (advanced ?i (length hb)) = body_bytes fs @ tr" using i(1) by simp
  have q: "se_seqno s2 = word_of_nat 1" "se_frame_size s2 \<le> UINT32_MAX" using h(3,6) p(4) by simp_all
  obtain x y w where l3: "process_loop V s2 ?out (advanced ?i (length hb)) = process_loop V (s2\<lparr>se_in_est := x, se_out_est := y, se_seqno := w,
       se_signctx := map_option (\<lambda>c. c\<lparr>sc_data := sc_data c @ body_bytes fs\<rparr>) (se_signctx s2), se_state := ST_CHECK_TRAILER\<rparr>)
     (written ?out ?pt) (advanced (advanced ?i (length hb)) (length (body_bytes fs)))" (is "_ = process_loop V ?s3 _ ?i3")
    using frames_open [OF h(2,4) p(1) q(2) h(8) o(3) q(1) n fs(2) i2 sf] by blast
  have s3: "se_state ?s3 = ST_CHECK_TRAILER" "checks_for kp m (hb @ body_bytes fs) (se_signctx ?s3)"
    using h(10) by (auto simp: checks_for_def split: option.splits)
  have i3: "cur_data ?i3 = tr" using i(1) by simp
  let ?s = "?s3\<lparr>se_out_est := 0, se_in_est := 0, se_signctx := None, se_state := ST_DONE\<rparr>"
  have "process_loop V ?s3 (written ?out ?pt) ?i3 = Some (None, ?s, written ?out ?pt, advanced ?i3 (length tr))"
    using trailer_opens [OF s3 tr i3 p(1) gen] o(3) by simp
  then have "process_loop V s ?out ?i = Some (None, ?s, written ?out ?pt, advanced ?i (length ?msg))"
    unfolding l1 l2 l3 by (simp add: add.assoc)
  moreover have "same_config s ?s" using h(11) by (simp add: same_config_def s1_def)
  ultimately show ?thesis
    using h(9) o(3-5) i(2)
    by (intro exI [of _ ?s] conjI) (simp_all add: aws_cryptosdk_session_process_def written_def splice_def)
qed

end

end
