(* ===== verification/SessionLive.thy ===== *)
theory SessionLive
  imports SessionTrip
begin

text \<open>
  Encryption goes through: with libraries that serve every request, a random source that always answers and a manager that
  gives materials, a session seals every message that is within the limits of its format, given enough room for the output.
\<close>

definition rand_ok :: "rand_source \<Rightarrow> bool" where
  "rand_ok R \<longleftrightarrow> (\<forall>i n. R i n \<noteq> None)"

text \<open>A context that signs gives a signature of the right length after finitely many attempts, none of which fails.\<close>

definition sig_good :: "siglib \<Rightarrow> sig_ctx \<Rightarrow> bool" where
  "sig_good E c \<longleftrightarrow> EVP_MD_size (sc_md c) \<le> 64 \<and> signature_len (sc_props c) \<le> 103 \<and>
     (\<forall>dg d. \<exists>k. (\<forall>j < k. \<exists>s. sign_once E c dg (d + j) = Inr s) \<and> (\<exists>s. sign_once E c dg (d + k) = Inr s \<and> length s = signature_len (sc_props c)))"

text \<open>The longest header with given encrypted data keys.\<close>

definition header_room :: "enc_materials \<Rightarrow> nat" where
  "header_room m = 65700 + sum_list (map edk_len (em_encrypted_data_keys m))"

text \<open>The room that the frames of a plaintext of \<open>n\<close> bytes take at most, with frames of \<open>m\<close> bytes.\<close>

definition body_room :: "nat \<Rightarrow> nat \<Rightarrow> nat" where
  "body_room m n = n + 40 * (n div m + 1)"

lemma body_room_step: "0 < m \<Longrightarrow> m \<le> n \<Longrightarrow> body_room m n = m + 40 + body_room m (n - m)"
  by (simp add: body_room_def le_div_geq)

lemma sig_good_data: "sig_good E (c\<lparr>sc_data := x\<rparr>) = sig_good E c"
proof -
  have h: "sc_keypair (c\<lparr>sc_data := x\<rparr>) = sc_keypair c" "sc_props (c\<lparr>sc_data := x\<rparr>) = sc_props c" "sc_md (c\<lparr>sc_data := x\<rparr>) = sc_md c" by simp_all
  show ?thesis unfolding sig_good_def sign_once_def h ..
qed

text \<open>What a message of \<open>n\<close> bytes and the materials for it have to satisfy to be sealed by a session.\<close>

definition within_limits :: "session \<Rightarrow> nat \<Rightarrow> bool" where
  "within_limits s n \<longleftrightarrow> n < 2 ^ 64 \<and> word_of_nat n \<le> se_size_bound s \<and> se_frame_size s \<le> UINT32_MAX \<and>
     (if se_frame_size s = 0 then n < unat MAX_UNFRAMED_PLAINTEXT_SIZE else n div unat (se_frame_size s) < 0xFFFFFFFF)"

definition usable_materials :: "siglib \<Rightarrow> session \<Rightarrow> enc_materials \<Rightarrow> hash_table \<Rightarrow> bool" where
  "usable_materials E s m ctx \<longleftrightarrow> enc_ctx_fits ctx \<and> aws_cryptosdk_priv_algorithm_allowed_for_encrypt (em_alg m) (se_policy s) \<and>
     (se_max_edks s = 0 \<or> length (em_encrypted_data_keys m) \<le> se_max_edks s) \<and> header_room m \<le> INT_MAX \<and>
     (\<forall>x. em_signctx m = Some x \<longrightarrow> sig_good E x)"

lemma and_then_None: "and_then (Some (None, s)) f = f s"
  by (simp add: and_then_def)

lemma ends_success: "ends E S r \<Longrightarrow> (\<And>st x. r = Some (st, x) \<Longrightarrow> st = None) \<Longrightarrow> \<exists>x. r = Some (None, x) \<and> S x"
  by (auto simp: ends_def split: option.splits if_splits)

section \<open>Headers that are ready to be written\<close>

definition hdr_ready :: "alg_properties \<Rightarrow> hdr \<Rightarrow> bool" where
  "hdr_ready p h \<longleftrightarrow> aws_cryptosdk_hdr_is_valid h \<and> aws_cryptosdk_alg_props (hdr_alg_id h) = Some p \<and> enc_ctx_fits (hdr_enc_ctx h) \<and>
     (\<exists>iv. length iv = 12 \<and> hdr_iv h = gen_buf iv) \<and> (\<exists>t. length t = 16 \<and> hdr_auth_tag h = gen_buf t)"

lemma gen_buf_inject [simp]: "gen_buf a = gen_buf b \<longleftrightarrow> a = b"
  by (auto simp: gen_buf_def)

lemma hdr_ready_length:
  assumes "hdr_ready p h"
  shows "length (hdr_bytes h) =
    nat (aws_cryptosdk_header_version_static_fields_len (msg_format_version p)) +
    (buf_len (hdr_message_id h) + buf_len (hdr_alg_suite_data h)) + aws_cryptosdk_private_authtag_len p +
    length (enc_ctx_bytes (hdr_enc_ctx h)) + sum_list (map edk_len (hdr_edk_list h))"
  using assms alg_props_fields(2,3) [of "hdr_alg_id h" p] by (intro length_hdr_bytes) (auto simp: hdr_ready_def)

lemma hdr_ready_placeholders:
  assumes "hdr_ready p h"
  shows "hdr_ready p (hdr_placeholders h)" "length (hdr_bytes (hdr_placeholders h)) = length (hdr_bytes h)"
proof -
  show r: "hdr_ready p (hdr_placeholders h)"
    using assms by (auto simp: hdr_ready_def hdr_placeholders_def aws_cryptosdk_hdr_is_valid_def)
  show "length (hdr_bytes (hdr_placeholders h)) = length (hdr_bytes h)"
    unfolding hdr_ready_length [OF assms] hdr_ready_length [OF r] by (simp add: hdr_placeholders_def)
qed

lemma hdr_ready_authtag:
  assumes h: "hdr_ready p h" and bs: "length bs = aws_cryptosdk_private_authtag_len p"
  shows "hdr_ready p (with_authtag p h bs)" "length (hdr_bytes (with_authtag p h bs)) = length (hdr_bytes h)"
proof -
  have p: "aws_cryptosdk_alg_props (hdr_alg_id h) = Some p" using h by (simp add: hdr_ready_def)
  obtain iv t where b: "hdr_iv h = gen_buf iv" "length iv = 12" "hdr_auth_tag h = gen_buf t" "length t = 16" using h by (auto simp: hdr_ready_def)
  have "(if msg_format_version p = AWS_CRYPTOSDK_HEADER_VERSION_1_0 then 28 else 16) = length bs"
    using bs alg_props_fields(2,3,8) [OF p] by (simp add: aws_cryptosdk_private_authtag_len_def)
  then show r: "hdr_ready p (with_authtag p h bs)"
    using h b by (auto simp: hdr_ready_def with_authtag_def aws_cryptosdk_hdr_is_valid_def split: if_splits)
  show "length (hdr_bytes (with_authtag p h bs)) = length (hdr_bytes h)"
    unfolding hdr_ready_length [OF h] hdr_ready_length [OF r] by (simp add: with_authtag_def)
qed

locale live_env = opening_env V ks tg hmac c kp dig for V ks tg hmac c kp dig +
  assumes rand_ok: "rand_ok (env_rand V)"
begin

section \<open>Generating keys\<close>

lemma buf_init_ok: "\<exists>b. lib_buf_init (env_lib V) n = Some b \<and> length (buf_mem b) = n"
  using buf_init_SomeE [OF acquire_ok] by metis

lemma gen_message_id_ok:
  assumes "se_alg_props s = Some p"
  shows "\<exists>mid. length mid = aws_cryptosdk_private_algorithm_message_id_len p \<and>
    gen_message_id V s = (None, s\<lparr>se_draws := Suc (se_draws s), se_header := (se_header s)\<lparr>hdr_message_id := gen_buf mid\<rparr>\<rparr>)"
proof -
  obtain b where b: "lib_buf_init (env_lib V) (aws_cryptosdk_private_algorithm_message_id_len p) = Some b" using buf_init_ok by blast
  obtain y where "env_rand V (se_draws s) (length (buf_mem b)) = Some y" using rand_ok unfolding rand_ok_def by blast
  then have "\<exists>x. aws_cryptosdk_genrandom (env_rand V) (se_draws s) (buf_mem b) = (None, x)" by (simp add: aws_cryptosdk_genrandom_def)
  then have "fst (gen_message_id V s) = None" using assms b by (auto simp: gen_message_id_def Let_def)
  then show ?thesis
    using gen_message_id_ends [OF assms] by (cases "gen_message_id V s") auto
qed

lemma write_header_copy_ok:
  assumes "hdr_ready p (se_header s)" "se_header_copy s = Some c0" "length c0 = se_header_size s" "length (hdr_bytes (se_header s)) = se_header_size s"
  shows "write_header_copy V s = (None, s\<lparr>se_header_copy := Some (hdr_bytes (se_header s))\<rparr>)"
proof -
  have "aws_cryptosdk_algorithm_is_known (hdr_alg_id (se_header s))" "hash_valid (hdr_enc_ctx (se_header s))" "enc_ctx_fits (hdr_enc_ctx (se_header s))"
    using assms(1) alg_props_known by (auto simp: hdr_ready_def aws_cryptosdk_hdr_is_valid_def)
  from hdr_write_eq [OF this, of c0] show ?thesis using assms(2-4) by (simp add: write_header_copy_def)
qed

lemma authenticate_header_ok:
  assumes p: "se_alg_props s = Some p" and h: "hdr_ready p (se_header s)" "se_header_copy s = Some (hdr_bytes (se_header s))"
    "se_header_size s = length (hdr_bytes (se_header s))" "se_header_size s \<le> INT_MAX"
  shows "\<exists>c1 h. authenticate_header V s = Some (None, s\<lparr>se_header_copy := Some c1, se_header := h\<rparr>) \<and> hdr_ready p h \<and>
    length (hdr_bytes h) = se_header_size s \<and> length c1 = se_header_size s"
proof -
  let ?n = "se_header_size s - aws_cryptosdk_private_authtag_len p" and ?c0 = "hdr_bytes (se_header s)"
  have pi: "aws_cryptosdk_alg_props (hdr_alg_id (se_header s)) = Some p" using h(1) by (simp add: hdr_ready_def)
  have le: "aws_cryptosdk_private_authtag_len p \<le> length ?c0" using hdr_ready_length [OF h(1)] by simp
  let ?b = "buf_from_array (drop ?n ?c0)"
  have b: "buf_valid ?b" "buf_len ?b = aws_cryptosdk_private_authtag_len p" "length (take ?n ?c0) \<le> INT_MAX"
    using le h(3,4) by (simp_all add: buf_from_array_def buf_valid_def)
  obtain a where a: "aws_cryptosdk_sign_header (env_ssl V) p (se_content_key s) ?b (take ?n ?c0) = Some (None, a)"
    "buf_mem a = splice (buf_mem ?b) 0 ((if aws_cryptosdk_algorithm_is_committing (hdr_alg_id (se_header s)) then [] else replicate 12 0) @
       tg (suite_gcm p (se_content_key s) ZERO_IV) (take ?n ?c0) [])"
    using sign_header_spec [OF gcm pi b(3,1,2), of "se_content_key s"] ssl_ok by auto
  have len: "length (buf_mem a) = aws_cryptosdk_private_authtag_len p"
    using a(2) gcm_tag_length [OF gcm] alg_props_fields(2,3,8) [OF pi] le h(3)
    by (auto simp: buf_from_array_def aws_cryptosdk_private_authtag_len_def)
  note w = hdr_ready_authtag [OF h(1) len]
  have "authenticate_header V s = Some (None, s\<lparr>se_header_copy := Some (take ?n ?c0 @ buf_mem a), se_header := with_authtag p (se_header s) (buf_mem a)\<rparr>)"
    using authenticate_header_ends [OF p h(2) refl] a(1) h(2) p
    by (simp add: authenticate_header_def Let_def with_authtag_def)
  then show ?thesis
    using w h(3) len le
    by - (rule exI [of _ "take ?n ?c0 @ buf_mem a"], rule exI [of _ "with_authtag p (se_header s) (buf_mem a)"], simp)
qed

lemma session_sign_header_ok:
  assumes s: "se_state s = ST_GEN_KEY" "se_mode s = AWS_CRYPTOSDK_ENCRYPT" and p: "se_alg_props s = Some p"
    and h: "hdr_ready p (se_header s)" "length (hdr_bytes (se_header s)) \<le> INT_MAX"
  shows "\<exists>s'. session_sign_header V s = Some (None, s') \<and> se_header_size s' = length (hdr_bytes (se_header s))"
proof -
  define n where "n = length (hdr_bytes (se_header s))"
  note r = hdr_ready_placeholders [OF h(1)]
  have pi: "aws_cryptosdk_alg_props (hdr_alg_id (se_header s)) = Some p" using h(1) by (simp add: hdr_ready_def)
  have "aws_cryptosdk_hdr_size (env_lib V) (se_header s) = int n"
    unfolding n_def using h alg_props_fields(2,3) [OF pi] by (intro hdr_size_eq [OF aws_c_common_axioms _ pi]) (auto simp: hdr_ready_def)
  then have sz: "hdr_size_t (env_lib V) (se_header s) = n" using h(2) by (simp add: hdr_size_t_def unat_of_nat n_def)
  have n: "n \<noteq> 0" by (simp add: n_def hdr_bytes_def hdr_body_bytes_def hdr_start_bytes_def)
  obtain b where b: "lib_buf_init (env_lib V) n = Some b" "length (buf_mem b) = n" using buf_init_ok by blast
  let ?h1 = "hdr_placeholders (se_header s)"
  let ?s1 = "s\<lparr>se_header_size := n, se_header_copy := Some (buf_mem b), se_header := ?h1\<rparr>"
  have 1: "write_header_copy V ?s1 = (None, ?s1\<lparr>se_header_copy := Some (hdr_bytes ?h1)\<rparr>)"
    using write_header_copy_ok [of p ?s1 "buf_mem b"] r b n_def by simp
  let ?s2 = "?s1\<lparr>se_header_copy := Some (hdr_bytes ?h1)\<rparr>"
  obtain c1 h2 where 2: "authenticate_header V ?s2 = Some (None, ?s2\<lparr>se_header_copy := Some c1, se_header := h2\<rparr>)" "hdr_ready p h2"
      "length (hdr_bytes h2) = n" "length c1 = n"
    using authenticate_header_ok [of ?s2 p] p r h(2) n_def by auto
  let ?s3 = "?s2\<lparr>se_header_copy := Some c1, se_header := h2\<rparr>"
  have 3: "write_header_copy V ?s3 = (None, ?s3\<lparr>se_header_copy := Some (hdr_bytes h2)\<rparr>)"
    using write_header_copy_ok [of p ?s3 c1] 2(2-4) by simp
  let ?s4 = "?s3\<lparr>se_header_copy := Some (hdr_bytes h2)\<rparr>"
  have "\<exists>sc. sign_message_header V ?s4 = (None, ?s4\<lparr>se_signctx := sc\<rparr>)"
  proof (cases "se_signctx s")
    case None
    have "?s4 = ?s4\<lparr>se_signctx := None\<rparr>" using None by simp
    then show ?thesis using None unfolding sign_message_header_def by (intro exI [of _ None]) simp
  qed (simp add: sign_message_header_def sig_update_ok [OF ec_ok], blast)
  then obtain sc where 4: "sign_message_header V ?s4 = (None, ?s4\<lparr>se_signctx := sc\<rparr>)" by blast
  have 5: "aws_cryptosdk_priv_session_change_state (?s4\<lparr>se_signctx := sc, se_seqno := 1\<rparr>) ST_WRITE_HEADER =
      Some (?s4\<lparr>se_signctx := sc, se_seqno := 1, se_state := ST_WRITE_HEADER\<rparr>)"
    using s n by (subst change_state_ok) (auto simp: transition_ok_def)
  have "session_sign_header V s = Some (None, ?s4\<lparr>se_signctx := sc, se_seqno := 1, se_state := ST_WRITE_HEADER\<rparr>)"
    using sz n b 1 2(1) 3 4 5 unfolding session_sign_header_def Let_def and_then_def by (simp add: hdr_placeholders_def)
  then show ?thesis by (simp add: n_def)
qed

lemma derive_enc_key_ok:
  assumes p: "se_alg_props s = Some p" "aws_cryptosdk_alg_props i = Some p"
    and mid: "hdr_message_id (se_header s) = gen_buf mb" "length mb = aws_cryptosdk_private_algorithm_message_id_len p"
    and arr: "length (se_commitment_arr s) = 32" and sd: "hdr_alg_suite_data (se_header s) = buf_zero" and dk: "data_key_len p \<le> length dk"
    and pol: "aws_cryptosdk_commitment_policy_encrypt_must_include_commitment (se_policy s) = aws_cryptosdk_algorithm_is_committing i"
  shows "\<exists>k b a. derive_enc_key V s dk = (None, s\<lparr>se_content_key := k, se_header := (se_header s)\<lparr>hdr_alg_suite_data := b\<rparr>, se_commitment_arr := a\<rparr>) \<and>
    buf_valid b \<and> buf_len b = alg_suite_data_len p"
proof -
  note f = alg_props_fields [OF p(2)]
  let ?com = "if aws_cryptosdk_algorithm_is_committing i then buf_from_array (take (commitment_len p) (se_commitment_arr s)) else buf_zero"
  have com: "if aws_cryptosdk_algorithm_is_committing i then 32 \<le> buf_capacity ?com else buf_len ?com = 0"
    using f(10) arr by (simp add: buf_from_array_def)
  have m: "buf_valid (hdr_message_id (se_header s))" "buf_len (hdr_message_id (se_header s)) = aws_cryptosdk_private_algorithm_message_id_len p"
    using mid by simp_all
  have "fst (derive_enc_key V s dk) = None"
    using derive_key_eq [OF hkdf p(2) dk m com] p(1) pol sd
    by (cases "aws_cryptosdk_algorithm_is_committing i") (simp_all add: derive_enc_key_def Let_def)
  then obtain s' where s': "derive_enc_key V s dk = (None, s')" by (cases "derive_enc_key V s dk") simp
  from derive_enc_key_ends [OF p mid arr pol, of dk, unfolded s' ends_Some if_P [OF refl]]
  obtain k b a where "s' = s\<lparr>se_content_key := k, se_header := (se_header s)\<lparr>hdr_alg_suite_data := b\<rparr>, se_commitment_arr := a\<rparr>"
      "buf_len b = alg_suite_data_len p" "aws_cryptosdk_algorithm_is_committing i \<longrightarrow> buf_valid b"
      "\<not> aws_cryptosdk_algorithm_is_committing i \<longrightarrow> b = hdr_alg_suite_data (se_header s)" by blast
  moreover from this sd have "buf_valid b" by (cases "aws_cryptosdk_algorithm_is_committing i") (simp_all add: buf_valid_def)
  ultimately show ?thesis using s' by blast
qed

lemma build_header_ok:
  assumes p: "se_alg_props s = Some p" "aws_cryptosdk_alg_props i = Some p" and f: "se_frame_size s \<le> UINT32_MAX"
  shows "\<exists>tag. length tag = 16 \<and> build_header V s m = (None, s\<lparr>se_header := (se_header s)\<lparr>hdr_alg_id := i, hdr_frame_len := ucast (se_frame_size s),
         hdr_edk_list := em_encrypted_data_keys m, hdr_iv := gen_buf (replicate 12 0), hdr_auth_tag := gen_buf tag\<rparr>\<rparr>)"
proof -
  obtain b1 b2 where "lib_buf_init (env_lib V) (iv_len p) = Some b1" "lib_buf_init (env_lib V) (tag_len p) = Some b2" using buf_init_ok by metis
  then have "fst (build_header V s m) = None" using p(1) f by (simp add: build_header_def Let_def)
  then show ?thesis
    using build_header_ends [OF p(1), of m] alg_props_fields(1-3) [OF p(2)] by (cases "build_header V s m") auto
qed

lemmas message_id_len_def = aws_cryptosdk_private_algorithm_message_id_len_def

lemmas static_fields_len_def = aws_cryptosdk_header_version_static_fields_len_def

lemma try_gen_key_ok:
  assumes s: "se_state s = ST_GEN_KEY" "se_mode s = AWS_CRYPTOSDK_ENCRYPT" "length (se_commitment_arr s) = 32" "header_fresh (se_header s)"
      "hdr_alloc (se_header s)" "se_cmm s = Some c" "se_frame_size s \<le> UINT32_MAX"
    and g: "aws_cryptosdk_cmm_generate_enc_materials c (enc_request_of s) (se_draws s) = (Inr m, ctx, d)" "enc_ctx_fits ctx"
      "aws_cryptosdk_priv_algorithm_allowed_for_encrypt (em_alg m) (se_policy s)" "se_max_edks s = 0 \<or> length (em_encrypted_data_keys m) \<le> se_max_edks s"
      "header_room m \<le> INT_MAX"
  shows "\<exists>s'. aws_cryptosdk_priv_try_gen_key V s = Some (None, s') \<and> keys_generated V hmac s s' \<and> se_header_size s' \<le> header_room m"
proof -
  have rq: "hash_valid (er_enc_ctx (enc_request_of s))" using s(4) by (simp add: enc_request_of_def header_fresh_def)
  obtain p where p: "aws_cryptosdk_alg_props (em_alg m) = Some p" and gen: "hash_valid ctx" "em_encrypted_data_keys m \<noteq> []"
      "list_all aws_cryptosdk_edk_is_valid (em_encrypted_data_keys m)" "length (dk_contents (em_unencrypted_data_key m)) = data_key_len p"
      "dk_len (em_unencrypted_data_key m) = data_key_len p" "em_signctx m = None \<longleftrightarrow> signature_len p = 0"
    using generated [OF rq g(1,2)] by (elim conjE exE) (rule that, assumption+)
  note pol = allowed_for_encrypt_commits [OF g(3)]
  obtain st tr sr where tr: "aws_cryptosdk_transfer_list (env_lib V) (se_trace s) (em_keyring_trace m) = (st, tr, sr)" by (metis prod_cases3)
  define s2 where "s2 = s\<lparr>se_header := (se_header s)\<lparr>hdr_enc_ctx := ctx\<rparr>, se_draws := d, se_alg_props := Some p\<rparr>"
  define s3 where "s3 = s2\<lparr>se_signctx := em_signctx m, se_trace := tr, se_cmm_success := True\<rparr>"
  have 1: "check_enc_materials s2 m = None"
    using g(3,4) gen by (auto simp: check_enc_materials_def s2_def)
  obtain mid where 2: "length mid = aws_cryptosdk_private_algorithm_message_id_len p"
      "gen_message_id V s3 = (None, s3\<lparr>se_draws := Suc (se_draws s3), se_header := (se_header s3)\<lparr>hdr_message_id := gen_buf mid\<rparr>\<rparr>)" (is "_ = (None, ?s4)")
    using gen_message_id_ok [of s3 p] by (auto simp: s3_def s2_def)
  have s4: "se_alg_props ?s4 = Some p" "hdr_message_id (se_header ?s4) = gen_buf mid" "length (se_commitment_arr ?s4) = 32"
      "hdr_alg_suite_data (se_header ?s4) = buf_zero" "data_key_len p \<le> length (dk_contents (em_unencrypted_data_key m))"
      "aws_cryptosdk_commitment_policy_encrypt_must_include_commitment (se_policy ?s4) = aws_cryptosdk_algorithm_is_committing (em_alg m)"
    using s(3,4) gen(4) pol by (simp_all add: s3_def s2_def header_fresh_def)
  obtain k b a where 3: "derive_enc_key V ?s4 (dk_contents (em_unencrypted_data_key m)) =
        (None, ?s4\<lparr>se_content_key := k, se_header := (se_header ?s4)\<lparr>hdr_alg_suite_data := b\<rparr>, se_commitment_arr := a\<rparr>)" (is "_ = (None, ?s5)")
      "buf_valid b" "buf_len b = alg_suite_data_len p"
    using derive_enc_key_ok [OF s4(1) p s4(2) 2(1) s4(3-6)] by blast
  have s5: "se_alg_props ?s5 = Some p" "se_frame_size ?s5 \<le> UINT32_MAX" using s(7) by (simp_all add: s3_def s2_def)
  obtain tag where 4: "length tag = 16" "build_header V ?s5 m = (None, ?s5\<lparr>se_header := (se_header ?s5)\<lparr>hdr_alg_id := em_alg m, hdr_frame_len := ucast (se_frame_size ?s5),
         hdr_edk_list := em_encrypted_data_keys m, hdr_iv := gen_buf (replicate 12 0), hdr_auth_tag := gen_buf tag\<rparr>\<rparr>)" (is "_ = (None, ?s6)")
    using build_header_ok [OF s5(1) p s5(2)] by blast
  have s6: "se_state ?s6 = ST_GEN_KEY" "se_mode ?s6 = AWS_CRYPTOSDK_ENCRYPT" "se_alg_props ?s6 = Some p" using s by (simp_all add: s3_def s2_def)
  have h: "hdr_ready p (se_header ?s6)"
    using 3(2) 4(1) gen(1,3) g(2) p s(5) by (auto simp: hdr_ready_def aws_cryptosdk_hdr_is_valid_def s3_def s2_def edks_valid_iff)
  have len: "length (hdr_bytes (se_header ?s6)) \<le> header_room m"
    using hdr_ready_length [OF h] 2(1) 3(3) g(2) alg_props_fields(2,3,8,9) [OF p]
    by (simp add: header_room_def enc_ctx_fits_def s3_def s2_def aws_cryptosdk_private_authtag_len_def message_id_len_def static_fields_len_def split: if_splits)
  obtain s' where 5: "session_sign_header V ?s6 = Some (None, s')" "se_header_size s' = length (hdr_bytes (se_header ?s6))"
    using session_sign_header_ok [OF s6 h] len g(5) by auto
  have e: "aws_cryptosdk_priv_try_gen_key V s = (case check_enc_materials s2 m of Some x \<Rightarrow> Some (Some x, s2)
      | None \<Rightarrow> and_then (Some (gen_message_id V s3)) (\<lambda>s. and_then (Some (derive_enc_key V s (dk_contents (em_unencrypted_data_key m)))) (\<lambda>s.
           and_then (Some (build_header V s m)) (\<lambda>s. session_sign_header V s))))"
    using g(1) s(6) tr p by (simp add: aws_cryptosdk_priv_try_gen_key_def Let_def enc_request_of_def s2_def s3_def and_then_def split: option.split)
  have "aws_cryptosdk_priv_try_gen_key V s = Some (None, s')"
    unfolding e 1 option.case 2(2) and_then_None 3(1) 4(2) by (rule 5(1))
  then show ?thesis using try_gen_key_ends [OF s(1-3)] 5(2) len by simp
qed

section \<open>Frames\<close>

lemma frame_encrypted_ok:
  assumes s: "se_state s = ST_ENCRYPT_BODY" and o: "buf_mem out = splice (buf_mem b) (buf_len b) fb" "buf_len out = buf_len b + length fb" "fits b (length fb)"
  shows "\<exists>s'. frame_encrypted V s b out i j n ty = Some (None, s', out, j)"
proof -
  have "fst (the (frame_encrypted V s b out i j n ty)) = None"
    using s by (cases "se_signctx s") (auto simp: frame_encrypted_def Let_def sig_update_ok [OF ec_ok] change_state_ok transition_ok_def)
  then show ?thesis using frame_encrypted_ends [OF s o, where i = i and j = j and n = n and ty = ty] by (auto simp: ends_def split: option.splits)
qed

lemma try_encrypt_body_ok:
  assumes s: "se_state s = ST_ENCRYPT_BODY" "se_alg_props s = Some p" "aws_cryptosdk_alg_props k = Some p" "se_frame_size s \<le> UINT32_MAX"
      "buf_len (hdr_message_id (se_header s)) \<le> 32" "se_seqno s \<noteq> 0" "se_seqno s \<le> UINT32_MAX" and b: "fits b (frame_size ty p (unat n))"
    and nf: "next_frame s = Some (n, ty)" "frame_writable (frame_zero\<lparr>frame_ty := ty, sequence_number := ucast (se_seqno s)\<rparr>) n" "unat n \<le> cur_len i"
  shows "\<exists>s' b'. aws_cryptosdk_priv_try_encrypt_body V s b i = Some (None, s', b', advanced i (unat n)) \<and>
    next_sealed ks tg s b i (s', b', advanced i (unat n)) \<and> buf_len b' = buf_len b + frame_size ty p (unat n) \<and> buf_capacity b' = buf_capacity b"
proof -
  let ?fb = "frame_sealing ks tg p (se_content_key s) (hdr_message_id (se_header s)) ty (frame_number s ty) (take (unat n) (cur_data i))"
  have v: "buf_valid b" by (rule fits_valid [OF b])
  obtain cs and st :: status and out where e: "aws_cryptosdk_priv_try_encrypt_body V s b i =
      (if st \<noteq> None then Some (Some AWS_CRYPTOSDK_ERR_CRYPTO_UNKNOWN, s\<lparr>se_out_est := cs, se_in_est := n\<rparr>, lib_secure_zero (env_lib V) (b\<lparr>buf_mem := buf_mem out\<rparr>), i)
       else frame_encrypted V (s\<lparr>se_out_est := cs, se_in_est := n\<rparr>) b out i (advanced i (unat n)) n ty)"
    "buf_capacity out = buf_capacity b" "buf_len out = buf_len b + length ?fb" "fits b (length ?fb)"
    "st = None \<Longrightarrow> buf_mem out = buf_mem (written b ?fb)" "st = None"
    using try_encrypt_body_laid [OF s(2,3,5,6) v nf(1) s(7) nf(2) b nf(3)] ssl_ok by metis
  have fl: "length ?fb = frame_size ty p (unat n)"
    using nf(3) alg_props_fields(2,3) [OF s(3)] frame_iv_bytes_length [of p] gcm_tag_length [OF gcm]
    by (simp add: frame_sealing_def Let_def length_frame_bytes frame_tag_def)
  have o: "buf_mem out = splice (buf_mem b) (buf_len b) ?fb" using e(5,6) by (simp add: written_def)
  have st: "se_state (s\<lparr>se_out_est := cs, se_in_est := n\<rparr>) = ST_ENCRYPT_BODY" using s(1) by simp
  obtain s' where r: "aws_cryptosdk_priv_try_encrypt_body V s b i = Some (None, s', out, advanced i (unat n))"
    using frame_encrypted_ok [OF st o e(3,4), where i = i and j = "advanced i (unat n)" and n = n and ty = ty] e(1,6) by auto
  have "0 < frame_size ty p (unat n)" using alg_props_fields(3) [OF s(3)] by (simp add: frame_size_def)
  then have "next_sealed ks tg s b i (s', out, advanced i (unat n))"
    using try_encrypt_body_ends [OF s(1-6) v, of i] r e(3) fl by auto
  then show ?thesis using r e(2,3) fl by auto
qed


lemma loop_seal:
  assumes "session_step V s (remaining_space out) i = Some (None, s', sp, advanced i n)" "buf_len sp \<noteq> 0" "buf_capacity sp = buf_capacity (remaining_space out)"
    "buf_valid out" "buf_len sp + k \<le> buf_capacity (remaining_space out)"
  shows "\<exists>out'. process_loop V s out i = process_loop V s' out' (advanced i n) \<and> fits out' k \<and> buf_len out' = buf_len out + buf_len sp \<and> buf_capacity out' = buf_capacity out"
proof -
  have "process_loop V s out i = process_loop V s' (put_back out sp) (advanced i n)"
    using assms(1,2) by (subst process_loop.simps) (simp add: Let_def)
  moreover have "buf_capacity (put_back out sp) = buf_capacity out"
    using assms(3,4) by (simp add: put_back_def remaining_space_def buf_from_empty_array_def buf_valid_def splice_def)
  ultimately show ?thesis
    using assms(3-5) by (intro exI [of _ "put_back out sp"]) (auto simp: put_back_def remaining_space_def buf_from_empty_array_def buf_valid_def fits_def)
qed

text \<open>The next frame of an input that is known to be all that is left.\<close>

lemma next_frame_rest:
  assumes "se_precise_size_known s" "se_precise_size s - se_data_so_far s = word_of_nat N" "N < 2 ^ 64"
    "se_frame_size s = 0 \<Longrightarrow> se_data_so_far s = 0 \<and> N < unat MAX_UNFRAMED_PLAINTEXT_SIZE" "se_frame_size s \<le> UINT32_MAX"
    "unat (se_seqno s) + N div unat (se_frame_size s) \<le> 0xFFFFFFFF" "aws_cryptosdk_alg_props j = Some p"
  obtains n ty where "next_frame s = Some (n, ty)" "frame_writable (frame_zero\<lparr>frame_ty := ty, sequence_number := ucast (se_seqno s)\<rparr>) n"
    "unat n \<le> N" "frame_size ty p (unat n) \<le> unat n + 40"
    "if ty = FRAME_TYPE_FRAME then n = se_frame_size s \<and> se_frame_size s \<noteq> 0 else unat n = N"
proof -
  have u: "unat (word_of_nat N :: uint64) = N" using assms(3) by (simp only: unat_of_nat) simp
  have fs: "frame_size ty p m \<le> m + 40" for ty m using alg_props_fields(2,3) [OF assms(7)] by (cases ty) (simp_all add: frame_size_def)
  consider "se_frame_size s = 0" | "se_frame_size s \<noteq> 0" "N < unat (se_frame_size s)" | "se_frame_size s \<noteq> 0" "unat (se_frame_size s) \<le> N" by linarith
  then show thesis
  proof cases
    case 1
    then have "se_precise_size s = word_of_nat N" using assms(2,4) by simp
    then show thesis
      using 1 assms(1,4) u fs [of FRAME_TYPE_SINGLE N]
      by (intro that [of "word_of_nat N" FRAME_TYPE_SINGLE]) (simp_all add: next_frame_def frame_writable_def word_less_nat_alt)
  next
    case 2
    then have "(word_of_nat N :: uint64) < se_frame_size s" using u by (simp add: word_less_nat_alt)
    then show thesis
      using 2 assms(1,2,5) u fs [of FRAME_TYPE_FINAL N]
      by (intro that [of "word_of_nat N" FRAME_TYPE_FINAL]) (simp_all add: next_frame_def frame_writable_def word_le_nat_alt)
  next
    case 3
    have l: "\<not> (word_of_nat N :: uint64) < se_frame_size s" using 3 u by (simp add: word_less_nat_alt)
    have z: "0 < unat (se_frame_size s)" using 3(1) by (simp add: unat_gt_0)
    then have "1 \<le> N div unat (se_frame_size s)" using 3(2) by (simp add: Suc_le_eq div_greater_zero_iff)
    then have q: "unat (se_seqno s) < 0xFFFFFFFF" using assms(6) by linarith
    then have "unat (ucast (se_seqno s) :: uint32) = unat (se_seqno s)" by (intro unat_ucast_64_32) (simp add: word_le_nat_alt)
    then have "(ucast (se_seqno s) :: uint32) \<noteq> LAST_FRAME_MARK" using q by auto
    then show thesis
      using 3 l assms(1,2,5) fs [of FRAME_TYPE_FRAME "unat (se_frame_size s)"]
      by (intro that [of "se_frame_size s" FRAME_TYPE_FRAME]) (simp_all add: next_frame_def frame_writable_def)
  qed
qed

lemma next_sealed_state:
  assumes f: "next_sealed ks tg s b i (s', b', j)" "next_frame s = Some (n, ty)"
  obtains x y fb where "s' = s\<lparr>se_out_est := x, se_in_est := y, se_data_so_far := se_data_so_far s + n, se_seqno := se_seqno s + 1,
            se_signctx := map_option (\<lambda>c. c\<lparr>sc_data := sc_data c @ fb\<rparr>) (se_signctx s),
            se_state := (if ty = FRAME_TYPE_FRAME then ST_ENCRYPT_BODY else ST_WRITE_TRAILER)\<rparr>"
proof -
  obtain ty' n' fb x y where e: "next_frame s = Some (n', ty')"
      "s' = s\<lparr>se_out_est := x, se_in_est := y, se_data_so_far := se_data_so_far s + n', se_seqno := se_seqno s + 1,
            se_signctx := map_option (\<lambda>c. c\<lparr>sc_data := sc_data c @ fb\<rparr>) (se_signctx s),
            se_state := (if ty' = FRAME_TYPE_FRAME then ST_ENCRYPT_BODY else ST_WRITE_TRAILER)\<rparr>"
    using f(1) [unfolded next_sealed_def prod.case] by (elim exE conjE) (rule that, assumption+)
  have "n' = n" "ty' = ty" using e(1) f(2) by simp_all
  then show thesis using that e(2) by blast
qed

lemma body_seals:
  assumes "se_state s = ST_ENCRYPT_BODY" "session_ok V s" "se_precise_size_known s"
    "se_precise_size s - se_data_so_far s = word_of_nat (cur_len i)" "cur_len i < 2 ^ 64"
    "se_frame_size s = 0 \<Longrightarrow> se_data_so_far s = 0 \<and> cur_len i < unat MAX_UNFRAMED_PLAINTEXT_SIZE"
    "unat (se_seqno s) + cur_len i div unat (se_frame_size s) \<le> 0xFFFFFFFF" "fits out (body_room (unat (se_frame_size s)) (cur_len i) + k)"
  shows "\<exists>out' x y z n sc. process_loop V s out i =
      process_loop V (s\<lparr>se_out_est := x, se_in_est := y, se_data_so_far := z, se_seqno := n, se_signctx := sc, se_state := ST_WRITE_TRAILER\<rparr>) out' (advanced i (cur_len i)) \<and>
    fits out' k \<and> session_ok V (s\<lparr>se_out_est := x, se_in_est := y, se_data_so_far := z, se_seqno := n, se_signctx := sc, se_state := ST_WRITE_TRAILER\<rparr>) \<and>
    (\<forall>c. sc = Some c \<longrightarrow> (\<exists>c0 d. se_signctx s = Some c0 \<and> c = c0\<lparr>sc_data := d\<rparr>))"
  using assms
proof (induction "cur_len i" arbitrary: s out i rule: less_induct)
  case less
  let ?N = "cur_len i" and ?f = "unat (se_frame_size s)"
  obtain j p where p: "se_alg_props s = Some p" "aws_cryptosdk_alg_props j = Some p" "se_seqno s \<noteq> 0" "buf_len (hdr_message_id (se_header s)) \<le> 32"
      "se_frame_size s \<le> UINT32_MAX"
    using less.prems(1,2) by (auto simp: session_ok_def suite_ready_def)
  obtain n ty where nf: "next_frame s = Some (n, ty)" "frame_writable (frame_zero\<lparr>frame_ty := ty, sequence_number := ucast (se_seqno s)\<rparr>) n"
      "unat n \<le> ?N" "frame_size ty p (unat n) \<le> unat n + 40"
      "if ty = FRAME_TYPE_FRAME then n = se_frame_size s \<and> se_frame_size s \<noteq> 0 else unat n = ?N"
    using next_frame_rest [OF less.prems(3-6) p(5) less.prems(7) p(2)] .
  have q: "se_seqno s \<le> UINT32_MAX" using less.prems(7) by (simp add: word_le_nat_alt)
  define k' where "k' = (if ty = FRAME_TYPE_FRAME then body_room ?f (?N - ?f) + k else k)"
  have f0: "ty = FRAME_TYPE_FRAME \<Longrightarrow> 0 < ?f" using nf(5) by (auto simp: unat_gt_0)
  have room: "frame_size ty p (unat n) + k' \<le> body_room ?f ?N + k"
    using nf(3-5) f0 body_room_step [of ?f ?N] by (auto simp: k'_def body_room_def split: if_splits)
  have v: "buf_valid out" by (rule fits_valid [OF less.prems(8)])
  have cap: "body_room ?f ?N + k \<le> buf_capacity (remaining_space out)" "buf_len (remaining_space out) = 0"
    using less.prems(8) by (simp_all add: remaining_space_def buf_from_empty_array_def fits_def)
  have b: "fits (remaining_space out) (frame_size ty p (unat n))" using cap room by (simp add: fits_def)
  obtain s' sp where t: "aws_cryptosdk_priv_try_encrypt_body V s (remaining_space out) i = Some (None, s', sp, advanced i (unat n))"
      "next_sealed ks tg s (remaining_space out) i (s', sp, advanced i (unat n))" "buf_len sp = frame_size ty p (unat n)"
      "buf_capacity sp = buf_capacity (remaining_space out)"
    using try_encrypt_body_ok [OF less.prems(1) p(1,2,5,4,3) q b nf(1-3)] cap(2) by auto
  have "frame_size ty p (unat n) \<noteq> 0" using alg_props_fields(3) [OF p(2)] by (simp add: frame_size_def)
  then obtain out' where l: "process_loop V s out i = process_loop V s' out' (advanced i (unat n))" "fits out' k'"
    using loop_seal [of s out i s' sp "unat n" k'] t room cap(1) v less.prems(1) by (auto simp: session_step_def)
  obtain x y fb where s': "s' = s\<lparr>se_out_est := x, se_in_est := y, se_data_so_far := se_data_so_far s + n, se_seqno := se_seqno s + 1,
            se_signctx := map_option (\<lambda>c. c\<lparr>sc_data := sc_data c @ fb\<rparr>) (se_signctx s),
            se_state := (if ty = FRAME_TYPE_FRAME then ST_ENCRYPT_BODY else ST_WRITE_TRAILER)\<rparr>"
    using next_sealed_state [OF t(2) nf(1)] .
  have "step_effect V ks tg hmac s (remaining_space out) i (s', sp, advanced i (unat n))" using t(2) less.prems(1) by (simp add: step_effect_def)
  moreover have "buf_valid (remaining_space out)" by (rule fits_valid [OF b])
  ultimately have ok: "session_ok V s'" using step_effect_keeps [OF less.prems(2)] by blast
  show ?case
  proof (cases "ty = FRAME_TYPE_FRAME")
    case False
    then show ?thesis using l s' ok nf(5) by - (rule exI [of _ out'], rule exI [of _ x], rule exI [of _ y], rule exI [of _ "se_data_so_far s + n"], rule exI [of _ "se_seqno s + 1"], rule exI [of _ "map_option (\<lambda>c. c\<lparr>sc_data := sc_data c @ fb\<rparr>) (se_signctx s)"], auto simp: k'_def)
  next
    case True
    then have n: "n = se_frame_size s" "se_frame_size s \<noteq> 0" "0 < ?f" "?f \<le> ?N" using nf(3,5) f0 by auto
    have i': "cur_len (advanced i ?f) = ?N - ?f" by simp
    have w: "unat (se_seqno s + 1) = unat (se_seqno s) + 1" using q by (auto simp: word_le_nat_alt unat_word_ariths)
    have d: "(?N - ?f) div ?f + 1 = ?N div ?f" using n(3,4) by (simp add: le_div_geq)
    have e: "word_of_nat (?N - ?f) = (word_of_nat ?N - se_frame_size s :: uint64)" using n(4) by (simp add: of_nat_diff)
    have "\<exists>out'' x y z n sc. process_loop V s' out' (advanced i ?f) =
      process_loop V (s'\<lparr>se_out_est := x, se_in_est := y, se_data_so_far := z, se_seqno := n, se_signctx := sc, se_state := ST_WRITE_TRAILER\<rparr>) out'' (advanced (advanced i ?f) (cur_len (advanced i ?f))) \<and>
      fits out'' k \<and> session_ok V (s'\<lparr>se_out_est := x, se_in_est := y, se_data_so_far := z, se_seqno := n, se_signctx := sc, se_state := ST_WRITE_TRAILER\<rparr>) \<and>
      (\<forall>c. sc = Some c \<longrightarrow> (\<exists>c0 d. se_signctx s' = Some c0 \<and> c = c0\<lparr>sc_data := d\<rparr>))"
      by (rule less.hyps [of "advanced i ?f" s' out']) (use n ok True less.prems l(2) w d e i' in \<open>simp_all add: s' k'_def diff_diff_add [symmetric]\<close>)
    then obtain out'' x' y' z' n' sc where r: "process_loop V s' out' (advanced i ?f) =
      process_loop V (s'\<lparr>se_out_est := x', se_in_est := y', se_data_so_far := z', se_seqno := n', se_signctx := sc, se_state := ST_WRITE_TRAILER\<rparr>) out'' (advanced (advanced i ?f) (cur_len (advanced i ?f)))"
      "fits out'' k" "session_ok V (s'\<lparr>se_out_est := x', se_in_est := y', se_data_so_far := z', se_seqno := n', se_signctx := sc, se_state := ST_WRITE_TRAILER\<rparr>)"
      "\<forall>c. sc = Some c \<longrightarrow> (\<exists>c0 d. se_signctx s' = Some c0 \<and> c = c0\<lparr>sc_data := d\<rparr>)" by blast
    have eq: "s'\<lparr>se_out_est := x', se_in_est := y', se_data_so_far := z', se_seqno := n', se_signctx := sc, se_state := ST_WRITE_TRAILER\<rparr> =
        s\<lparr>se_out_est := x', se_in_est := y', se_data_so_far := z', se_seqno := n', se_signctx := sc, se_state := ST_WRITE_TRAILER\<rparr>"
      by (simp add: s')
    have sc: "\<forall>c. sc = Some c \<longrightarrow> (\<exists>c0 d. se_signctx s = Some c0 \<and> c = c0\<lparr>sc_data := d\<rparr>)"
      using r(4) unfolding s' by (cases "se_signctx s") auto
    have "process_loop V s out i = process_loop V (s\<lparr>se_out_est := x', se_in_est := y', se_data_so_far := z', se_seqno := n', se_signctx := sc, se_state := ST_WRITE_TRAILER\<rparr>) out'' (advanced i ?N)"
      using l(1) r(1) n(1,4) unfolding eq by simp
    then show ?thesis using r(2,3) sc unfolding eq by blast
  qed
qed

section \<open>The trailer\<close>

lemma sign_finish_good:
  assumes "sig_good (env_ec V) x"
  shows "\<exists>sig d'. aws_cryptosdk_sig_sign_finish (env_lib V) (env_ec V) d x = Some (Inr sig, d')"
proof -
  obtain dg where dg: "ec_digest_final (env_ec V) (sc_md x) (sc_data x) = Some dg" using ec_spec by (simp add: ec_spec_def)
  obtain k where "\<And>j. j < k \<Longrightarrow> \<exists>s. sign_once (env_ec V) x dg (d + j) = Inr s"
      "\<exists>s. sign_once (env_ec V) x dg (d + k) = Inr s \<and> length s = signature_len (sc_props x)"
    using assms unfolding sig_good_def by metis
  then obtain sig d' where l: "sign_loop (env_ec V) x dg d [] = Some (Inr sig, d')" using sign_loop_returns by blast
  obtain n where n: "ec_sign_size (env_ec V) (ek_group (sc_keypair x)) = Some n" "ec_pkey_ctx_new (env_ec V)" "ec_sign_init (env_ec V)"
    using ec_ok unfolding ec_ok_def by blast
  obtain b where b: "lib_buf_init (env_lib V) n = Some b" using buf_init_ok by blast
  show ?thesis
    using assms dg l n b acquire_ok by (simp add: aws_cryptosdk_sig_sign_finish_def sig_good_def aws_string_new_from_array_def)
qed

lemma write_trailer_ok:
  assumes s: "se_state s = ST_WRITE_TRAILER" "session_ok V s" and x: "\<And>x. se_signctx s = Some x \<Longrightarrow> sig_good (env_ec V) x" and b: "fits b 105"
  shows "\<exists>s' bs. aws_cryptosdk_priv_write_trailer V s b = Some (None, s', written b bs) \<and> se_state s' = ST_DONE \<and>
    se_header_size s' = se_header_size s \<and> length bs \<le> 105"
proof -
  obtain i p where p: "se_alg_props s = Some p" "aws_cryptosdk_alg_props i = Some p" "se_signctx s = None \<longleftrightarrow> signature_len p = 0"
    using s by (auto simp: session_ok_def suite_ready_def)
  note e = aws_cryptosdk_priv_write_trailer_def [of V s b]
  have v: "buf_valid b" by (rule fits_valid [OF b])
  show ?thesis
  proof (cases "se_signctx s")
    case None
    then show ?thesis using e p s(1) b by (intro exI [of _ "s\<lparr>se_in_est := 0, se_out_est := 0, se_state := ST_DONE\<rparr>"] exI [of _ "[]"]) (simp add: Let_def change_state_ok transition_ok_def)
  next
    case (Some x)
    obtain sig d where f: "aws_cryptosdk_sig_sign_finish (env_lib V) (env_ec V) (se_draws s) x = Some (Inr sig, d)" using sign_finish_good [OF assms(3) [OF Some]] by blast
    have l: "length sig \<le> 103"
      using sign_finish_len [OF f] ec_spec assms(3) [OF Some] by (simp add: ec_spec_def sig_good_def)
    have m: "signature_len p \<le> 103" using alg_props_fields(6) [OF p(2)] by auto
    let ?l = "be_bytes 2 (word_of_nat (length sig) :: 16 word)" and ?s = "s\<lparr>se_in_est := 0, se_out_est := 0, se_signctx := None, se_draws := d\<rparr>"
    have "\<not> buf_capacity b - buf_len b < 2 + signature_len p" using b m by (simp add: fits_def)
    moreover have w: "fits b 2" "fits (written b ?l) (length sig)" using b l by (auto simp: fits_def written_def)
    ultimately have "aws_cryptosdk_priv_write_trailer V s b = Some (None, ?s\<lparr>se_state := ST_DONE\<rparr>, written (written b ?l) sig)"
      using e p Some f v s(1) by (simp add: Let_def write_be16 buf_write change_state_ok transition_ok_def)
    then show ?thesis using w l by (intro exI [of _ "?s\<lparr>se_state := ST_DONE\<rparr>"] exI [of _ "?l @ sig"]) (simp add: written_written)
  qed
qed

lemma trailer_seals:
  assumes s: "se_state s = ST_WRITE_TRAILER" "session_ok V s" and x: "\<And>x. se_signctx s = Some x \<Longrightarrow> sig_good (env_ec V) x" and out: "fits out 105"
  shows "\<exists>s' out'. process_loop V s out i = Some (None, s', out', i) \<and> se_state s' = ST_DONE \<and> se_header_size s' = se_header_size s"
proof -
  have r: "fits (remaining_space out) 105" using out by (simp add: remaining_space_def buf_from_empty_array_def fits_def)
  obtain s' bs where t: "aws_cryptosdk_priv_write_trailer V s (remaining_space out) = Some (None, s', written (remaining_space out) bs)" "se_state s' = ST_DONE"
      "length bs \<le> 105" "se_header_size s' = se_header_size s" using write_trailer_ok [OF s x r] by blast
  have f: "fits out (length bs)" using t(3) out by (simp add: fits_def)
  have "process_loop V s out i = process_loop V s' (written out bs) (advanced i 0)"
    using t s(1) f by (intro loop_next) (simp_all add: session_step_def)
  moreover have "buf_valid (written out bs)" using f by (auto simp: fits_def written_def buf_valid_def)
  ultimately show ?thesis using loop_done [OF t(2)] t(2,4) by auto
qed

section \<open>Whole messages\<close>

lemma keys_generated_signctx:
  assumes "keys_generated V hmac s s'" "aws_cryptosdk_cmm_generate_enc_materials (the (se_cmm s)) (enc_request_of s) (se_draws s) = (Inr m, ctx, d)"
  shows "se_state s' = ST_WRITE_HEADER \<and> se_seqno s' = 1 \<and> se_data_so_far s' = se_data_so_far s \<and> se_frame_size s' = se_frame_size s \<and>
    se_precise_size s' = se_precise_size s \<and> se_precise_size_known s' = se_precise_size_known s \<and>
    (\<exists>hc. se_header_copy s' = Some hc) \<and> (\<exists>x. se_signctx s' = map_option (\<lambda>sc. sc\<lparr>sc_data := sc_data sc @ x\<rparr>) (em_signctx m))"
proof -
  obtain m' ctx' d' p mid sd tag a tr k n h hc where g: "aws_cryptosdk_cmm_generate_enc_materials (the (se_cmm s)) (enc_request_of s) (se_draws s) = (Inr m', ctx', d')"
    and e: "let s1 = s\<lparr>se_draws := Suc d', se_alg_props := Some p, se_signctx := em_signctx m', se_trace := tr, se_cmm_success := True,
            se_content_key := k, se_commitment_arr := a,
            se_header := (se_header s)\<lparr>hdr_enc_ctx := ctx', hdr_message_id := gen_buf mid, hdr_alg_suite_data := sd, hdr_alg_id := em_alg m',
              hdr_frame_len := ucast (se_frame_size s), hdr_edk_list := em_encrypted_data_keys m',
              hdr_iv := gen_buf (replicate 12 0), hdr_auth_tag := gen_buf tag\<rparr>\<rparr>
      in header_signed V s1 p n h hc \<and> hdr_alloc h = hdr_alloc (se_header s) \<and>
         s' = s1\<lparr>se_header_size := n, se_header_copy := Some hc, se_header := h,
           se_signctx := map_option (\<lambda>sc. sc\<lparr>sc_data := sc_data sc @ take n hc\<rparr>) (em_signctx m'), se_seqno := 1, se_state := ST_WRITE_HEADER\<rparr>"
    using assms(1) unfolding keys_generated_def by (elim exE conjE) (rule that, assumption+)
  have "m' = m" using g assms(2) by simp
  with e [unfolded Let_def] show ?thesis by auto
qed

lemma header_seals:
  assumes s: "session_ok V s" "se_state s = ST_WRITE_HEADER" "se_header_copy s = Some hc" and out: "fits out (se_header_size s + k)"
  shows "\<exists>x out'. process_loop V s out i = process_loop V (s\<lparr>se_out_est := x, se_state := ST_ENCRYPT_BODY\<rparr>) out' i \<and> fits out' k \<and>
    session_ok V (s\<lparr>se_out_est := x, se_state := ST_ENCRYPT_BODY\<rparr>)"
proof -
  let ?hb = "take (se_header_size s) hc" and ?b = "remaining_space out"
  have r: "fits ?b (length ?hb)" "fits out (length ?hb)" "buf_valid ?b" using out by (auto simp: remaining_space_def buf_from_empty_array_def fits_def buf_valid_def)
  have a: "se_alg_props s \<noteq> None" "se_seqno s \<noteq> 0" using s(1,2) by (auto simp: session_ok_def suite_ready_def)
  have "\<exists>x. aws_cryptosdk_priv_try_write_header V s ?b = Some (None, s\<lparr>se_out_est := x, se_state := ST_ENCRYPT_BODY\<rparr>, written ?b ?hb)"
    using s(2,3) a r buf_write [OF r(3), of ?hb] by (auto simp: aws_cryptosdk_priv_try_write_header_def Let_def change_state_ok transition_ok_def fits_def)
  then obtain x where w: "aws_cryptosdk_priv_try_write_header V s ?b = Some (None, s\<lparr>se_out_est := x, se_state := ST_ENCRYPT_BODY\<rparr>, written ?b ?hb)" ..
  let ?s = "s\<lparr>se_out_est := x, se_state := ST_ENCRYPT_BODY\<rparr>"
  have "process_loop V s out i = process_loop V ?s (written out ?hb) (advanced i 0)"
    using w s(2) r(2) by (intro loop_next) (simp_all add: session_step_def)
  moreover have "session_ok V ?s" using s(1,2) by (auto simp: session_ok_def suite_ready_def)
  moreover have "fits (written out ?hb) k" using out r(2) by (auto simp: fits_def written_def)
  ultimately show ?thesis by auto
qed

lemma start_seals:
  assumes s: "session_ok V s" "se_state s = ST_CONFIG" "se_mode s = AWS_CRYPTOSDK_ENCRYPT" "se_cmm s = Some c"
      "aws_cryptosdk_commitment_policy_is_valid (se_policy s)" "se_frame_size s \<le> UINT32_MAX"
    and g: "aws_cryptosdk_cmm_generate_enc_materials c (enc_request_of s) (se_draws s) = (Inr m, ctx, d)" "usable_materials (env_ec V) s m ctx" and out: "buf_valid out"
  shows "\<exists>s'. process_loop V s out i = process_loop V s' out i \<and> session_ok V s' \<and> se_header_size s' \<le> header_room m \<and>
    se_state s' = ST_WRITE_HEADER \<and> se_seqno s' = 1 \<and> se_data_so_far s' = 0 \<and> se_frame_size s' = se_frame_size s \<and>
    se_precise_size s' = se_precise_size s \<and> se_precise_size_known s' = se_precise_size_known s \<and>
    (\<exists>hc. se_header_copy s' = Some hc) \<and> (\<exists>x. se_signctx s' = map_option (\<lambda>sc. sc\<lparr>sc_data := sc_data sc @ x\<rparr>) (em_signctx m))"
proof -
  let ?s1 = "s\<lparr>se_state := ST_GEN_KEY\<rparr>" and ?b = "remaining_space out"
  have r: "fits ?b 0" "fits out 0" "buf_valid ?b" using out by (auto simp: remaining_space_def buf_from_empty_array_def fits_def buf_valid_def)
  have o: "session_ok V ?s1" "length (se_commitment_arr s) = 32" "header_fresh (se_header s)" "hdr_alloc (se_header s)" "se_data_so_far s = 0"
    using s by (simp_all add: session_ok_def)
  have "session_step V s ?b i = Some (None, ?s1, written ?b [], advanced i 0)"
    using s r by (simp add: session_step_def change_state_ok transition_ok_def)
  from loop_next [OF this] have l1: "process_loop V s out i = process_loop V ?s1 out i" using s(2) r(2) by simp
  have q: "enc_request_of ?s1 = enc_request_of s" by (simp add: enc_request_of_def)
  obtain s' where k: "aws_cryptosdk_priv_try_gen_key V ?s1 = Some (None, s')" "keys_generated V hmac ?s1 s'" "se_header_size s' \<le> header_room m"
    using try_gen_key_ok [of ?s1 m ctx d] s o g q by (auto simp: usable_materials_def)
  have w: "se_state s' = ST_WRITE_HEADER \<and> se_seqno s' = 1 \<and> se_data_so_far s' = se_data_so_far ?s1 \<and> se_frame_size s' = se_frame_size ?s1 \<and>
    se_precise_size s' = se_precise_size ?s1 \<and> se_precise_size_known s' = se_precise_size_known ?s1 \<and>
    (\<exists>hc. se_header_copy s' = Some hc) \<and> (\<exists>x. se_signctx s' = map_option (\<lambda>sc. sc\<lparr>sc_data := sc_data sc @ x\<rparr>) (em_signctx m))"
    using keys_generated_signctx [OF k(2)] g(1) s(4) q by simp
  have "session_step V ?s1 ?b i = Some (None, s', written ?b [], advanced i 0)"
    using k(1) r by (simp add: session_step_def)
  from loop_next [OF this] have l2: "process_loop V ?s1 out i = process_loop V s' out i" using w r(2) by simp
  have "ends (\<lambda>x. step_frame ?s1 ?b i x) (\<lambda>x. step_effect V ks tg hmac ?s1 ?b i x) (session_step V ?s1 ?b i)" by (rule session_step_ends [OF o(1) r(3)])
  then have "step_effect V ks tg hmac ?s1 ?b i (s', ?b, i)" using k(1) by (simp add: session_step_def)
  then have "session_ok V s'" using step_effect_keeps [OF o(1) r(3)] by blast
  with l1 l2 k(3) w o(5) show ?thesis by auto
qed

lemma message_seals:
  assumes s: "session_ok V s" "se_state s = ST_CONFIG" "se_mode s = AWS_CRYPTOSDK_ENCRYPT" "se_cmm s = Some c"
      "aws_cryptosdk_commitment_policy_is_valid (se_policy s)" "\<not> se_precise_size_known s" and n: "within_limits s (length inp)"
    and g: "aws_cryptosdk_cmm_generate_enc_materials c (enc_request_of (s\<lparr>se_precise_size := word_of_nat (length inp), se_precise_size_known := True\<rparr>)) (se_draws s) = (Inr m, ctx, d)"
      "usable_materials (env_ec V) s m ctx"
    and out: "header_room m + body_room (unat (se_frame_size s)) (length inp) + 105 \<le> length outp"
  shows "\<exists>s' out' w'. aws_cryptosdk_session_process_full V s outp w inp = Some (None, s', out', w') \<and> se_state s' = ST_DONE \<and>
    se_header_size s' \<le> header_room m"
proof -
  let ?s0 = "s\<lparr>se_precise_size := word_of_nat (length inp), se_precise_size_known := True\<rparr>"
  let ?out = "buf_from_empty_array outp" and ?i = "cursor_of inp" and ?k = "body_room (unat (se_frame_size s)) (length inp) + 105"
  have sz: "aws_cryptosdk_session_set_message_size V s (word_of_nat (length inp)) = Some (None, ?s0)"
    using s(2,3,6) n by (simp add: aws_cryptosdk_session_set_message_size_def within_limits_def linorder_not_less [symmetric])
  have o: "session_ok V ?s0" "buf_valid ?out" "fits ?out (header_room m + ?k)"
    using s(1,2) out by (simp_all add: session_ok_def buf_from_empty_array_def buf_valid_def fits_def)
  have f: "se_frame_size s \<le> UINT32_MAX" using n by (simp add: within_limits_def)
  have u: "usable_materials (env_ec V) ?s0 m ctx" using g(2) by (simp add: usable_materials_def)
  obtain s1 hc x where 1: "process_loop V ?s0 ?out ?i = process_loop V s1 ?out ?i" "session_ok V s1" "se_header_size s1 \<le> header_room m"
      "se_state s1 = ST_WRITE_HEADER" "se_seqno s1 = 1" "se_data_so_far s1 = 0" "se_frame_size s1 = se_frame_size s"
      "se_precise_size s1 = word_of_nat (length inp)" "se_precise_size_known s1" "se_header_copy s1 = Some hc"
      "se_signctx s1 = map_option (\<lambda>sc. sc\<lparr>sc_data := sc_data sc @ x\<rparr>) (em_signctx m)"
    using start_seals [of ?s0 m ctx d ?out ?i] s o g(1) u f by auto
  have r: "fits ?out (se_header_size s1 + ?k)" using o(3) 1(3) by (simp add: fits_def)
  obtain y out2 where 2: "process_loop V s1 ?out ?i = process_loop V (s1\<lparr>se_out_est := y, se_state := ST_ENCRYPT_BODY\<rparr>) out2 ?i" "fits out2 ?k"
      "session_ok V (s1\<lparr>se_out_est := y, se_state := ST_ENCRYPT_BODY\<rparr>)"
    using header_seals [OF 1(2,4,10) r] by blast
  define s2 where "s2 = s1\<lparr>se_out_est := y, se_state := ST_ENCRYPT_BODY\<rparr>"
  have s2: "se_state s2 = ST_ENCRYPT_BODY" "session_ok V s2" "se_precise_size_known s2" "se_precise_size s2 - se_data_so_far s2 = word_of_nat (cur_len ?i)"
      "cur_len ?i < 2 ^ 64" "se_frame_size s2 = 0 \<Longrightarrow> se_data_so_far s2 = 0 \<and> cur_len ?i < unat MAX_UNFRAMED_PLAINTEXT_SIZE"
      "unat (se_seqno s2) + cur_len ?i div unat (se_frame_size s2) \<le> 0xFFFFFFFF" "fits out2 (body_room (unat (se_frame_size s2)) (cur_len ?i) + 105)"
      "se_signctx s2 = map_option (\<lambda>sc. sc\<lparr>sc_data := sc_data sc @ x\<rparr>) (em_signctx m)"
    using 1 2 n by (auto simp: s2_def within_limits_def cursor_of_def split: if_splits)
  obtain out3 x' y' z' k sc where 3: "process_loop V s2 out2 ?i =
      process_loop V (s2\<lparr>se_out_est := x', se_in_est := y', se_data_so_far := z', se_seqno := k, se_signctx := sc, se_state := ST_WRITE_TRAILER\<rparr>) out3 (advanced ?i (cur_len ?i))"
      "fits out3 105" "session_ok V (s2\<lparr>se_out_est := x', se_in_est := y', se_data_so_far := z', se_seqno := k, se_signctx := sc, se_state := ST_WRITE_TRAILER\<rparr>)"
      "\<forall>c. sc = Some c \<longrightarrow> (\<exists>c0 d. se_signctx s2 = Some c0 \<and> c = c0\<lparr>sc_data := d\<rparr>)"
    using body_seals [OF s2(1-8)] by blast
  define s3 where "s3 = s2\<lparr>se_out_est := x', se_in_est := y', se_data_so_far := z', se_seqno := k, se_signctx := sc, se_state := ST_WRITE_TRAILER\<rparr>"
  have good: "sig_good (env_ec V) v" if "se_signctx s3 = Some v" for v
    using that 3(4) s2(9) g(2) by (auto simp: s3_def usable_materials_def sig_good_data)
  have s3: "se_state s3 = ST_WRITE_TRAILER" "session_ok V s3" using 3(3) by (simp_all add: s3_def)
  obtain s4 out4 where 4: "process_loop V s3 out3 (advanced ?i (cur_len ?i)) = Some (None, s4, out4, advanced ?i (cur_len ?i))" "se_state s4 = ST_DONE"
      "se_header_size s4 = se_header_size s3"
    using trailer_seals [OF s3 good 3(2)] by blast
  have hs: "se_header_size s4 \<le> header_room m" using 4(3) 1(3) by (simp add: s3_def s2_def)
  have "process_loop V ?s0 ?out ?i = Some (None, s4, out4, advanced ?i (cur_len ?i))"
    unfolding 1(1) 2(1) s2_def [symmetric] 3(1) s3_def [symmetric] by (rule 4(1))
  then have "aws_cryptosdk_session_process V ?s0 outp inp = Some \<lparr>pr_status = None, pr_session = s4, pr_outp = buf_mem out4,
      pr_out_bytes_written = buf_len out4, pr_in_bytes_read = length inp\<rparr>"
    using 4(2) by (simp add: aws_cryptosdk_session_process_def advanced_def cursor_of_def)
  then show ?thesis
    using s(2,3) sz 4(2) hs by (simp add: aws_cryptosdk_session_process_full_def aws_cryptosdk_session_is_done_def)
qed

end

end
