(* ===== verification/SessionRef.thy ===== *)
theory SessionRef
  imports SessionLive
begin

text \<open>
  Sessions over the default manager, a raw AES keyring and the reference libraries: the contracts that the theorems on sessions
  assume hold together, and a session made by \<^verbatim>\<open>aws_cryptosdk_session_new_from_cmm_2\<close> is an instance of them.
\<close>

abbreviation ref_cmm :: cmm where
  "ref_cmm \<equiv> default_cmm_vt env_ref \<lparr>dc_kr = ref_keyring, dc_default_alg = DEFAULT_ALG_UNSET\<rparr>"

section \<open>The contracts hold\<close>

interpretation ref_session: live_env env_ref ref_ks ref_tag ref_hmac ref_cmm ref_kp ref_dig
proof (intro live_env.intro opening_env.intro sealing_env.intro session_env_mem.intro session_env.intro)
  show "aws_c_common_mem (env_lib env_ref)" "aws_c_common (env_lib env_ref)"
    using ref.aws_c_common_mem_axioms ref.aws_c_common_axioms by simp_all
  show "session_env_axioms env_ref ref_ks ref_tag ref_hmac"
    by (intro session_env_axioms.intro) (simp_all add: hkdf_ref_gcm hkdf_ref_spec rand_ref_spec)
  show "cmm_contract ref_cmm ref_kp" by (rule default_ref.manages.cmm_contract_axioms)
  show "opening_env_axioms env_ref ref_kp ref_dig"
    by (intro opening_env_axioms.intro) (simp_all add: hkdf_ref_gcm siglib_ref_ok siglib_ref_spec)
  show "live_env_axioms env_ref" by (intro live_env_axioms.intro) (simp add: rand_ok_def rand_ref_def)
qed

section \<open>Signatures\<close>

lemma sig_good_live: "sig_good E c \<Longrightarrow> sig_live E c"
  unfolding sig_good_def sig_live_def
proof (elim conjE, intro allI)
  fix dg d
  assume "\<forall>dg d. \<exists>k. (\<forall>j < k. \<exists>s. sign_once E c dg (d + j) = Inr s) \<and>
    (\<exists>s. sign_once E c dg (d + k) = Inr s \<and> length s = signature_len (sc_props c))"
  then obtain k s where "sign_once E c dg (d + k) = Inr s" "length s = signature_len (sc_props c)" by blast
  then show "\<exists>k. case sign_once E c dg (d + k) of Inl e \<Rightarrow> True | Inr sig \<Rightarrow> length sig = signature_len (sc_props c)"
    by (intro exI [of _ k]) simp
qed

lemma ref_group_len:
  assumes "aws_cryptosdk_alg_props i = Some p" "signature_len p \<noteq> 0" "group_for_props siglib_ref p = Some g"
  shows "signature_len p = ref_sig_len g \<and> EVP_MD_size (sig_md p) \<le> 64"
  using assms unfolding aws_cryptosdk_alg_props_def
  by (simp only: option.inject option.distinct split: if_split_asm)
    (auto simp: STATIC_ALG_PROPS_def sig_curve_def sig_md_def group_for_props_def siglib_ref_def ref_sig_len_def)

lemma ref_signctx_good:
  assumes g: "aws_cryptosdk_cmm_generate_enc_materials ref_cmm rq d = (Inr m, ctx, d')" and x: "em_signctx m = Some x"
  shows "sig_good siglib_ref x"
proof -
  obtain p sc d1 st where c: "aws_cryptosdk_alg_props (choose_alg default_ref.self rq) = Some p" "start_signature env_ref p (er_enc_ctx rq) d = (Inr sc, ctx, d1)"
      "sc = Some x"
    by (rule default_ref.generate_result [OF g]) (use x in simp)
  then have nz: "signature_len p \<noteq> 0" by (auto simp: start_signature_def split: if_splits)
  then obtain pk where k: "aws_cryptosdk_sig_sign_start_keygen aws_ref siglib_ref d p = Inr (Some x, pk)"
    using c(2,3) by (auto simp: start_signature_def split: sum.splits option.splits)
  obtain gr pub priv where x': "group_for_props siglib_ref p = Some gr"
      "x = \<lparr>sc_props = p, sc_keypair = \<lparr>ek_group = gr, ek_pub = pub, ek_priv = Some priv\<rparr>, sc_md = sig_md p, sc_data = [], sc_is_sign = True\<rparr>"
    using keygen_result [OF ref.aws_c_common_mem_axioms siglib_ref_b64 siglib_ref_ok siglib_ref_spec c(1) nz k] by blast
  note l = ref_group_len [OF c(1) nz x'(1)]
  then have "sign_once siglib_ref x dg j = Inr (replicate (ref_sig_len gr) (hd dg + word_of_nat priv))" for dg j
    by (simp add: x'(2) sign_once_def siglib_ref_def)
  then show ?thesis using l by (auto simp: sig_good_def x'(2) ref_sig_len_def)
qed

lemma ref_cmm_live: "cmm_live siglib_ref ref_cmm"
  unfolding cmm_live_def using ref_signctx_good sig_good_live by blast

section \<open>Materials\<close>

lemma ref_generated_edks:
  assumes g: "aws_cryptosdk_cmm_generate_enc_materials ref_cmm rq d = (Inr m, ctx, d')" and t: "hash_valid (er_enc_ctx rq)" "enc_ctx_fits ctx"
  shows "length (em_encrypted_data_keys m) = 1 \<and> list_all edk_fits (em_encrypted_data_keys m) \<and> sum_list (map edk_len (em_encrypted_data_keys m)) \<le> 100"
proof -
  obtain p sc d1 st where c: "hash_find (er_enc_ctx rq) EC_PUBLIC_KEY_FIELD = None" "aws_cryptosdk_alg_props (choose_alg default_ref.self rq) = Some p"
      "start_signature env_ref p (er_enc_ctx rq) d = (Inr sc, ctx, d1)"
      "aws_cryptosdk_keyring_on_encrypt ref_keyring \<lparr>ks_key = None, ks_trace = [], ks_edks = [], ks_draws = d1\<rparr> ctx (choose_alg default_ref.self rq) = (None, st)"
      "em_encrypted_data_keys m = ks_edks st"
    by (rule default_ref.generate_result [OF g]) simp
  have v: "hash_valid ctx" using default_ref.start_signature_result [OF c(2) t(1) c(1,3)] by simp
  let ?st = "\<lparr>ks_key = None, ks_trace = [], ks_edks = [], ks_draws = d1\<rparr> :: kr_state"
  have r: "raw_aes_keyring_on_encrypt env_ref \<lparr>ra_key_namespace = [1], ra_key_name = [2, 3], ra_raw_key = replicate 32 5\<rparr> ?st ctx
      (choose_alg default_ref.self rq) = (None, st)"
    using c(4) by (auto simp: aws_cryptosdk_keyring_on_encrypt_def raw_aes_vt_simps split: prod.splits if_splits)
  obtain e iv where e: "ks_edks st = [e]" "length iv = 12" "raw_aes_holds ref_ks ref_tag \<lparr>ra_key_namespace = [1], ra_key_name = [2, 3], ra_raw_key = replicate 32 5\<rparr>
        (enc_ctx_bytes ctx) iv (dk_contents (ks_key st)) e" "length (dk_contents (ks_key st)) = data_key_len p"
    using raw_ref.on_encrypt_result [OF c(2) v t(2) _ r] by auto
  have "length (ref_tag a b x) = 16" for a b x using gcm_tag_length [OF hkdf_ref_gcm(1)] .
  note l = raw_aes_holds_lengths [OF e(3,2) this]
  have "data_key_len p \<le> 32" using alg_props_fields(5) [OF c(2)] by auto
  then show ?thesis using c(5) e(1,4) l by (simp add: edk_fits_def edk_len_def)
qed

section \<open>Sessions\<close>

definition ref_new :: "aws_cryptosdk_mode \<Rightarrow> session" where
  "ref_new mode = the (the (aws_cryptosdk_session_new_from_cmm_2 aws_ref 0 mode ref_cmm))"

lemma ref_new_simps:
  assumes "aws_cryptosdk_priv_is_valid_mode mode"
  shows "reachable env_ref (ref_new mode)" "se_state (ref_new mode) = ST_CONFIG" "se_mode (ref_new mode) = mode" "se_cmm (ref_new mode) = Some ref_cmm"
    "se_policy (ref_new mode) = COMMITMENT_POLICY_REQUIRE_ENCRYPT_REQUIRE_DECRYPT" "\<not> se_precise_size_known (ref_new mode)"
    "se_size_bound (ref_new mode) = UINT64_MAX" "se_frame_size (ref_new mode) = DEFAULT_FRAME_SIZE" "se_max_edks (ref_new mode) = 0"
    "hdr_enc_ctx (se_header (ref_new mode)) = []"
proof -
  have h: "aws_cryptosdk_hdr_init aws_ref = Inr (hdr_zero\<lparr>hdr_enc_ctx := [], hdr_edk_list := [], hdr_alloc := True\<rparr>)" "aws_cryptosdk_keyring_trace_init aws_ref = Inr []"
    by (simp_all add: aws_cryptosdk_hdr_init_def aws_cryptosdk_enc_ctx_init_def aws_cryptosdk_edk_list_init_def aws_cryptosdk_keyring_trace_init_def aws_ref_simps)
  let ?s = "session_zero (hdr_zero\<lparr>hdr_enc_ctx := [], hdr_edk_list := [], hdr_alloc := True\<rparr>) [] 0"
  have n: "aws_cryptosdk_session_new aws_ref 0 mode = Some (Some (snd (the (aws_cryptosdk_session_reset ?s mode))))"
      "se_state (snd (the (aws_cryptosdk_session_reset ?s mode))) = ST_CONFIG" "se_mode (snd (the (aws_cryptosdk_session_reset ?s mode))) = mode"
      "\<not> se_precise_size_known (snd (the (aws_cryptosdk_session_reset ?s mode)))" "se_size_bound (snd (the (aws_cryptosdk_session_reset ?s mode))) = UINT64_MAX"
      "se_frame_size (snd (the (aws_cryptosdk_session_reset ?s mode))) = DEFAULT_FRAME_SIZE" "se_max_edks (snd (the (aws_cryptosdk_session_reset ?s mode))) = 0"
      "hdr_enc_ctx (se_header (snd (the (aws_cryptosdk_session_reset ?s mode)))) = []"
    using assms h by (simp_all add: aws_cryptosdk_session_new_def aws_cryptosdk_session_reset_def Let_def aws_ref_simps hdr_clear_eq session_zero_def hdr_zero_def)
  have "aws_cryptosdk_session_new_from_cmm_2 aws_ref 0 mode ref_cmm = Some (Some (ref_new mode)) \<and> se_state (ref_new mode) = ST_CONFIG \<and>
    se_mode (ref_new mode) = mode \<and> se_cmm (ref_new mode) = Some ref_cmm \<and>
    se_policy (ref_new mode) = COMMITMENT_POLICY_REQUIRE_ENCRYPT_REQUIRE_DECRYPT \<and> \<not> se_precise_size_known (ref_new mode) \<and>
    se_size_bound (ref_new mode) = UINT64_MAX \<and> se_frame_size (ref_new mode) = DEFAULT_FRAME_SIZE \<and> se_max_edks (ref_new mode) = 0 \<and>
    hdr_enc_ctx (se_header (ref_new mode)) = []"
    using n by (simp add: ref_new_def aws_cryptosdk_session_new_from_cmm_2_def aws_cryptosdk_session_set_commitment_policy_def Let_def
        aws_cryptosdk_commitment_policy_is_valid_def hdr_clear_eq session_zero_def hdr_zero_def)
  then show "reachable env_ref (ref_new mode)" "se_state (ref_new mode) = ST_CONFIG" "se_mode (ref_new mode) = mode" "se_cmm (ref_new mode) = Some ref_cmm"
    "se_policy (ref_new mode) = COMMITMENT_POLICY_REQUIRE_ENCRYPT_REQUIRE_DECRYPT" "\<not> se_precise_size_known (ref_new mode)"
    "se_size_bound (ref_new mode) = UINT64_MAX" "se_frame_size (ref_new mode) = DEFAULT_FRAME_SIZE" "se_max_edks (ref_new mode) = 0"
    "hdr_enc_ctx (se_header (ref_new mode)) = []"
    using ref_cmm_live reachable.from_cmm [of env_ref 0 mode ref_cmm "ref_new mode"] by simp_all
qed

text \<open>A new session gets materials that it can use.\<close>

lemma ref_usable:
  obtains m ctx d where "aws_cryptosdk_cmm_generate_enc_materials ref_cmm
      (enc_request_of (ref_new AWS_CRYPTOSDK_ENCRYPT\<lparr>se_precise_size := word_of_nat (length [1, 2, 3 :: byte]), se_precise_size_known := True\<rparr>))
      (se_draws (ref_new AWS_CRYPTOSDK_ENCRYPT)) = (Inr m, ctx, d)"
    "usable_materials (env_ec env_ref) (ref_new AWS_CRYPTOSDK_ENCRYPT) m ctx"
proof -
  have v: "aws_cryptosdk_priv_is_valid_mode AWS_CRYPTOSDK_ENCRYPT" by (simp add: aws_cryptosdk_priv_is_valid_mode_def)
  let ?s = "ref_new AWS_CRYPTOSDK_ENCRYPT"
  note n = ref_new_simps [OF v]
  define rq where "rq = enc_request_of (?s\<lparr>se_precise_size := word_of_nat (length [1, 2, 3 :: byte]), se_precise_size_known := True\<rparr>)"
  have rq: "er_enc_ctx rq = []" "choose_alg default_ref.self rq = DEFAULT_ALG_KEY_COMMITTING" using n
    by (simp_all add: rq_def enc_request_of_def choose_alg_def aws_cryptosdk_commitment_policy_encrypt_must_include_commitment_def)
  obtain p where p: "aws_cryptosdk_alg_props DEFAULT_ALG_KEY_COMMITTING = Some p" by (simp add: alg_table)
  obtain m ctx d where g: "aws_cryptosdk_cmm_generate_enc_materials ref_cmm rq (se_draws ?s) = (Inr m, ctx, d)" "enc_ctx_fits ctx"
    using ref_generates [of DEFAULT_ALG_UNSET rq p "se_draws ?s"] p rq by auto
  have "em_alg m = DEFAULT_ALG_KEY_COMMITTING" by (rule default_ref.generate_result [OF g(1)]) (simp add: rq(2))
  then have "usable_materials (env_ec env_ref) ?s m ctx"
    using g ref_generated_edks [OF g(1) _ g(2)] ref_signctx_good [OF g(1)] n rq(1)
    by (auto simp: usable_materials_def header_room_def hash_valid_def aws_cryptosdk_priv_algorithm_allowed_for_encrypt_def aws_cryptosdk_algorithm_is_committing_def)
  then show thesis using that g(1) [unfolded rq_def] by blast
qed

text \<open>A new session encrypts, and the header is short enough.\<close>

lemma ref_encrypts:
  "\<exists>outp s' out w. aws_cryptosdk_session_process_full env_ref (ref_new AWS_CRYPTOSDK_ENCRYPT) outp 0 [1, 2, 3] = Some (None, s', out, w) \<and>
     se_header_size s' \<le> INT_MAX"
proof -
  have v: "aws_cryptosdk_priv_is_valid_mode AWS_CRYPTOSDK_ENCRYPT" by (simp add: aws_cryptosdk_priv_is_valid_mode_def)
  let ?s = "ref_new AWS_CRYPTOSDK_ENCRYPT" and ?inp = "[1, 2, 3] :: bytes"
  note n = ref_new_simps [OF v]
  obtain m ctx d where u: "aws_cryptosdk_cmm_generate_enc_materials ref_cmm (enc_request_of (?s\<lparr>se_precise_size := word_of_nat (length ?inp), se_precise_size_known := True\<rparr>))
      (se_draws ?s) = (Inr m, ctx, d)" "usable_materials (env_ec env_ref) ?s m ctx" by (rule ref_usable)
  have l: "within_limits ?s (length ?inp)" using n by (simp add: within_limits_def)
  have pv: "aws_cryptosdk_commitment_policy_is_valid (se_policy ?s)" using n(5) by (simp add: aws_cryptosdk_commitment_policy_is_valid_def)
  have "header_room m \<le> INT_MAX" using u(2) by (simp add: usable_materials_def)
  moreover obtain s' out w where "aws_cryptosdk_session_process_full env_ref ?s (replicate (header_room m + body_room (unat (se_frame_size ?s)) (length ?inp) + 105) 0) 0 ?inp =
      Some (None, s', out, w)" "se_header_size s' \<le> header_room m"
    using ref_session.message_seals [OF ref_session.reachable_ok [OF n(1)] n(2-4) pv n(6) l u, of "replicate (header_room m + body_room (unat (se_frame_size ?s)) (length ?inp) + 105) 0" 0] by auto
  ultimately show ?thesis by fastforce
qed

end
