(* ===== verification/SessionCorrect.thy ===== *)
theory SessionCorrect
  imports SessionRef
begin

text \<open>
  The correctness of sessions as their callers see it: what is encrypted can be decrypted, what is decrypted is authentic, every
  operation returns, and errors are final and leave no plaintext behind.
\<close>

section \<open>Round trip\<close>

context session_env
begin

lemma calls_policy:
  assumes "calls V s cin cout s'" "session_ok V s"
  shows "session_ok V s' \<and> se_policy s' = se_policy s"
  using assms
proof induction
  case (call cin cout s' outp inp r)
  then show ?case using process_ok [of s' outp inp] by (auto simp: call_ok_def same_config_def)
next
  case (set_size cin cout s' n s'')
  then show ?case using set_message_size_result [of s' n s''] by auto
next
  case (set_bound cin cout s' n s'')
  then show ?case using set_message_bound_result [of s' n s''] set_message_bound_ok [of V s' n] by auto
qed simp

end

context opening_env
begin

lemma calls_seal:
  assumes s: "reachable V s" "se_state s = ST_CONFIG" "se_mode s = AWS_CRYPTOSDK_ENCRYPT" "se_cmm s = Some c"
    and e: "calls V s pt msg s'" "se_state s' = ST_DONE" "se_header_size s' \<le> INT_MAX"
  shows "message_sealed V ks tg hmac (hdr_enc_ctx (se_header s)) s' pt msg \<and> se_cmm s' = Some c \<and> hash_valid (hdr_enc_ctx (se_header s)) \<and>
    se_precise_size_known s' \<and> se_precise_size s' = word_of_nat (length pt)"
proof -
  have ok: "session_ok V s" by (rule reachable_ok [OF s(1)])
  then have "hash_valid (hdr_enc_ctx (se_header s))" using s(2) by (simp add: session_ok_def header_fresh_def)
  then show ?thesis using calls_encrypt [OF e(1) ok s(2-4)] e(2,3) by (simp add: enc_inv_def size_inv_def) metis
qed

lemma sealed_opens:
  assumes m: "message_sealed V ks tg hmac t s' pt msg" "se_cmm s' = Some c" "hash_valid t"
      "length (hdr_edk_list (se_header s')) \<le> UINT16_MAX" "list_all edk_fits (hdr_edk_list (se_header s'))"
    and r: "reachable V r" "se_state r = ST_CONFIG" "aws_cryptosdk_priv_is_decrypt_mode (se_mode r)" "se_cmm r = Some c"
      "aws_cryptosdk_commitment_policy_is_valid (se_policy r)"
      "aws_cryptosdk_priv_algorithm_allowed_for_decrypt (hdr_alg_id (se_header s')) (se_policy r)"
      "se_mode r = AWS_CRYPTOSDK_DECRYPT_UNSIGNED \<longrightarrow> signature_len (the (se_alg_props s')) = 0"
      "se_max_edks r = 0 \<or> length (hdr_edk_list (se_header s')) \<le> se_max_edks r"
    and out: "length pt \<le> length outp"
  shows "\<exists>r'. aws_cryptosdk_session_process_full V r outp w msg = Some (None, r', pt @ drop (length pt) outp, length pt) \<and>
    se_state r' = ST_DONE \<and> map_of (hdr_enc_ctx (se_header r')) = map_of (hdr_enc_ctx (se_header s'))"
proof -
  obtain em hb p fs tr where k: "msg = hb @ body_bytes fs @ tr" "pt = body_plaintext fs" "made_header tg hmac t s' em hb p"
      "frames_sealed ks tg s' fs" "body_complete fs" "message_signed V em (hb @ body_bytes fs) tr"
    using m(1) unfolding message_sealed_def by blast
  obtain rq d d' where rq: "er_enc_ctx rq = t" "aws_cryptosdk_cmm_generate_enc_materials c rq d = (Inr em, hdr_enc_ctx (se_header s'), d')"
      and p: "aws_cryptosdk_alg_props (em_alg em) = Some p" "enc_ctx_fits (hdr_enc_ctx (se_header s'))" "se_alg_props s' = Some p"
        "hdr_alg_id (se_header s') = em_alg em" "hdr_edk_list (se_header s') = em_encrypted_data_keys em"
    using k(3) m(2) by (auto simp: made_header_def)
  have "em_signctx em = None \<longleftrightarrow> signature_len p = 0" using generated [OF _ rq(2) p(2)] rq(1) m(3) p(1) by auto
  then have a: "admits r em" using r(6-8) p by (simp add: admits_def)
  have n: "se_mode r \<noteq> AWS_CRYPTOSDK_ENCRYPT" using r(3) by (auto simp: aws_cryptosdk_priv_is_decrypt_mode_def)
  have e: "length (em_encrypted_data_keys em) \<le> UINT16_MAX" "list_all edk_fits (em_encrypted_data_keys em)" using m(4,5) p(5) by simp_all
  show ?thesis
    using message_opens [OF reachable_ok [OF r(1)] r(2-5) a k(3) m(2,3) e k(4-6), of outp] out k(1,2) r(2) n
    by (auto simp: aws_cryptosdk_session_process_full_def aws_cryptosdk_session_is_done_def)
qed

end

text \<open>
  C1: Decryption inverts encryption. Whatever a reachable session encrypts, in one call or in many, with any frame size and suite, a
  session for decryption with the same manager gives back byte for byte, with the same encryption context, if its policy, its mode and its limit on encrypted
  data keys admit the message and the output has room for the plaintext. It is assumed that the header is no longer than an int can tell and the encrypted data keys are within the 16-bit limits of the format.
\<close>

theorem session_round_trip:
  assumes V: "opening_env V ks tg hmac c kp dig"
    and s: "reachable V s" "se_state s = ST_CONFIG" "se_mode s = AWS_CRYPTOSDK_ENCRYPT" "se_cmm s = Some c"
    and e: "calls V s pt msg s'" "se_state s' = ST_DONE" "se_header_size s' \<le> INT_MAX"
      "length (hdr_edk_list (se_header s')) \<le> UINT16_MAX" "list_all edk_fits (hdr_edk_list (se_header s'))"
    and r: "reachable V r" "se_state r = ST_CONFIG" "aws_cryptosdk_priv_is_decrypt_mode (se_mode r)" "se_cmm r = Some c"
      "aws_cryptosdk_commitment_policy_is_valid (se_policy r)"
      "aws_cryptosdk_priv_algorithm_allowed_for_decrypt (hdr_alg_id (se_header s')) (se_policy r)"
      "se_mode r = AWS_CRYPTOSDK_DECRYPT_UNSIGNED \<longrightarrow> signature_len (the (se_alg_props s')) = 0"
      "se_max_edks r = 0 \<or> length (hdr_edk_list (se_header s')) \<le> se_max_edks r"
    and out: "length pt \<le> length outp"
  shows "\<exists>r'. aws_cryptosdk_session_process_full V r outp w msg = Some (None, r', pt @ drop (length pt) outp, length pt) \<and>
    se_state r' = ST_DONE \<and> map_of (hdr_enc_ctx (se_header r')) = map_of (hdr_enc_ctx (se_header s'))"
  using opening_env.calls_seal [OF V s e(1-3)] opening_env.sealed_opens [OF V _ _ _ e(4,5) r out] by blast

text \<open>The reference session gives a message within the limits.\<close>

lemma ref_message:
  obtains outp s' out w where
    "aws_cryptosdk_session_process_full env_ref (ref_new AWS_CRYPTOSDK_ENCRYPT) outp 0 [1, 2, 3] = Some (None, s', out, w)"
    "calls env_ref (ref_new AWS_CRYPTOSDK_ENCRYPT) [1, 2, 3] (take w out) s'" "se_state s' = ST_DONE" "se_header_size s' \<le> INT_MAX"
    "length (hdr_edk_list (se_header s')) \<le> UINT16_MAX" "list_all edk_fits (hdr_edk_list (se_header s'))"
    "aws_cryptosdk_priv_algorithm_allowed_for_decrypt (hdr_alg_id (se_header s')) COMMITMENT_POLICY_REQUIRE_ENCRYPT_REQUIRE_DECRYPT"
proof -
  have v: "aws_cryptosdk_priv_is_valid_mode AWS_CRYPTOSDK_ENCRYPT" by (simp add: aws_cryptosdk_priv_is_valid_mode_def)
  note n = ref_new_simps [OF v]
  obtain outp s' out w where f: "aws_cryptosdk_session_process_full env_ref (ref_new AWS_CRYPTOSDK_ENCRYPT) outp 0 [1, 2, 3] = Some (None, s', out, w)"
      "se_header_size s' \<le> INT_MAX" using ref_encrypts by blast
  note c = process_full_calls [OF f(1)]
  then have sl: "message_sealed env_ref ref_ks ref_tag ref_hmac [] s' [1, 2, 3] (take w out)" "se_cmm s' = Some ref_cmm"
    using ref_session.calls_seal [OF n(1-4), of "[1, 2, 3]" "take w out" s'] f(2) n(10) by simp_all
  obtain m hb p fs tr where mk: "made_header ref_tag ref_hmac [] s' m hb p" using sl(1) unfolding message_sealed_def by blast
  obtain rq d d' where rq: "er_enc_ctx rq = []" "aws_cryptosdk_cmm_generate_enc_materials ref_cmm rq d = (Inr m, hdr_enc_ctx (se_header s'), d')"
      "enc_ctx_fits (hdr_enc_ctx (se_header s'))" "hdr_edk_list (se_header s') = em_encrypted_data_keys m" "hdr_alg_id (se_header s') = em_alg m"
      "aws_cryptosdk_priv_algorithm_allowed_for_encrypt (em_alg m) (se_policy s')"
    using mk sl(2) by (auto simp: made_header_def)
  have "se_policy s' = COMMITMENT_POLICY_REQUIRE_ENCRYPT_REQUIRE_DECRYPT"
    using ref_session.calls_policy [of "ref_new AWS_CRYPTOSDK_ENCRYPT"] c ref_session.reachable_ok [OF n(1)] n(5) by auto
  then have "aws_cryptosdk_priv_algorithm_allowed_for_decrypt (hdr_alg_id (se_header s')) COMMITMENT_POLICY_REQUIRE_ENCRYPT_REQUIRE_DECRYPT"
    using rq(5,6) by (auto simp: aws_cryptosdk_priv_algorithm_allowed_for_decrypt_def aws_cryptosdk_priv_algorithm_allowed_for_encrypt_def
        aws_cryptosdk_commitment_policy_encrypt_must_include_commitment_def)
  moreover have "length (em_encrypted_data_keys m) = 1" "list_all edk_fits (em_encrypted_data_keys m)"
    using ref_generated_edks [OF rq(2) _ rq(3)] rq(1) by (simp_all add: hash_valid_def)
  ultimately show thesis using that [OF f(1)] c f(2) rq(4) by simp
qed

lemma ref_decrypts:
  obtains msg r' out where "aws_cryptosdk_session_process_full env_ref (ref_new AWS_CRYPTOSDK_DECRYPT) [9, 9, 9, 9] 0 msg = Some (None, r', out, 3)" "take 3 out = [1, 2, 3]"
proof -
  have v: "aws_cryptosdk_priv_is_valid_mode AWS_CRYPTOSDK_ENCRYPT" "aws_cryptosdk_priv_is_valid_mode AWS_CRYPTOSDK_DECRYPT"
      "aws_cryptosdk_priv_is_decrypt_mode AWS_CRYPTOSDK_DECRYPT"
    by (simp_all add: aws_cryptosdk_priv_is_valid_mode_def aws_cryptosdk_priv_is_decrypt_mode_def)
  note s = ref_new_simps [OF v(1)] and r = ref_new_simps [OF v(2)]
  obtain outp s' out w where m: "calls env_ref (ref_new AWS_CRYPTOSDK_ENCRYPT) [1, 2, 3] (take w out) s'" "se_state s' = ST_DONE" "se_header_size s' \<le> INT_MAX"
    "length (hdr_edk_list (se_header s')) \<le> UINT16_MAX" "list_all edk_fits (hdr_edk_list (se_header s'))"
    "aws_cryptosdk_priv_algorithm_allowed_for_decrypt (hdr_alg_id (se_header s')) COMMITMENT_POLICY_REQUIRE_ENCRYPT_REQUIRE_DECRYPT"
    by (rule ref_message)
  have c: "message_sealed env_ref ref_ks ref_tag ref_hmac (hdr_enc_ctx (se_header (ref_new AWS_CRYPTOSDK_ENCRYPT))) s' [1, 2, 3] (take w out)"
      "se_cmm s' = Some ref_cmm" "hash_valid (hdr_enc_ctx (se_header (ref_new AWS_CRYPTOSDK_ENCRYPT)))"
    using ref_session.calls_seal [OF s(1-4) m(1-3)] by simp_all
  have "\<exists>r'. aws_cryptosdk_session_process_full env_ref (ref_new AWS_CRYPTOSDK_DECRYPT) [9, 9, 9, 9] 0 (take w out) =
      Some (None, r', [1, 2, 3] @ drop (length [1, 2, 3 :: byte]) [9, 9, 9, 9], length [1, 2, 3 :: byte]) \<and>
    se_state r' = ST_DONE \<and> map_of (hdr_enc_ctx (se_header r')) = map_of (hdr_enc_ctx (se_header s'))"
    by (rule ref_session.sealed_opens [OF c m(4,5) r(1,2)])
      (use m(6) r v(3) in \<open>simp_all add: aws_cryptosdk_commitment_policy_is_valid_def\<close>)
  then show thesis using that by (auto simp: numeral_3_eq_3)
qed

theorem session_round_trip_witness:
  "\<exists>outp s' out w r'. aws_cryptosdk_session_process_full env_ref (ref_new AWS_CRYPTOSDK_ENCRYPT) outp 0 [1, 2, 3] = Some (None, s', out, w) \<and>
    aws_cryptosdk_session_process_full env_ref (ref_new AWS_CRYPTOSDK_DECRYPT) [9, 9, 9, 9] 0 (take w out) = Some (None, r', [1, 2, 3, 9], 3) \<and>
    se_state r' = ST_DONE"
proof -
  have v: "aws_cryptosdk_priv_is_valid_mode AWS_CRYPTOSDK_ENCRYPT" "aws_cryptosdk_priv_is_valid_mode AWS_CRYPTOSDK_DECRYPT"
      "aws_cryptosdk_priv_is_decrypt_mode AWS_CRYPTOSDK_DECRYPT"
    by (simp_all add: aws_cryptosdk_priv_is_valid_mode_def aws_cryptosdk_priv_is_decrypt_mode_def)
  note s = ref_new_simps [OF v(1)] and r = ref_new_simps [OF v(2)]
  obtain outp s' out w where m: "aws_cryptosdk_session_process_full env_ref (ref_new AWS_CRYPTOSDK_ENCRYPT) outp 0 [1, 2, 3] = Some (None, s', out, w)"
    "calls env_ref (ref_new AWS_CRYPTOSDK_ENCRYPT) [1, 2, 3] (take w out) s'" "se_state s' = ST_DONE" "se_header_size s' \<le> INT_MAX"
    "length (hdr_edk_list (se_header s')) \<le> UINT16_MAX" "list_all edk_fits (hdr_edk_list (se_header s'))"
    "aws_cryptosdk_priv_algorithm_allowed_for_decrypt (hdr_alg_id (se_header s')) COMMITMENT_POLICY_REQUIRE_ENCRYPT_REQUIRE_DECRYPT"
    by (rule ref_message)
  have "\<exists>r'. aws_cryptosdk_session_process_full env_ref (ref_new AWS_CRYPTOSDK_DECRYPT) [9, 9, 9, 9] 0 (take w out) =
      Some (None, r', [1, 2, 3] @ drop (length [1, 2, 3 :: byte]) [9, 9, 9, 9], length [1, 2, 3 :: byte]) \<and>
    se_state r' = ST_DONE \<and> map_of (hdr_enc_ctx (se_header r')) = map_of (hdr_enc_ctx (se_header s'))"
    by (rule session_round_trip [OF ref_session.opening_env_axioms s(1-4) m(2-6) r(1,2)])
      (use m(7) r v(3) in \<open>simp_all add: aws_cryptosdk_commitment_policy_is_valid_def\<close>)
  then obtain r' where "aws_cryptosdk_session_process_full env_ref (ref_new AWS_CRYPTOSDK_DECRYPT) [9, 9, 9, 9] 0 (take w out) = Some (None, r', [1, 2, 3, 9], 3)"
      "se_state r' = ST_DONE" by (auto simp: numeral_3_eq_3)
  then show ?thesis using m(1) by blast
qed

section \<open>Authenticity\<close>

text \<open>
  C2: A session for decryption releases only authentic plaintext, however the message is cut into calls. As soon as it has produced any output, what it has consumed
  starts with a header whose data key the manager gave, that matches its commitment and whose tag is valid, and the output is the plaintext of the frames
  that follow, each sealed under the content key with its own number. When the session is done, the frames are complete up to the final one and the
  signature over all of it, if the suite signs, is valid for the key in the encryption context.
\<close>

theorem session_decrypts_authentic:
  assumes V: "session_env V ks tg hmac" and s: "reachable V s" "se_state s = ST_CONFIG" "aws_cryptosdk_priv_is_decrypt_mode (se_mode s)"
    and c: "calls V s cin cout s'"
  shows "(cout \<noteq> [] \<longrightarrow> (\<exists>hb fs tr dm p. cin = hb @ body_bytes fs @ tr \<and> cout = body_plaintext fs \<and> opened V tg hmac s' hb dm p \<and> frames_sealed ks tg s' fs)) \<and>
    (se_state s' = ST_DONE \<longrightarrow> authentic V ks tg hmac s' cin cout) \<and> same_config s s'"
proof -
  have d: "dec_inv V ks tg hmac s' cin cout \<and> same_config s s'"
    by (rule session_env.calls_decrypt [OF V c session_env.reachable_ok [OF V s(1)] s(2,3)])
  have "\<exists>hb fs tr dm p. cin = hb @ body_bytes fs @ tr \<and> cout = body_plaintext fs \<and> opened V tg hmac s' hb dm p \<and> frames_sealed ks tg s' fs" if n: "cout \<noteq> []"
  proof -
    consider "se_state s' = ST_DECRYPT_BODY" | "se_state s' = ST_CHECK_TRAILER" | "se_state s' = ST_DONE"
      using d n by (cases "se_state s'") (simp_all add: dec_inv_def)
    then show ?thesis
    proof cases
      case 1
      then obtain hb fs dm p where "cin = hb @ body_bytes fs" "cout = body_plaintext fs" "opened V tg hmac s' hb dm p" "frames_sealed ks tg s' fs"
        using d by (auto simp: dec_inv_def)
      then show ?thesis by (metis append_Nil2)
    next
      case 2
      then show ?thesis using d unfolding dec_inv_def by simp blast
    next
      case 3
      then show ?thesis using d unfolding dec_inv_def authentic_def by simp blast
    qed
  qed
  moreover have "se_state s' = ST_DONE \<longrightarrow> authentic V ks tg hmac s' cin cout" using d by (auto simp: dec_inv_def)
  ultimately show ?thesis using d by blast
qed

theorem session_decrypts_authentic_witness:
  "\<exists>msg s'. calls env_ref (ref_new AWS_CRYPTOSDK_DECRYPT) msg [1, 2, 3] s' \<and> authentic env_ref ref_ks ref_tag ref_hmac s' msg [1, 2, 3]"
proof -
  have v: "aws_cryptosdk_priv_is_valid_mode AWS_CRYPTOSDK_ENCRYPT" "aws_cryptosdk_priv_is_valid_mode AWS_CRYPTOSDK_DECRYPT"
      "aws_cryptosdk_priv_is_decrypt_mode AWS_CRYPTOSDK_DECRYPT"
    by (simp_all add: aws_cryptosdk_priv_is_valid_mode_def aws_cryptosdk_priv_is_decrypt_mode_def)
  note s = ref_new_simps [OF v(1)] and r = ref_new_simps [OF v(2)]
  obtain msg r' out where f: "aws_cryptosdk_session_process_full env_ref (ref_new AWS_CRYPTOSDK_DECRYPT) [9, 9, 9, 9] 0 msg = Some (None, r', out, 3)" "take 3 out = [1, 2, 3]"
    by (rule ref_decrypts)
  have c: "calls env_ref (ref_new AWS_CRYPTOSDK_DECRYPT) msg [1, 2, 3] r'" "se_state r' = ST_DONE" using process_full_calls [OF f(1)] f(2) by simp_all
  have m: "aws_cryptosdk_priv_is_decrypt_mode (se_mode (ref_new AWS_CRYPTOSDK_DECRYPT))" using r(3) v(3) by simp
  show ?thesis
    using session_decrypts_authentic [OF ref_session.session_env_axioms r(1,2) m c(1)] c by auto
qed

text \<open>
  C3: What a session has encrypted when it is done is a well-formed message for exactly the plaintext it was given: a header made from the materials of the manager for the
  context that the caller set, with the content key and the commitment derived from their data key, the sealed frames numbered from one up to the final one, and
  the signature. The plaintext has the length that was announced, so a message is never ended early.
\<close>

theorem session_encrypts_sealed:
  assumes V: "opening_env V ks tg hmac c kp dig" and s: "reachable V s" "se_state s = ST_CONFIG" "se_mode s = AWS_CRYPTOSDK_ENCRYPT" "se_cmm s = Some c"
    and e: "calls V s cin cout s'" "se_state s' = ST_DONE" "se_header_size s' \<le> INT_MAX"
  shows "message_sealed V ks tg hmac (hdr_enc_ctx (se_header s)) s' cin cout \<and> se_precise_size_known s' \<and> se_precise_size s' = word_of_nat (length cin)"
  using opening_env.calls_seal [OF V s e] by simp

theorem session_encrypts_sealed_witness:
  "\<exists>s' msg. calls env_ref (ref_new AWS_CRYPTOSDK_ENCRYPT) [1, 2, 3] msg s' \<and> message_sealed env_ref ref_ks ref_tag ref_hmac [] s' [1, 2, 3] msg"
proof -
  have v: "aws_cryptosdk_priv_is_valid_mode AWS_CRYPTOSDK_ENCRYPT" by (simp add: aws_cryptosdk_priv_is_valid_mode_def)
  note s = ref_new_simps [OF v]
  obtain s' out w where m: "calls env_ref (ref_new AWS_CRYPTOSDK_ENCRYPT) [1, 2, 3] (take w out) s'" "se_state s' = ST_DONE" "se_header_size s' \<le> INT_MAX"
    by (rule ref_message)
  show ?thesis using session_encrypts_sealed [OF ref_session.opening_env_axioms s(1-4) m] m(1) s(10) by auto
qed

section \<open>Progress\<close>

text \<open>
  C6: Encryption goes through. With libraries that serve every request and a manager that gives usable materials, one call of
  \<^verbatim>\<open>aws_cryptosdk_session_process_full\<close> on a fresh session encrypts every plaintext within the limits of the format, given an output of the size of the header, the
  frames and the trailer.
\<close>

theorem session_encrypts:
  assumes V: "live_env V ks tg hmac c kp dig" and s: "reachable V s" "se_state s = ST_CONFIG" "se_mode s = AWS_CRYPTOSDK_ENCRYPT" "se_cmm s = Some c"
      "aws_cryptosdk_commitment_policy_is_valid (se_policy s)" "\<not> se_precise_size_known s" and n: "within_limits s (length inp)"
    and g: "aws_cryptosdk_cmm_generate_enc_materials c (enc_request_of (s\<lparr>se_precise_size := word_of_nat (length inp), se_precise_size_known := True\<rparr>)) (se_draws s) = (Inr m, ctx, d)"
      "usable_materials (env_ec V) s m ctx"
    and out: "header_room m + body_room (unat (se_frame_size s)) (length inp) + 105 \<le> length outp"
  shows "\<exists>s' out' w'. aws_cryptosdk_session_process_full V s outp w inp = Some (None, s', out', w') \<and> se_state s' = ST_DONE"
proof -
  have "session_env V ks tg hmac" using V by (simp add: live_env_def opening_env_def sealing_env_def session_env_mem_def)
  from live_env.message_seals [OF V session_env.reachable_ok [OF this s(1)] s(2-6) n g out] show ?thesis by blast
qed

theorem session_encrypts_witness:
  "\<exists>outp s' out' w'. aws_cryptosdk_session_process_full env_ref (ref_new AWS_CRYPTOSDK_ENCRYPT) outp 0 [1, 2, 3] = Some (None, s', out', w') \<and> se_state s' = ST_DONE"
proof -
  have v: "aws_cryptosdk_priv_is_valid_mode AWS_CRYPTOSDK_ENCRYPT" by (simp add: aws_cryptosdk_priv_is_valid_mode_def)
  note s = ref_new_simps [OF v]
  let ?s = "ref_new AWS_CRYPTOSDK_ENCRYPT" and ?inp = "[1, 2, 3] :: bytes"
  obtain m ctx d where u: "aws_cryptosdk_cmm_generate_enc_materials ref_cmm (enc_request_of (?s\<lparr>se_precise_size := word_of_nat (length ?inp), se_precise_size_known := True\<rparr>))
      (se_draws ?s) = (Inr m, ctx, d)" "usable_materials (env_ec env_ref) ?s m ctx" by (rule ref_usable)
  have l: "within_limits ?s (length ?inp)" using s by (simp add: within_limits_def)
  have pv: "aws_cryptosdk_commitment_policy_is_valid (se_policy ?s)" using s(5) by (simp add: aws_cryptosdk_commitment_policy_is_valid_def)
  show ?thesis
    using session_encrypts [OF ref_session.live_env_axioms s(1-4) pv s(6) l u, of "replicate (header_room m + body_room (unat (se_frame_size ?s)) (length ?inp) + 105) 0" 0] by auto
qed

text \<open>
  C5: Every operation on a session that calls can produce returns: none runs forever and none reaches an abort.
\<close>

theorem session_operations_return:
  assumes V: "session_env V ks tg hmac" and s: "reachable V s"
  shows "aws_cryptosdk_session_reset s mode \<noteq> None \<and> aws_cryptosdk_session_set_commitment_policy s policy \<noteq> None \<and>
    aws_cryptosdk_session_set_message_bound s n \<noteq> None \<and> aws_cryptosdk_session_set_max_encrypted_data_keys s k \<noteq> None \<and>
    aws_cryptosdk_session_set_message_size V s n \<noteq> None \<and> aws_cryptosdk_session_process V s outp inp \<noteq> None \<and>
    aws_cryptosdk_session_process_full V s outp w inp \<noteq> None"
proof -
  note ok = session_env.reachable_ok [OF V s]
  have c: "hdr_alloc (se_header s)" "length (se_commitment_arr s) = 32" "\<And>c. se_cmm s = Some c \<Longrightarrow> cmm_live (env_ec V) c" using ok by (simp_all add: session_ok_def)
  show ?thesis
    using reset_ok [OF c, of mode] set_policy_ok [OF ok, of policy] set_message_bound_ok [OF ok, of n] set_max_edks_ok [OF ok, of k]
      session_env.set_message_size_ok [OF V ok, of n] session_env.process_ok [OF V ok, of outp inp] session_env.process_full_ok [OF V ok, of outp w inp]
    by auto
qed

theorem session_operations_return_witness:
  "aws_cryptosdk_session_process env_ref (ref_new AWS_CRYPTOSDK_DECRYPT) [0, 0] [1, 2, 3] \<noteq> None"
proof -
  have "aws_cryptosdk_priv_is_valid_mode AWS_CRYPTOSDK_DECRYPT" by (simp add: aws_cryptosdk_priv_is_valid_mode_def aws_cryptosdk_priv_is_decrypt_mode_def)
  from session_operations_return [OF ref_session.session_env_axioms ref_new_simps(1) [OF this]] show ?thesis by blast
qed

section \<open>Errors\<close>

context session_env
begin

text \<open>A session in the error state raises its error again and changes nothing but the output, which it zeroes.\<close>

lemma process_error:
  assumes "session_ok V s" "se_state s = ST_ERROR"
  shows "\<exists>r. aws_cryptosdk_session_process V s outp inp = Some r \<and> pr_status r = se_error s \<and> pr_session r = s \<and> pr_outp r = replicate (length outp) 0"
proof -
  obtain e where e: "se_error s = Some e" using assms by (auto simp: session_ok_def)
  let ?out = "buf_from_empty_array outp"
  have l: "process_loop V s ?out (cursor_of inp) = Some (Some e, s, put_back ?out (remaining_space ?out), cursor_of inp)"
    using assms(2) e by (subst process_loop.simps) (simp add: session_step_def Let_def)
  then obtain r where r: "aws_cryptosdk_session_process V s outp inp = Some r" "pr_status r = Some e" "pr_session r = s"
    using assms(2) e by (simp add: aws_cryptosdk_session_process_def)
  have "pr_outp r = replicate (length outp) 0" using process_ok [OF assms(1), of outp inp] r by (simp add: call_ok_def)
  then show ?thesis using r e by simp
qed

end

text \<open>
  C4: What a call of \<^verbatim>\<open>aws_cryptosdk_session_process\<close> does to its caller's buffers, on any reachable session and any input. It reads no more than it is given, writes within the output
  and keeps the length of the output. A call that fails has written nothing and has zeroed the whole output; the session
  keeps the error, and every further call fails with the same error until the session is reset.
\<close>

theorem session_process_contract:
  assumes V: "session_env V ks tg hmac" and s: "reachable V s"
  shows "\<exists>r. aws_cryptosdk_session_process V s outp inp = Some r \<and> pr_in_bytes_read r \<le> length inp \<and> pr_out_bytes_written r \<le> length outp \<and>
    length (pr_outp r) = length outp \<and> (pr_status r = None \<longleftrightarrow> se_state (pr_session r) \<noteq> ST_ERROR) \<and>
    (pr_status r \<noteq> None \<longrightarrow> pr_out_bytes_written r = 0 \<and> pr_outp r = replicate (length outp) 0 \<and>
       (\<forall>outp' inp'. \<exists>r'. aws_cryptosdk_session_process V (pr_session r) outp' inp' = Some r' \<and> pr_status r' = pr_status r \<and>
          pr_session r' = pr_session r \<and> pr_outp r' = replicate (length outp') 0) \<and>
       (\<forall>mode. aws_cryptosdk_priv_is_valid_mode mode \<longrightarrow> (\<exists>s'. aws_cryptosdk_session_reset (pr_session r) mode = Some (None, s') \<and> se_state s' = ST_CONFIG)))"
proof -
  obtain r where r: "aws_cryptosdk_session_process V s outp inp = Some r" "session_ok V (pr_session r)"
    "pr_in_bytes_read r \<le> length inp" "pr_out_bytes_written r \<le> length outp" "length (pr_outp r) = length outp"
    "pr_status r = None \<longrightarrow> se_state (pr_session r) \<noteq> ST_ERROR"
    "pr_status r \<noteq> None \<longrightarrow> se_state (pr_session r) = ST_ERROR \<and> pr_out_bytes_written r = 0 \<and> pr_outp r = replicate (length outp) 0 \<and>
        pr_status r = se_error (pr_session r)"
    using session_env.process_ok [OF V session_env.reachable_ok [OF V s], of outp inp] by (auto simp: session_env.call_ok_def [OF V])
  have c: "hdr_alloc (se_header (pr_session r))" "length (se_commitment_arr (pr_session r)) = 32" "\<And>c. se_cmm (pr_session r) = Some c \<Longrightarrow> cmm_live (env_ec V) c"
    using r(2) by (simp_all add: session_ok_def)
  have m: "\<exists>s'. aws_cryptosdk_session_reset (pr_session r) mode = Some (None, s') \<and> se_state s' = ST_CONFIG" if "aws_cryptosdk_priv_is_valid_mode mode" for mode
    using that by (simp add: aws_cryptosdk_session_reset_def Let_def)
  show ?thesis
    using r m session_env.process_error [OF V r(2)] by (intro exI [of _ r]) auto
qed

theorem session_process_contract_witness:
  "\<exists>s r. aws_cryptosdk_session_set_commitment_policy (ref_new AWS_CRYPTOSDK_DECRYPT) 99 = Some (Some AWS_ERROR_INVALID_ARGUMENT, s) \<and>
     aws_cryptosdk_session_process env_ref s [1, 2] [7, 7, 7, 7] = Some r \<and> pr_status r = Some AWS_CRYPTOSDK_ERR_BAD_STATE \<and> pr_outp r = [0, 0]"
proof -
  have v: "aws_cryptosdk_priv_is_valid_mode AWS_CRYPTOSDK_DECRYPT" by (simp add: aws_cryptosdk_priv_is_valid_mode_def aws_cryptosdk_priv_is_decrypt_mode_def)
  note n = ref_new_simps [OF v]
  let ?s = "ref_new AWS_CRYPTOSDK_DECRYPT\<lparr>se_policy := 99\<rparr>" and ?out = "buf_from_empty_array [1, 2]"
  have p: "aws_cryptosdk_session_set_commitment_policy (ref_new AWS_CRYPTOSDK_DECRYPT) 99 = Some (Some AWS_ERROR_INVALID_ARGUMENT, ?s)"
    by (simp add: aws_cryptosdk_session_set_commitment_policy_def aws_cryptosdk_commitment_policy_is_valid_def)
  have "process_loop env_ref ?s ?out (cursor_of [7, 7, 7, 7]) =
      Some (Some AWS_CRYPTOSDK_ERR_BAD_STATE, ?s, put_back ?out (remaining_space ?out), cursor_of [7, 7, 7, 7])"
    using n by (subst process_loop.simps) (simp add: session_step_def Let_def aws_cryptosdk_commitment_policy_is_valid_def)
  then obtain r where "aws_cryptosdk_session_process env_ref ?s [1, 2] [7, 7, 7, 7] = Some r" "pr_status r = Some AWS_CRYPTOSDK_ERR_BAD_STATE"
    using n by (auto simp: aws_cryptosdk_session_process_def change_state_error)
  then show ?thesis
    using session_process_contract [OF ref_session.session_env_axioms reachable.policy [OF n(1) p], of "[1, 2]" "[7, 7, 7, 7]"] p by (auto simp: numeral_2_eq_2)
qed

text \<open>
  C7: Every session that calls can produce is well formed: a session in the error state has recorded its error, the state agrees with the mode, the
  key commitment buffer keeps its size, no session is left in the middle of unwrapping a key, and while a message is encrypted or decrypted the suite is known, the next frame
  has a number and the frame size fits the format.
\<close>

theorem session_well_formed:
  assumes V: "session_env V ks tg hmac" and s: "reachable V s"
  shows "session_ok V s \<and> length (se_commitment_arr s) = 32 \<and> se_state s \<noteq> ST_UNWRAP_KEY \<and> (se_state s = ST_ERROR \<longrightarrow> se_error s \<noteq> None) \<and>
    (se_state s \<in> {ST_GEN_KEY, ST_WRITE_HEADER, ST_ENCRYPT_BODY, ST_WRITE_TRAILER} \<longrightarrow> se_mode s = AWS_CRYPTOSDK_ENCRYPT) \<and>
    (se_state s \<in> {ST_READ_HEADER, ST_DECRYPT_BODY, ST_CHECK_TRAILER} \<longrightarrow> aws_cryptosdk_priv_is_decrypt_mode (se_mode s)) \<and>
    (se_state s \<in> {ST_ENCRYPT_BODY, ST_DECRYPT_BODY} \<longrightarrow> se_seqno s \<noteq> 0 \<and> se_frame_size s \<le> UINT32_MAX \<and>
       (\<exists>i p. aws_cryptosdk_alg_props i = Some p \<and> se_alg_props s = Some p))"
proof -
  note ok = session_env.reachable_ok [OF V s]
  then show ?thesis
  proof (cases "se_state s")
    case ST_DECRYPT_BODY
    then show ?thesis using ok by (auto simp: session_ok_def hdr_wf_def split: option.splits)
  qed (auto simp: session_ok_def suite_ready_def)
qed

theorem session_well_formed_witness: "session_ok env_ref (ref_new AWS_CRYPTOSDK_ENCRYPT)"
proof -
  have "aws_cryptosdk_priv_is_valid_mode AWS_CRYPTOSDK_ENCRYPT" by (simp add: aws_cryptosdk_priv_is_valid_mode_def)
  from session_well_formed [OF ref_session.session_env_axioms ref_new_simps(1) [OF this]] show ?thesis by blast
qed

end
