(* ===== verification/Spec2Isabelle.thy ===== *)
theory Spec2Isabelle
  imports MultiKeyring Signature SessionCorrect
begin

text \<open>
  Verification of the AWS Encryption SDK for C: a model of the library that encrypts and decrypts messages, and the theorems that make
  it correct.

  \<^bold>\<open>The program.\<close> A caller creates a \<^emph>\<open>session\<close> (\<^verbatim>\<open>source/session.c\<close>) on a \<^emph>\<open>crypto materials manager\<close> (CMM) and hands it a message in one or more
  calls. To encrypt, the session (\<^verbatim>\<open>session_encrypt.c\<close>) gets materials from the manager, derives the content key (\<^verbatim>\<open>cipher.c\<close>, \<^verbatim>\<open>hkdf.c\<close>), writes and
  authenticates the message header (\<^verbatim>\<open>header.c\<close>, \<^verbatim>\<open>enc_ctx.c\<close>, \<^verbatim>\<open>edk.c\<close>), encrypts the plaintext in frames (\<^verbatim>\<open>framefmt.c\<close>) and ends with a trailing signature
  (\<^verbatim>\<open>cipher_openssl.c\<close>). To decrypt (\<^verbatim>\<open>session_decrypt.c\<close>) it goes the way back. The default manager (\<^verbatim>\<open>default_cmm.c\<close>) has a \<^emph>\<open>keyring\<close> wrap the data key:
  the raw AES keyring (\<^verbatim>\<open>raw_aes_keyring.c\<close>) or a multi-keyring (\<^verbatim>\<open>multi_keyring.c\<close>) over other keyrings; the dispatch through the virtual tables
  and its checks are in \<^verbatim>\<open>materials.c\<close>, the record of what keyrings did in \<^verbatim>\<open>keyring_trace.c\<close>.

  \<^bold>\<open>Libraries as parameters.\<close> aws-c-common, OpenSSL and the source of randomness are not part of the repository. Every definition that calls
  them takes a record of their functions (\<open>aws_lib\<close>, \<open>openssl\<close>, \<open>siglib\<close>, \<open>rand_source\<close>; \<open>env\<close> bundles them), and theorems assume their documented
  behaviour: the locales \<open>aws_c_common\<close> (cursors, buffers, hash tables, lists) and \<open>aws_c_common_mem\<close> (allocations succeed), and the predicates \<open>gcm_spec\<close>
  (AES-GCM is a keystream and a tag function), \<open>hkdf_spec\<close>, \<open>ec_spec\<close>, \<open>b64_spec\<close>, \<open>rand_spec\<close> and, where a theorem needs calls to succeed, \<open>gcm_ok\<close>, \<open>ec_ok\<close>,
  \<open>rand_ok\<close>. Concrete instances (\<open>aws_ref\<close>, \<open>hkdf_ref\<close>, \<open>siglib_ref\<close>, \<open>rand_ref\<close>, \<open>env_ref\<close>) satisfy all of them together; the locales are interpreted
  on them and the witnesses use them. Random draws are numbered by one counter that the code threads through its calls.

  \<^bold>\<open>Conventions.\<close> A function that returns a status has the type \<open>status\<close> (\<^const>\<open>None\<close> for success, else the raised error) next to its outputs;
  \<open>'a result\<close> is an error or a value; \<open>'a run\<close> is an option whose \<^const>\<open>None\<close> stands for not returning, which covers \<^verbatim>\<open>abort()\<close> and loops that do not
  end (\<open>process_loop\<close>, \<open>encrypt_loop\<close>, \<open>decrypt_loop\<close>, \<open>sign_loop\<close> are partial functions; there is no fuel). Machine integers are words where they can wrap and natural numbers
  where the code keeps them small. Buffers are records with their memory, length and capacity, so that what is left in the memory of
  an output after an error can be stated.

  \<^bold>\<open>Theories.\<close>
  \<^item> \<open>Prelude\<close>, \<open>AwsCommon\<close>: big-endian numbers, errors and the sum type of results; cursors, buffers and the aws-c-common parameter.
  \<^item> \<open>AlgProps\<close>: the algorithm suites of \<^verbatim>\<open>cipher.c\<close>, the constant-time comparison of commitments.
  \<^item> \<open>EncCtx\<close>: encryption contexts; serialization in key order and deserialization are inverse, the size is right, clones are equal.
  \<^item> \<open>ListUtils\<close>, \<open>KeyringTrace\<close>: lists of encrypted data keys and traces; copies are all or nothing, transfers are not.
  \<^item> \<open>Header\<close> (definitions), \<open>HeaderWrite\<close>, \<open>HeaderParse\<close>, \<open>HeaderProps\<close>: writing emits the wire format, parsing inverts it, needs exactly its bytes and
    clears the header when it fails; the computed size is the length.
  \<^item> \<open>FrameFmt\<close> (definitions), \<open>FrameProps\<close>, \<open>FrameWrite\<close>, \<open>FrameInv\<close>: the same for frames, with the limits of the format.
  \<^item> \<open>OpenSSL\<close>, \<open>Hkdf\<close>, \<open>Cipher\<close>, \<open>CipherProps\<close>: HKDF is RFC 5869; key derivation, header authentication, frames and AES-GCM round-trip; plaintext is released
    only under a valid tag; initialization vectors and associated data of frames are unique.
  \<^item> \<open>Signature\<close>: signing retries until the length is right, what is signed verifies, private keys round-trip.
  \<^item> \<open>Materials\<close>: requests and materials, the dispatch to keyrings and managers with the checks it makes, and the contracts as locales. \<open>keyring_contract\<close> is that of a keyring that generates data keys: it
    asks for more than \<^verbatim>\<open>materials.h\<close> does of every keyring, which may also succeed without a data key and without encrypted data keys. \<open>child_contract\<close> is that of a child of a multi-keyring, \<open>cmm_contract\<close>
    that of a manager.
  \<^item> \<open>RawAes\<close>: the raw AES keyring keeps both contracts of keyrings on working libraries, the first one only if its namespace is not empty (\<open>named_aes_env\<close>); with an empty namespace, which the constructor
    accepts, it wraps data keys that it never unwraps (\<open>raw_aes_empty_namespace\<close>). It unwraps what it wrapped, whether it made the data key or was given it, and accepts only authentic keys.
  \<^item> \<open>MultiKeyring\<close>: a call of a multi-keyring in terms of the calls of its parts, for both directions and all failures. It keeps \<open>keyring_contract\<close> if its generator does and its children keep
    \<open>child_contract\<close> (\<open>multi_contract\<close>), and is interpreted on two raw AES keyrings.
  \<^item> \<open>DefaultCmm\<close>: the default manager keeps \<open>cmm_contract\<close> over every keyring with \<open>keyring_contract\<close>; it is interpreted over a raw AES keyring, and below over a multi-keyring.
  \<^item> \<open>Session\<close>, \<open>SessionDecrypt\<close>, \<open>SessionEncrypt\<close>, \<open>SessionProcess\<close>: the definitions of sessions, one per function of the code, and the state machine.
  \<^item> \<open>SessionInv\<close>, \<open>SessionEncInv\<close>, \<open>SessionRun\<close>, \<open>SessionProps\<close>: what each step does and that it keeps the invariant \<open>session_ok\<close>; the processing loop returns; \<open>reachable\<close>
    are the sessions that any sequence of calls can produce.
  \<^item> \<open>SessionSound\<close>, \<open>SessionMsg\<close>, \<open>SessionTrip\<close>, \<open>SessionLive\<close>: the invariants that relate all bytes consumed and produced so far with the message format, for decryption and
    encryption; that sealed messages open; that encryption succeeds.
  \<^item> \<open>SessionRef\<close>, \<open>SessionCorrect\<close>: the interpretation of all contracts on the default manager over a raw AES keyring, and the theorems on sessions: round trip, authenticity, well-formed output,
    error behaviour, termination, progress and the invariant.

  The error code of a failing call is its status; that a call which succeeds may have set or reset the error code of the thread on the way is not modelled. Inputs and outputs are given by their
  bytes: a null pointer as an empty input is not a value of the model (\<^verbatim>\<open>session_encrypt.c\<close> takes it for missing plaintext, so an empty message needs a pointer). Null is modelled for the buffer
  of a data key, which is an option.

  \<^bold>\<open>Bounds.\<close> Lengths that OpenSSL takes as \<^verbatim>\<open>int\<close> are assumed to be at most \<open>INT_MAX\<close> where the code does not check them. The round trip assumes that the header is that short and that
  the number of encrypted data keys and the lengths of their fields fit 16 bits, as the format requires and the code does not enforce. \<open>header_room\<close> and \<open>body_room\<close> bound the output
  that one call of encryption needs.

  \<^bold>\<open>Not modelled.\<close> Reference counting and the release of memory; the wiping of memory that is then released; message strings of errors and version information. The raw RSA keyring
  and the RSA operations of \<^verbatim>\<open>cipher.c\<close>; the caching manager and the local cache; the C++ keyrings for AWS KMS, which are built on the AWS SDK for C++; examples, tests
  and the CBMC harnesses.
\<close>

text \<open>The default manager over the multi-keyring of two raw AES keyrings keeps its contract as well.\<close>

interpretation default_multi: default_cmm_env
  "multi_keyring_vt aws_ref
     \<lparr>mk_generator = Some (raw_aes_keyring_vt env_ref \<lparr>ra_key_namespace = [1], ra_key_name = [2, 3], ra_raw_key = replicate 32 5\<rparr>),
      mk_children = [raw_aes_keyring_vt env_ref \<lparr>ra_key_namespace = [1], ra_key_name = [4], ra_raw_key = replicate 16 6\<rparr>]\<rparr>"
  env_ref DEFAULT_ALG_UNSET ref_b64 ref_dig ref_kp
  by (intro default_cmm_env.intro default_cmm_env_axioms.intro)
    (simp_all add: multi_ref.multi.keyring_contract_axioms ref.aws_c_common_mem_axioms siglib_ref_b64 siglib_ref_ok siglib_ref_spec)

end
